(* ===== verification/Prelude.thy ===== *)
theory Prelude
  imports Main "HOL-Library.Sublist" "HOL-Library.Char_ord" "HOL-Library.List_Lexorder"
begin

text \<open>
  Shared vocabulary of the BitATM development: the C++ exception hierarchy, the
  exception-and-state monad in which every handler is written, the two calculi that carry the
  component proofs (a weakest-precondition transformer and compositional preservation of a
  preorder on states), and generic facts on lists.

  A computation \<open>m\<close> maps a state to a result and a successor state.  An exception
  (\<open>Inl\<close>) keeps every effect that happened before it was thrown, as in C++: only code
  that rolls back explicitly (a database transaction) undoes effects.
\<close>

section \<open>Exceptions\<close>

text \<open>
  The classes of \<^verbatim>\<open>common/AppException.h\<close> and the foreign exceptions the sources let
  through: \<open>Poco::Exception\<close> and the two exceptions of \<open>std::stoi\<close>.  The string
  is the text the code attaches to the exception.
\<close>

datatype exn =
    ProtocolException string
  | DbException string
  | NetworkException string
  | CryptoException string
  | PocoException string
  | InvalidArgument string
  | OutOfRange string

text \<open>\<open>e.what()\<close> (for \<open>Poco::Exception\<close>: \<open>e.message()\<close>, the only use the sources make of it).\<close>

fun what :: "exn \<Rightarrow> string" where
  "what (ProtocolException m) = m"
| "what (DbException m) = m"
| "what (NetworkException m) = m"
| "what (CryptoException m) = m"
| "what (PocoException m) = m"
| "what (InvalidArgument m) = m"
| "what (OutOfRange m) = m"

fun is_Protocol :: "exn \<Rightarrow> bool" where
  "is_Protocol (ProtocolException _) = True"
| "is_Protocol _ = False"

fun is_Network :: "exn \<Rightarrow> bool" where
  "is_Network (NetworkException _) = True"
| "is_Network _ = False"

fun is_Db :: "exn \<Rightarrow> bool" where
  "is_Db (DbException _) = True"
| "is_Db _ = False"

fun is_Poco :: "exn \<Rightarrow> bool" where
  "is_Poco (PocoException _) = True"
| "is_Poco _ = False"

text \<open>The subclasses of \<open>AppException\<close>.\<close>

fun is_App :: "exn \<Rightarrow> bool" where
  "is_App (ProtocolException _) = True"
| "is_App (DbException _) = True"
| "is_App (NetworkException _) = True"
| "is_App (CryptoException _) = True"
| "is_App _ = False"

section \<open>The monad\<close>

type_synonym ('s, 'a) M = "'s \<Rightarrow> (exn + 'a) \<times> 's"

definition retn :: "'a \<Rightarrow> ('s, 'a) M" where
  "retn x s = (Inr x, s)"

definition thr :: "exn \<Rightarrow> ('s, 'a) M" where
  "thr e s = (Inl e, s)"

definition bnd :: "('s, 'a) M \<Rightarrow> ('a \<Rightarrow> ('s, 'b) M) \<Rightarrow> ('s, 'b) M" where
  "bnd m f s = (case m s of (Inl e, s') \<Rightarrow> (Inl e, s') | (Inr x, s') \<Rightarrow> f x s')"

definition gets :: "('s \<Rightarrow> 'a) \<Rightarrow> ('s, 'a) M" where
  "gets f s = (Inr (f s), s)"

definition upd :: "('s \<Rightarrow> 's) \<Rightarrow> ('s, unit) M" where
  "upd f s = (Inr (), f s)"

text \<open>\<open>try { m } catch (E& e) { h e }\<close>, with \<open>P\<close> the class of \<open>E\<close>.\<close>

definition catch_if :: "(exn \<Rightarrow> bool) \<Rightarrow> ('s, 'a) M \<Rightarrow> (exn \<Rightarrow> ('s, 'a) M) \<Rightarrow> ('s, 'a) M" where
  "catch_if P m h s =
     (case m s of (Inl e, s') \<Rightarrow> (if P e then h e s' else (Inl e, s')) | (Inr x, s') \<Rightarrow> (Inr x, s'))"

definition lift_sum :: "exn + 'a \<Rightarrow> ('s, 'a) M" where
  "lift_sum r = (case r of Inl e \<Rightarrow> thr e | Inr x \<Rightarrow> retn x)"

definition when_m :: "bool \<Rightarrow> ('s, unit) M \<Rightarrow> ('s, unit) M" where
  "when_m b m = (if b then m else retn ())"

text \<open>\<open>if (b) throw e;\<close>\<close>

definition throw_if :: "bool \<Rightarrow> exn \<Rightarrow> ('s, unit) M" where
  "throw_if b e = (if b then thr e else retn ())"

text \<open>\<open>for (const auto& x : xs) f(x);\<close>\<close>

primrec for_each :: "('a \<Rightarrow> ('s, unit) M) \<Rightarrow> 'a list \<Rightarrow> ('s, unit) M" where
  "for_each f [] = retn ()"
| "for_each f (x # xs) = bnd (f x) (\<lambda>_. for_each f xs)"

named_theorems monad_defs \<open>the definitions of the monad's combinators\<close>

lemmas [monad_defs] =
  retn_def thr_def bnd_def gets_def upd_def catch_if_def lift_sum_def when_m_def throw_if_def

named_theorems run \<open>running a computation from a given state\<close>

lemma retn_apply [run]: "retn x s = (Inr x, s)"
  by (simp add: retn_def)

lemma thr_apply [run]: "thr e s = (Inl e, s)"
  by (simp add: thr_def)

lemma gets_apply [simp, run]: "gets f s = (Inr (f s), s)"
  by (simp add: gets_def)

lemma upd_apply [simp, run]: "upd f s = (Inr (), f s)"
  by (simp add: upd_def)

lemma bnd_Inr: "m s = (Inr x, s') \<Longrightarrow> bnd m f s = f x s'"
  by (simp add: bnd_def)

lemma bnd_Inl: "m s = (Inl e, s') \<Longrightarrow> bnd m f s = (Inl e, s')"
  by (simp add: bnd_def)

lemma bnd_retn [simp]: "bnd (retn x) f = f x"
  by (simp add: bnd_def retn_def fun_eq_iff)

lemma bnd_thr [simp]: "bnd (thr e) f = thr e"
  by (simp add: bnd_def thr_def fun_eq_iff)

lemma retn_right [simp]: "bnd m retn = m"
  by (auto simp: bnd_def retn_def fun_eq_iff split: prod.splits sum.splits)

lemma bnd_assoc: "bnd (bnd m f) g = bnd m (\<lambda>x. bnd (f x) g)"
  by (auto simp: bnd_def fun_eq_iff split: prod.splits sum.splits)

lemma bnd_InrD:
  "bnd m f s = (Inr y, s') \<Longrightarrow> \<exists>x t. m s = (Inr x, t) \<and> f x t = (Inr y, s')"
  by (auto simp: bnd_def split: prod.splits sum.splits)

lemma throw_if_simps [simp]:
  "throw_if True e = thr e" "throw_if False e = retn ()"
  by (simp_all add: throw_if_def)

lemma when_simps [simp]: "when_m True m = m" "when_m False m = retn ()"
  by (simp_all add: when_m_def)

section \<open>Weakest preconditions\<close>

text \<open>
  \<open>wp m Q E s\<close>: run from \<open>s\<close>, \<open>m\<close> either returns with \<open>Q\<close> or throws
  with \<open>E\<close>.  The equations push it through a program, so \<open>simp add: wp\<close> is the
  verification condition generator.
\<close>

definition wp :: "('s, 'a) M \<Rightarrow> ('a \<Rightarrow> 's \<Rightarrow> bool) \<Rightarrow> (exn \<Rightarrow> 's \<Rightarrow> bool) \<Rightarrow> 's \<Rightarrow> bool" where
  "wp m Q E s = (case m s of (Inl e, s') \<Rightarrow> E e s' | (Inr x, s') \<Rightarrow> Q x s')"

named_theorems wp \<open>equations of the weakest precondition\<close>

lemma wp_retn [wp]: "wp (retn x) Q E s = Q x s"
  by (simp add: wp_def retn_def)

lemma wp_thr [wp]: "wp (thr e) Q E s = E e s"
  by (simp add: wp_def thr_def)

lemma wp_gets [wp]: "wp (gets f) Q E s = Q (f s) s"
  by (simp add: wp_def)

lemma wp_upd [wp]: "wp (upd f) Q E s = Q () (f s)"
  by (simp add: wp_def)

lemma wp_bnd [wp]: "wp (bnd m f) Q E s = wp m (\<lambda>x. wp (f x) Q E) E s"
  by (auto simp: wp_def bnd_def split: prod.splits sum.splits)

lemma wp_bnd_fun: "wp (bnd m f) Q E = wp m (\<lambda>x. wp (f x) Q E) E"
  by (rule ext) (rule wp_bnd)

lemma wp_retn_fun: "wp (retn x) Q E = Q x"
  by (rule ext) (rule wp_retn)

lemma wp_catch_if [wp]:
  "wp (catch_if P m h) Q E s = wp m Q (\<lambda>e t. if P e then wp (h e) Q E t else E e t) s"
  by (auto simp: wp_def catch_if_def split: prod.splits sum.splits)

lemma wp_lift_sum [wp]:
  "wp (lift_sum r) Q E s = (case r of Inl e \<Rightarrow> E e s | Inr x \<Rightarrow> Q x s)"
  by (simp add: lift_sum_def wp_retn wp_thr split: sum.splits)

lemma wp_when [wp]: "wp (when_m b m) Q E s = (if b then wp m Q E s else Q () s)"
  by (simp add: when_m_def wp_retn)

lemma wp_throw_if [wp]: "wp (throw_if b e) Q E s = (if b then E e s else Q () s)"
  by (simp add: throw_if_def wp)

lemma wp_if [wp]: "wp (if b then m else n) Q E s = (if b then wp m Q E s else wp n Q E s)"
  by simp

lemma wpI:
  assumes "\<And>x s'. m s = (Inr x, s') \<Longrightarrow> Q x s'" "\<And>e s'. m s = (Inl e, s') \<Longrightarrow> E e s'"
  shows "wp m Q E s"
  using assms by (auto simp: wp_def split: prod.splits sum.splits)

lemma wp_InrD: "wp m Q E s \<Longrightarrow> m s = (Inr x, s') \<Longrightarrow> Q x s'"
  by (simp add: wp_def)

lemma wp_InlD: "wp m Q E s \<Longrightarrow> m s = (Inl e, s') \<Longrightarrow> E e s'"
  by (simp add: wp_def)

lemma wp_mono:
  assumes "wp m Q E s" "\<And>x t. Q x t \<Longrightarrow> Q' x t" "\<And>e t. E e t \<Longrightarrow> E' e t"
  shows "wp m Q' E' s"
  using assms by (auto simp: wp_def split: prod.splits sum.splits)

lemma wp_conj:
  "wp m Q E s \<Longrightarrow> wp m Q' E' s \<Longrightarrow> wp m (\<lambda>x t. Q x t \<and> Q' x t) (\<lambda>e t. E e t \<and> E' e t) s"
  by (auto simp: wp_def split: prod.splits sum.splits)

text \<open>The loop rule: an invariant indexed by the elements still to come.\<close>

lemma wp_for_each:
  assumes "I xs s"
    and "\<And>x ys t. I (x # ys) t \<Longrightarrow> x \<in> set xs \<Longrightarrow> wp (f x) (\<lambda>_. I ys) E t"
    and "\<And>t. I [] t \<Longrightarrow> Q () t"
  shows "wp (for_each f xs) Q E s"
  using assms
proof (induction xs arbitrary: s)
  case Nil
  then show ?case by (simp add: wp)
next
  case (Cons x xs)
  have "wp (f x) (\<lambda>_. I xs) E s"
    using Cons.prems(1,2) by simp
  moreover have "wp (for_each f xs) Q E t" if "I xs t" for t
    using that Cons.prems(2,3) by (intro Cons.IH) auto
  ultimately show ?case
    by (simp add: wp) (auto elim: wp_mono)
qed

section \<open>Compositional preservation\<close>

text \<open>
  \<open>keeps R m\<close>: every run of \<open>m\<close>, returning or throwing, moves along \<open>R\<close>.
  For a preorder \<open>R\<close> the combinators compose; a state invariant \<open>I\<close> is the preorder
  \<open>I s \<longrightarrow> I s'\<close>, a frame condition \<open>f s' = f s\<close>, growth of a log the prefix order.
\<close>

definition keeps :: "('s \<Rightarrow> 's \<Rightarrow> bool) \<Rightarrow> ('s, 'a) M \<Rightarrow> bool" where
  "keeps R m \<longleftrightarrow> (\<forall>s. R s (snd (m s)))"

abbreviation pres :: "('s \<Rightarrow> bool) \<Rightarrow> ('s, 'a) M \<Rightarrow> bool" where
  "pres I m \<equiv> keeps (\<lambda>s s'. I s \<longrightarrow> I s') m"

abbreviation frame :: "('s \<Rightarrow> 'v) \<Rightarrow> ('s, 'a) M \<Rightarrow> bool" where
  "frame f m \<equiv> keeps (\<lambda>s s'. f s' = f s) m"

lemma keepsI: "(\<And>s. R s (snd (m s))) \<Longrightarrow> keeps R m"
  by (simp add: keeps_def)

lemma keepsD: "keeps R m \<Longrightarrow> m s = (r, s') \<Longrightarrow> R s s'"
  by (force simp: keeps_def dest: spec [of _ s])

lemma keeps_wp: "keeps R m \<longleftrightarrow> (\<forall>s. wp m (\<lambda>_. R s) (\<lambda>_. R s) s)"
proof -
  have "wp m (\<lambda>_. R s) (\<lambda>_. R s) s = R s (snd (m s))" for s
    by (auto simp: wp_def split: prod.splits sum.splits)
  then show ?thesis by (simp add: keeps_def)
qed

lemma keeps_wpD: "keeps R m \<Longrightarrow> wp m (\<lambda>_. R s) (\<lambda>_. R s) s"
  by (simp add: keeps_wp)

lemma pres_wpI: "(\<And>s. I s \<Longrightarrow> wp m (\<lambda>_. I) (\<lambda>_. I) s) \<Longrightarrow> pres I m"
  by (force simp: keeps_def wp_def split: prod.splits sum.splits)

lemma pres_wpD: "pres I m \<Longrightarrow> I s \<Longrightarrow> wp m (\<lambda>_. I) (\<lambda>_. I) s"
  by (drule keeps_wpD [of _ _ s]) (auto elim: wp_mono)

lemma keeps_weaken: "keeps R m \<Longrightarrow> (\<And>s t. R s t \<Longrightarrow> R' s t) \<Longrightarrow> keeps R' m"
  by (simp add: keeps_def)

locale step_preorder =
  fixes R :: "'s \<Rightarrow> 's \<Rightarrow> bool"
  assumes R_refl: "R s s"
    and R_trans: "R s t \<Longrightarrow> R t u \<Longrightarrow> R s u"
begin

lemma k_retn: "keeps R (retn x)"
  by (simp add: keeps_def R_refl run)

lemma k_thr: "keeps R (thr e)"
  by (simp add: keeps_def R_refl run)

lemma k_gets: "keeps R (gets f)"
  by (simp add: keeps_def R_refl)

lemma k_upd: "(\<And>s. R s (f s)) \<Longrightarrow> keeps R (upd f)"
  by (simp add: keeps_def)

lemma k_bnd: "keeps R m \<Longrightarrow> (\<And>x. keeps R (f x)) \<Longrightarrow> keeps R (bnd m f)"
  by (force simp: keeps_wp wp intro: R_trans elim: wp_mono)

lemma k_catch_if: "keeps R m \<Longrightarrow> (\<And>e. keeps R (h e)) \<Longrightarrow> keeps R (catch_if P m h)"
  by (force simp: keeps_wp wp intro: R_trans elim: wp_mono)

lemma k_lift_sum: "keeps R (lift_sum r)"
  by (simp add: lift_sum_def k_retn k_thr split: sum.splits)

lemma k_when: "(b \<Longrightarrow> keeps R m) \<Longrightarrow> keeps R (when_m b m)"
  by (cases b) (simp_all add: k_retn)

lemma k_throw_if: "keeps R (throw_if b e)"
  by (cases b) (simp_all add: k_retn k_thr)

lemma k_if: "(b \<Longrightarrow> keeps R m) \<Longrightarrow> (\<not> b \<Longrightarrow> keeps R n) \<Longrightarrow> keeps R (if b then m else n)"
  by simp

lemma k_option:
  "keeps R m \<Longrightarrow> (\<And>x. keeps R (f x)) \<Longrightarrow> keeps R (case r of None \<Rightarrow> m | Some x \<Rightarrow> f x)"
  by (cases r) simp_all

lemma k_sum:
  "(\<And>x. keeps R (g x)) \<Longrightarrow> (\<And>x. keeps R (f x)) \<Longrightarrow> keeps R (case r of Inl x \<Rightarrow> g x | Inr x \<Rightarrow> f x)"
  by (cases r) simp_all

lemma k_list:
  "keeps R m \<Longrightarrow> (\<And>x xs. keeps R (f x xs)) \<Longrightarrow> keeps R (case r of [] \<Rightarrow> m | x # xs \<Rightarrow> f x xs)"
  by (cases r) simp_all

lemma k_prod:
  "(\<And>x y. keeps R (f x y)) \<Longrightarrow> keeps R (case r of (x, y) \<Rightarrow> f x y)"
  by (cases r) simp_all

lemma k_Let: "keeps R (f x) \<Longrightarrow> keeps R (let y = x in f y)"
  by simp

lemma k_for_each: "(\<And>x. keeps R (f x)) \<Longrightarrow> keeps R (for_each f xs)"
  by (induction xs) (simp_all add: k_retn k_bnd)

lemmas rules = k_retn k_thr k_gets k_bnd k_catch_if k_lift_sum k_when k_throw_if k_if
  k_option k_sum k_list k_prod k_Let k_for_each

end

interpretation inv: step_preorder "\<lambda>s s'. I s \<longrightarrow> I s'" for I
  by unfold_locales auto

interpretation frm: step_preorder "\<lambda>s s'. f s' = f s" for f
  by unfold_locales auto

interpretation grow: step_preorder "\<lambda>s s'. prefix (f s) (f s')" for f
  by unfold_locales (auto intro: prefix_order.trans)

section \<open>Lists as tables\<close>

text \<open>
  The rows of a SQL table are a list.  \<open>update_where\<close> and \<open>delete_where\<close> are the
  two write statements besides \<open>INSERT\<close> (which appends).
\<close>

definition update_where :: "('r \<Rightarrow> bool) \<Rightarrow> ('r \<Rightarrow> 'r) \<Rightarrow> 'r list \<Rightarrow> 'r list" where
  "update_where P f rs = map (\<lambda>r. if P r then f r else r) rs"

definition delete_where :: "('r \<Rightarrow> bool) \<Rightarrow> 'r list \<Rightarrow> 'r list" where
  "delete_where P rs = filter (\<lambda>r. \<not> P r) rs"

lemma update_where_simps [simp]:
  "update_where P f [] = []"
  "update_where P f (r # rs) = (if P r then f r else r) # update_where P f rs"
  by (simp_all add: update_where_def)

lemma length_update_where [simp]: "length (update_where P f rs) = length rs"
  by (simp add: update_where_def)

lemma update_where_append [simp]:
  "update_where P f (xs @ ys) = update_where P f xs @ update_where P f ys"
  by (simp add: update_where_def)

lemma set_update_where: "set (update_where P f rs) = (\<lambda>r. if P r then f r else r) ` set rs"
  by (simp add: update_where_def)

lemma ball_update_where:
  "(\<forall>r \<in> set (update_where P f rs). Q r) \<longleftrightarrow> (\<forall>r \<in> set rs. Q (if P r then f r else r))"
  by (auto simp: update_where_def)

lemma map_update_where: "(\<And>r. g (f r) = g r) \<Longrightarrow> map g (update_where P f rs) = map g rs"
  by (simp add: update_where_def)

lemma image_update_where: "(\<And>r. g (f r) = g r) \<Longrightarrow> g ` set (update_where P f rs) = g ` set rs"
  by (metis list.set_map map_update_where)

lemma update_where_id: "(\<And>r. r \<in> set rs \<Longrightarrow> \<not> P r) \<Longrightarrow> update_where P f rs = rs"
  by (induction rs) auto

lemma set_delete_where [simp]: "set (delete_where P rs) = {r \<in> set rs. \<not> P r}"
  by (simp add: delete_where_def)

lemma distinct_map_delete_where: "distinct (map g rs) \<Longrightarrow> distinct (map g (delete_where P rs))"
  by (simp add: delete_where_def distinct_map_filter)

lemma find_append: "find P (xs @ ys) = (case find P xs of None \<Rightarrow> find P ys | Some x \<Rightarrow> Some x)"
  by (induction xs) auto

lemma find_SomeD: "find P xs = Some x \<Longrightarrow> x \<in> set xs \<and> P x"
  by (induction xs) (auto split: if_splits)

lemma find_None_set: "find P xs = None \<longleftrightarrow> (\<forall>x \<in> set xs. \<not> P x)"
  by (auto simp: find_None_iff)

lemma image_split: "v \<in> g ` A \<Longrightarrow> v \<notin> g ` {x \<in> A. P x} \<Longrightarrow> v \<in> g ` {x \<in> A. \<not> P x}"
  by blast

text \<open>A key that is unique in the table identifies the row a query returns.\<close>

lemma find_unique:
  assumes "distinct (map k rs)" "r \<in> set rs" "k r = v"
  shows "find (\<lambda>x. k x = v) rs = Some r"
  using assms by (induction rs) (auto simp: image_iff)

lemma find_update_where_key:
  assumes "\<And>r. k (f r) = k r"
  shows "find (\<lambda>r. k r = v) (update_where P f rs) =
    map_option (\<lambda>r. if P r then f r else r) (find (\<lambda>r. k r = v) rs)"
  using assms by (induction rs) auto

section \<open>Stable sorting\<close>

lemma last_insort_key: "ys \<noteq> [] \<Longrightarrow> f y \<le> f (last ys) \<Longrightarrow> last (insort_key f y ys) = last ys"
  by (induction ys) auto

text \<open>A newest element appended last is also last after a stable sort.\<close>

lemma last_sort_key_snoc:
  assumes "\<forall>y \<in> set xs. f y \<le> f x"
  shows "last (sort_key f (xs @ [x])) = x"
proof -
  have "foldr (insort_key f) xs [x] \<noteq> [] \<and> last (foldr (insort_key f) xs [x]) = x"
    using assms
  proof (induction xs)
    case (Cons y ys)
    then have "last (insort_key f y (foldr (insort_key f) ys [x])) = x"
      by (subst last_insort_key) auto
    then show ?case using Cons by (auto simp: insort_not_Nil)
  qed simp
  then show ?thesis by (simp add: sort_key_def)
qed

lemma last_filter_last: "xs \<noteq> [] \<Longrightarrow> P (last xs) \<Longrightarrow> filter P xs \<noteq> [] \<and> last (filter P xs) = last xs"
  by (induction xs) (auto split: if_splits)

text \<open>The last element of a sorted list is a greatest one.\<close>

lemma last_sort_key_max: "x \<in> set xs \<Longrightarrow> f x \<le> f (last (filter P (sort_key f xs)))" if "P x"
proof -
  assume x: "x \<in> set xs"
  have s: "sorted (map f (filter P (sort_key f xs)))" by (rule sorted_filter) simp
  have m: "x \<in> set (filter P (sort_key f xs))" using x that by simp
  then obtain ys z where ys: "filter P (sort_key f xs) = ys @ [z]"
    by (metis append_butlast_last_id empty_iff list.set(1))
  show ?thesis using s m unfolding ys by (auto simp: sorted_append)
qed

end
