(* ===== verification/Streams.thy ===== *)
theory Streams
  imports Prelude
begin

text \<open>
  The parts of the C++ standard library the sources use on text: \<open>std::to_string\<close>,
  \<open>std::stoi\<close>, formatted extraction and \<open>std::getline\<close> on an
  \<open>std::istringstream\<close> with its \<open>eofbit\<close> and \<open>failbit\<close>, and the
  hexadecimal coding written out in the handlers.  A \<open>std::string\<close> is a list of bytes;
  \<open>int\<close> is 32 bits wide.
\<close>

section \<open>Characters and decimal numbers\<close>

definition INT_MAX :: int where "INT_MAX = 2147483647"

definition INT_MIN :: int where "INT_MIN = - 2147483648"

definition in_int :: "int \<Rightarrow> bool" where
  "in_int v \<longleftrightarrow> INT_MIN \<le> v \<and> v \<le> INT_MAX"

text \<open>\<open>std::isdigit\<close> and \<open>std::isspace\<close> in the classic locale.\<close>

definition isdigit :: "char \<Rightarrow> bool" where
  "isdigit c \<longleftrightarrow> 48 \<le> (of_char c :: nat) \<and> (of_char c :: nat) \<le> 57"

definition isspace :: "char \<Rightarrow> bool" where
  "isspace c \<longleftrightarrow> (of_char c :: nat) = 32 \<or> 9 \<le> (of_char c :: nat) \<and> (of_char c :: nat) \<le> 13"

definition digit_char :: "nat \<Rightarrow> char" where
  "digit_char d = char_of (48 + d)"

fun nat_str :: "nat \<Rightarrow> string" where
  "nat_str n = (if n < 10 then [digit_char n] else nat_str (n div 10) @ [digit_char (n mod 10)])"

declare nat_str.simps [simp del]

text \<open>\<open>std::to_string(int)\<close> and \<open>os << int\<close>.\<close>

definition int_str :: "int \<Rightarrow> string" where
  "int_str v = (if v < 0 then CHR ''-'' # nat_str (nat (- v)) else nat_str (nat v))"

definition digits_val :: "string \<Rightarrow> nat" where
  "digits_val ds = foldl (\<lambda>a c. 10 * a + (of_char c - 48)) 0 ds"

text \<open>An optional sign: whether it is a minus, and what follows.\<close>

definition take_sign :: "string \<Rightarrow> bool \<times> string" where
  "take_sign b =
     (case b of [] \<Rightarrow> (False, [])
      | c # cs \<Rightarrow> if c = CHR ''-'' then (True, cs) else if c = CHR ''+'' then (False, cs) else (False, b))"

text \<open>A signed run of digits: its value, \<open>None\<close> without digits, and what follows.\<close>

definition scan_num :: "string \<Rightarrow> int option \<times> string" where
  "scan_num s =
     (let (neg, b) = take_sign s; ds = takeWhile isdigit b; n = int (digits_val ds)
      in (if ds = [] then None else Some (if neg then - n else n), dropWhile isdigit b))"

text \<open>\<open>std::stoi(s)\<close>: leading blanks, a sign, the longest run of digits; the rest is ignored.\<close>

definition stoi :: "string \<Rightarrow> exn + int" where
  "stoi s =
     (case fst (scan_num (dropWhile isspace s)) of
        None \<Rightarrow> Inl (InvalidArgument ''stoi'')
      | Some v \<Rightarrow> if in_int v then Inr v else Inl (OutOfRange ''stoi''))"

lemma of_char_digit [simp]: "d < 10 \<Longrightarrow> (of_char (digit_char d) :: nat) = 48 + d"
  by (simp add: digit_char_def)

lemma isdigit_digit_char [simp]: "d < 10 \<Longrightarrow> isdigit (digit_char d)"
  by (simp add: isdigit_def)

lemma nat_str_digits [simp]: "c \<in> set (nat_str n) \<Longrightarrow> isdigit c"
  by (induction n rule: nat_str.induct) (subst (asm) (2) nat_str.simps, auto split: if_splits)

lemma nat_str_nonempty [simp]: "nat_str n \<noteq> []"
  by (subst nat_str.simps) simp

lemma digits_val_snoc: "digits_val (ds @ [c]) = 10 * digits_val ds + (of_char c - 48)"
  by (simp add: digits_val_def)

lemma digits_val_nat_str [simp]: "digits_val (nat_str n) = n"
proof (induction n rule: nat_str.induct)
  case (1 n)
  show ?case
  proof (cases "n < 10")
    case True
    then show ?thesis by (subst nat_str.simps) (simp add: digits_val_def)
  next
    case False
    with "1.IH" show ?thesis by (subst nat_str.simps) (simp add: digits_val_snoc)
  qed
qed

lemma isdigit_not_special:
  "isdigit c \<Longrightarrow> \<not> isspace c" "isdigit c \<Longrightarrow> c \<noteq> CHR ''-''" "isdigit c \<Longrightarrow> c \<noteq> CHR ''+''"
  "isdigit c \<Longrightarrow> c \<noteq> CHR ''|''"
  by (auto simp: isdigit_def isspace_def)

lemma take_sign_digit: "b \<noteq> [] \<Longrightarrow> isdigit (hd b) \<Longrightarrow> take_sign b = (False, b)"
  by (cases b) (auto simp: take_sign_def dest: isdigit_not_special)

lemma nat_str_hd [simp]: "isdigit (hd (nat_str n))"
  by (rule nat_str_digits [OF hd_in_set]) simp

text \<open>What a decimal printout looks like to a reader: no blanks in front, the sign, the digits.\<close>

lemma take_sign_int_str:
  "take_sign (int_str v @ rest) = (v < 0, nat_str (nat \<bar>v\<bar>) @ rest)"
  by (cases "v < 0") (simp_all add: int_str_def take_sign_digit, simp add: take_sign_def)

lemma skip_int_str: "dropWhile isspace (int_str v @ rest) = int_str v @ rest"
proof -
  have "\<not> isspace (hd (int_str v))"
    by (simp add: int_str_def isdigit_not_special) (simp add: isspace_def)
  then show ?thesis by (cases "int_str v") (auto simp: int_str_def split: if_splits)
qed

lemma no_digit_run:
  "rest = [] \<or> \<not> isdigit (hd rest) \<Longrightarrow> takeWhile isdigit rest = [] \<and> dropWhile isdigit rest = rest"
  by (cases rest) auto

lemma scan_num_int_str:
  "rest = [] \<or> \<not> isdigit (hd rest) \<Longrightarrow> scan_num (int_str v @ rest) = (Some v, rest)"
  by (simp add: scan_num_def take_sign_int_str no_digit_run Let_def)

lemma stoi_int_str [simp]: "in_int v \<Longrightarrow> stoi (int_str v) = Inr v"
  using scan_num_int_str [of "[]" v] skip_int_str [of v "[]"] by (simp add: stoi_def)

lemma int_str_inject: "int_str v = int_str w \<longleftrightarrow> v = w"
proof
  assume eq: "int_str v = int_str w"
  have "take_sign (int_str v) = take_sign (int_str w)"
    by (simp add: eq)
  then have "(v < 0, nat_str (nat \<bar>v\<bar>)) = (w < 0, nat_str (nat \<bar>w\<bar>))"
    using take_sign_int_str [of v "[]"] take_sign_int_str [of w "[]"] by simp
  then have "(v < 0) = (w < 0)" "nat \<bar>v\<bar> = nat \<bar>w\<bar>"
    using digits_val_nat_str by (simp, metis Pair_inject digits_val_nat_str)
  then show "v = w" by linarith
qed simp

lemma int_str_no_bar: "CHR ''|'' \<notin> set (int_str v)"
  by (auto simp: int_str_def dest!: nat_str_digits isdigit_not_special(4))

lemma int_str_nonempty [simp]: "int_str v \<noteq> []"
  by (simp add: int_str_def)

section \<open>\<open>std::istringstream\<close>\<close>

record istream =
  ibuf :: string
  ieof :: bool
  ifail :: bool

definition istream_of :: "string \<Rightarrow> istream" where
  "istream_of s = \<lparr>ibuf = s, ieof = False, ifail = False\<rparr>"

definition igood :: "istream \<Rightarrow> bool" where
  "igood is \<longleftrightarrow> \<not> ieof is \<and> \<not> ifail is"

definition iclear :: "istream \<Rightarrow> istream" where
  "iclear is = is\<lparr>ieof := False, ifail := False\<rparr>"

text \<open>The sentry of a formatted extraction: skip blanks, fail at the end of the input.\<close>

definition skipws_sentry :: "istream \<Rightarrow> istream" where
  "skipws_sentry is =
     (if igood is
      then let b = dropWhile isspace (ibuf is)
           in if b = [] then is\<lparr>ibuf := [], ieof := True, ifail := True\<rparr> else is\<lparr>ibuf := b\<rparr>
      else is\<lparr>ifail := True\<rparr>)"

definition clamp_int :: "int \<Rightarrow> int" where
  "clamp_int v = (if v < INT_MIN then INT_MIN else if INT_MAX < v then INT_MAX else v)"

text \<open>
  \<open>is >> v\<close> for an \<open>int\<close> whose value before is \<open>cur\<close>: unchanged when the
  sentry fails, 0 when there are no digits, the nearest bound (and \<open>failbit\<close>) on overflow.
\<close>

definition extract_int :: "int \<Rightarrow> istream \<Rightarrow> int \<times> istream" where
  "extract_int cur is0 =
     (let is = skipws_sentry is0 in
      if ifail is then (cur, is)
      else let (r, rest) = scan_num (ibuf is)
           in (case r of None \<Rightarrow> 0 | Some v \<Rightarrow> clamp_int v,
               is\<lparr>ibuf := rest, ieof := (rest = []),
                  ifail := (case r of None \<Rightarrow> True | Some v \<Rightarrow> \<not> in_int v)\<rparr>))"

text \<open>\<open>is >> c\<close> for a \<open>char\<close>: any one non-blank byte.\<close>

definition extract_char :: "istream \<Rightarrow> istream" where
  "extract_char is0 =
     (let is = skipws_sentry is0 in if ifail is then is else is\<lparr>ibuf := tl (ibuf is)\<rparr>)"

text \<open>
  \<open>std::getline(is, str, d)\<close>, with \<open>cur\<close> the old value of \<open>str\<close>: a stream
  that is not good leaves it alone, an empty remainder clears it and fails.
\<close>

definition getline :: "char \<Rightarrow> string \<Rightarrow> istream \<Rightarrow> string \<times> istream" where
  "getline d cur is =
     (if \<not> igood is then (cur, is\<lparr>ifail := True\<rparr>)
      else if d \<in> set (ibuf is)
      then (takeWhile (\<lambda>c. c \<noteq> d) (ibuf is), is\<lparr>ibuf := tl (dropWhile (\<lambda>c. c \<noteq> d) (ibuf is))\<rparr>)
      else (ibuf is, is\<lparr>ibuf := [], ieof := True, ifail := (ibuf is = [])\<rparr>))"

text \<open>\<open>while (std::getline(is, x, d)) xs.push_back(x);\<close>\<close>

function getline_loop :: "char \<Rightarrow> istream \<Rightarrow> string list" where
  "getline_loop d is =
     (let (l, is') = getline d [] is in if ifail is' then [] else l # getline_loop d is')"
  by pat_completeness auto

lemma dropWhile_neq_shrinks:
  "d \<in> set b \<Longrightarrow> length (tl (dropWhile (\<lambda>c. c \<noteq> d) b)) < length b"
  by (induction b) (auto simp: le_imp_less_Suc length_dropWhile_le less_Suc_eq_le)

termination getline_loop
proof (relation "measure (\<lambda>(d, is). 2 * length (ibuf is) + (if ieof is then 0 else 1))", goal_cases)
  case (2 d "is" l is')
  then show ?case
    using dropWhile_neq_shrinks [of d "ibuf is"]
    by (auto simp: getline_def igood_def split: if_splits)
qed simp

declare getline_loop.simps [simp del]

lemma until_delim:
  assumes "d \<notin> set f"
  shows "takeWhile (\<lambda>c. c \<noteq> d) (f @ d # rest) = f"
    and "dropWhile (\<lambda>c. c \<noteq> d) (f @ d # rest) = d # rest"
  using assms by (induction f) auto

lemma istream_of_simps [simp]:
  "ibuf (istream_of s) = s" "\<not> ieof (istream_of s)" "\<not> ifail (istream_of s)" "igood (istream_of s)"
  by (simp_all add: istream_of_def igood_def)

text \<open>Reading one field up to its delimiter, as every record format of the sources does.\<close>

lemma getline_field [simp]:
  "d \<notin> set f \<Longrightarrow>
    getline d cur \<lparr>ibuf = f @ d # rest, ieof = False, ifail = False\<rparr>
      = (f, \<lparr>ibuf = rest, ieof = False, ifail = False\<rparr>)"
  by (simp add: getline_def igood_def until_delim)

lemma getline_last [simp]:
  "d \<notin> set f \<Longrightarrow>
    getline d cur \<lparr>ibuf = f, ieof = False, ifail = False\<rparr>
      = (f, \<lparr>ibuf = [], ieof = True, ifail = (f = [])\<rparr>)"
  by (simp add: getline_def igood_def)

lemma getline_exhausted [simp]:
  "ieof is \<or> ifail is \<Longrightarrow> getline d cur is = (cur, is\<lparr>ifail := True\<rparr>)"
  by (auto simp: getline_def igood_def)

lemma getline_no_delim:
  "d \<notin> set cur \<Longrightarrow> getline d cur is = (l, is') \<Longrightarrow> d \<notin> set l"
  using set_takeWhileD by (fastforce simp: getline_def split: if_splits)

lemma getline_fst [simp]: "d \<notin> set cur \<Longrightarrow> d \<notin> set (fst (getline d cur is))"
  by (rule getline_no_delim [of d cur "is" _ "snd (getline d cur is)"]) simp_all

lemma extract_int_int_str:
  assumes "in_int v" "rest = [] \<or> \<not> isdigit (hd rest)"
  shows "extract_int cur \<lparr>ibuf = int_str v @ rest, ieof = False, ifail = False\<rparr>
    = (v, \<lparr>ibuf = rest, ieof = (rest = []), ifail = False\<rparr>)"
  using assms(1)
  by (simp add: extract_int_def skipws_sentry_def igood_def skip_int_str
      scan_num_int_str [OF assms(2)] clamp_int_def in_int_def)

lemma extract_char_bar:
  "extract_char \<lparr>ibuf = CHR ''|'' # rest, ieof = False, ifail = False\<rparr>
    = \<lparr>ibuf = rest, ieof = False, ifail = False\<rparr>"
  by (simp add: extract_char_def skipws_sentry_def igood_def isspace_def)

lemma getline_loop_set:
  "l \<in> set (getline_loop d is) \<Longrightarrow> d \<notin> set l"
proof (induction d "is" rule: getline_loop.induct)
  case (1 d "is")
  obtain x is' where x: "getline d [] is = (x, is')" by force
  then have "d \<notin> set x" by (rule getline_no_delim [rotated]) simp
  with 1 x show ?case
    by (subst (asm) (2) getline_loop.simps) (auto split: if_splits)
qed

lemma getline_loop_exhausted [simp]: "ieof is \<or> ifail is \<Longrightarrow> getline_loop d is = []"
  by (subst getline_loop.simps) simp

lemma getline_loop_Nil [simp]: "getline_loop d (istream_of []) = []"
  by (subst getline_loop.simps) (simp add: istream_of_def)

lemma getline_loop_last [simp]:
  "f \<noteq> [] \<Longrightarrow> d \<notin> set f \<Longrightarrow> getline_loop d (istream_of f) = [f]"
  by (subst getline_loop.simps) (simp add: istream_of_def)

lemma getline_loop_field [simp]:
  "d \<notin> set f \<Longrightarrow> getline_loop d (istream_of (f @ d # rest)) = f # getline_loop d (istream_of rest)"
  by (subst getline_loop.simps) (simp add: istream_of_def)

text \<open>A string without the delimiter is at most one line.\<close>

lemma getline_loop_single: "d \<notin> set s \<Longrightarrow> length (getline_loop d (istream_of s)) \<le> 1"
  by (cases "s = []") simp_all

section \<open>Searching a separator\<close>

text \<open>
  \<open>s.find(c)\<close> followed by \<open>substr(0, pos)\<close> and \<open>substr(pos + 1)\<close>:
  \<open>None\<close> for \<open>npos\<close>.
\<close>

definition split_at :: "char \<Rightarrow> string \<Rightarrow> (string \<times> string) option" where
  "split_at c s =
     (if c \<in> set s then Some (takeWhile (\<lambda>x. x \<noteq> c) s, tl (dropWhile (\<lambda>x. x \<noteq> c) s)) else None)"

lemma split_at_append [simp]: "c \<notin> set a \<Longrightarrow> split_at c (a @ c # b) = Some (a, b)"
  by (simp add: split_at_def until_delim)

lemma split_at_None [simp]: "c \<notin> set s \<Longrightarrow> split_at c s = None"
  by (simp add: split_at_def)

lemma split_at_SomeD: "split_at c s = Some (a, b) \<Longrightarrow> s = a @ c # b \<and> c \<notin> set a"
proof -
  assume sp: "split_at c s = Some (a, b)"
  then have c: "c \<in> set s" and ab: "a = takeWhile (\<lambda>x. x \<noteq> c) s" "b = tl (dropWhile (\<lambda>x. x \<noteq> c) s)"
    by (auto simp: split_at_def split: if_splits)
  from c have ne: "dropWhile (\<lambda>x. x \<noteq> c) s \<noteq> []"
    by (auto simp: dropWhile_eq_Nil_conv)
  have "hd (dropWhile (\<lambda>x. x \<noteq> c) s) = c"
    using hd_dropWhile [OF ne] by simp
  with ne ab have "dropWhile (\<lambda>x. x \<noteq> c) s = c # b"
    by (cases "dropWhile (\<lambda>x. x \<noteq> c) s") auto
  then have "s = a @ c # b"
    using ab(1) takeWhile_dropWhile_id [of "\<lambda>x. x \<noteq> c" s] by simp
  moreover have "c \<notin> set a"
    using set_takeWhileD [of c "\<lambda>x. x \<noteq> c" s] ab(1) by auto
  ultimately show ?thesis by simp
qed

section \<open>Hexadecimal\<close>

definition hex_char :: "nat \<Rightarrow> char" where
  "hex_char d = (if d < 10 then char_of (48 + d) else char_of (87 + d))"

text \<open>\<open>toHex\<close>: two lower-case digits a byte, filled with zero.\<close>

definition toHex :: "string \<Rightarrow> string" where
  "toHex bs = concat (map (\<lambda>b. [hex_char (of_char b div 16), hex_char (of_char b mod 16)]) bs)"

definition hex_val :: "char \<Rightarrow> nat option" where
  "hex_val c =
     (let n = of_char c :: nat in
      if 48 \<le> n \<and> n \<le> 57 then Some (n - 48)
      else if 97 \<le> n \<and> n \<le> 102 then Some (n - 87)
      else if 65 \<le> n \<and> n \<le> 70 then Some (n - 55) else None)"

text \<open>\<open>std::stoi(s, nullptr, 16)\<close> on the two-byte strings \<open>fromHex\<close> cuts out.\<close>

definition stoi16 :: "string \<Rightarrow> exn + int" where
  "stoi16 s =
     (let (neg, b) = take_sign (dropWhile isspace s);
          ds = takeWhile (\<lambda>c. hex_val c \<noteq> None) b;
          v = foldl (\<lambda>a c. 16 * a + the (hex_val c)) 0 ds
      in if ds = [] then Inl (InvalidArgument ''stoi'') else Inr (if neg then - int v else int v))"

text \<open>\<open>fromHex\<close>: an odd last digit is dropped; the value is cast to \<open>unsigned char\<close>.\<close>

fun fromHex :: "string \<Rightarrow> exn + string" where
  "fromHex (a # b # rest) =
     (case stoi16 [a, b] of
        Inl e \<Rightarrow> Inl e
      | Inr v \<Rightarrow> (case fromHex rest of Inl e \<Rightarrow> Inl e | Inr bs \<Rightarrow> Inr (char_of (nat (v mod 256)) # bs)))"
| "fromHex _ = Inr []"

lemma of_char_hex_char:
  "d < 16 \<Longrightarrow> (of_char (hex_char d) :: nat) = (if d < 10 then 48 + d else 87 + d)"
  by (simp add: hex_char_def)

lemma of_char_neqI: "(of_char c :: nat) \<noteq> of_char d \<Longrightarrow> c \<noteq> d"
  by auto

lemma hex_val_hex_char: "d < 16 \<Longrightarrow> hex_val (hex_char d) = Some d"
  by (simp add: hex_val_def of_char_hex_char Let_def)

lemma hex_char_not_space: "d < 16 \<Longrightarrow> \<not> isspace (hex_char d)"
  by (auto simp: isspace_def of_char_hex_char)

lemma hex_char_plain:
  "d < 16 \<Longrightarrow> hex_char d \<noteq> CHR ''-'' \<and> hex_char d \<noteq> CHR ''+''
     \<and> hex_char d \<noteq> CHR '':'' \<and> hex_char d \<noteq> CHR ''|''"
  by (intro conjI; rule of_char_neqI; simp add: of_char_hex_char)

lemma stoi16_pair: "x < 16 \<Longrightarrow> y < 16 \<Longrightarrow> stoi16 [hex_char x, hex_char y] = Inr (int (16 * x + y))"
  using hex_char_plain [of x] hex_char_plain [of y]
  by (simp add: stoi16_def take_sign_def hex_val_hex_char hex_char_not_space)

lemma fromHex_toHex: "fromHex (toHex bs) = Inr bs"
proof (induction bs)
  case Nil
  then show ?case by (simp add: toHex_def)
next
  case (Cons b bs)
  have lt: "(of_char b :: nat) < 256" by simp
  have "fromHex (toHex (b # bs)) =
      (case stoi16 [hex_char (of_char b div 16), hex_char (of_char b mod 16)] of
        Inl e \<Rightarrow> Inl e
      | Inr v \<Rightarrow> (case fromHex (toHex bs) of Inl e \<Rightarrow> Inl e | Inr cs \<Rightarrow> Inr (char_of (nat (v mod 256)) # cs)))"
    by (simp add: toHex_def split: sum.splits)
  moreover have "fromHex (toHex bs) = Inr bs" by (rule Cons.IH)
  moreover have "stoi16 [hex_char (of_char b div 16), hex_char (of_char b mod 16)] = Inr (int (of_char b))"
    using stoi16_pair [of "of_char b div 16" "of_char b mod 16"] lt
    by (simp add: less_mult_imp_div_less)
  moreover have "nat (int (of_char b) mod 256) = of_char b"
    using lt by (simp add: nat_mod_as_int)
  ultimately show ?case by simp
qed

lemma toHex_set: "c \<in> set (toHex bs) \<Longrightarrow> \<exists>d < 16. c = hex_char d"
proof -
  assume "c \<in> set (toHex bs)"
  then obtain b where "b \<in> set bs" "c = hex_char (of_char b div 16) \<or> c = hex_char (of_char b mod 16)"
    by (auto simp: toHex_def)
  moreover have "(of_char b :: nat) div 16 < 16" "(of_char b :: nat) mod 16 < 16"
    by (simp_all add: less_mult_imp_div_less)
  ultimately show ?thesis by blast
qed

lemma toHex_no_sep: "CHR '':'' \<notin> set (toHex bs) \<and> CHR ''|'' \<notin> set (toHex bs)"
  by (auto dest!: toHex_set dest: hex_char_plain)

lemma length_toHex [simp]: "length (toHex bs) = 2 * length bs"
  by (induction bs) (auto simp: toHex_def)

end
