(* ===== verification/Protocol.thy ===== *)
theory Protocol
  imports Streams
begin

text \<open>
  The wire protocol shared by the server and the client: \<^verbatim>\<open>common/protocol.h\<close> (the packet
  types, the packet, its stream extraction) and \<^verbatim>\<open>backend/src/ProtocolParser.cpp\<close>
  (serialisation and deserialisation of one frame).
\<close>

section \<open>Packets\<close>

datatype PacketType =
    LOGIN
  | REGISTER
  | MESSAGE
  | KEY_EXCHANGE
  | ACK
  | ERR
  | SYNC_HISTORY
  | CREATE_GROUP
  | READ_RECEIPT
  | GROUP_MESSAGE
  | GROUP_KEY_EXCHANGE
  | GROUP_INVITE
  | GROUP_LEAVE
  | GROUP_INFO
  | DELETE_GROUP
  | DELETE_CONVERSATION

definition PROTOCOL_VERSION :: int where "PROTOCOL_VERSION = 1"

definition MAX_PACKET_SIZE :: nat where "MAX_PACKET_SIZE = 65536"

text \<open>The enumerators in declaration order, and \<open>static_cast<int>(type)\<close>.\<close>

definition packet_types :: "PacketType list" where
  "packet_types =
     [LOGIN, REGISTER, MESSAGE, KEY_EXCHANGE, ACK, ERR, SYNC_HISTORY, CREATE_GROUP, READ_RECEIPT,
      GROUP_MESSAGE, GROUP_KEY_EXCHANGE, GROUP_INVITE, GROUP_LEAVE, GROUP_INFO, DELETE_GROUP,
      DELETE_CONVERSATION]"

fun type_code :: "PacketType \<Rightarrow> int" where
  "type_code LOGIN = 0"
| "type_code REGISTER = 1"
| "type_code MESSAGE = 2"
| "type_code KEY_EXCHANGE = 3"
| "type_code ACK = 4"
| "type_code ERR = 5"
| "type_code SYNC_HISTORY = 6"
| "type_code CREATE_GROUP = 7"
| "type_code READ_RECEIPT = 8"
| "type_code GROUP_MESSAGE = 9"
| "type_code GROUP_KEY_EXCHANGE = 10"
| "type_code GROUP_INVITE = 11"
| "type_code GROUP_LEAVE = 12"
| "type_code GROUP_INFO = 13"
| "type_code DELETE_GROUP = 14"
| "type_code DELETE_CONVERSATION = 15"

text \<open>\<open>static_cast<PacketType>(t)\<close> behind its range check.\<close>

definition type_of_code :: "int \<Rightarrow> PacketType option" where
  "type_of_code t = (if t < 0 \<or> type_code DELETE_CONVERSATION < t then None else Some (packet_types ! nat t))"

record Packet =
  ptype :: PacketType
  pversion :: int
  pfrom :: string
  pto :: string
  pbody :: string
  pkey :: string
  ptimestamp :: string
  perrorMsg :: string

text \<open>A default-constructed packet whose type has been assigned.\<close>

definition new_packet :: "PacketType \<Rightarrow> Packet" where
  "new_packet t =
     \<lparr>ptype = t, pversion = PROTOCOL_VERSION, pfrom = [], pto = [], pbody = [], pkey = [],
      ptimestamp = [], perrorMsg = []\<rparr>"

text \<open>\<open>operator<<\<close>, for logs.\<close>

definition packet_show :: "Packet \<Rightarrow> string" where
  "packet_show p =
     ''Packet{type='' @ int_str (type_code (ptype p)) @ '', v='' @ int_str (pversion p)
     @ '', from='' @ pfrom p @ '', to='' @ pto p @ '', body='' @ pbody p
     @ '', ts='' @ ptimestamp p
     @ (if perrorMsg p \<noteq> [] then '', err='' @ perrorMsg p else []) @ ''}''"

section \<open>Frames\<close>

definition bar :: string where "bar = ''|''"

definition serialize :: "Packet \<Rightarrow> string" where
  "serialize p =
     int_str (type_code (ptype p)) @ bar @ int_str (pversion p) @ bar @ pfrom p @ bar @ pto p @ bar
     @ pbody p @ bar @ pkey p @ bar @ ptimestamp p @ bar @ perrorMsg p"

text \<open>
  \<open>operator>>\<close>.  \<open>t0\<close> is the indeterminate value of the uninitialised local
  \<open>int t\<close>; it survives only when the input has nothing but blanks.
\<close>

definition read_packet :: "int \<Rightarrow> istream \<Rightarrow> (exn + Packet) \<times> istream" where
  "read_packet t0 is0 =
     (let (t, is1) = extract_int t0 is0;
          is2 = extract_char is1;
          (v, is3) = extract_int PROTOCOL_VERSION is2;
          is4 = extract_char is3;
          (f, is5) = getline CHR ''|'' [] is4;
          (r, is6) = getline CHR ''|'' [] is5;
          (b, is7) = getline CHR ''|'' [] is6;
          (k, is8) = getline CHR ''|'' [] is7;
          (ts, is9) = getline CHR ''|'' [] is8;
          (em, is10) = getline CHR 0x0A [] is9;
          is11 = (if ieof is10 then iclear is10 else is10)
      in (case type_of_code t of
            None \<Rightarrow> Inl (ProtocolException (''unknown packet type: '' @ int_str t))
          | Some ty \<Rightarrow>
              Inr \<lparr>ptype = ty, pversion = v, pfrom = f, pto = r, pbody = b, pkey = k,
                   ptimestamp = ts, perrorMsg = em\<rparr>,
          is11))"

definition deserialize :: "int \<Rightarrow> string \<Rightarrow> exn + Packet" where
  "deserialize t0 data =
     (if data = [] then Inl (ProtocolException ''ProtocolParser: empty input'')
      else case read_packet t0 (istream_of data) of
             (Inl e, _) \<Rightarrow>
               Inl (ProtocolException (''ProtocolParser: malformed packet - '' @ what e))
           | (Inr p, is) \<Rightarrow>
               if ifail is then Inl (ProtocolException ''ProtocolParser: incomplete packet fields'')
               else Inr p)"

section \<open>Packet types as an ordered enumeration\<close>

lemma type_code_inject [simp]: "type_code a = type_code b \<longleftrightarrow> a = b"
  by (cases a; cases b; simp)

lemma type_code_bounds: "0 \<le> type_code t" "type_code t \<le> 15"
  by (cases t; simp)+

lemma type_of_code_code [simp]: "type_of_code (type_code t) = Some t"
  by (cases t; simp add: type_of_code_def packet_types_def)

lemma map_type_code: "map type_code packet_types = map int [0..<16]"
  by (simp add: packet_types_def upt_rec)

lemma length_packet_types: "length packet_types = 16"
  by (simp add: packet_types_def)

lemma code_type_of_code: "type_of_code i = Some t \<Longrightarrow> type_code t = i"
proof -
  assume t: "type_of_code i = Some t"
  then have n: "nat i < 16" and i: "0 \<le> i" and at: "t = packet_types ! nat i"
    by (auto simp: type_of_code_def split: if_splits)
  have "type_code (packet_types ! nat i) = map int [0..<16] ! nat i"
    using n by (simp flip: map_type_code add: length_packet_types)
  also have "\<dots> = i" using n i by simp
  finally show ?thesis using at by simp
qed

instantiation PacketType :: linorder
begin

definition less_eq_PacketType :: "PacketType \<Rightarrow> PacketType \<Rightarrow> bool" where
  "less_eq_PacketType a b \<longleftrightarrow> type_code a \<le> type_code b"

definition less_PacketType :: "PacketType \<Rightarrow> PacketType \<Rightarrow> bool" where
  "less_PacketType a b \<longleftrightarrow> type_code a < type_code b"

instance
  by standard (auto simp: less_eq_PacketType_def less_PacketType_def)

end

lemma packet_types_sorted: "sorted packet_types \<and> set packet_types = UNIV"
proof
  show "sorted packet_types"
    by (simp add: packet_types_def less_eq_PacketType_def)
  have "t \<in> set packet_types" for t
    by (cases t) (simp_all add: packet_types_def)
  then show "set packet_types = UNIV" by blast
qed

section \<open>Well-formed packets\<close>

text \<open>
  What the format can carry: no bar in the five delimited fields, no newline in the last one,
  a version that fits an \<open>int\<close>.
\<close>

definition bar_free :: "Packet \<Rightarrow> bool" where
  "bar_free p \<longleftrightarrow>
     CHR ''|'' \<notin> set (pfrom p) \<and> CHR ''|'' \<notin> set (pto p) \<and> CHR ''|'' \<notin> set (pbody p)
     \<and> CHR ''|'' \<notin> set (pkey p) \<and> CHR ''|'' \<notin> set (ptimestamp p)"

definition wf_packet :: "Packet \<Rightarrow> bool" where
  "wf_packet p \<longleftrightarrow> bar_free p \<and> CHR 0x0A \<notin> set (perrorMsg p) \<and> in_int (pversion p)"

lemma not_isdigit_bar [simp]: "\<not> isdigit CHR ''|''"
  by (simp add: isdigit_def)

lemma in_int_type_code [simp]: "in_int (type_code t)"
  using type_code_bounds [of t] by (simp add: in_int_def INT_MAX_def INT_MIN_def)

lemma serialize_nonempty [simp]: "serialize p \<noteq> []"
  by (simp add: serialize_def)

lemma read_packet_serialize:
  assumes "wf_packet p"
  shows "read_packet t0 (istream_of (serialize p)) = (Inr p, \<lparr>ibuf = [], ieof = False, ifail = False\<rparr>)"
  using assms
  by (simp add: read_packet_def serialize_def bar_def istream_of_def extract_int_int_str
      extract_char_bar wf_packet_def bar_free_def iclear_def)

text \<open>
  C12. Round trip: every well-formed packet is recovered from its frame, field by field,
  whatever the indeterminate local of the extraction holds.
\<close>

theorem deserialize_serialize:
  assumes "wf_packet p"
  shows "deserialize t0 (serialize p) = Inr p"
  using read_packet_serialize [OF assms] by (simp add: deserialize_def)

text \<open>
  Whatever the fields hold, bars and newlines included: the first field of a frame is the packet
  type, so the extraction never rejects a frame of \<open>serialize\<close>.
\<close>

lemma read_packet_frame: "\<exists>q. fst (read_packet t0 (istream_of (serialize p))) = Inr q \<and> ptype q = ptype p"
proof -
  have "extract_int t0 (istream_of (serialize p)) =
      (type_code (ptype p), \<lparr>ibuf = CHR ''|'' # drop (length (int_str (type_code (ptype p)) @ bar)) (serialize p),
        ieof = False, ifail = False\<rparr>)"
    by (simp add: serialize_def istream_of_def extract_int_int_str bar_def)
  then show ?thesis by (simp add: read_packet_def Let_def split: prod.splits)
qed

lemma deserialize_InrD:
  "deserialize t0 data = Inr p \<Longrightarrow> \<exists>is. read_packet t0 (istream_of data) = (Inr p, is) \<and> \<not> ifail is"
  by (auto simp: deserialize_def split: if_splits prod.splits sum.splits)

lemma read_packet_clean:
  assumes r: "read_packet t0 is = (Inr p, is')"
  shows "bar_free p \<and> CHR 0x0A \<notin> set (perrorMsg p)"
proof -
  obtain t is1 where 1: "extract_int t0 is = (t, is1)" by force
  obtain v is3 where 3: "extract_int PROTOCOL_VERSION (extract_char is1) = (v, is3)" by force
  obtain f is5 where 5: "getline CHR ''|'' [] (extract_char is3) = (f, is5)" by force
  obtain w is6 where 6: "getline CHR ''|'' [] is5 = (w, is6)" by force
  obtain b is7 where 7: "getline CHR ''|'' [] is6 = (b, is7)" by force
  obtain k is8 where 8: "getline CHR ''|'' [] is7 = (k, is8)" by force
  obtain ts is9 where 9: "getline CHR ''|'' [] is8 = (ts, is9)" by force
  obtain em is10 where 10: "getline CHR 0x0A [] is9 = (em, is10)" by force
  have "p = \<lparr>ptype = ptype p, pversion = v, pfrom = f, pto = w, pbody = b, pkey = k,
      ptimestamp = ts, perrorMsg = em\<rparr>"
    using r by (auto simp: read_packet_def 1 3 5 6 7 8 9 10 split: option.splits)
  moreover have "CHR ''|'' \<notin> set f" "CHR ''|'' \<notin> set w" "CHR ''|'' \<notin> set b"
    "CHR ''|'' \<notin> set k" "CHR ''|'' \<notin> set ts" "CHR 0x0A \<notin> set em"
    by (rule getline_no_delim [OF _ 5] getline_no_delim [OF _ 6] getline_no_delim [OF _ 7]
        getline_no_delim [OF _ 8] getline_no_delim [OF _ 9] getline_no_delim [OF _ 10], simp)+
  ultimately show ?thesis by (metis bar_free_def Packet.select_convs)
qed

text \<open>
  C39. What a receiver can rely on: an accepted frame yields a packet whose delimited fields
  contain no bar and whose last field contains no newline, and a rejected one always a
  \<open>ProtocolException\<close>.
\<close>

theorem deserialize_sound:
  "case deserialize t0 data of
     Inl e \<Rightarrow> is_Protocol e
   | Inr p \<Rightarrow> bar_free p \<and> CHR 0x0A \<notin> set (perrorMsg p)"
proof (cases "deserialize t0 data")
  case (Inl e)
  then show ?thesis
    by (auto simp: deserialize_def split: if_splits prod.splits sum.splits)
next
  case (Inr p)
  then obtain "is" where r: "read_packet t0 (istream_of data) = (Inr p, is)"
    using deserialize_InrD by blast
  then have "bar_free p \<and> CHR 0x0A \<notin> set (perrorMsg p)"
    by (rule read_packet_clean)
  with Inr show ?thesis by simp
qed

text \<open>
  The header promises an exception for a truncated packet; the extraction clears
  \<open>failbit\<close> together with \<open>eofbit\<close>, so a frame that stops after the packet type is
  accepted, with every other field empty.
\<close>

lemma deserialize_truncated:
  "deserialize t0 (int_str (type_code t)) = Inr (new_packet t)"
proof -
  have "extract_int t0 \<lparr>ibuf = int_str (type_code t), ieof = False, ifail = False\<rparr>
    = (type_code t, \<lparr>ibuf = [], ieof = True, ifail = False\<rparr>)"
    using extract_int_int_str [of "type_code t" "[]" t0] by simp
  then show ?thesis
    by (simp add: deserialize_def read_packet_def istream_of_def extract_char_def extract_int_def
        skipws_sentry_def igood_def iclear_def new_packet_def)
qed

text \<open>A frame that starts with a number outside the enumeration is refused.\<close>

lemma deserialize_unknown:
  assumes "in_int v" "type_of_code v = None"
  shows "deserialize t0 (int_str v @ CHR ''|'' # rest)
    = Inl (ProtocolException (''ProtocolParser: malformed packet - unknown packet type: '' @ int_str v))"
  using assms
  by (simp add: deserialize_def read_packet_def istream_of_def extract_int_int_str Let_def
      split: prod.splits)

lemma serialize_inject:
  assumes "wf_packet p" "wf_packet q" "serialize p = serialize q"
  shows "p = q"
proof -
  have "Inr p = deserialize 0 (serialize p)"
    using deserialize_def read_packet_serialize [OF assms(1), of 0] by simp
  also have "\<dots> = deserialize 0 (serialize q)" by (simp add: assms(3))
  also have "\<dots> = Inr q"
    using deserialize_def read_packet_serialize [OF assms(2), of 0] by simp
  finally show ?thesis by simp
qed

text \<open>Witness of C12: a login packet.\<close>

lemma deserialize_serialize_witness:
  "deserialize 7 (serialize ((new_packet LOGIN)\<lparr>pfrom := ''alice'', pbody := ''secret123''\<rparr>))
     = Inr ((new_packet LOGIN)\<lparr>pfrom := ''alice'', pbody := ''secret123''\<rparr>)"
  by (rule deserialize_serialize)
    (simp add: wf_packet_def bar_free_def new_packet_def in_int_def INT_MIN_def INT_MAX_def
      PROTOCOL_VERSION_def)

end
