(* ===== verification/Entities.thy ===== *)
theory Entities
  imports Protocol "HOL-Library.Multiset"
begin

text \<open>
  The persistent domain objects: \<^verbatim>\<open>User\<close>, \<^verbatim>\<open>Session\<close>, \<^verbatim>\<open>Message\<close>, \<^verbatim>\<open>OfflineMessage\<close>,
  \<^verbatim>\<open>GroupMessage\<close> and \<^verbatim>\<open>ConversationHistory\<close> with their text coding, comparison operators
  and the merge of two histories.  The interface \<^verbatim>\<open>IEntity\<close> (\<open>serialize\<close>,
  \<open>deserialize\<close>) is the locale \<open>entity_codec\<close>, interpreted for each class.
\<close>

section \<open>The interface of a persistent entity\<close>

text \<open>
  \<open>overlay old e\<close> is the object that has the coded fields of \<open>e\<close> and keeps the
  fields of \<open>old\<close> that are not coded (a password hash, an encrypted body).
\<close>

locale entity_codec =
  fixes ser :: "'e \<Rightarrow> string"
    and deser :: "'e \<Rightarrow> string \<Rightarrow> exn + 'e"
    and wf :: "'e \<Rightarrow> bool"
    and overlay :: "'e \<Rightarrow> 'e \<Rightarrow> 'e"
  assumes deser_ser: "wf e \<Longrightarrow> deser old (ser e) = Inr (overlay old e)"
    and ser_overlay: "ser (overlay old e) = ser e"
    and overlay_same: "overlay e e = e"
begin

lemma reserialize: "wf e \<Longrightarrow> deser old (ser e) = Inr e' \<Longrightarrow> ser e' = ser e"
  by (simp add: deser_ser) (metis ser_overlay)

lemma refresh: "wf e \<Longrightarrow> deser e (ser e) = Inr e"
  by (simp add: deser_ser overlay_same)

lemma ser_faithful:
  assumes "wf a" "wf b"
  shows "ser a = ser b \<longleftrightarrow> overlay old a = overlay old b"
  using deser_ser [OF assms(1), of old] deser_ser [OF assms(2), of old] ser_overlay [of old]
  by (metis Inr_inject)

end

section \<open>User\<close>

record User =
  us_id :: int
  us_username :: string
  us_passwordHash :: string
  us_publicKey :: string
  us_lastSeen :: string
  us_createdAt :: string

definition User_serialize :: "User \<Rightarrow> string" where
  "User_serialize u =
     int_str (us_id u) @ bar @ us_username u @ bar @ us_publicKey u @ bar @ us_lastSeen u @ bar
     @ us_createdAt u"

definition User_deserialize :: "User \<Rightarrow> string \<Rightarrow> exn + User" where
  "User_deserialize u data =
     (let (tok, s1) = getline CHR ''|'' [] (istream_of data) in
      case stoi tok of Inl e \<Rightarrow> Inl e
      | Inr i \<Rightarrow>
        (let (n, s2) = getline CHR ''|'' (us_username u) s1;
             (k, s3) = getline CHR ''|'' (us_publicKey u) s2;
             (l, s4) = getline CHR ''|'' (us_lastSeen u) s3;
             (c, s5) = getline CHR 0x0A (us_createdAt u) s4
         in Inr (u\<lparr>us_id := i, us_username := n, us_publicKey := k, us_lastSeen := l,
                   us_createdAt := c\<rparr>)))"

text \<open>\<open>std::tolower\<close> in the classic locale.\<close>

definition tolower :: "char \<Rightarrow> char" where
  "tolower c = (if 65 \<le> (of_char c :: nat) \<and> (of_char c :: nat) \<le> 90 then char_of (of_char c + 32 :: nat) else c)"

definition User_eq :: "User \<Rightarrow> User \<Rightarrow> bool" where
  "User_eq a b \<longleftrightarrow> map tolower (us_username a) = map tolower (us_username b)"

definition User_show :: "User \<Rightarrow> string" where
  "User_show u =
     ''User{id='' @ int_str (us_id u) @ '', username='' @ us_username u
     @ '', publicKey='' @ (if us_publicKey u = [] then ''<none>'' else ''<set>'')
     @ '', lastSeen='' @ us_lastSeen u @ ''}''"

text \<open>The last field of a coded object ends at a newline or the end, the others at a bar.\<close>

definition field_ok :: "string \<Rightarrow> bool" where
  "field_ok f \<longleftrightarrow> CHR ''|'' \<notin> set f"

definition last_ok :: "string \<Rightarrow> bool" where
  "last_ok f \<longleftrightarrow> CHR 0x0A \<notin> set f"

definition User_wf :: "User \<Rightarrow> bool" where
  "User_wf u \<longleftrightarrow> in_int (us_id u) \<and> field_ok (us_username u) \<and> field_ok (us_publicKey u)
     \<and> field_ok (us_lastSeen u) \<and> last_ok (us_createdAt u)"

section \<open>Session\<close>

record Session =
  se_id :: int
  se_userId :: int
  se_sessionToken :: string
  se_createdAt :: string
  se_expiresAt :: string
  se_isActive :: bool

definition bool_str :: "bool \<Rightarrow> string" where
  "bool_str b = (if b then ''1'' else ''0'')"

definition Session_serialize :: "Session \<Rightarrow> string" where
  "Session_serialize s =
     int_str (se_id s) @ bar @ int_str (se_userId s) @ bar @ se_sessionToken s @ bar
     @ se_createdAt s @ bar @ se_expiresAt s @ bar @ bool_str (se_isActive s)"

text \<open>
  Two conversions with \<open>std::stoi\<close>: when the second one throws, the identifier has been assigned.  The
  result is the outcome together with the object as the call leaves it.
\<close>

definition Session_deserialize :: "Session \<Rightarrow> string \<Rightarrow> (exn + unit) \<times> Session" where
  "Session_deserialize s data =
     (let (tok, s1) = getline CHR ''|'' [] (istream_of data) in
      case stoi tok of Inl e \<Rightarrow> (Inl e, s)
      | Inr i \<Rightarrow>
        (let (tok2, s2) = getline CHR ''|'' tok s1 in
         case stoi tok2 of Inl e \<Rightarrow> (Inl e, s\<lparr>se_id := i\<rparr>)
         | Inr u \<Rightarrow>
           (let (t, s3) = getline CHR ''|'' (se_sessionToken s) s2;
                (c, s4) = getline CHR ''|'' (se_createdAt s) s3;
                (x, s5) = getline CHR ''|'' (se_expiresAt s) s4;
                (tok3, s6) = getline CHR 0x0A tok2 s5
            in (Inr (), s\<lparr>se_id := i, se_userId := u, se_sessionToken := t, se_createdAt := c,
                      se_expiresAt := x, se_isActive := (tok3 = ''1'')\<rparr>))))"

definition Session_eq :: "Session \<Rightarrow> Session \<Rightarrow> bool" where
  "Session_eq a b \<longleftrightarrow> se_sessionToken a = se_sessionToken b"

definition Session_wf :: "Session \<Rightarrow> bool" where
  "Session_wf s \<longleftrightarrow> in_int (se_id s) \<and> in_int (se_userId s) \<and> field_ok (se_sessionToken s)
     \<and> field_ok (se_createdAt s) \<and> field_ok (se_expiresAt s)"

section \<open>Message\<close>

record Message =
  ms_id :: int
  ms_sender :: string
  ms_recipient :: string
  ms_encryptedBody :: string
  ms_encryptedKey :: string
  ms_senderEncryptedKey :: string
  ms_status :: string
  ms_createdAt :: string

definition Message_serialize :: "Message \<Rightarrow> string" where
  "Message_serialize m =
     int_str (ms_id m) @ bar @ ms_sender m @ bar @ ms_recipient m @ bar @ ms_encryptedKey m @ bar
     @ ms_status m @ bar @ ms_createdAt m"

definition Message_deserialize :: "Message \<Rightarrow> string \<Rightarrow> exn + Message" where
  "Message_deserialize m data =
     (let (tok, s1) = getline CHR ''|'' [] (istream_of data) in
      case stoi tok of Inl e \<Rightarrow> Inl e
      | Inr i \<Rightarrow>
        (let (a, s2) = getline CHR ''|'' (ms_sender m) s1;
             (b, s3) = getline CHR ''|'' (ms_recipient m) s2;
             (k, s4) = getline CHR ''|'' (ms_encryptedKey m) s3;
             (st, s5) = getline CHR ''|'' (ms_status m) s4;
             (c, s6) = getline CHR 0x0A (ms_createdAt m) s5
         in Inr (m\<lparr>ms_id := i, ms_sender := a, ms_recipient := b, ms_encryptedKey := k,
                   ms_status := st, ms_createdAt := c\<rparr>)))"

definition Message_eq :: "Message \<Rightarrow> Message \<Rightarrow> bool" where
  "Message_eq a b \<longleftrightarrow> ms_id a = ms_id b"

definition Message_less :: "Message \<Rightarrow> Message \<Rightarrow> bool" where
  "Message_less a b \<longleftrightarrow> ms_createdAt a < ms_createdAt b"

definition Message_show :: "Message \<Rightarrow> string" where
  "Message_show m =
     ''Message{id='' @ int_str (ms_id m) @ '', from='' @ ms_sender m @ '', to='' @ ms_recipient m
     @ '', status='' @ ms_status m @ '', ts='' @ ms_createdAt m @ ''}''"

definition Message_wf :: "Message \<Rightarrow> bool" where
  "Message_wf m \<longleftrightarrow> in_int (ms_id m) \<and> field_ok (ms_sender m) \<and> field_ok (ms_recipient m)
     \<and> field_ok (ms_encryptedKey m) \<and> field_ok (ms_status m) \<and> last_ok (ms_createdAt m)"

section \<open>OfflineMessage\<close>

record OfflineMessage =
  om_id :: int
  om_messageId :: int
  om_recipient :: string
  om_queuedAt :: string
  om_delivered :: bool
  om_deliveryAttempts :: int

definition OfflineMessage_serialize :: "OfflineMessage \<Rightarrow> string" where
  "OfflineMessage_serialize o1 =
     int_str (om_id o1) @ bar @ int_str (om_messageId o1) @ bar @ om_recipient o1 @ bar
     @ om_queuedAt o1 @ bar @ bool_str (om_delivered o1) @ bar @ int_str (om_deliveryAttempts o1)"

text \<open>Three conversions; each assigns, or throws with everything before it assigned.\<close>

definition OfflineMessage_deserialize :: "OfflineMessage \<Rightarrow> string \<Rightarrow> (exn + unit) \<times> OfflineMessage" where
  "OfflineMessage_deserialize o1 data =
     (let (tok, s1) = getline CHR ''|'' [] (istream_of data) in
      case stoi tok of Inl e \<Rightarrow> (Inl e, o1)
      | Inr i \<Rightarrow>
        (let (tok2, s2) = getline CHR ''|'' tok s1 in
         case stoi tok2 of Inl e \<Rightarrow> (Inl e, o1\<lparr>om_id := i\<rparr>)
         | Inr mid \<Rightarrow>
           (let (r, s3) = getline CHR ''|'' (om_recipient o1) s2;
                (q, s4) = getline CHR ''|'' (om_queuedAt o1) s3;
                (tok3, s5) = getline CHR ''|'' tok2 s4;
                (tok4, s6) = getline CHR 0x0A tok3 s5;
                o2 = o1\<lparr>om_id := i, om_messageId := mid, om_recipient := r, om_queuedAt := q,
                         om_delivered := (tok3 = ''1'')\<rparr>
            in case stoi tok4 of Inl e \<Rightarrow> (Inl e, o2)
               | Inr n \<Rightarrow> (Inr (), o2\<lparr>om_deliveryAttempts := n\<rparr>))))"

definition OfflineMessage_eq :: "OfflineMessage \<Rightarrow> OfflineMessage \<Rightarrow> bool" where
  "OfflineMessage_eq a b \<longleftrightarrow> om_id a = om_id b"

definition OfflineMessage_wf :: "OfflineMessage \<Rightarrow> bool" where
  "OfflineMessage_wf o1 \<longleftrightarrow> in_int (om_id o1) \<and> in_int (om_messageId o1) \<and> field_ok (om_recipient o1)
     \<and> field_ok (om_queuedAt o1) \<and> in_int (om_deliveryAttempts o1)"

section \<open>GroupMessage\<close>

record GroupMessage =
  gm_id :: int
  gm_groupName :: string
  gm_sender :: string
  gm_encryptedBody :: string
  gm_encryptedKeys :: string
  gm_createdAt :: string

definition GroupMessage_serialize :: "GroupMessage \<Rightarrow> string" where
  "GroupMessage_serialize g =
     int_str (gm_id g) @ bar @ gm_groupName g @ bar @ gm_sender g @ bar @ gm_encryptedKeys g @ bar
     @ gm_createdAt g"

definition GroupMessage_deserialize :: "GroupMessage \<Rightarrow> string \<Rightarrow> exn + GroupMessage" where
  "GroupMessage_deserialize g data =
     (let (tok, s1) = getline CHR ''|'' [] (istream_of data) in
      case stoi tok of Inl e \<Rightarrow> Inl e
      | Inr i \<Rightarrow>
        (let (n, s2) = getline CHR ''|'' (gm_groupName g) s1;
             (a, s3) = getline CHR ''|'' (gm_sender g) s2;
             (k, s4) = getline CHR ''|'' (gm_encryptedKeys g) s3;
             (c, s5) = getline CHR 0x0A (gm_createdAt g) s4
         in Inr (g\<lparr>gm_id := i, gm_groupName := n, gm_sender := a, gm_encryptedKeys := k,
                   gm_createdAt := c\<rparr>)))"

definition GroupMessage_eq :: "GroupMessage \<Rightarrow> GroupMessage \<Rightarrow> bool" where
  "GroupMessage_eq a b \<longleftrightarrow> gm_id a = gm_id b"

definition GroupMessage_wf :: "GroupMessage \<Rightarrow> bool" where
  "GroupMessage_wf g \<longleftrightarrow> in_int (gm_id g) \<and> field_ok (gm_groupName g) \<and> field_ok (gm_sender g)
     \<and> field_ok (gm_encryptedKeys g) \<and> last_ok (gm_createdAt g)"

section \<open>ConversationHistory\<close>

record ConversationHistory =
  ch_id :: int
  ch_user1 :: string
  ch_user2 :: string
  ch_messages :: "Message list"

definition history_append :: "ConversationHistory \<Rightarrow> Message \<Rightarrow> ConversationHistory" where
  "history_append h m = h\<lparr>ch_messages := ch_messages h @ [m]\<rparr>"

text \<open>\<open>operator[]\<close>\<close>

definition history_at :: "ConversationHistory \<Rightarrow> nat \<Rightarrow> exn + Message" where
  "history_at h i =
     (if length (ch_messages h) \<le> i then Inl (OutOfRange ''ConversationHistory: index out of range'')
      else Inr (ch_messages h ! i))"

text \<open>The loop of \<open>operator+\<close>: \<open>seen.insert(id).second\<close> decides what is appended.\<close>

fun merge_unseen :: "int list \<Rightarrow> Message list \<Rightarrow> Message list \<Rightarrow> Message list" where
  "merge_unseen seen merged [] = merged"
| "merge_unseen seen merged (m # ms) =
     (if ms_id m \<in> set seen then merge_unseen seen merged ms
      else merge_unseen (ms_id m # seen) (merged @ [m]) ms)"

text \<open>
  \<open>operator+\<close>.  \<open>std::sort\<close> leaves the order of equal timestamps open; the model
  fixes the stable one.
\<close>

definition history_plus :: "ConversationHistory \<Rightarrow> ConversationHistory \<Rightarrow> ConversationHistory" where
  "history_plus a b =
     a\<lparr>ch_messages :=
        sort_key ms_createdAt (merge_unseen (map ms_id (ch_messages a)) (ch_messages a) (ch_messages b))\<rparr>"

definition history_serialize :: "ConversationHistory \<Rightarrow> string" where
  "history_serialize h =
     int_str (ch_id h) @ bar @ ch_user1 h @ bar @ ch_user2 h @ bar
     @ int_str (int (length (ch_messages h)))"

definition history_deserialize :: "ConversationHistory \<Rightarrow> string \<Rightarrow> exn + ConversationHistory" where
  "history_deserialize h data =
     (let (tok, s1) = getline CHR ''|'' [] (istream_of data) in
      case stoi tok of Inl e \<Rightarrow> Inl e
      | Inr i \<Rightarrow>
        (let (a, s2) = getline CHR ''|'' (ch_user1 h) s1;
             (b, s3) = getline CHR ''|'' (ch_user2 h) s2
         in Inr (h\<lparr>ch_id := i, ch_user1 := a, ch_user2 := b\<rparr>)))"

definition history_eq :: "ConversationHistory \<Rightarrow> ConversationHistory \<Rightarrow> bool" where
  "history_eq a b \<longleftrightarrow>
     ch_user1 a = ch_user1 b \<and> ch_user2 a = ch_user2 b
     \<or> ch_user1 a = ch_user2 b \<and> ch_user2 a = ch_user1 b"

section \<open>The codecs satisfy the interface\<close>

named_theorems wf_defs \<open>well-formedness of coded objects\<close>

lemmas [wf_defs] = field_ok_def last_ok_def User_wf_def Session_wf_def Message_wf_def
  OfflineMessage_wf_def GroupMessage_wf_def

lemma getline_int_str [simp]:
  "getline CHR ''|'' cur \<lparr>ibuf = int_str v @ CHR ''|'' # rest, ieof = False, ifail = False\<rparr>
     = (int_str v, \<lparr>ibuf = rest, ieof = False, ifail = False\<rparr>)"
  by (rule getline_field) (rule int_str_no_bar)

lemma int_str_no_newline: "CHR 0x0A \<notin> set (int_str v)"
proof -
  have "\<not> isdigit CHR 0x0A" by (simp add: isdigit_def)
  then show ?thesis by (auto simp: int_str_def dest: nat_str_digits)
qed

lemma bool_str_clean [simp]:
  "CHR ''|'' \<notin> set (bool_str b)" "CHR 0x0A \<notin> set (bool_str b)" "bool_str b = ''1'' \<longleftrightarrow> b" "bool_str b \<noteq> []"
  by (simp_all add: bool_str_def)

interpretation user_codec: entity_codec User_serialize User_deserialize User_wf
  "\<lambda>old u. u\<lparr>us_passwordHash := us_passwordHash old\<rparr>"
  by unfold_locales
    (simp_all add: User_serialize_def User_deserialize_def bar_def istream_of_def wf_defs)

text \<open>The object read when the call returns.\<close>

definition read_back :: "(exn + unit) \<times> 'a \<Rightarrow> exn + 'a" where
  "read_back r = (case fst r of Inl e \<Rightarrow> Inl e | Inr _ \<Rightarrow> Inr (snd r))"

lemma read_back_Inr: "read_back r = Inr x \<longleftrightarrow> r = (Inr (), x)"
  by (cases r) (auto simp: read_back_def split: sum.splits)

interpretation session_codec: entity_codec Session_serialize "\<lambda>s d. read_back (Session_deserialize s d)" Session_wf
  "\<lambda>old s. s"
  by unfold_locales
    (simp_all add: Session_serialize_def Session_deserialize_def read_back_def bar_def istream_of_def wf_defs)

interpretation message_codec: entity_codec Message_serialize Message_deserialize Message_wf
  "\<lambda>old m. m\<lparr>ms_encryptedBody := ms_encryptedBody old, ms_senderEncryptedKey := ms_senderEncryptedKey old\<rparr>"
  by unfold_locales
    (simp_all add: Message_serialize_def Message_deserialize_def bar_def istream_of_def wf_defs)

interpretation offline_codec: entity_codec OfflineMessage_serialize
  "\<lambda>q d. read_back (OfflineMessage_deserialize q d)" OfflineMessage_wf "\<lambda>old m. m"
  by unfold_locales
    (simp_all add: OfflineMessage_serialize_def OfflineMessage_deserialize_def read_back_def Let_def bar_def istream_of_def
      wf_defs int_str_no_newline)

interpretation group_message_codec: entity_codec GroupMessage_serialize GroupMessage_deserialize
  GroupMessage_wf "\<lambda>old g. g\<lparr>gm_encryptedBody := gm_encryptedBody old\<rparr>"
  by unfold_locales
    (simp_all add: GroupMessage_serialize_def GroupMessage_deserialize_def bar_def istream_of_def wf_defs)

text \<open>
  A stored user is read back from its text form: every coded field is recovered, and the
  password hash, which is never coded, stays that of the object it is read into.
\<close>

lemma User_roundtrip:
  assumes "User_wf u"
  shows "User_deserialize old (User_serialize u) = Inr (u\<lparr>us_passwordHash := us_passwordHash old\<rparr>)"
  by (rule user_codec.deser_ser [OF assms])

lemma User_roundtrip_witness:
  "User_deserialize \<lparr>us_id = 0, us_username = [], us_passwordHash = ''h'', us_publicKey = [],
       us_lastSeen = [], us_createdAt = []\<rparr>
     (User_serialize \<lparr>us_id = 3, us_username = ''bob'', us_passwordHash = ''x'', us_publicKey = ''pk'',
        us_lastSeen = ''t1'', us_createdAt = ''t0''\<rparr>)
   = Inr \<lparr>us_id = 3, us_username = ''bob'', us_passwordHash = ''h'', us_publicKey = ''pk'',
        us_lastSeen = ''t1'', us_createdAt = ''t0''\<rparr>"
  by (subst User_roundtrip) (simp_all add: wf_defs in_int_def INT_MIN_def INT_MAX_def)

text \<open>
  Queue entries and sessions are recovered completely, including the two integers and the
  flag that the session codes as its unterminated last field.
\<close>

lemma Session_OfflineMessage_roundtrip:
  assumes "Session_wf s" "OfflineMessage_wf q"
  shows "Session_deserialize s0 (Session_serialize s) = (Inr (), s)
     \<and> OfflineMessage_deserialize q0 (OfflineMessage_serialize q) = (Inr (), q)"
  using session_codec.deser_ser [OF assms(1)] offline_codec.deser_ser [OF assms(2)] by (simp add: read_back_Inr)

lemma Session_OfflineMessage_roundtrip_witness:
  "Session_deserialize \<lparr>se_id = 0, se_userId = 0, se_sessionToken = [], se_createdAt = [],
        se_expiresAt = [], se_isActive = False\<rparr>
      (Session_serialize \<lparr>se_id = 1, se_userId = 2, se_sessionToken = ''ab'', se_createdAt = ''c'',
        se_expiresAt = ''e'', se_isActive = True\<rparr>)
    = (Inr (), \<lparr>se_id = 1, se_userId = 2, se_sessionToken = ''ab'', se_createdAt = ''c'',
        se_expiresAt = ''e'', se_isActive = True\<rparr>)
   \<and> OfflineMessage_deserialize \<lparr>om_id = 0, om_messageId = 0, om_recipient = [], om_queuedAt = [],
        om_delivered = False, om_deliveryAttempts = 0\<rparr>
      (OfflineMessage_serialize \<lparr>om_id = 4, om_messageId = 9, om_recipient = ''bob'', om_queuedAt = ''q'',
        om_delivered = False, om_deliveryAttempts = 2\<rparr>)
    = (Inr (), \<lparr>om_id = 4, om_messageId = 9, om_recipient = ''bob'', om_queuedAt = ''q'',
        om_delivered = False, om_deliveryAttempts = 2\<rparr>)"
  by (rule Session_OfflineMessage_roundtrip) (simp_all add: wf_defs in_int_def INT_MIN_def INT_MAX_def)

section \<open>Merging histories\<close>

text \<open>What the right history contributes: of each new identifier the first message.\<close>

definition fresh_of :: "int list \<Rightarrow> Message list \<Rightarrow> Message list \<Rightarrow> bool" where
  "fresh_of seen ms new \<longleftrightarrow> ms_id ` set new = ms_id ` set ms - set seen \<and> distinct (map ms_id new)
     \<and> (\<forall>m \<in> set new. find (\<lambda>x. ms_id x = ms_id m) ms = Some m)"

lemma fresh_of_Cons:
  "ms_id m \<in> set seen \<Longrightarrow> fresh_of seen ms new \<Longrightarrow> fresh_of seen (m # ms) new"
  "ms_id m \<notin> set seen \<Longrightarrow> fresh_of (ms_id m # seen) ms new \<Longrightarrow> fresh_of seen (m # ms) (m # new)"
proof -
  show "fresh_of seen (m # ms) new" if *: "ms_id m \<in> set seen" "fresh_of seen ms new"
  proof -
    have "ms_id x \<notin> set seen" if "x \<in> set new" for x
      using *(2) imageI [OF that, of ms_id] by (simp add: fresh_of_def)
    then have "ms_id x \<noteq> ms_id m" if "x \<in> set new" for x using *(1) that by metis
    then show ?thesis using * by (auto simp: fresh_of_def)
  qed
  show "fresh_of seen (m # ms) (m # new)" if *: "ms_id m \<notin> set seen" "fresh_of (ms_id m # seen) ms new"
  proof -
    have n: "ms_id m \<notin> ms_id ` set new" using *(2) by (simp add: fresh_of_def)
    then have "ms_id x \<noteq> ms_id m" if "x \<in> set new" for x using that by (metis imageI)
    moreover have "ms_id ` set (m # new) = ms_id ` set (m # ms) - set seen"
      using * by (auto simp: fresh_of_def)
    ultimately show ?thesis using * n by (simp add: fresh_of_def) metis
  qed
qed

lemma merge_unseen_append: "\<exists>new. merge_unseen seen merged ms = merged @ new \<and> fresh_of seen ms new"
proof (induction seen merged ms rule: merge_unseen.induct)
  case (1 seen merged)
  show ?case by (simp add: fresh_of_def)
next
  case (2 seen merged m ms)
  show ?case
  proof (cases "ms_id m \<in> set seen")
    case True
    then show ?thesis using 2(1) fresh_of_Cons(1) by auto
  next
    case False
    then obtain new where new: "merge_unseen (ms_id m # seen) (merged @ [m]) ms = (merged @ [m]) @ new"
      "fresh_of (ms_id m # seen) ms new" using 2(2) by blast
    then have "merge_unseen seen merged (m # ms) = merged @ m # new" using False by simp
    with fresh_of_Cons(2) [OF False new(2)] show ?thesis by blast
  qed
qed

text \<open>
  C40. Merging two histories: the result is in chronological order and consists of every message of the
  left history, as often as it is in there, and, of each identifier the left history lacks, the
  first message of the right one.  Repetitions in the right history are dropped, repetitions in the left
  one stay: the identifiers are unique afterwards exactly if those of the left history were.  The
  participants are those of the left history.
\<close>

theorem history_plus_correct:
  "sorted (map ms_createdAt (ch_messages (history_plus a b)))
   \<and> mset (filter (\<lambda>m. ms_id m \<in> ms_id ` set (ch_messages a)) (ch_messages (history_plus a b))) = mset (ch_messages a)
   \<and> (let new = filter (\<lambda>m. ms_id m \<notin> ms_id ` set (ch_messages a)) (ch_messages (history_plus a b)) in
        distinct (map ms_id new) \<and> ms_id ` set new = ms_id ` set (ch_messages b) - ms_id ` set (ch_messages a)
        \<and> list_all (\<lambda>m. find (\<lambda>x. ms_id x = ms_id m) (ch_messages b) = Some m) new)
   \<and> (distinct (map ms_id (ch_messages (history_plus a b))) \<longleftrightarrow> distinct (map ms_id (ch_messages a)))
   \<and> ch_user1 (history_plus a b) = ch_user1 a \<and> ch_user2 (history_plus a b) = ch_user2 a"
proof -
  obtain new where new: "merge_unseen (map ms_id (ch_messages a)) (ch_messages a) (ch_messages b) = ch_messages a @ new"
    "fresh_of (map ms_id (ch_messages a)) (ch_messages b) new"
    using merge_unseen_append by blast
  then have fresh: "ms_id ` set new = ms_id ` set (ch_messages b) - ms_id ` set (ch_messages a)" "distinct (map ms_id new)"
    "\<forall>m \<in> set new. find (\<lambda>x. ms_id x = ms_id m) (ch_messages b) = Some m"
    by (simp_all add: fresh_of_def)
  let ?r = "sort_key ms_createdAt (ch_messages a @ new)" and ?A = "ms_id ` set (ch_messages a)"
  have apart: "filter (\<lambda>m. ms_id m \<in> ?A) new = []" "filter (\<lambda>m. ms_id m \<notin> ?A) (ch_messages a) = []"
    "filter (\<lambda>m. ms_id m \<in> ?A) (ch_messages a) = ch_messages a" "filter (\<lambda>m. ms_id m \<notin> ?A) new = new"
    using fresh(1) by (auto simp: filter_empty_conv filter_id_conv)
  have "filter (\<lambda>m. ms_id m \<in> ?A) ?r = sort_key ms_createdAt (ch_messages a)"
    "filter (\<lambda>m. ms_id m \<notin> ?A) ?r = sort_key ms_createdAt new"
    by (simp_all add: filter_sort apart)
  moreover have "mset (map ms_id (sort_key ms_createdAt xs)) = mset (map ms_id xs)" for xs :: "Message list" by simp
  then have same: "distinct (map ms_id (sort_key ms_createdAt xs)) = distinct (map ms_id xs)" for xs :: "Message list"
    by (rule mset_eq_imp_distinct_iff)
  moreover have "distinct (map ms_id (ch_messages a @ new)) \<longleftrightarrow> distinct (map ms_id (ch_messages a))"
    using fresh(1,2) by auto
  ultimately show ?thesis
    using fresh by (simp add: history_plus_def new(1) list_all_iff)
qed

definition example_message :: "int \<Rightarrow> string \<Rightarrow> Message" where
  "example_message i ts =
     \<lparr>ms_id = i, ms_sender = ''alice'', ms_recipient = ''bob'', ms_encryptedBody = ''c'', ms_encryptedKey = ''k'',
      ms_senderEncryptedKey = [], ms_status = ''sent'', ms_createdAt = ts\<rparr>"

definition example_history :: "Message list \<Rightarrow> ConversationHistory" where
  "example_history ms = \<lparr>ch_id = 0, ch_user1 = ''alice'', ch_user2 = ''bob'', ch_messages = ms\<rparr>"

lemma history_plus_correct_witness:
  "let a = example_history [example_message 1 ''t3'', example_message 2 ''t1''];
       b = example_history [example_message 2 ''t1'', example_message 5 ''t2'']
   in distinct (map ms_id (ch_messages a)) \<and> distinct (map ms_id (ch_messages (history_plus a b)))"
  using history_plus_correct
    [of "example_history [example_message 1 ''t3'', example_message 2 ''t1'']"
        "example_history [example_message 2 ''t1'', example_message 5 ''t2'']"]
  by (simp add: example_history_def example_message_def)

text \<open>The repetition of a message in the left history survives the merge.\<close>

lemma left_duplicates_stay:
  "map ms_id (ch_messages (history_plus (example_history [example_message 1 ''t1'', example_message 1 ''t1'']) (example_history [])))
     = [1, 1]"
  by (simp add: history_plus_def example_history_def example_message_def)

lemma history_eq_sym: "history_eq a b \<longleftrightarrow> history_eq b a"
  by (auto simp: history_eq_def)

lemma history_at_bounds:
  "(\<exists>m. history_at h i = Inr m \<and> m \<in> set (ch_messages h)) \<longleftrightarrow> i < length (ch_messages h)"
  by (auto simp: history_at_def)

end
