(* ===== verification/World.thy ===== *)
theory World
  imports Entities
begin

text \<open>
  The state every handler works on: the PostgreSQL tables of \<^verbatim>\<open>db/migrations\<close>, the live
  connections and the client map of the server, the frames handed to the network, and the
  parameters that stand for code outside the repository (PostgreSQL's clock and timestamp
  conversions, faults of the database and of the network, OpenSSL's random bytes and Argon2id).
  Every interaction with the outside takes one tick of \<open>clock\<close>; faults are functions of
  the tick, so a statement for all parameters is a statement for every pattern of faults.
\<close>

section \<open>Tables\<close>

record users_row =
  u_id :: int
  u_username :: string
  u_password_hash :: string
  u_public_key :: string
  u_last_seen :: int
  u_created_at :: int

record sessions_row =
  s_id :: int
  s_user_id :: int
  s_session_token :: string
  s_created_at :: int
  s_expires_at :: int
  s_is_active :: bool

record messages_row =
  m_id :: int
  m_sender :: string
  m_recipient :: string
  m_body :: string
  m_encrypted_key :: string
  m_sender_encrypted_key :: string
  m_status :: string
  m_created_at :: int

record offline_row =
  o_id :: int
  o_message_id :: int
  o_recipient :: string
  o_queued_at :: int
  o_delivered :: bool
  o_delivery_attempts :: int

record groups_row =
  g_id :: int
  g_name :: string
  g_creator :: string

record members_row =
  mb_group_id :: int
  mb_username :: string
  mb_role :: string
  mb_joined_at :: int

record keys_row =
  gk_group_id :: int
  gk_username :: string
  gk_encrypted_aes_key :: string

record gmessages_row =
  x_id :: int
  x_group_id :: int
  x_sender :: string
  x_encrypted_body :: string
  x_timestamp :: int

record receipts_row =
  rc_message_id :: int
  rc_username :: string
  rc_delivered_at :: "int option"
  rc_seen_at :: "int option"

record orr_row =
  rr_id :: int
  rr_from_user :: string
  rr_to_user :: string
  rr_message_ts :: string
  rr_group_id :: "int option"
  rr_kind :: string
  rr_queued_at :: int
  rr_delivered :: bool

record pending_row =
  pn_id :: int
  pn_recipient :: string
  pn_packet_type :: int
  pn_from_user :: string
  pn_body :: string
  pn_error_msg :: string
  pn_packet_key :: string
  pn_created_at :: int

text \<open>The tables with a \<open>SERIAL\<close> key, to name their sequences.\<close>

datatype serial_table =
  T_users | T_sessions | T_messages | T_offline_queue | T_groups | T_group_messages
  | T_read_receipts | T_pending

record database =
  users :: "users_row list"
  sessions :: "sessions_row list"
  messages :: "messages_row list"
  offline_queue :: "offline_row list"
  groups :: "groups_row list"
  group_members :: "members_row list"
  group_keys :: "keys_row list"
  group_messages :: "gmessages_row list"
  receipts :: "receipts_row list"
  read_receipts :: "orr_row list"
  pending :: "pending_row list"
  seqs :: "serial_table \<Rightarrow> int"

definition empty_db :: database where
  "empty_db =
     \<lparr>users = [], sessions = [], messages = [], offline_queue = [], groups = [], group_members = [],
      group_keys = [], group_messages = [], receipts = [], read_receipts = [], pending = [],
      seqs = (\<lambda>_. 1)\<rparr>"

section \<open>Code outside the repository\<close>

datatype kdf_fault = KdfUnavailable | KdfNoContext | KdfDeriveFailed

text \<open>
  \<open>db_now t\<close>: \<open>NOW()\<close> at tick \<open>t\<close> in microseconds.
  \<open>db_fault t\<close>: the message of the \<open>Poco::Exception\<close> a statement raises at tick
  \<open>t\<close> before it takes effect.  \<open>net_fault t c\<close>: the same for sending on connection
  \<open>c\<close>.  \<open>rand_bytes t n\<close>: the result of \<open>RAND_bytes\<close>.
  \<open>argon2id pw salt\<close>: the 32 bytes derived with the fixed cost parameters.
  \<open>ts_parse\<close>: the cast \<open>::timestamptz\<close>.  \<open>ts_text\<close>: a timestamp column read
  into a string.  \<open>ts_iso\<close>: the \<open>to_char\<close> of the group queries.
  \<open>varchar_fits n s\<close>: \<open>s\<close> can be stored in a \<open>VARCHAR(n)\<close> column.
  \<open>uninit_int\<close>: what an uninitialised local \<open>int\<close> holds.
\<close>

record external =
  db_now :: "nat \<Rightarrow> int"
  db_fault :: "nat \<Rightarrow> string option"
  net_fault :: "nat \<Rightarrow> nat \<Rightarrow> string option"
  rand_bytes :: "nat \<Rightarrow> nat \<Rightarrow> string option"
  kdf_faults :: "nat \<Rightarrow> kdf_fault option"
  argon2id :: "string \<Rightarrow> string \<Rightarrow> string"
  ts_parse :: "string \<Rightarrow> int option"
  ts_text :: "int \<Rightarrow> string"
  ts_iso :: "int \<Rightarrow> string"
  varchar_fits :: "nat \<Rightarrow> string \<Rightarrow> bool"
  uninit_int :: int

section \<open>The server's state\<close>

text \<open>\<open>ClientSession::State\<close> and the fields of a session object; a connection is its address.\<close>

datatype CSState = Connected | Authenticating | Authenticated | Disconnected

record ClientSession =
  cs_state :: CSState
  cs_username :: string
  cs_sessionToken :: string

type_synonym conn = nat

definition fresh_session :: ClientSession where
  "fresh_session = \<lparr>cs_state = Connected, cs_username = [], cs_sessionToken = []\<rparr>"

text \<open>What goes out on a WebSocket: protocol frames and the replies to pings.\<close>

datatype frame = Text string | Pong string

record world =
  ext :: external
  db :: database
  pool :: bool
  clock :: nat
  clients :: "string \<rightharpoonup> conn list"
  conns :: "conn \<Rightarrow> ClientSession"
  outbox :: "(conn \<times> frame) list"

type_synonym 'a W = "(world, 'a) M"

definition tick :: "world \<Rightarrow> world" where
  "tick s = s\<lparr>clock := Suc (clock s)\<rparr>"

section \<open>Statements\<close>

text \<open>
  A statement reads the parameters, \<open>NOW()\<close> and the tables, and either returns a value or
  the condition name of the constraint it violates.
\<close>

type_synonym 'a stmt = "external \<Rightarrow> int \<Rightarrow> database \<Rightarrow> (string + 'a) \<times> database"

definition sql :: "'a stmt \<Rightarrow> 'a W" where
  "sql st s =
     (case db_fault (ext s) (clock s) of
        Some msg \<Rightarrow> (Inl (PocoException msg), tick s)
      | None \<Rightarrow>
        (case st (ext s) (db_now (ext s) (clock s)) (db s) of
           (Inl msg, d) \<Rightarrow> (Inl (PocoException msg), (tick s)\<lparr>db := d\<rparr>)
         | (Inr x, d) \<Rightarrow> (Inr x, (tick s)\<lparr>db := d\<rparr>)))"

text \<open>\<open>SELECT\<close>, a \<open>SELECT\<close> that casts its parameter, \<open>UPDATE\<close> and \<open>DELETE\<close>.\<close>

definition query :: "(external \<Rightarrow> int \<Rightarrow> database \<Rightarrow> 'a) \<Rightarrow> 'a stmt" where
  "query q e n d = (Inr (q e n d), d)"

definition query_cast :: "(external \<Rightarrow> int \<Rightarrow> database \<Rightarrow> 'a option) \<Rightarrow> 'a stmt" where
  "query_cast q e n d =
     (case q e n d of None \<Rightarrow> Inl ''invalid_datetime_format'' | Some x \<Rightarrow> Inr x, d)"

definition dml :: "(external \<Rightarrow> int \<Rightarrow> database \<Rightarrow> database) \<Rightarrow> unit stmt" where
  "dml f e n d = (Inr (), f e n d)"

text \<open>The condition of the first constraint that fails.\<close>

definition first_violation :: "(bool \<times> string) list \<Rightarrow> string option" where
  "first_violation cs = map_option snd (find fst cs)"

text \<open>
  \<open>INSERT \<dots> RETURNING id\<close> into a table with a serial key: the sequence advances even
  when a constraint rejects the row.
\<close>

definition insert_row ::
  "serial_table \<Rightarrow> (bool \<times> string) list \<Rightarrow> (('r list \<Rightarrow> 'r list) \<Rightarrow> database \<Rightarrow> database)
     \<Rightarrow> (int \<Rightarrow> 'r) \<Rightarrow> database \<Rightarrow> (string + int) \<times> database" where
  "insert_row t checks upd_table mk d =
     (let i = seqs d t; d1 = d\<lparr>seqs := (seqs d)(t := i + 1)\<rparr>
      in case first_violation checks of
           Some msg \<Rightarrow> (Inl msg, d1)
         | None \<Rightarrow> (Inr i, upd_table (\<lambda>rs. rs @ [mk i]) d1))"

definition too_long :: string where "too_long = ''string_data_right_truncation''"
definition not_unique :: string where "not_unique = ''unique_violation''"
definition no_parent :: string where "no_parent = ''foreign_key_violation''"
definition bad_check :: string where "bad_check = ''check_violation''"

section \<open>\<open>DbManager\<close>\<close>

text \<open>
  \<open>DbManager::init\<close>: the fault is that of building the pool; on failure the old pool
  pointer stays.
\<close>

definition DbManager_init :: "unit W" where
  "DbManager_init s =
     (case db_fault (ext s) (clock s) of
        Some msg \<Rightarrow> (Inl (DbException (''DbManager::init failed: '' @ msg)), tick s)
      | None \<Rightarrow> (Inr (), (tick s)\<lparr>pool := True\<rparr>))"

definition DbManager_session :: "unit W" where
  "DbManager_session s =
     (if \<not> pool s then (Inl (DbException ''DbManager: pool not initialised - call init() first''), s)
      else case db_fault (ext s) (clock s) of
             Some msg \<Rightarrow> (Inl (DbException (''DbManager: failed to acquire session: '' @ msg)), tick s)
           | None \<Rightarrow> (Inr (), tick s))"

text \<open>\<open>catch (const Poco::Exception& e) { throw DbException(ctx + ": " + e.message()); }\<close>\<close>

definition wrap_db :: "string \<Rightarrow> 'a W \<Rightarrow> 'a W" where
  "wrap_db ctx m = catch_if is_Poco m (\<lambda>e. thr (DbException (ctx @ '': '' @ what e)))"

text \<open>The body of most repository methods: borrow a session, run one statement.\<close>

definition repo :: "string \<Rightarrow> 'a stmt \<Rightarrow> 'a W" where
  "repo ctx st = wrap_db ctx (bnd DbManager_session (\<lambda>_. sql st))"

text \<open>
  \<open>Poco::Data::Transaction\<close>: begin, body, commit; leaving the scope by an exception rolls
  the tables back.  No statement inside a transaction of the sources draws from a sequence.
\<close>

definition transaction :: "'a W \<Rightarrow> 'a W" where
  "transaction m s =
     (case bnd (sql (dml (\<lambda>e n d. d))) (\<lambda>_. bnd m (\<lambda>x. bnd (sql (dml (\<lambda>e n d. d))) (\<lambda>_. retn x))) s of
        (Inl e, s') \<Rightarrow> (Inl e, s'\<lparr>db := db s\<rparr>)
      | (Inr x, s') \<Rightarrow> (Inr x, s'))"

section \<open>How statements act on the state\<close>

lemma tick_simps [simp]:
  "ext (tick s) = ext s" "db (tick s) = db s" "pool (tick s) = pool s" "clock (tick s) = Suc (clock s)"
  "clients (tick s) = clients s" "conns (tick s) = conns s" "outbox (tick s) = outbox s"
  by (simp_all add: tick_def)

lemma tick_db_update: "tick (s\<lparr>db := d\<rparr>) = (tick s)\<lparr>db := d\<rparr>"
  by (simp add: tick_def)

lemma wp_sql [wp]:
  "wp (sql st) Q E s =
     (case db_fault (ext s) (clock s) of
        Some msg \<Rightarrow> E (PocoException msg) (tick s)
      | None \<Rightarrow>
        (case st (ext s) (db_now (ext s) (clock s)) (db s) of
           (Inl msg, d) \<Rightarrow> E (PocoException msg) ((tick s)\<lparr>db := d\<rparr>)
         | (Inr x, d) \<Rightarrow> Q x ((tick s)\<lparr>db := d\<rparr>)))"
  by (auto simp: wp_def sql_def split: option.splits prod.splits sum.splits)

lemma wp_DbManager_session [wp]:
  "wp DbManager_session Q E s =
     (if \<not> pool s then E (DbException ''DbManager: pool not initialised - call init() first'') s
      else case db_fault (ext s) (clock s) of
             Some msg \<Rightarrow> E (DbException (''DbManager: failed to acquire session: '' @ msg)) (tick s)
           | None \<Rightarrow> Q () (tick s))"
  by (auto simp: wp_def DbManager_session_def split: option.splits)

text \<open>
  The effect of a repository call seen from outside: some ticks pass, and the tables change
  only by the statement; the connections, the client map and the outbox stay.
\<close>

definition only_db :: "world \<Rightarrow> world \<Rightarrow> bool" where
  "only_db s s' \<longleftrightarrow>
     ext s' = ext s \<and> pool s' = pool s \<and> clients s' = clients s \<and> conns s' = conns s \<and> outbox s' = outbox s"

interpretation odb: step_preorder only_db
  by unfold_locales (auto simp: only_db_def)

lemma only_db_tick [simp]: "only_db s (tick s)" "only_db s ((tick s)\<lparr>db := d\<rparr>)"
  by (simp_all add: only_db_def)

lemma sql_only_db: "keeps only_db (sql st)"
  by (simp add: keeps_wp wp split: option.splits prod.splits sum.splits)

lemma session_only_db: "keeps only_db DbManager_session"
  by (simp add: keeps_wp wp odb.R_refl split: option.splits)

lemma wrap_db_keeps: "step_preorder R \<Longrightarrow> keeps R m \<Longrightarrow> keeps R (wrap_db ctx m)"
  by (simp add: wrap_db_def step_preorder.k_catch_if step_preorder.k_thr)

lemma repo_only_db: "keeps only_db (repo ctx st)"
  unfolding repo_def
  by (intro wrap_db_keeps odb.k_bnd session_only_db sql_only_db) unfold_locales

text \<open>A statement keeps an invariant of the tables.\<close>

definition st_keeps :: "(database \<Rightarrow> bool) \<Rightarrow> 'a stmt \<Rightarrow> bool" where
  "st_keeps J st \<longleftrightarrow> (\<forall>e n d. J d \<longrightarrow> J (snd (st e n d)))"

lemma st_keeps_query [simp]: "st_keeps J (query q)" "st_keeps J (query_cast q')"
  by (simp_all add: st_keeps_def query_def query_cast_def)

lemma st_keeps_dml: "(\<And>e n d. J d \<Longrightarrow> J (f e n d)) \<Longrightarrow> st_keeps J (dml f)"
  by (simp add: st_keeps_def dml_def)

lemma st_keepsD: "st_keeps J st \<Longrightarrow> J d \<Longrightarrow> st e n d = (r, d') \<Longrightarrow> J d'"
  by (metis st_keeps_def snd_conv)

lemma sql_pres: "st_keeps J st \<Longrightarrow> pres (\<lambda>s. J (db s)) (sql st)"
  by (auto simp: keeps_wp wp split: option.splits prod.splits sum.splits dest: st_keepsD)

lemma session_pres: "pres (\<lambda>s. J (db s)) DbManager_session"
  by (simp add: keeps_wp wp split: option.splits)

lemma repo_pres: "st_keeps J st \<Longrightarrow> pres (\<lambda>s. J (db s)) (repo ctx st)"
  unfolding repo_def
  by (intro wrap_db_keeps inv.k_bnd session_pres sql_pres) unfold_locales

lemma dml_eq: "dml f e n d = (r, d') \<longleftrightarrow> r = Inr () \<and> d' = f e n d"
  by (auto simp: dml_def)

lemma query_eq: "query q e n d = (r, d') \<longleftrightarrow> r = Inr (q e n d) \<and> d' = d"
  by (auto simp: query_def)

lemma snd_dml [simp]: "snd (dml f e n d) = f e n d"
  by (simp add: dml_def)

lemma transaction_pres:
  assumes "pres (\<lambda>s. J (db s)) m"
  shows "pres (\<lambda>s. J (db s)) (transaction m)"
proof (rule keepsI, rule impI)
  fix s :: world
  assume J: "J (db s)"
  let ?b = "bnd (sql (dml (\<lambda>e n d. d))) (\<lambda>_. bnd m (\<lambda>x. bnd (sql (dml (\<lambda>e n d. d))) (\<lambda>_. retn x)))"
  have "pres (\<lambda>s. J (db s)) ?b"
    by (intro inv.k_bnd assms sql_pres st_keeps_dml inv.k_retn)
  then have "J (db (snd (?b s)))"
    using J by (simp add: keeps_def)
  with J show "J (db (snd (transaction m s)))"
    by (cases "?b s"; cases "fst (?b s)") (auto simp: transaction_def)
qed

lemma wp_transaction [wp]:
  "wp (transaction m) Q E s =
     wp (sql (dml (\<lambda>e n d. d)))
       (\<lambda>_. wp m (\<lambda>x. wp (sql (dml (\<lambda>e n d. d))) (\<lambda>_. Q x) (\<lambda>e t. E e (t\<lparr>db := db s\<rparr>)))
               (\<lambda>e t. E e (t\<lparr>db := db s\<rparr>)))
       (\<lambda>e t. E e (t\<lparr>db := db s\<rparr>)) s"
proof -
  let ?b = "bnd (sql (dml (\<lambda>e n d. d))) (\<lambda>_. bnd m (\<lambda>x. bnd (sql (dml (\<lambda>e n d. d))) (\<lambda>_. retn x)))"
  have "wp (transaction m) Q E s = wp ?b Q (\<lambda>e t. E e (t\<lparr>db := db s\<rparr>)) s"
    by (cases "?b s"; cases "fst (?b s)") (auto simp: transaction_def wp_def)
  then show ?thesis by (simp add: wp_bnd_fun wp_retn_fun)
qed

text \<open>
  A transaction is all or nothing: when its body or its commit throws, the tables are
  exactly those before it.
\<close>

lemma transaction_atomic:
  assumes "transaction m s = (Inl e, s')"
  shows "db s' = db s"
  using assms by (auto simp: transaction_def split: prod.splits sum.splits)

lemma transaction_only_db: "keeps only_db m \<Longrightarrow> keeps only_db (transaction m)"
proof (rule keepsI)
  fix s
  assume m: "keeps only_db m"
  let ?b = "bnd (sql (dml (\<lambda>e n d. d))) (\<lambda>_. bnd m (\<lambda>x. bnd (sql (dml (\<lambda>e n d. d))) (\<lambda>_. retn x)))"
  have "keeps only_db ?b"
    by (intro odb.k_bnd m sql_only_db odb.k_retn)
  then have "only_db s (snd (?b s))" by (simp add: keeps_def)
  then show "only_db s (snd (transaction m s))"
    by (auto simp: transaction_def only_db_def split: prod.splits sum.splits)
qed

text \<open>Running a repository call without faults is running its statement.\<close>

definition quiet :: "world \<Rightarrow> bool" where
  "quiet s \<longleftrightarrow> pool s \<and> db_fault (ext s) = (\<lambda>_. None) \<and> net_fault (ext s) = (\<lambda>_ _. None)"

lemma quiet_simps [simp]: "quiet (tick s) = quiet s" "quiet (s\<lparr>db := d\<rparr>) = quiet s"
  "quiet (s\<lparr>conns := c\<rparr>) = quiet s" "quiet (s\<lparr>outbox := ob\<rparr>) = quiet s" "quiet (s\<lparr>clients := cl\<rparr>) = quiet s"
  by (simp_all add: quiet_def)

lemma wp_repo_quiet:
  "quiet s \<Longrightarrow>
    wp (repo ctx st) Q E s =
      (case st (ext s) (db_now (ext s) (Suc (clock s))) (db s) of
         (Inl msg, d) \<Rightarrow> E (DbException (ctx @ '': '' @ msg)) ((tick (tick s))\<lparr>db := d\<rparr>)
       | (Inr x, d) \<Rightarrow> Q x ((tick (tick s))\<lparr>db := d\<rparr>))"
  by (auto simp: repo_def wrap_db_def wp quiet_def split: prod.splits sum.splits)

text \<open>What a repository call can do in general: fail without effect, or run its statement.\<close>

lemma wp_repoI:
  assumes "\<And>msg t. only_db s t \<Longrightarrow> db t = db s \<Longrightarrow> E (DbException msg) t"
    and "\<And>n r d t. st (ext s) n (db s) = (r, d) \<Longrightarrow> only_db s t \<Longrightarrow> db t = d \<Longrightarrow>
           (case r of Inl msg \<Rightarrow> E (DbException (ctx @ '': '' @ msg)) t | Inr x \<Rightarrow> Q x t)"
  shows "wp (repo ctx st) Q E s"
proof -
  obtain r d where rd: "st (ext s) (db_now (ext s) (Suc (clock s))) (db s) = (r, d)" by force
  have "case r of Inl msg \<Rightarrow> E (DbException (ctx @ '': '' @ msg)) ((tick (tick s))\<lparr>db := d\<rparr>)
      | Inr x \<Rightarrow> Q x ((tick (tick s))\<lparr>db := d\<rparr>)"
    by (rule assms(2) [OF rd]) (simp_all add: only_db_def)
  then show ?thesis
    using assms(1) [of s] assms(1) [of "tick s"] assms(1) [of "tick (tick s)"] rd
    by (simp add: repo_def wrap_db_def wp only_db_def split: option.splits sum.splits)
qed

lemma repo_wp:
  "wp (repo ctx st)
     (\<lambda>x t. only_db s t \<and> (\<exists>n. st (ext s) n (db s) = (Inr x, db t)))
     (\<lambda>e t. only_db s t \<and> is_Db e \<and> (db t = db s \<or> (\<exists>n msg. st (ext s) n (db s) = (Inl msg, db t)))) s"
  by (rule wp_repoI) (auto split: sum.splits)

lemma repo_InrD:
  assumes "repo ctx st s = (Inr x, s')"
  shows "\<exists>n. st (ext s) n (db s) = (Inr x, db s') \<and> only_db s s'"
proof -
  have "wp (repo ctx st) (\<lambda>x t. \<exists>n. st (ext s) n (db s) = (Inr x, db t) \<and> only_db s t) (\<lambda>_ _. True) s"
    by (rule wp_repoI) (auto split: sum.splits)
  from wp_InrD [OF this assms] show ?thesis .
qed

text \<open>The statement runs after the session has been acquired, one tick later.\<close>

lemma repo_InrD_at:
  assumes "repo ctx st s = (Inr x, s')"
  shows "st (ext s) (db_now (ext s) (Suc (clock s))) (db s) = (Inr x, db s')"
  using assms
  by (auto simp: repo_def wrap_db_def catch_if_def bnd_def thr_def DbManager_session_def sql_def
      split: if_splits option.splits prod.splits sum.splits)

section \<open>Computations that return when nothing fails\<close>

definition returns :: "'a W \<Rightarrow> bool" where
  "returns m \<longleftrightarrow> (\<forall>s. quiet s \<longrightarrow> wp m (\<lambda>_. quiet) (\<lambda>_ _. False) s)"

named_theorems ret \<open>computations that return when nothing fails\<close>

lemma returnsD: "returns m \<Longrightarrow> quiet s \<Longrightarrow> wp m (\<lambda>_. quiet) (\<lambda>_ _. False) s"
  by (simp add: returns_def)

lemma returns_basic [ret]: "returns (retn x)" "returns (gets f)"
  by (simp_all add: returns_def wp)

lemma returns_bnd [ret]: "returns m \<Longrightarrow> (\<And>x. returns (f x)) \<Longrightarrow> returns (bnd m f)"
  unfolding returns_def wp_bnd by (auto elim!: wp_mono)

lemma returns_catch [ret]: "returns m \<Longrightarrow> returns (catch_if P m h)"
  unfolding returns_def wp_catch_if by (auto elim!: wp_mono)

lemma returns_for_each [ret]: "(\<And>x. returns (f x)) \<Longrightarrow> returns (for_each f xs)"
  by (induction xs) (auto intro: ret)

lemma returns_option [ret]:
  "returns m \<Longrightarrow> (\<And>x. returns (f x)) \<Longrightarrow> returns (case r of None \<Rightarrow> m | Some x \<Rightarrow> f x)"
  by (cases r) simp_all

lemma returns_when [ret]: "returns m \<Longrightarrow> returns (when_m b m)"
  by (cases b) (simp_all add: ret)

lemma returns_session [ret]: "returns DbManager_session"
  by (simp add: returns_def wp quiet_def)

lemma returns_query [ret]: "returns (sql (query q))"
  by (simp add: returns_def wp query_def quiet_def)

lemma returns_dml [ret]: "returns (sql (dml f))"
  by (simp add: returns_def wp dml_def quiet_def)

lemma returns_wrap [ret]: "returns m \<Longrightarrow> returns (wrap_db ctx m)"
  unfolding wrap_db_def by (rule returns_catch)

lemma returns_repo [ret]: "returns (sql st) \<Longrightarrow> returns (repo ctx st)"
  unfolding repo_def by (intro ret)

section \<open>A concrete environment\<close>

text \<open>
  An instance of the parameters for the witnesses: no faults, \<open>NOW()\<close> is the tick, random
  bytes repeat the tick, and timestamps are decimal numbers.
\<close>

definition example_ext :: external where
  "example_ext =
     \<lparr>db_now = int, db_fault = (\<lambda>_. None), net_fault = (\<lambda>_ _. None),
      rand_bytes = (\<lambda>t n. Some (replicate n (char_of t))), kdf_faults = (\<lambda>_. None),
      argon2id = (\<lambda>pw salt. pw @ salt),
      ts_parse = (\<lambda>s. case stoi s of Inl _ \<Rightarrow> None | Inr v \<Rightarrow> Some v), ts_text = int_str,
      ts_iso = int_str, varchar_fits = (\<lambda>n s. length s \<le> n), uninit_int = 0\<rparr>"

definition example_world :: world where
  "example_world =
     \<lparr>ext = example_ext, db = empty_db, pool = True, clock = 0, clients = Map.empty,
      conns = (\<lambda>_. fresh_session), outbox = []\<rparr>"

lemma quiet_example [simp]: "quiet example_world"
  by (simp add: quiet_def example_world_def example_ext_def)

text \<open>An instance: the second statement of a transaction fails and the first is undone.\<close>

lemma transaction_atomic_witness:
  "let s = example_world\<lparr>ext := example_ext\<lparr>db_fault := (\<lambda>t. if t = 2 then Some ''lost'' else None)\<rparr>\<rparr>;
       m = bnd (sql (dml (\<lambda>e n d. d\<lparr>seqs := (\<lambda>_. 7)\<rparr>))) (\<lambda>_. sql (dml (\<lambda>e n d. d)))
   in fst (transaction m s) = Inl (PocoException ''lost'') \<and> db (snd (transaction m s)) = db s"
proof -
  let ?s = "example_world\<lparr>ext := example_ext\<lparr>db_fault := (\<lambda>t. if t = 2 then Some ''lost'' else None)\<rparr>\<rparr>"
  let ?m = "bnd (sql (dml (\<lambda>e n d. d\<lparr>seqs := (\<lambda>_. 7)\<rparr>))) (\<lambda>_. sql (dml (\<lambda>e n d. d)))"
  obtain s' where r: "transaction ?m ?s = (Inl (PocoException ''lost''), s')"
    by (simp add: transaction_def bnd_def sql_def dml_def tick_def example_world_def example_ext_def)
  from transaction_atomic [OF r] r show ?thesis by simp
qed

end
