(* ===== verification/Integrity.thy ===== *)
theory Integrity
  imports World
begin

text \<open>
  The integrity of the tables: what the \<open>PRIMARY KEY\<close>, \<open>UNIQUE\<close>, \<open>REFERENCES\<close>
  and \<open>CHECK\<close> clauses of \<^verbatim>\<open>db/migrations\<close> promise, together with two facts only the
  code maintains: serial keys stay below their sequence, and a group message that a member has
  seen was also delivered to that member.  The repositories and the handlers are shown to keep
  \<open>db_ok\<close>.
\<close>

section \<open>The keys of the tables\<close>

definition user_ids :: "database \<Rightarrow> int set" where
  "user_ids d = u_id ` set (users d)"

definition usernames :: "database \<Rightarrow> string set" where
  "usernames d = u_username ` set (users d)"

definition message_ids :: "database \<Rightarrow> int set" where
  "message_ids d = m_id ` set (messages d)"

definition group_ids :: "database \<Rightarrow> int set" where
  "group_ids d = g_id ` set (groups d)"

definition gmessage_ids :: "database \<Rightarrow> int set" where
  "gmessage_ids d = x_id ` set (group_messages d)"

definition keyed :: "('r \<Rightarrow> int) \<Rightarrow> int \<Rightarrow> 'r list \<Rightarrow> bool" where
  "keyed k nxt rs \<longleftrightarrow> distinct (map k rs) \<and> (\<forall>r \<in> set rs. 0 < k r \<and> k r < nxt) \<and> 0 < nxt"

text \<open>\<open>CONSTRAINT role_valid\<close> of \<^verbatim>\<open>006_groups.sql\<close>.\<close>

definition valid_role :: "string \<Rightarrow> bool" where
  "valid_role r \<longleftrightarrow> r \<in> set [''creator'', ''admin'', ''member'']"

section \<open>Integrity, table by table\<close>

named_theorems ok_defs \<open>integrity of the tables\<close>

definition users_ok :: "database \<Rightarrow> bool" where
  [ok_defs]: "users_ok d \<longleftrightarrow> keyed u_id (seqs d T_users) (users d) \<and> distinct (map u_username (users d))"

definition sessions_ok :: "database \<Rightarrow> bool" where
  [ok_defs]: "sessions_ok d \<longleftrightarrow>
     keyed s_id (seqs d T_sessions) (sessions d) \<and> distinct (map s_session_token (sessions d))
     \<and> (\<forall>r \<in> set (sessions d). s_user_id r \<in> user_ids d)"

definition messages_ok :: "database \<Rightarrow> bool" where
  [ok_defs]: "messages_ok d \<longleftrightarrow> keyed m_id (seqs d T_messages) (messages d)"

definition queue_ok :: "database \<Rightarrow> bool" where
  [ok_defs]: "queue_ok d \<longleftrightarrow>
     keyed o_id (seqs d T_offline_queue) (offline_queue d)
     \<and> (\<forall>r \<in> set (offline_queue d). o_message_id r \<in> message_ids d)"

definition groups_ok :: "database \<Rightarrow> bool" where
  [ok_defs]: "groups_ok d \<longleftrightarrow>
     keyed g_id (seqs d T_groups) (groups d) \<and> (\<forall>r \<in> set (groups d). g_creator r \<in> usernames d)"

definition members_ok :: "database \<Rightarrow> bool" where
  [ok_defs]: "members_ok d \<longleftrightarrow>
     distinct (map (\<lambda>r. (mb_group_id r, mb_username r)) (group_members d))
     \<and> (\<forall>r \<in> set (group_members d).
          mb_group_id r \<in> group_ids d \<and> mb_username r \<in> usernames d \<and> valid_role (mb_role r))"

definition keys_ok :: "database \<Rightarrow> bool" where
  [ok_defs]: "keys_ok d \<longleftrightarrow>
     distinct (map (\<lambda>r. (gk_group_id r, gk_username r)) (group_keys d))
     \<and> (\<forall>r \<in> set (group_keys d). gk_group_id r \<in> group_ids d \<and> gk_username r \<in> usernames d)"

definition gmessages_ok :: "database \<Rightarrow> bool" where
  [ok_defs]: "gmessages_ok d \<longleftrightarrow>
     keyed x_id (seqs d T_group_messages) (group_messages d)
     \<and> (\<forall>r \<in> set (group_messages d). x_group_id r \<in> group_ids d \<and> x_sender r \<in> usernames d)"

definition receipts_ok :: "database \<Rightarrow> bool" where
  [ok_defs]: "receipts_ok d \<longleftrightarrow>
     distinct (map (\<lambda>r. (rc_message_id r, rc_username r)) (receipts d))
     \<and> (\<forall>r \<in> set (receipts d).
          rc_message_id r \<in> gmessage_ids d \<and> (rc_seen_at r \<noteq> None \<longrightarrow> rc_delivered_at r \<noteq> None))"

definition read_receipts_ok :: "database \<Rightarrow> bool" where
  [ok_defs]: "read_receipts_ok d \<longleftrightarrow>
     keyed rr_id (seqs d T_read_receipts) (read_receipts d)
     \<and> distinct (map (\<lambda>r. (rr_from_user r, rr_to_user r, rr_message_ts r)) (read_receipts d))
     \<and> (\<forall>r \<in> set (read_receipts d).
          rr_from_user r \<in> usernames d \<and> rr_to_user r \<in> usernames d
          \<and> (\<forall>g. rr_group_id r = Some g \<longrightarrow> g \<in> group_ids d))"

definition pending_ok :: "database \<Rightarrow> bool" where
  [ok_defs]: "pending_ok d \<longleftrightarrow>
     keyed pn_id (seqs d T_pending) (pending d)
     \<and> (\<forall>r \<in> set (pending d). pn_packet_type r \<in> range type_code)"

definition db_ok :: "database \<Rightarrow> bool" where
  "db_ok d \<longleftrightarrow>
     users_ok d \<and> sessions_ok d \<and> messages_ok d \<and> queue_ok d \<and> groups_ok d \<and> members_ok d
     \<and> keys_ok d \<and> gmessages_ok d \<and> receipts_ok d \<and> read_receipts_ok d \<and> pending_ok d"

lemmas key_defs = user_ids_def usernames_def message_ids_def group_ids_def gmessage_ids_def

lemma db_okD:
  assumes "db_ok d"
  shows "users_ok d" "sessions_ok d" "messages_ok d" "queue_ok d" "groups_ok d" "members_ok d"
    "keys_ok d" "gmessages_ok d" "receipts_ok d" "read_receipts_ok d" "pending_ok d"
  using assms by (simp_all add: db_ok_def)

section \<open>Keys under the write statements\<close>

lemma keyed_Nil [simp]: "keyed k n [] \<longleftrightarrow> 0 < n"
  by (simp add: keyed_def)

lemma keyed_snoc [simp]:
  "keyed k n rs \<Longrightarrow> k r = n \<Longrightarrow> keyed k (n + 1) (rs @ [r])"
  by (force simp: keyed_def)

lemma keyed_next [simp]: "keyed k n rs \<Longrightarrow> keyed k (n + 1) rs"
  by (force simp: keyed_def)

lemma keyed_update_where [simp]:
  "(\<And>r. k (f r) = k r) \<Longrightarrow> keyed k n (update_where P f rs) = keyed k n rs"
  by (auto simp: keyed_def map_update_where ball_update_where)

lemma keyed_delete_where [simp]: "keyed k n rs \<Longrightarrow> keyed k n (delete_where P rs)"
  by (auto simp: keyed_def distinct_map_delete_where)

lemma keyed_inj: "keyed k n rs \<Longrightarrow> r \<in> set rs \<Longrightarrow> r' \<in> set rs \<Longrightarrow> k r = k r' \<Longrightarrow> r = r'"
  by (auto simp: keyed_def distinct_map inj_on_def)

lemma keyed_find: "keyed k n rs \<Longrightarrow> r \<in> set rs \<Longrightarrow> find (\<lambda>x. k x = k r) rs = Some r"
  by (auto simp: keyed_def intro: find_unique)

lemma image_delete_where: "g ` set (delete_where P rs) = {v. \<exists>r \<in> set rs. \<not> P r \<and> g r = v}"
  by auto

lemma first_violation_simps [simp]:
  "first_violation [] = None"
  "first_violation ((True, m) # cs) = Some m"
  "first_violation ((False, m) # cs) = first_violation cs"
  by (simp_all add: first_violation_def)

lemma first_violation_None [simp]:
  "first_violation ((b, m) # cs) = None \<longleftrightarrow> \<not> b \<and> first_violation cs = None"
  by (simp add: first_violation_def)

text \<open>An insertion either only advances the sequence or appends the row under a fresh key.\<close>

lemma insert_row_cases:
  assumes "insert_row t cs up mk d = (r, d')"
  obtains (rejected) msg where "r = Inl msg" "first_violation cs = Some msg"
      "d' = d\<lparr>seqs := (seqs d)(t := seqs d t + 1)\<rparr>"
  | (inserted) "r = Inr (seqs d t)" "first_violation cs = None"
      "d' = up (\<lambda>rs. rs @ [mk (seqs d t)]) (d\<lparr>seqs := (seqs d)(t := seqs d t + 1)\<rparr>)"
  using assms by (auto simp: insert_row_def Let_def split: option.splits)

lemma seq_advance_ok [simp]:
  assumes "db_ok d"
  shows "db_ok (d\<lparr>seqs := (seqs d)(t := seqs d t + 1)\<rparr>)"
  using assms unfolding db_ok_def by (cases t) (simp_all add: ok_defs key_defs)

lemma insert_row_ok:
  assumes "db_ok d"
    and "first_violation cs = None \<Longrightarrow>
      db_ok (up (\<lambda>rs. rs @ [mk (seqs d t)]) (d\<lparr>seqs := (seqs d)(t := seqs d t + 1)\<rparr>))"
  shows "db_ok (snd (insert_row t cs up mk d))"
  using assms by (auto simp: insert_row_def Let_def split: option.splits)

lemma empty_db_ok: "db_ok empty_db"
  by (simp add: db_ok_def ok_defs empty_db_def)

text \<open>Statements that forget their result.\<close>

definition void_st :: "'a stmt \<Rightarrow> unit stmt" where
  "void_st st e n d = (case st e n d of (r, d') \<Rightarrow> (map_sum id (\<lambda>_. ()) r, d'))"

lemma snd_void_st [simp]: "snd (void_st st e n d) = snd (st e n d)"
  by (simp add: void_st_def split: prod.splits)

lemma st_keeps_void [simp]: "st_keeps J st \<Longrightarrow> st_keeps J (void_st st)"
  by (simp add: st_keeps_def)

text \<open>An update of one table that leaves its keys alone keeps the integrity of the others.\<close>

lemma users_update_ok:
  assumes "db_ok d" "\<And>r. u_id (f r) = u_id r" "\<And>r. u_username (f r) = u_username r"
  shows "db_ok (users_update (update_where P f) d)"
  using assms by (simp add: db_ok_def ok_defs key_defs image_update_where map_update_where)

lemma sessions_update_ok:
  assumes "db_ok d" "\<And>r. s_id (f r) = s_id r" "\<And>r. s_session_token (f r) = s_session_token r"
    "\<And>r. s_user_id (f r) = s_user_id r"
  shows "db_ok (sessions_update (update_where P f) d)"
  using assms
  by (simp add: db_ok_def ok_defs key_defs map_update_where) (auto simp: ball_update_where)

lemma messages_update_ok:
  assumes "db_ok d" "\<And>r. m_id (f r) = m_id r"
  shows "db_ok (messages_update (update_where P f) d)"
  using assms by (simp add: db_ok_def ok_defs key_defs image_update_where)

lemma queue_update_ok:
  assumes "db_ok d" "\<And>r. o_id (f r) = o_id r" "\<And>r. o_message_id (f r) = o_message_id r"
  shows "db_ok (offline_queue_update (update_where P f) d)"
  using assms by (simp add: db_ok_def ok_defs key_defs) (auto simp: ball_update_where)

lemma queue_delete_ok: "db_ok d \<Longrightarrow> db_ok (offline_queue_update (delete_where P) d)"
  by (simp add: db_ok_def ok_defs key_defs)

lemma pending_delete_ok: "db_ok d \<Longrightarrow> db_ok (pending_update (delete_where P) d)"
  by (simp add: db_ok_def ok_defs key_defs)

section \<open>Steps of the database layer\<close>

text \<open>
  What every repository call does to the state: it touches nothing but the tables and the clock,
  and it keeps the tables intact.
\<close>

definition db_step :: "world \<Rightarrow> world \<Rightarrow> bool" where
  "db_step s s' \<longleftrightarrow> only_db s s' \<and> (db_ok (db s) \<longrightarrow> db_ok (db s'))"

interpretation dbs: step_preorder db_step
  by unfold_locales (auto simp: db_step_def intro: odb.R_refl odb.R_trans)

lemma keeps_db_step: "keeps only_db m \<Longrightarrow> pres (\<lambda>s. db_ok (db s)) m \<Longrightarrow> keeps db_step m"
  by (simp add: keeps_def db_step_def)

lemma sql_step: "st_keeps db_ok st \<Longrightarrow> keeps db_step (sql st)"
  by (simp add: keeps_db_step sql_only_db sql_pres)

lemma session_step: "keeps db_step DbManager_session"
  by (simp add: keeps_db_step session_only_db session_pres)

lemma wrap_db_step: "keeps db_step m \<Longrightarrow> keeps db_step (wrap_db ctx m)"
  by (rule wrap_db_keeps) unfold_locales

lemma repo_step: "st_keeps db_ok st \<Longrightarrow> keeps db_step (repo ctx st)"
  unfolding repo_def by (intro wrap_db_step dbs.k_bnd session_step sql_step)

lemma transaction_step:
  assumes m: "keeps db_step m"
  shows "keeps db_step (transaction m)"
proof (rule keeps_db_step)
  have "keeps only_db m" "pres (\<lambda>s. db_ok (db s)) m"
    by (rule keeps_weaken [OF m]; simp add: db_step_def)+
  then show "keeps only_db (transaction m)" "pres (\<lambda>s. db_ok (db s)) (transaction m)"
    by (simp_all add: transaction_only_db transaction_pres)
qed

lemmas step_rules = dbs.rules wrap_db_step repo_step transaction_step session_step sql_step

section \<open>A concrete database\<close>

text \<open>
  Three users, a live session of alice, a message from alice to bob that waits in bob's queue, and
  a group of alice and bob with one message.
\<close>

definition example_user :: "int \<Rightarrow> string \<Rightarrow> users_row" where
  "example_user i u =
     \<lparr>u_id = i, u_username = u, u_password_hash = ''00:00'', u_public_key = ''pk'', u_last_seen = 0,
      u_created_at = 0\<rparr>"

definition example_db :: database where
  "example_db =
     \<lparr>users = [example_user 1 ''alice'', example_user 2 ''bob'', example_user 3 ''carol''],
      sessions = [\<lparr>s_id = 1, s_user_id = 1, s_session_token = ''ta'', s_created_at = 0,
                   s_expires_at = 1000, s_is_active = True\<rparr>],
      messages = [\<lparr>m_id = 1, m_sender = ''alice'', m_recipient = ''bob'', m_body = ''c1'',
                   m_encrypted_key = ''k1'', m_sender_encrypted_key = ''k2'', m_status = ''sent'',
                   m_created_at = 5\<rparr>],
      offline_queue = [\<lparr>o_id = 1, o_message_id = 1, o_recipient = ''bob'', o_queued_at = 5,
                        o_delivered = False, o_delivery_attempts = 0\<rparr>],
      groups = [\<lparr>g_id = 1, g_name = ''team'', g_creator = ''alice''\<rparr>],
      group_members = [\<lparr>mb_group_id = 1, mb_username = ''alice'', mb_role = ''creator'', mb_joined_at = 1\<rparr>,
                       \<lparr>mb_group_id = 1, mb_username = ''bob'', mb_role = ''member'', mb_joined_at = 2\<rparr>],
      group_keys = [\<lparr>gk_group_id = 1, gk_username = ''bob'', gk_encrypted_aes_key = ''wb''\<rparr>],
      group_messages = [\<lparr>x_id = 1, x_group_id = 1, x_sender = ''alice'', x_encrypted_body = ''gc'',
                         x_timestamp = 6\<rparr>],
      receipts = [\<lparr>rc_message_id = 1, rc_username = ''bob'', rc_delivered_at = None, rc_seen_at = None\<rparr>],
      read_receipts = [],
      pending = [\<lparr>pn_id = 1, pn_recipient = ''bob'', pn_packet_type = type_code GROUP_INVITE,
                  pn_from_user = ''alice'', pn_body = ''1'', pn_error_msg = ''team'',
                  pn_packet_key = ''wb'', pn_created_at = 3\<rparr>],
      seqs = (\<lambda>_. 10)\<rparr>"

lemma example_db_ok: "db_ok example_db"
  using rangeI [of type_code GROUP_INVITE]
  by (simp add: db_ok_def ok_defs key_defs keyed_def example_db_def example_user_def valid_role_def)

definition example_state :: world where
  "example_state = example_world\<lparr>db := example_db\<rparr>"

lemma example_state_ok: "db_ok (db example_state)"
  by (simp add: example_state_def example_db_ok)

lemma quiet_example_state [simp]: "quiet example_state"
  by (simp add: example_state_def)

end
