(* ===== verification/Repositories.thy ===== *)
theory Repositories
  imports Integrity
begin

text \<open>
  The repositories over a single table: \<open>UserRepository\<close>, \<open>SessionRepository\<close>,
  \<open>MessageRepository\<close>, \<open>OfflineQueueRepository\<close> (all heirs of
  \<open>BaseSqlRepository\<close>) and \<open>PendingNotificationRepository\<close>.  Each method is its SQL
  statement, a \<open>stmt\<close>, run by \<open>repo\<close>.  The contract of \<open>IRepository\<close> is the locale
  \<open>repository\<close>, interpreted for the four tables.

  A fetch loop (\<open>while (!sel.done()) sel.execute()\<close>) yields the rows in order; the code
  drops a row whose leading string is empty.  \<open>ORDER BY\<close> is the stable \<open>sort_key\<close>.
\<close>

section \<open>Fetching\<close>

definition fetch_one :: "('r \<Rightarrow> string) \<Rightarrow> ('r \<Rightarrow> 'e) \<Rightarrow> 'r option \<Rightarrow> 'e option" where
  "fetch_one key conv r = (case r of None \<Rightarrow> None | Some x \<Rightarrow> if key x = [] then None else Some (conv x))"

definition fetch_all :: "('r \<Rightarrow> string) \<Rightarrow> ('r \<Rightarrow> 'e) \<Rightarrow> 'r list \<Rightarrow> 'e list" where
  "fetch_all key conv rs = map conv (filter (\<lambda>x. key x \<noteq> []) rs)"

section \<open>\<open>UserRepository\<close>\<close>

definition rowToUser :: "external \<Rightarrow> users_row \<Rightarrow> User" where
  "rowToUser e r =
     \<lparr>us_id = u_id r, us_username = u_username r, us_passwordHash = u_password_hash r,
      us_publicKey = u_public_key r, us_lastSeen = ts_text e (u_last_seen r),
      us_createdAt = ts_text e (u_created_at r)\<rparr>"

definition user_select_id :: "int \<Rightarrow> User option stmt" where
  "user_select_id i = query (\<lambda>e n d. fetch_one u_username (rowToUser e) (find (\<lambda>r. u_id r = i) (users d)))"

definition user_select_all :: "User list stmt" where
  "user_select_all = query (\<lambda>e n d. fetch_all u_username (rowToUser e) (users d))"

definition user_select_name :: "string \<Rightarrow> User option stmt" where
  "user_select_name u =
     query (\<lambda>e n d. fetch_one u_username (rowToUser e) (find (\<lambda>r. u_username r = u) (users d)))"

definition user_insert :: "string \<Rightarrow> string \<Rightarrow> string \<Rightarrow> int stmt" where
  "user_insert un ph pk e n d =
     insert_row T_users
       [(\<not> varchar_fits e 64 un \<or> \<not> varchar_fits e 256 ph, too_long),
        (un \<in> usernames d, not_unique)]
       users_update
       (\<lambda>i. \<lparr>u_id = i, u_username = un, u_password_hash = ph, u_public_key = pk, u_last_seen = n,
             u_created_at = n\<rparr>) d"

definition user_save_st :: "User \<Rightarrow> unit stmt" where
  "user_save_st u =
     (if us_id u = 0 then void_st (user_insert (us_username u) (us_passwordHash u) (us_publicKey u))
      else dml (\<lambda>e n. users_update (update_where (\<lambda>r. u_id r = us_id u)
             (\<lambda>r. r\<lparr>u_public_key := us_publicKey u, u_last_seen := n\<rparr>))))"

definition user_touch :: "string \<Rightarrow> unit stmt" where
  "user_touch u =
     dml (\<lambda>e n. users_update (update_where (\<lambda>r. u_username r = u) (\<lambda>r. r\<lparr>u_last_seen := n\<rparr>)))"

text \<open>
  \<open>DELETE\<close> of a user: the rows that refer to it without \<open>ON DELETE CASCADE\<close> forbid it,
  its queued receipts go with it.
\<close>

definition user_delete :: "int \<Rightarrow> unit stmt" where
  "user_delete i e n d =
     (let names = u_username ` set (filter (\<lambda>r. u_id r = i) (users d)) in
      if (\<exists>r \<in> set (users d). u_id r = i) \<and> (\<exists>r \<in> set (sessions d). s_user_id r = i)
         \<or> (\<exists>r \<in> set (groups d). g_creator r \<in> names)
         \<or> (\<exists>r \<in> set (group_members d). mb_username r \<in> names)
         \<or> (\<exists>r \<in> set (group_keys d). gk_username r \<in> names)
         \<or> (\<exists>r \<in> set (group_messages d). x_sender r \<in> names)
      then (Inl no_parent, d)
      else (Inr (), d\<lparr>users := delete_where (\<lambda>r. u_id r = i) (users d),
                     read_receipts := delete_where (\<lambda>r. rr_from_user r \<in> names \<or> rr_to_user r \<in> names)
                                        (read_receipts d)\<rparr>))"

definition UserRepository_findById :: "int \<Rightarrow> User option W" where
  "UserRepository_findById i = repo ''UserRepository::findById'' (user_select_id i)"

definition UserRepository_findAll :: "User list W" where
  "UserRepository_findAll = repo ''UserRepository::findAll'' user_select_all"

definition UserRepository_save :: "User \<Rightarrow> unit W" where
  "UserRepository_save u = repo ''UserRepository::save'' (user_save_st u)"

definition UserRepository_updateLastSeen :: "string \<Rightarrow> unit W" where
  "UserRepository_updateLastSeen u = repo ''UserRepository::updateLastSeen'' (user_touch u)"

definition UserRepository_findByUsername :: "string \<Rightarrow> User option W" where
  "UserRepository_findByUsername u = repo ''UserRepository::findByUsername'' (user_select_name u)"

definition UserRepository_remove :: "int \<Rightarrow> unit W" where
  "UserRepository_remove i = repo ''users remove'' (user_delete i)"

section \<open>\<open>SessionRepository\<close>\<close>

definition rowToSession :: "external \<Rightarrow> sessions_row \<Rightarrow> Session" where
  "rowToSession e r =
     \<lparr>se_id = s_id r, se_userId = s_user_id r, se_sessionToken = s_session_token r,
      se_createdAt = ts_text e (s_created_at r), se_expiresAt = ts_text e (s_expires_at r),
      se_isActive = s_is_active r\<rparr>"

text \<open>\<open>INTERVAL '24 hours'\<close> and \<open>INTERVAL '7 days'\<close> in microseconds.\<close>

definition hours24 :: int where "hours24 = 24 * 60 * 60 * 1000000"
definition days7 :: int where "days7 = 7 * hours24"

definition session_select_id :: "int \<Rightarrow> Session option stmt" where
  "session_select_id i =
     query (\<lambda>e n d. fetch_one s_session_token (rowToSession e) (find (\<lambda>r. s_id r = i) (sessions d)))"

definition session_select_all :: "Session list stmt" where
  "session_select_all = query (\<lambda>e n d. fetch_all s_session_token (rowToSession e) (sessions d))"

definition session_live :: "int \<Rightarrow> sessions_row \<Rightarrow> bool" where
  "session_live n r \<longleftrightarrow> s_is_active r \<and> n < s_expires_at r"

definition session_select_token :: "string \<Rightarrow> Session option stmt" where
  "session_select_token tok =
     query (\<lambda>e n d. fetch_one s_session_token (rowToSession e)
       (find (\<lambda>r. s_session_token r = tok \<and> session_live n r) (sessions d)))"

definition session_insert :: "int \<Rightarrow> string \<Rightarrow> int stmt" where
  "session_insert uid tok e n d =
     insert_row T_sessions
       [(\<not> varchar_fits e 256 tok, too_long),
        (tok \<in> s_session_token ` set (sessions d), not_unique),
        (uid \<notin> user_ids d, no_parent)]
       sessions_update
       (\<lambda>i. \<lparr>s_id = i, s_user_id = uid, s_session_token = tok, s_created_at = n,
             s_expires_at = n + hours24, s_is_active = True\<rparr>) d"

definition session_save_st :: "Session \<Rightarrow> unit stmt" where
  "session_save_st s =
     (if se_id s = 0 then void_st (session_insert (se_userId s) (se_sessionToken s))
      else dml (\<lambda>e n. sessions_update (update_where (\<lambda>r. s_id r = se_id s)
             (\<lambda>r. r\<lparr>s_is_active := se_isActive s\<rparr>))))"

definition session_deactivate :: "(int \<Rightarrow> sessions_row \<Rightarrow> bool) \<Rightarrow> unit stmt" where
  "session_deactivate P =
     dml (\<lambda>e n. sessions_update (update_where (P n) (\<lambda>r. r\<lparr>s_is_active := False\<rparr>)))"

definition session_delete :: "int \<Rightarrow> unit stmt" where
  "session_delete i = dml (\<lambda>e n. sessions_update (delete_where (\<lambda>r. s_id r = i)))"

definition SessionRepository_findById :: "int \<Rightarrow> Session option W" where
  "SessionRepository_findById i = repo ''SessionRepository::findById'' (session_select_id i)"

definition SessionRepository_findAll :: "Session list W" where
  "SessionRepository_findAll = repo ''SessionRepository::findAll'' session_select_all"

definition SessionRepository_save :: "Session \<Rightarrow> unit W" where
  "SessionRepository_save s = repo ''SessionRepository::save'' (session_save_st s)"

definition SessionRepository_findByToken :: "string \<Rightarrow> Session option W" where
  "SessionRepository_findByToken tok = repo ''SessionRepository::findByToken'' (session_select_token tok)"

definition SessionRepository_deactivateAllForUser :: "int \<Rightarrow> unit W" where
  "SessionRepository_deactivateAllForUser uid =
     repo ''SessionRepository::deactivateAllForUser'' (session_deactivate (\<lambda>n r. s_user_id r = uid))"

definition SessionRepository_deactivateByToken :: "string \<Rightarrow> unit W" where
  "SessionRepository_deactivateByToken tok =
     repo ''SessionRepository::deactivateByToken'' (session_deactivate (\<lambda>n r. s_session_token r = tok))"

definition SessionRepository_deactivateExpired :: "unit W" where
  "SessionRepository_deactivateExpired =
     repo ''SessionRepository::deactivateExpired''
       (session_deactivate (\<lambda>n r. s_expires_at r < n \<and> s_is_active r))"

definition SessionRepository_remove :: "int \<Rightarrow> unit W" where
  "SessionRepository_remove i = repo ''sessions remove'' (session_delete i)"

section \<open>\<open>MessageRepository\<close>\<close>

definition rowToMessage :: "external \<Rightarrow> messages_row \<Rightarrow> Message" where
  "rowToMessage e r =
     \<lparr>ms_id = m_id r, ms_sender = m_sender r, ms_recipient = m_recipient r, ms_encryptedBody = m_body r,
      ms_encryptedKey = m_encrypted_key r, ms_senderEncryptedKey = m_sender_encrypted_key r,
      ms_status = m_status r, ms_createdAt = ts_text e (m_created_at r)\<rparr>"

definition message_select_id :: "int \<Rightarrow> Message option stmt" where
  "message_select_id i =
     query (\<lambda>e n d. fetch_one m_sender (rowToMessage e) (find (\<lambda>r. m_id r = i) (messages d)))"

definition message_select_all :: "Message list stmt" where
  "message_select_all = query (\<lambda>e n d. fetch_all m_sender (rowToMessage e) (messages d))"

definition message_select :: "(messages_row \<Rightarrow> bool) \<Rightarrow> external \<Rightarrow> database \<Rightarrow> Message list" where
  "message_select P e d =
     fetch_all m_sender (rowToMessage e) (sort_key m_created_at (filter P (messages d)))"

text \<open>\<open>COALESCE(NULLIF($7, '')::timestamptz, now())\<close>; \<open>None\<close> when the cast fails.\<close>

definition coalesce_ts :: "external \<Rightarrow> int \<Rightarrow> string \<Rightarrow> int option" where
  "coalesce_ts e n ts = (if ts = [] then Some n else ts_parse e ts)"

definition message_insert :: "Message \<Rightarrow> int stmt" where
  "message_insert m e n d =
     insert_row T_messages
       [(coalesce_ts e n (ms_createdAt m) = None, ''invalid_datetime_format''),
        (\<not> varchar_fits e 64 (ms_sender m) \<or> \<not> varchar_fits e 64 (ms_recipient m)
           \<or> \<not> varchar_fits e 16 (ms_status m), too_long)]
       messages_update
       (\<lambda>i. \<lparr>m_id = i, m_sender = ms_sender m, m_recipient = ms_recipient m, m_body = ms_encryptedBody m,
             m_encrypted_key = ms_encryptedKey m, m_sender_encrypted_key = ms_senderEncryptedKey m,
             m_status = ms_status m, m_created_at = the (coalesce_ts e n (ms_createdAt m))\<rparr>) d"

definition message_save_st :: "Message \<Rightarrow> unit stmt" where
  "message_save_st m =
     (if ms_id m = 0 then void_st (message_insert m)
      else (\<lambda>e n d. if \<not> varchar_fits e 16 (ms_status m) then (Inl too_long, d)
        else (Inr (), messages_update (update_where (\<lambda>r. m_id r = ms_id m)
                (\<lambda>r. r\<lparr>m_status := ms_status m\<rparr>)) d)))"

definition between :: "string \<Rightarrow> string \<Rightarrow> messages_row \<Rightarrow> bool" where
  "between a b r \<longleftrightarrow> m_sender r = a \<and> m_recipient r = b \<or> m_sender r = b \<and> m_recipient r = a"

definition queue_purge_between :: "string \<Rightarrow> string \<Rightarrow> unit stmt" where
  "queue_purge_between a b =
     dml (\<lambda>e n d. offline_queue_update
       (delete_where (\<lambda>q. o_message_id q \<in> m_id ` set (filter (between a b) (messages d)))) d)"

text \<open>Deleting messages fails while the offline queue still refers to one of them.\<close>

definition message_delete_where :: "(messages_row \<Rightarrow> bool) \<Rightarrow> unit stmt" where
  "message_delete_where P e n d =
     (if \<exists>q \<in> set (offline_queue d). o_message_id q \<in> m_id ` set (filter P (messages d))
      then (Inl no_parent, d) else (Inr (), messages_update (delete_where P) d))"

definition MessageRepository_findById :: "int \<Rightarrow> Message option W" where
  "MessageRepository_findById i = repo ''MessageRepository::findById'' (message_select_id i)"

definition MessageRepository_findAll :: "Message list W" where
  "MessageRepository_findAll = repo ''MessageRepository::findAll'' message_select_all"

definition MessageRepository_save :: "Message \<Rightarrow> unit W" where
  "MessageRepository_save m = repo ''MessageRepository::save'' (message_save_st m)"

definition MessageRepository_findByRecipient :: "string \<Rightarrow> Message list W" where
  "MessageRepository_findByRecipient u =
     repo ''MessageRepository::findByRecipient'' (query (\<lambda>e n. message_select (\<lambda>r. m_recipient r = u) e))"

definition message_select_user :: "string \<Rightarrow> string \<Rightarrow> Message list stmt" where
  "message_select_user u ts =
     (if ts = [] then query (\<lambda>e n. message_select (\<lambda>r. m_sender r = u \<or> m_recipient r = u) e)
      else query_cast (\<lambda>e n d. map_option
             (\<lambda>t. message_select (\<lambda>r. (m_sender r = u \<or> m_recipient r = u) \<and> t < m_created_at r) e d)
             (ts_parse e ts)))"

definition MessageRepository_findAllForUser :: "string \<Rightarrow> string \<Rightarrow> Message list W" where
  "MessageRepository_findAllForUser u ts =
     repo ''MessageRepository::findAllForUser'' (message_select_user u ts)"

definition MessageRepository_findBySender :: "string \<Rightarrow> Message list W" where
  "MessageRepository_findBySender u =
     repo ''MessageRepository::findBySender'' (query (\<lambda>e n. message_select (\<lambda>r. m_sender r = u) e))"

definition MessageRepository_deleteConversation :: "string \<Rightarrow> string \<Rightarrow> unit W" where
  "MessageRepository_deleteConversation a b =
     wrap_db ''MessageRepository::deleteConversation''
       (bnd DbManager_session (\<lambda>_. transaction
         (bnd (sql (queue_purge_between a b)) (\<lambda>_. sql (message_delete_where (between a b))))))"

definition MessageRepository_remove :: "int \<Rightarrow> unit W" where
  "MessageRepository_remove i = repo ''messages remove'' (message_delete_where (\<lambda>r. m_id r = i))"

section \<open>\<open>OfflineQueueRepository\<close>\<close>

definition MAX_DELIVERY_ATTEMPTS :: int where "MAX_DELIVERY_ATTEMPTS = 5"

definition rowToOfflineMessage :: "external \<Rightarrow> offline_row \<Rightarrow> OfflineMessage" where
  "rowToOfflineMessage e r =
     \<lparr>om_id = o_id r, om_messageId = o_message_id r, om_recipient = o_recipient r,
      om_queuedAt = ts_text e (o_queued_at r), om_delivered = o_delivered r,
      om_deliveryAttempts = o_delivery_attempts r\<rparr>"

definition queue_select_id :: "int \<Rightarrow> OfflineMessage option stmt" where
  "queue_select_id i =
     query (\<lambda>e n d. fetch_one o_recipient (rowToOfflineMessage e) (find (\<lambda>r. o_id r = i) (offline_queue d)))"

definition queue_select_all :: "OfflineMessage list stmt" where
  "queue_select_all = query (\<lambda>e n d. fetch_all o_recipient (rowToOfflineMessage e) (offline_queue d))"

definition queue_select_undelivered :: "string \<Rightarrow> OfflineMessage list stmt" where
  "queue_select_undelivered u =
     query (\<lambda>e n d. fetch_all o_recipient (rowToOfflineMessage e)
       (sort_key o_queued_at (filter (\<lambda>r. o_recipient r = u \<and> \<not> o_delivered r
          \<and> o_delivery_attempts r < MAX_DELIVERY_ATTEMPTS) (offline_queue d))))"

definition queue_insert :: "int \<Rightarrow> string \<Rightarrow> int stmt" where
  "queue_insert mid u e n d =
     insert_row T_offline_queue
       [(\<not> varchar_fits e 64 u, too_long), (mid \<notin> message_ids d, no_parent)]
       offline_queue_update
       (\<lambda>i. \<lparr>o_id = i, o_message_id = mid, o_recipient = u, o_queued_at = n, o_delivered = False,
             o_delivery_attempts = 0\<rparr>) d"

definition queue_save_st :: "OfflineMessage \<Rightarrow> unit stmt" where
  "queue_save_st m =
     (if om_id m = 0 then void_st (queue_insert (om_messageId m) (om_recipient m))
      else dml (\<lambda>e n. offline_queue_update (update_where (\<lambda>r. o_id r = om_id m)
             (\<lambda>r. r\<lparr>o_delivered := om_delivered m, o_delivery_attempts := om_deliveryAttempts m\<rparr>))))"

definition queue_mark_delivered :: "int \<Rightarrow> unit stmt" where
  "queue_mark_delivered i =
     dml (\<lambda>e n. offline_queue_update (update_where (\<lambda>r. o_id r = i) (\<lambda>r. r\<lparr>o_delivered := True\<rparr>)))"

definition queue_increment :: "int \<Rightarrow> unit stmt" where
  "queue_increment i =
     dml (\<lambda>e n. offline_queue_update (update_where (\<lambda>r. o_id r = i)
       (\<lambda>r. r\<lparr>o_delivery_attempts := o_delivery_attempts r + 1\<rparr>)))"

definition queue_delete_where :: "(int \<Rightarrow> offline_row \<Rightarrow> bool) \<Rightarrow> unit stmt" where
  "queue_delete_where P = dml (\<lambda>e n. offline_queue_update (delete_where (P n)))"

definition OfflineQueueRepository_findById :: "int \<Rightarrow> OfflineMessage option W" where
  "OfflineQueueRepository_findById i = repo ''OfflineQueueRepository::findById'' (queue_select_id i)"

definition OfflineQueueRepository_findAll :: "OfflineMessage list W" where
  "OfflineQueueRepository_findAll = repo ''OfflineQueueRepository::findAll'' queue_select_all"

definition OfflineQueueRepository_save :: "OfflineMessage \<Rightarrow> unit W" where
  "OfflineQueueRepository_save m = repo ''OfflineQueueRepository::save'' (queue_save_st m)"

definition OfflineQueueRepository_findUndeliveredByRecipient :: "string \<Rightarrow> OfflineMessage list W" where
  "OfflineQueueRepository_findUndeliveredByRecipient u =
     repo ''OfflineQueueRepository::findUndeliveredByRecipient'' (queue_select_undelivered u)"

definition OfflineQueueRepository_markDelivered :: "int \<Rightarrow> unit W" where
  "OfflineQueueRepository_markDelivered i =
     repo ''OfflineQueueRepository::markDelivered'' (queue_mark_delivered i)"

definition OfflineQueueRepository_incrementAttempts :: "int \<Rightarrow> unit W" where
  "OfflineQueueRepository_incrementAttempts i =
     repo ''OfflineQueueRepository::incrementAttempts'' (queue_increment i)"

definition OfflineQueueRepository_cleanupDelivered :: "unit W" where
  "OfflineQueueRepository_cleanupDelivered =
     repo ''OfflineQueueRepository::cleanupDelivered''
       (queue_delete_where (\<lambda>n r. o_delivered r \<and> o_queued_at r < n - days7))"

definition OfflineQueueRepository_cleanupExhausted :: "unit W" where
  "OfflineQueueRepository_cleanupExhausted =
     repo ''OfflineQueueRepository::cleanupExhausted''
       (queue_delete_where (\<lambda>n r. \<not> o_delivered r \<and> MAX_DELIVERY_ATTEMPTS \<le> o_delivery_attempts r))"

definition OfflineQueueRepository_remove :: "int \<Rightarrow> unit W" where
  "OfflineQueueRepository_remove i = repo ''offline_queue remove'' (queue_delete_where (\<lambda>n r. o_id r = i))"

section \<open>\<open>PendingNotificationRepository\<close>\<close>

text \<open>
  \<open>static_cast<PacketType>(typeInt)\<close> of a stored code.  The only writer stores
  \<open>static_cast<int>(type)\<close>, so the fallback is never taken (\<open>pending_ok\<close>).
\<close>

definition cast_PacketType :: "int \<Rightarrow> PacketType" where
  "cast_PacketType c = (case type_of_code c of None \<Rightarrow> ERR | Some t \<Rightarrow> t)"

record PendingNotification =
  pd_id :: int
  pd_type :: PacketType
  pd_fromUser :: string
  pd_body :: string
  pd_errorMsg :: string
  pd_packetKey :: string

definition rowToPending :: "pending_row \<Rightarrow> PendingNotification" where
  "rowToPending r =
     \<lparr>pd_id = pn_id r, pd_type = cast_PacketType (pn_packet_type r), pd_fromUser = pn_from_user r, pd_body = pn_body r,
      pd_errorMsg = pn_error_msg r, pd_packetKey = pn_packet_key r\<rparr>"

definition pending_insert ::
  "string \<Rightarrow> PacketType \<Rightarrow> string \<Rightarrow> string \<Rightarrow> string \<Rightarrow> string \<Rightarrow> int stmt" where
  "pending_insert u ty fu bd em pk e n d =
     insert_row T_pending
       [(\<not> varchar_fits e 64 u \<or> \<not> varchar_fits e 64 fu \<or> \<not> varchar_fits e 255 bd
           \<or> \<not> varchar_fits e 128 em, too_long)]
       pending_update
       (\<lambda>i. \<lparr>pn_id = i, pn_recipient = u, pn_packet_type = type_code ty, pn_from_user = fu, pn_body = bd,
             pn_error_msg = em, pn_packet_key = pk, pn_created_at = n\<rparr>) d"

definition pending_select :: "string \<Rightarrow> PendingNotification list stmt" where
  "pending_select u =
     query (\<lambda>e n d. map rowToPending
       (filter (\<lambda>r. pn_id r \<noteq> 0) (sort_key pn_created_at (filter (\<lambda>r. pn_recipient r = u) (pending d)))))"

definition pending_delete :: "string \<Rightarrow> unit stmt" where
  "pending_delete u = dml (\<lambda>e n. pending_update (delete_where (\<lambda>r. pn_recipient r = u)))"

definition PendingNotificationRepository_queue ::
  "string \<Rightarrow> PacketType \<Rightarrow> string \<Rightarrow> string \<Rightarrow> string \<Rightarrow> string \<Rightarrow> unit W" where
  "PendingNotificationRepository_queue u ty fu bd em pk =
     repo ''PendingNotificationRepository::queue'' (void_st (pending_insert u ty fu bd em pk))"

definition PendingNotificationRepository_findAndClear :: "string \<Rightarrow> PendingNotification list W" where
  "PendingNotificationRepository_findAndClear u =
     wrap_db ''PendingNotificationRepository::findAndClear''
       (bnd DbManager_session (\<lambda>_. bnd (sql (pending_select u)) (\<lambda>rows.
          bnd (sql (pending_delete u)) (\<lambda>_. retn rows))))"

named_theorems stmt_defs \<open>the SQL statements\<close>

lemmas [stmt_defs] =
  user_select_id_def user_select_all_def user_select_name_def user_touch_def
  session_select_id_def session_select_all_def session_select_token_def session_deactivate_def
  session_delete_def message_select_id_def message_select_all_def
  queue_purge_between_def queue_select_id_def queue_select_all_def queue_select_undelivered_def
  queue_mark_delivered_def queue_increment_def queue_delete_where_def pending_select_def
  pending_delete_def

named_theorems repo_defs \<open>the repository methods\<close>

lemmas [repo_defs] =
  UserRepository_findById_def UserRepository_findAll_def UserRepository_save_def
  UserRepository_updateLastSeen_def UserRepository_findByUsername_def UserRepository_remove_def
  SessionRepository_findById_def SessionRepository_findAll_def SessionRepository_save_def
  SessionRepository_findByToken_def SessionRepository_deactivateAllForUser_def
  SessionRepository_deactivateByToken_def SessionRepository_deactivateExpired_def
  SessionRepository_remove_def MessageRepository_findById_def MessageRepository_findAll_def
  MessageRepository_save_def MessageRepository_findByRecipient_def
  MessageRepository_findAllForUser_def MessageRepository_findBySender_def
  MessageRepository_remove_def OfflineQueueRepository_findById_def
  OfflineQueueRepository_findAll_def OfflineQueueRepository_save_def
  OfflineQueueRepository_findUndeliveredByRecipient_def OfflineQueueRepository_markDelivered_def
  OfflineQueueRepository_incrementAttempts_def OfflineQueueRepository_cleanupDelivered_def
  OfflineQueueRepository_cleanupExhausted_def OfflineQueueRepository_remove_def
  PendingNotificationRepository_queue_def

section \<open>Integrity\<close>

named_theorems stmt_ok \<open>statements that keep the integrity of the tables\<close>

lemma user_insert_ok [stmt_ok]: "st_keeps db_ok (user_insert un ph pk)"
  unfolding st_keeps_def user_insert_def
  by (intro allI impI insert_row_ok) (auto simp: db_ok_def ok_defs key_defs)

lemma user_save_ok [stmt_ok]: "st_keeps db_ok (user_save_st u)"
  by (simp add: user_save_st_def user_insert_ok st_keeps_dml users_update_ok)

lemma user_touch_ok [stmt_ok]: "st_keeps db_ok (user_touch u)"
  by (simp add: user_touch_def st_keeps_dml users_update_ok)

lemma session_insert_ok [stmt_ok]: "st_keeps db_ok (session_insert uid tok)"
  unfolding st_keeps_def session_insert_def
  by (intro allI impI insert_row_ok) (auto simp: db_ok_def ok_defs key_defs)

lemma session_save_ok [stmt_ok]: "st_keeps db_ok (session_save_st s)"
  by (simp add: session_save_st_def session_insert_ok st_keeps_dml sessions_update_ok)

lemma session_deactivate_ok [stmt_ok]: "st_keeps db_ok (session_deactivate P)"
  by (simp add: session_deactivate_def st_keeps_dml sessions_update_ok)

lemma session_delete_ok [stmt_ok]: "st_keeps db_ok (session_delete i)"
  unfolding session_delete_def
  by (intro st_keeps_dml) (simp add: db_ok_def ok_defs key_defs distinct_map_delete_where)

lemma message_insert_ok [stmt_ok]: "st_keeps db_ok (message_insert m)"
  unfolding st_keeps_def message_insert_def
  by (intro allI impI insert_row_ok) (auto simp: db_ok_def ok_defs key_defs)

lemma message_save_ok [stmt_ok]: "st_keeps db_ok (message_save_st m)"
  using message_insert_ok by (simp add: message_save_st_def st_keeps_def messages_update_ok)

lemma queue_purge_ok [stmt_ok]: "st_keeps db_ok (queue_purge_between a b)"
  by (simp add: queue_purge_between_def st_keeps_dml queue_delete_ok)

lemma message_delete_ok [stmt_ok]: "st_keeps db_ok (message_delete_where P)"
  by (simp add: st_keeps_def message_delete_where_def db_ok_def ok_defs key_defs)
    (blast intro: image_split)

lemma queue_insert_ok [stmt_ok]: "st_keeps db_ok (queue_insert mid u)"
  unfolding st_keeps_def queue_insert_def
  by (intro allI impI insert_row_ok) (auto simp: db_ok_def ok_defs key_defs)

lemma queue_save_ok [stmt_ok]: "st_keeps db_ok (queue_save_st m)"
  by (simp add: queue_save_st_def queue_insert_ok st_keeps_dml queue_update_ok)

lemma queue_updates_ok [stmt_ok]:
  "st_keeps db_ok (queue_mark_delivered i)" "st_keeps db_ok (queue_increment i)"
  "st_keeps db_ok (queue_delete_where P)"
  by (simp_all add: queue_mark_delivered_def queue_increment_def queue_delete_where_def st_keeps_dml
      queue_update_ok queue_delete_ok)

lemma pending_insert_ok [stmt_ok]: "st_keeps db_ok (pending_insert u ty fu bd em pk)"
  unfolding st_keeps_def pending_insert_def
  by (intro allI impI insert_row_ok) (auto simp: db_ok_def ok_defs key_defs)

lemma pending_delete_st_ok [stmt_ok]: "st_keeps db_ok (pending_delete u)"
  unfolding pending_delete_def by (intro st_keeps_dml) (simp add: pending_delete_ok)

lemma user_delete_ok [stmt_ok]: "st_keeps db_ok (user_delete i)"
proof -
  have "db_ok (snd (user_delete i e n d))" if d: "db_ok d" for e n d
  proof (cases "fst (user_delete i e n d)")
    case (Inl m)
    then show ?thesis using d by (auto simp: user_delete_def Let_def split: if_splits)
  next
    case (Inr u)
    let ?names = "u_username ` set (filter (\<lambda>r. u_id r = i) (users d))"
    have keep: "x \<in> u_username ` {r \<in> set (users d). u_id r \<noteq> i}"
      if "x \<in> usernames d" "x \<notin> ?names" for x
      using that by (force simp: usernames_def)
    have keep_id: "x \<in> u_id ` {r \<in> set (users d). u_id r \<noteq> i}" if "x \<in> user_ids d" "x \<noteq> i" for x
      using that by (auto simp: user_ids_def)
    show ?thesis
      using Inr d
      by (simp add: user_delete_def Let_def split: if_splits)
        (simp add: db_ok_def ok_defs user_ids_def [of "_\<lparr>users := _, read_receipts := _\<rparr>"]
          usernames_def [of "_\<lparr>users := _, read_receipts := _\<rparr>"] message_ids_def group_ids_def
          gmessage_ids_def distinct_map_delete_where;
         fastforce intro: keep keep_id simp: user_ids_def)
  qed
  then show ?thesis by (simp add: st_keeps_def)
qed

named_theorems m_ok \<open>methods that are steps of the database layer\<close>

lemma message_select_user_ok [stmt_ok]: "st_keeps db_ok (message_select_user u ts)"
  by (simp add: message_select_user_def)

lemma queries_ok [stmt_ok]:
  "st_keeps db_ok (query q)" "st_keeps db_ok (query_cast q')"
  "st_keeps db_ok (user_select_id i)" "st_keeps db_ok user_select_all" "st_keeps db_ok (user_select_name u)"
  "st_keeps db_ok (session_select_id i)" "st_keeps db_ok session_select_all"
  "st_keeps db_ok (session_select_token u)"
  "st_keeps db_ok (message_select_id i)" "st_keeps db_ok message_select_all"
  "st_keeps db_ok (queue_select_id i)" "st_keeps db_ok queue_select_all"
  "st_keeps db_ok (queue_select_undelivered u)" "st_keeps db_ok (pending_select u)"
  by (simp_all add: stmt_defs)

lemma repositories_ok [m_ok]:
  "keeps db_step (UserRepository_findById i)"
  "keeps db_step UserRepository_findAll"
  "keeps db_step (UserRepository_save u)"
  "keeps db_step (UserRepository_updateLastSeen un)"
  "keeps db_step (UserRepository_findByUsername un)"
  "keeps db_step (UserRepository_remove i)"
  "keeps db_step (SessionRepository_findById i)"
  "keeps db_step SessionRepository_findAll"
  "keeps db_step (SessionRepository_save se)"
  "keeps db_step (SessionRepository_findByToken tok)"
  "keeps db_step (SessionRepository_deactivateAllForUser i)"
  "keeps db_step (SessionRepository_deactivateByToken tok)"
  "keeps db_step SessionRepository_deactivateExpired"
  "keeps db_step (SessionRepository_remove i)"
  "keeps db_step (MessageRepository_findById i)"
  "keeps db_step MessageRepository_findAll"
  "keeps db_step (MessageRepository_save m)"
  "keeps db_step (MessageRepository_findByRecipient un)"
  "keeps db_step (MessageRepository_findAllForUser un ts)"
  "keeps db_step (MessageRepository_findBySender un)"
  "keeps db_step (MessageRepository_remove i)"
  "keeps db_step (OfflineQueueRepository_findById i)"
  "keeps db_step OfflineQueueRepository_findAll"
  "keeps db_step (OfflineQueueRepository_save om)"
  "keeps db_step (OfflineQueueRepository_findUndeliveredByRecipient un)"
  "keeps db_step (OfflineQueueRepository_markDelivered i)"
  "keeps db_step (OfflineQueueRepository_incrementAttempts i)"
  "keeps db_step OfflineQueueRepository_cleanupDelivered"
  "keeps db_step OfflineQueueRepository_cleanupExhausted"
  "keeps db_step (OfflineQueueRepository_remove i)"
  "keeps db_step (PendingNotificationRepository_queue un ty fu bd em pk)"
  unfolding repo_defs by (intro repo_step st_keeps_void stmt_ok)+

lemma deleteConversation_ok [m_ok]:
  "keeps db_step (MessageRepository_deleteConversation a b)"
  unfolding MessageRepository_deleteConversation_def
  by (intro step_rules stmt_ok)

lemma findAndClear_ok [m_ok]:
  "keeps db_step (PendingNotificationRepository_findAndClear u)"
  unfolding PendingNotificationRepository_findAndClear_def
  by (intro step_rules stmt_ok)

section \<open>The contract of \<open>IRepository\<close>\<close>

text \<open>
  \<open>rows\<close> is what \<open>findAll\<close> returns.  Looking up a key finds exactly the entity of
  that key; a removal takes that entity away and no other; a new entity is appended under a
  fresh key; saving an existing one leaves the others alone.
\<close>

locale repository =
  fixes ident :: "'e \<Rightarrow> int"
    and visible :: "'e \<Rightarrow> bool"
    and rows :: "external \<Rightarrow> database \<Rightarrow> 'e list"
    and find_st :: "int \<Rightarrow> 'e option stmt"
    and all_st :: "'e list stmt"
    and save_st :: "'e \<Rightarrow> unit stmt"
    and remove_st :: "int \<Rightarrow> unit stmt"
  assumes all_rows: "all_st e n d = (Inr (rows e d), d)"
    and find_row: "db_ok d \<Longrightarrow> find_st i e n d = (Inr (find (\<lambda>x. ident x = i) (rows e d)), d)"
    and distinct_rows: "db_ok d \<Longrightarrow> distinct (map ident (rows e d))"
    and remove_rows:
      "remove_st i e n d = (Inr (), d') \<Longrightarrow> rows e' d' = filter (\<lambda>x. ident x \<noteq> i) (rows e' d)"
    and insert_rows:
      "db_ok d \<Longrightarrow> ident x = 0 \<Longrightarrow> visible x \<Longrightarrow> save_st x e n d = (Inr (), d') \<Longrightarrow>
         \<exists>y. rows e d' = rows e d @ [y] \<and> ident y \<notin> ident ` set (rows e d)"
    and update_rows:
      "ident x \<noteq> 0 \<Longrightarrow> save_st x e n d = (Inr (), d') \<Longrightarrow>
         \<exists>f. rows e d' = update_where (\<lambda>y. ident y = ident x) f (rows e d) \<and> (\<forall>y. ident (f y) = ident y)"
    and save_ok: "st_keeps db_ok (save_st x)"
    and remove_ok: "st_keeps db_ok (remove_st i)"
begin

lemma find_iff:
  assumes "db_ok d"
  shows "find_st i e n d = (Inr (Some x), d) \<longleftrightarrow> x \<in> set (rows e d) \<and> ident x = i"
  using find_row [OF assms] find_unique [OF distinct_rows [OF assms]]
  by (auto dest: find_SomeD)

lemma find_after_remove:
  assumes "db_ok d" "remove_st i e n d = (Inr (), d')"
  shows "find_st j e' n' d' = (if j = i then (Inr None, d') else (fst (find_st j e' n' d), d'))"
proof -
  have "db_ok d'" using assms st_keepsD [OF remove_ok] by blast
  moreover have "find (\<lambda>x. ident x = j) (filter (\<lambda>x. ident x \<noteq> i) xs) =
      (if j = i then None else find (\<lambda>x. ident x = j) xs)" for xs
    by (induction xs) auto
  ultimately show ?thesis
    using find_row assms by (simp add: remove_rows [OF assms(2)])
qed

lemma find_after_insert:
  assumes "db_ok d" "ident x = 0" "visible x" "save_st x e n d = (Inr (), d')"
    and "find_st j e n' d = (Inr (Some y), d)"
  shows "find_st j e n'' d' = (Inr (Some y), d')"
proof -
  have d': "db_ok d'" using assms(1,4) st_keepsD [OF save_ok] by blast
  show ?thesis
    using insert_rows [OF assms(1-4)] assms(5) d' find_row [OF assms(1)]
    by (auto simp: find_row find_append)
qed

lemma find_after_update:
  assumes "db_ok d" "ident x \<noteq> 0" "save_st x e n d = (Inr (), d')" "j \<noteq> ident x"
  shows "fst (find_st j e n' d') = fst (find_st j e n' d)"
proof -
  have d': "db_ok d'" using assms(1,3) st_keepsD [OF save_ok] by blast
  obtain f where f: "rows e d' = update_where (\<lambda>y. ident y = ident x) f (rows e d)" "\<And>y. ident (f y) = ident y"
    using update_rows [OF assms(2,3)] by blast
  then have "find (\<lambda>y. ident y = j) (rows e d') = find (\<lambda>y. ident y = j) (rows e d)"
    using assms(4) find_SomeD [of "\<lambda>y. ident y = j" "rows e d"]
    by (cases "find (\<lambda>y. ident y = j) (rows e d)") (auto simp: find_update_where_key)
  then show ?thesis using assms(1) d' by (simp add: find_row)
qed

end

lemma fetch_one_find:
  assumes "distinct (map k rs)" "\<And>r. ident (conv r) = k r"
  shows "fetch_one key conv (find (\<lambda>r. k r = i) rs) = find (\<lambda>x. ident x = i) (fetch_all key conv rs)"
  using assms
proof (induction rs)
  case (Cons r rs)
  have "find (\<lambda>x. ident x = i) (fetch_all key conv rs) = None" if "k r = i"
    using Cons.prems that by (auto simp: find_None_set fetch_all_def image_iff)
  then show ?case using Cons by (auto simp: fetch_one_def fetch_all_def)
qed (simp_all add: fetch_one_def fetch_all_def)

lemma distinct_fetch_all:
  "distinct (map k rs) \<Longrightarrow> (\<And>r. ident (conv r) = k r) \<Longrightarrow> distinct (map ident (fetch_all key conv rs))"
  by (simp add: fetch_all_def comp_def distinct_map_filter)

lemma fetch_all_delete_where:
  "(\<And>r. ident (conv r) = k r) \<Longrightarrow>
    fetch_all key conv (delete_where (\<lambda>r. k r = i) rs) = filter (\<lambda>x. ident x \<noteq> i) (fetch_all key conv rs)"
  by (simp add: fetch_all_def delete_where_def filter_map comp_def conj_commute)

lemma fetch_all_update_where:
  "(\<And>r. ident (conv r) = k r) \<Longrightarrow> (\<And>r. key (f r) = key r) \<Longrightarrow> (\<And>r. conv (f r) = g (conv r)) \<Longrightarrow>
    fetch_all key conv (update_where (\<lambda>r. k r = i) f rs) =
      update_where (\<lambda>x. ident x = i) g (fetch_all key conv rs)"
  by (induction rs) (auto simp: fetch_all_def)

lemma fetch_all_snoc [simp]:
  "fetch_all key conv (rs @ [r]) = fetch_all key conv rs @ (if key r = [] then [] else [conv r])"
  by (simp add: fetch_all_def)

lemma fetch_all_fresh:
  "keyed k n rs \<Longrightarrow> (\<And>r. ident (conv r) = k r) \<Longrightarrow> n \<notin> ident ` set (fetch_all key conv rs)"
  by (auto simp: keyed_def fetch_all_def)

lemma keyed_distinct: "keyed k n rs \<Longrightarrow> distinct (map k rs)"
  by (simp add: keyed_def)

lemmas fetch_laws = fetch_one_find distinct_fetch_all fetch_all_delete_where fetch_all_snoc
  fetch_all_fresh keyed_distinct

lemma void_st_Inr: "void_st st e n d = (Inr (), d') \<longleftrightarrow> (\<exists>x. st e n d = (Inr x, d'))"
  by (cases "st e n d"; cases "fst (st e n d)") (auto simp: void_st_def)

lemma void_st_Inl: "void_st st e n d = (Inl m, d') \<longleftrightarrow> st e n d = (Inl m, d')"
  by (cases "st e n d"; cases "fst (st e n d)") (auto simp: void_st_def)

lemma insert_row_Inl:
  "insert_row t cs up mk d = (Inl m, d') \<longleftrightarrow>
     first_violation cs = Some m \<and> d' = d\<lparr>seqs := (seqs d)(t := seqs d t + 1)\<rparr>"
  by (auto simp: insert_row_def Let_def split: option.splits)

lemma insert_row_Inr:
  "insert_row t cs up mk d = (Inr i, d') \<longleftrightarrow>
     i = seqs d t \<and> first_violation cs = None
     \<and> d' = up (\<lambda>rs. rs @ [mk i]) (d\<lparr>seqs := (seqs d)(t := seqs d t + 1)\<rparr>)"
  by (auto simp: insert_row_def Let_def split: option.splits)

lemmas st_results = void_st_Inr void_st_Inl insert_row_Inl insert_row_Inr dml_eq query_eq

interpretation user_repo: repository us_id "\<lambda>u. us_username u \<noteq> []"
  "\<lambda>e d. fetch_all u_username (rowToUser e) (users d)"
  user_select_id user_select_all user_save_st user_delete
proof unfold_locales
  show "user_select_id i e n d =
      (Inr (find (\<lambda>x. us_id x = i) (fetch_all u_username (rowToUser e) (users d))), d)"
    if "db_ok d" for i e n d
    using db_okD(1) [OF that]
    by (auto simp: user_select_id_def query_def users_ok_def rowToUser_def intro!: fetch_one_find keyed_distinct)
  show "distinct (map us_id (fetch_all u_username (rowToUser e) (users d)))" if "db_ok d" for e d
    using db_okD(1) [OF that] by (auto simp: users_ok_def rowToUser_def intro!: distinct_fetch_all [where k = u_id] intro: keyed_distinct)
  show "\<exists>y. fetch_all u_username (rowToUser e) (users d') = fetch_all u_username (rowToUser e) (users d) @ [y]
        \<and> us_id y \<notin> us_id ` set (fetch_all u_username (rowToUser e) (users d))"
    if "db_ok d" "us_id x = 0" "us_username x \<noteq> []" "user_save_st x e n d = (Inr (), d')" for e n d d' x
    using db_okD(1) [OF that(1)] that(2-) fetch_all_fresh [of u_id _ "users d" us_id "rowToUser e"]
    by (auto simp: user_save_st_def user_insert_def void_st_Inr insert_row_Inr users_ok_def rowToUser_def)
  show "\<exists>f. fetch_all u_username (rowToUser e) (users d')
          = update_where (\<lambda>y. us_id y = us_id x) f (fetch_all u_username (rowToUser e) (users d))
        \<and> (\<forall>y. us_id (f y) = us_id y)"
    if "us_id x \<noteq> 0" "user_save_st x e n d = (Inr (), d')" for e n d d' x
    using that
    by (intro exI [of _ "\<lambda>y. y\<lparr>us_publicKey := us_publicKey x, us_lastSeen := ts_text e n\<rparr>"])
      (auto simp: user_save_st_def dml_def rowToUser_def intro!: fetch_all_update_where)
qed (auto simp: user_select_all_def query_def user_save_ok user_delete_ok user_delete_def Let_def rowToUser_def
    intro!: fetch_all_delete_where split: if_splits)

interpretation session_repo: repository se_id "\<lambda>s. se_sessionToken s \<noteq> []"
  "\<lambda>e d. fetch_all s_session_token (rowToSession e) (sessions d)"
  session_select_id session_select_all session_save_st session_delete
proof unfold_locales
  show "session_select_id i e n d =
      (Inr (find (\<lambda>x. se_id x = i) (fetch_all s_session_token (rowToSession e) (sessions d))), d)"
    if "db_ok d" for i e n d
    using db_okD(2) [OF that]
    by (auto simp: session_select_id_def query_def sessions_ok_def rowToSession_def intro!: fetch_one_find keyed_distinct)
  show "distinct (map se_id (fetch_all s_session_token (rowToSession e) (sessions d)))" if "db_ok d" for e d
    using db_okD(2) [OF that]
    by (auto simp: sessions_ok_def rowToSession_def intro!: distinct_fetch_all [where k = s_id] intro: keyed_distinct)
  show "\<exists>y. fetch_all s_session_token (rowToSession e) (sessions d')
          = fetch_all s_session_token (rowToSession e) (sessions d) @ [y]
        \<and> se_id y \<notin> se_id ` set (fetch_all s_session_token (rowToSession e) (sessions d))"
    if "db_ok d" "se_id x = 0" "se_sessionToken x \<noteq> []" "session_save_st x e n d = (Inr (), d')" for e n d d' x
    using db_okD(2) [OF that(1)] that(2-) fetch_all_fresh [of s_id _ "sessions d" se_id "rowToSession e"]
    by (auto simp: session_save_st_def session_insert_def void_st_Inr insert_row_Inr sessions_ok_def
        rowToSession_def)
  show "\<exists>f. fetch_all s_session_token (rowToSession e) (sessions d')
          = update_where (\<lambda>y. se_id y = se_id x) f (fetch_all s_session_token (rowToSession e) (sessions d))
        \<and> (\<forall>y. se_id (f y) = se_id y)"
    if "se_id x \<noteq> 0" "session_save_st x e n d = (Inr (), d')" for e n d d' x
    using that
    by (intro exI [of _ "\<lambda>y. y\<lparr>se_isActive := se_isActive x\<rparr>"])
      (auto simp: session_save_st_def dml_def rowToSession_def intro!: fetch_all_update_where)
qed (auto simp: session_select_all_def query_def session_save_ok session_delete_def dml_def rowToSession_def
    intro!: fetch_all_delete_where session_delete_ok [unfolded session_delete_def])

interpretation message_repo: repository ms_id "\<lambda>m. ms_sender m \<noteq> []"
  "\<lambda>e d. fetch_all m_sender (rowToMessage e) (messages d)"
  message_select_id message_select_all message_save_st "\<lambda>i. message_delete_where (\<lambda>r. m_id r = i)"
proof unfold_locales
  show "message_select_id i e n d =
      (Inr (find (\<lambda>x. ms_id x = i) (fetch_all m_sender (rowToMessage e) (messages d))), d)"
    if "db_ok d" for i e n d
    using db_okD(3) [OF that]
    by (auto simp: message_select_id_def query_def messages_ok_def rowToMessage_def intro!: fetch_one_find keyed_distinct)
  show "distinct (map ms_id (fetch_all m_sender (rowToMessage e) (messages d)))" if "db_ok d" for e d
    using db_okD(3) [OF that]
    by (auto simp: messages_ok_def rowToMessage_def intro!: distinct_fetch_all [where k = m_id] intro: keyed_distinct)
  show "\<exists>y. fetch_all m_sender (rowToMessage e) (messages d') = fetch_all m_sender (rowToMessage e) (messages d) @ [y]
        \<and> ms_id y \<notin> ms_id ` set (fetch_all m_sender (rowToMessage e) (messages d))"
    if "db_ok d" "ms_id x = 0" "ms_sender x \<noteq> []" "message_save_st x e n d = (Inr (), d')" for e n d d' x
    using db_okD(3) [OF that(1)] that(2-) fetch_all_fresh [of m_id _ "messages d" ms_id "rowToMessage e"]
    by (auto simp: message_save_st_def message_insert_def void_st_Inr insert_row_Inr messages_ok_def
        rowToMessage_def)
  show "\<exists>f. fetch_all m_sender (rowToMessage e) (messages d')
          = update_where (\<lambda>y. ms_id y = ms_id x) f (fetch_all m_sender (rowToMessage e) (messages d))
        \<and> (\<forall>y. ms_id (f y) = ms_id y)"
    if "ms_id x \<noteq> 0" "message_save_st x e n d = (Inr (), d')" for e n d d' x
    using that
    by (intro exI [of _ "\<lambda>y. y\<lparr>ms_status := ms_status x\<rparr>"])
      (auto simp: message_save_st_def rowToMessage_def intro!: fetch_all_update_where split: if_splits)
qed (auto simp: message_select_all_def query_def message_save_ok message_delete_ok message_delete_where_def
    rowToMessage_def intro!: fetch_all_delete_where split: if_splits)

interpretation queue_repo: repository om_id "\<lambda>m. om_recipient m \<noteq> []"
  "\<lambda>e d. fetch_all o_recipient (rowToOfflineMessage e) (offline_queue d)"
  queue_select_id queue_select_all queue_save_st "\<lambda>i. queue_delete_where (\<lambda>n r. o_id r = i)"
proof unfold_locales
  show "queue_select_id i e n d =
      (Inr (find (\<lambda>x. om_id x = i) (fetch_all o_recipient (rowToOfflineMessage e) (offline_queue d))), d)"
    if "db_ok d" for i e n d
    using db_okD(4) [OF that]
    by (auto simp: queue_select_id_def query_def queue_ok_def rowToOfflineMessage_def intro!: fetch_one_find keyed_distinct)
  show "distinct (map om_id (fetch_all o_recipient (rowToOfflineMessage e) (offline_queue d)))"
    if "db_ok d" for e d
    using db_okD(4) [OF that]
    by (auto simp: queue_ok_def rowToOfflineMessage_def intro!: distinct_fetch_all [where k = o_id] intro: keyed_distinct)
  show "\<exists>y. fetch_all o_recipient (rowToOfflineMessage e) (offline_queue d')
          = fetch_all o_recipient (rowToOfflineMessage e) (offline_queue d) @ [y]
        \<and> om_id y \<notin> om_id ` set (fetch_all o_recipient (rowToOfflineMessage e) (offline_queue d))"
    if "db_ok d" "om_id x = 0" "om_recipient x \<noteq> []" "queue_save_st x e n d = (Inr (), d')" for e n d d' x
    using db_okD(4) [OF that(1)] that(2-)
      fetch_all_fresh [of o_id _ "offline_queue d" om_id "rowToOfflineMessage e"]
    by (auto simp: queue_save_st_def queue_insert_def void_st_Inr insert_row_Inr queue_ok_def
        rowToOfflineMessage_def)
  show "\<exists>f. fetch_all o_recipient (rowToOfflineMessage e) (offline_queue d')
          = update_where (\<lambda>y. om_id y = om_id x) f
              (fetch_all o_recipient (rowToOfflineMessage e) (offline_queue d))
        \<and> (\<forall>y. om_id (f y) = om_id y)"
    if "om_id x \<noteq> 0" "queue_save_st x e n d = (Inr (), d')" for e n d d' x
    using that
    by (intro exI [of _ "\<lambda>y. y\<lparr>om_delivered := om_delivered x, om_deliveryAttempts := om_deliveryAttempts x\<rparr>"])
      (auto simp: queue_save_st_def dml_def rowToOfflineMessage_def intro!: fetch_all_update_where)
qed (auto simp: queue_select_all_def query_def queue_save_ok queue_delete_where_def dml_def
    rowToOfflineMessage_def
    intro!: fetch_all_delete_where queue_updates_ok(3) [unfolded queue_delete_where_def])

section \<open>What the methods guarantee\<close>

lemma wp_remove_find:
  assumes "db_ok (db s)"
    and "\<And>e n d d' e' n'. db_ok d \<Longrightarrow> rm e n d = (Inr (), d') \<Longrightarrow> fnd e' n' d' = (Inr None, d')"
  shows "wp (bnd (repo c rm) (\<lambda>_. repo c' fnd)) (\<lambda>r _. r = None) (\<lambda>_ _. True) s"
  by (rule wpI) (use assms in \<open>auto dest!: bnd_InrD repo_InrD\<close>)

text \<open>
  \<open>remove\<close> and \<open>findById\<close> agree in all four repositories: after a removal returns,
  looking the removed key up finds nothing, whatever the clock and later faults.
\<close>

theorem remove_then_findById:
  assumes "db_ok (db s)"
  shows "wp (bnd (UserRepository_remove i) (\<lambda>_. UserRepository_findById i)) (\<lambda>r _. r = None) (\<lambda>_ _. True) s
    \<and> wp (bnd (SessionRepository_remove i) (\<lambda>_. SessionRepository_findById i)) (\<lambda>r _. r = None) (\<lambda>_ _. True) s
    \<and> wp (bnd (MessageRepository_remove i) (\<lambda>_. MessageRepository_findById i)) (\<lambda>r _. r = None) (\<lambda>_ _. True) s
    \<and> wp (bnd (OfflineQueueRepository_remove i) (\<lambda>_. OfflineQueueRepository_findById i))
        (\<lambda>r _. r = None) (\<lambda>_ _. True) s"
  unfolding repo_defs
  by (intro conjI wp_remove_find [OF assms])
    (simp_all add: user_repo.find_after_remove session_repo.find_after_remove
      message_repo.find_after_remove queue_repo.find_after_remove)

text \<open>Applied: bob's queue entry is removed and then not found.\<close>

lemma remove_then_findById_witness:
  "wp (bnd (OfflineQueueRepository_remove 1) (\<lambda>_. OfflineQueueRepository_findById 1))
        (\<lambda>r _. r = None) (\<lambda>_ _. True) example_state
   \<and> offline_queue (db (snd (OfflineQueueRepository_remove 1 example_state))) = []"
  using remove_then_findById [OF example_state_ok, of 1]
  by (simp add: OfflineQueueRepository_remove_def repo_def wrap_db_def catch_if_def bnd_def
      DbManager_session_def sql_def queue_delete_where_def dml_def example_state_def example_world_def
      example_ext_def example_db_def tick_def delete_where_def)

text \<open>
  C38. Deleting a conversation is atomic and exact.  When it returns, the messages between the two
  users (in either direction) are gone together with their queue entries and nothing else
  changed; when it throws, it throws a \<open>DbException\<close> and no table changed at all.
\<close>

theorem deleteConversation_exact:
  "case MessageRepository_deleteConversation a b s of
     (Inr _, s') \<Rightarrow>
       db s' = (db s)\<lparr>messages := filter (\<lambda>r. \<not> between a b r) (messages (db s)),
                     offline_queue :=
                       filter (\<lambda>q. o_message_id q \<notin> m_id ` set (filter (between a b) (messages (db s))))
                         (offline_queue (db s))\<rparr>
   | (Inl e, s') \<Rightarrow> db s' = db s \<and> is_Db e"
proof -
  have "wp (MessageRepository_deleteConversation a b)
     (\<lambda>_ s'. db s' = (db s)\<lparr>messages := filter (\<lambda>r. \<not> between a b r) (messages (db s)),
                     offline_queue :=
                       filter (\<lambda>q. o_message_id q \<notin> m_id ` set (filter (between a b) (messages (db s))))
                         (offline_queue (db s))\<rparr>)
     (\<lambda>e s'. db s' = db s \<and> is_Db e) s"
    by (simp add: MessageRepository_deleteConversation_def wrap_db_def wp dml_def queue_purge_between_def
        message_delete_where_def delete_where_def comp_def split: option.splits)
  then show ?thesis by (simp only: wp_def)
qed

text \<open>
  Pending notifications are handed out once: a call that returns yields the recipient's rows
  in order of creation and removes exactly those, so a second call yields nothing.
\<close>

lemma findAndClear_once:
  "case PendingNotificationRepository_findAndClear u s of
     (Inr ns, s') \<Rightarrow>
       ns = map rowToPending (filter (\<lambda>r. pn_id r \<noteq> 0)
              (sort_key pn_created_at (filter (\<lambda>r. pn_recipient r = u) (pending (db s)))))
       \<and> db s' = (db s)\<lparr>pending := filter (\<lambda>r. pn_recipient r \<noteq> u) (pending (db s))\<rparr>
       \<and> (case PendingNotificationRepository_findAndClear u s' of
            (Inr ns', s'') \<Rightarrow> ns' = [] \<and> db s'' = db s' | (Inl e, s'') \<Rightarrow> db s'' = db s')
   | (Inl e, s') \<Rightarrow> db s' = db s"
proof -
  have once: "wp (PendingNotificationRepository_findAndClear u)
     (\<lambda>ns s'. ns = map rowToPending (filter (\<lambda>r. pn_id r \<noteq> 0)
              (sort_key pn_created_at (filter (\<lambda>r. pn_recipient r = u) (pending (db s)))))
       \<and> db s' = (db s)\<lparr>pending := filter (\<lambda>r. pn_recipient r \<noteq> u) (pending (db s))\<rparr>)
     (\<lambda>e s'. db s' = db s) s" for s
    by (simp add: PendingNotificationRepository_findAndClear_def wrap_db_def wp dml_def query_def
        pending_select_def pending_delete_def delete_where_def split: option.splits)
  obtain r s' where r: "PendingNotificationRepository_findAndClear u s = (r, s')" by force
  show ?thesis
  proof (cases r)
    case (Inr ns)
    with r once [of s] have "pending (db s') = filter (\<lambda>r. pn_recipient r \<noteq> u) (pending (db s))"
      by (simp add: wp_def)
    then show ?thesis
      using r Inr once [of s] once [of s']
      by (auto simp: wp_def split: prod.splits sum.splits)
  qed (use r once [of s] in \<open>simp add: wp_def\<close>)
qed

text \<open>
  A token is accepted only while its session is live: \<open>findByToken\<close> returns a session
  exactly when a row with that token is active and not yet expired, and then it returns that row.
\<close>

lemma findByToken_live:
  assumes "tok \<noteq> []" "SessionRepository_findByToken tok s = (Inr r, s')" "now = db_now (ext s) (Suc (clock s))"
  shows "case r of
      Some se \<Rightarrow> (\<exists>x \<in> set (sessions (db s)). s_session_token x = tok \<and> s_is_active x
        \<and> now < s_expires_at x \<and> se = rowToSession (ext s) x)
    | None \<Rightarrow> \<not> (\<exists>x \<in> set (sessions (db s)). s_session_token x = tok \<and> s_is_active x \<and> now < s_expires_at x)"
proof -
  have "r = fetch_one s_session_token (rowToSession (ext s))
      (find (\<lambda>r. s_session_token r = tok \<and> s_is_active r \<and> now < s_expires_at r) (sessions (db s)))"
    using repo_InrD_at [OF assms(2) [unfolded SessionRepository_findByToken_def]]
    by (auto simp: session_select_token_def query_def session_live_def assms(3))
  then show ?thesis
    using assms(1) by (auto simp: fetch_one_def find_None_set dest!: find_SomeD split: option.splits)
qed

text \<open>An instance: alice's token is live at tick 0 and is found.\<close>

lemma findByToken_live_witness:
  "fst (SessionRepository_findByToken ''ta'' example_state) =
     Inr (Some (rowToSession example_ext (hd (sessions example_db))))"
proof -
  have run: "\<exists>s'. SessionRepository_findByToken ''ta'' example_state =
      (Inr (Some (rowToSession example_ext (hd (sessions example_db)))), s')"
    by (simp add: SessionRepository_findByToken_def repo_def wrap_db_def catch_if_def bnd_def
        DbManager_session_def sql_def session_select_token_def query_def fetch_one_def session_live_def
        example_state_def example_world_def example_ext_def example_db_def tick_def)
  then obtain s' where s': "SessionRepository_findByToken ''ta'' example_state =
      (Inr (Some (rowToSession example_ext (hd (sessions example_db)))), s')" ..
  from findByToken_live [OF _ s' refl] s' show ?thesis by simp
qed

end
