(* ===== verification/GroupRepository.thy ===== *)
theory GroupRepository
  imports Repositories
begin

text \<open>
  \<open>GroupRepository\<close>: groups, members with their roles, wrapped group keys, group messages and
  the per-member receipts.  The statements that the handlers issue themselves, on
  \<open>offline_read_receipts\<close> and \<open>DELETE FROM groups\<close> with its cascade, are here too.
\<close>

section \<open>Rows handed to the handlers\<close>

record GroupInfo =
  gi_id :: int
  gi_name :: string
  gi_creator :: string

record GroupMember =
  gb_groupId :: int
  gb_username :: string
  gb_role :: string

record GroupMessageRow =
  gr_groupId :: int
  gr_sender :: string
  gr_encryptedBody :: string
  gr_timestamp :: string

section \<open>Groups and members\<close>

definition group_insert :: "string \<Rightarrow> string \<Rightarrow> int stmt" where
  "group_insert name creator e n d =
     insert_row T_groups
       [(\<not> varchar_fits e 128 name \<or> \<not> varchar_fits e 64 creator, too_long),
        (creator \<notin> usernames d, no_parent)]
       groups_update (\<lambda>i. \<lparr>g_id = i, g_name = name, g_creator = creator\<rparr>) d"

definition GroupRepository_createGroup :: "string \<Rightarrow> string \<Rightarrow> int W" where
  "GroupRepository_createGroup name creator =
     repo ''GroupRepository::createGroup'' (group_insert name creator)"

definition group_select :: "int \<Rightarrow> GroupInfo option stmt" where
  "group_select g =
     query (\<lambda>e n d. fetch_one g_name (\<lambda>r. \<lparr>gi_id = g_id r, gi_name = g_name r, gi_creator = g_creator r\<rparr>)
       (find (\<lambda>r. g_id r = g) (groups d)))"

definition GroupRepository_findGroupById :: "int \<Rightarrow> GroupInfo option W" where
  "GroupRepository_findGroupById g = repo ''GroupRepository::findGroupById'' (group_select g)"

definition member_at :: "int \<Rightarrow> string \<Rightarrow> members_row \<Rightarrow> bool" where
  "member_at g u r \<longleftrightarrow> mb_group_id r = g \<and> mb_username r = u"

text \<open>
  \<open>INSERT \<dots> ON CONFLICT (group_id, username) DO UPDATE SET role = EXCLUDED.role\<close>: the
  checks are made on the proposed row, the references only for a row that is really inserted.
\<close>

definition member_upsert :: "int \<Rightarrow> string \<Rightarrow> string \<Rightarrow> unit stmt" where
  "member_upsert g u role e n d =
     (if \<not> varchar_fits e 64 u \<or> \<not> varchar_fits e 16 role then (Inl too_long, d)
      else if \<not> valid_role role then (Inl bad_check, d)
      else if \<exists>r \<in> set (group_members d). member_at g u r
        then (Inr (), group_members_update (update_where (member_at g u) (\<lambda>r. r\<lparr>mb_role := role\<rparr>)) d)
      else if g \<notin> group_ids d \<or> u \<notin> usernames d then (Inl no_parent, d)
      else (Inr (), group_members_update
             (\<lambda>rs. rs @ [\<lparr>mb_group_id = g, mb_username = u, mb_role = role, mb_joined_at = n\<rparr>]) d))"

definition GroupRepository_addMember :: "int \<Rightarrow> string \<Rightarrow> string \<Rightarrow> unit W" where
  "GroupRepository_addMember g u role = repo ''GroupRepository::addMember'' (member_upsert g u role)"

definition key_at :: "int \<Rightarrow> string \<Rightarrow> keys_row \<Rightarrow> bool" where
  "key_at g u r \<longleftrightarrow> gk_group_id r = g \<and> gk_username r = u"

definition key_delete :: "(keys_row \<Rightarrow> bool) \<Rightarrow> unit stmt" where
  "key_delete P = dml (\<lambda>e n. group_keys_update (delete_where P))"

definition member_delete :: "int \<Rightarrow> string \<Rightarrow> unit stmt" where
  "member_delete g u = dml (\<lambda>e n. group_members_update (delete_where (member_at g u)))"

definition GroupRepository_removeMember :: "int \<Rightarrow> string \<Rightarrow> unit W" where
  "GroupRepository_removeMember g u =
     wrap_db ''GroupRepository::removeMember''
       (bnd DbManager_session (\<lambda>_. bnd (sql (key_delete (key_at g u))) (\<lambda>_. sql (member_delete g u))))"

definition members_of :: "int \<Rightarrow> database \<Rightarrow> members_row list" where
  "members_of g d = sort_key mb_joined_at (filter (\<lambda>r. mb_group_id r = g) (group_members d))"

definition member_select :: "int \<Rightarrow> GroupMember list stmt" where
  "member_select g =
     query (\<lambda>e n d. fetch_all mb_username
       (\<lambda>r. \<lparr>gb_groupId = g, gb_username = mb_username r, gb_role = mb_role r\<rparr>) (members_of g d))"

definition GroupRepository_getMembers :: "int \<Rightarrow> GroupMember list W" where
  "GroupRepository_getMembers g = repo ''GroupRepository::getMembers'' (member_select g)"

text \<open>The role of a user in a group; the empty string for a user who is not a member.\<close>

definition role_of :: "int \<Rightarrow> string \<Rightarrow> database \<Rightarrow> string" where
  "role_of g u d = (case find (member_at g u) (group_members d) of None \<Rightarrow> [] | Some r \<Rightarrow> mb_role r)"

definition GroupRepository_getMemberRole :: "int \<Rightarrow> string \<Rightarrow> string W" where
  "GroupRepository_getMemberRole g u =
     repo ''GroupRepository::getMemberRole'' (query (\<lambda>e n d. role_of g u d))"

definition GroupRepository_memberCount :: "int \<Rightarrow> int W" where
  "GroupRepository_memberCount g =
     repo ''GroupRepository::memberCount''
       (query (\<lambda>e n d. int (length (filter (\<lambda>r. mb_group_id r = g) (group_members d)))))"

definition role_update :: "int \<Rightarrow> string \<Rightarrow> string \<Rightarrow> unit stmt" where
  "role_update g u role e n d =
     (if (\<exists>r \<in> set (group_members d). member_at g u r) \<and> \<not> varchar_fits e 16 role then (Inl too_long, d)
      else if (\<exists>r \<in> set (group_members d). member_at g u r) \<and> \<not> valid_role role then (Inl bad_check, d)
      else (Inr (), group_members_update (update_where (member_at g u) (\<lambda>r. r\<lparr>mb_role := role\<rparr>)) d))"

definition GroupRepository_updateRole :: "int \<Rightarrow> string \<Rightarrow> string \<Rightarrow> unit W" where
  "GroupRepository_updateRole g u role = repo ''GroupRepository::updateRole'' (role_update g u role)"

section \<open>Keys\<close>

definition key_insert :: "int \<Rightarrow> string \<Rightarrow> string \<Rightarrow> unit stmt" where
  "key_insert g u k e n d =
     (if \<not> varchar_fits e 64 u then (Inl too_long, d)
      else if \<exists>r \<in> set (group_keys d). key_at g u r then (Inl not_unique, d)
      else if g \<notin> group_ids d \<or> u \<notin> usernames d then (Inl no_parent, d)
      else (Inr (), group_keys_update
             (\<lambda>rs. rs @ [\<lparr>gk_group_id = g, gk_username = u, gk_encrypted_aes_key = k\<rparr>]) d))"

definition key_upsert :: "int \<Rightarrow> string \<Rightarrow> string \<Rightarrow> unit stmt" where
  "key_upsert g u k e n d =
     (if varchar_fits e 64 u \<and> (\<exists>r \<in> set (group_keys d). key_at g u r)
      then (Inr (), group_keys_update (update_where (key_at g u) (\<lambda>r. r\<lparr>gk_encrypted_aes_key := k\<rparr>)) d)
      else key_insert g u k e n d)"

definition GroupRepository_saveKey :: "int \<Rightarrow> string \<Rightarrow> string \<Rightarrow> unit W" where
  "GroupRepository_saveKey g u k = repo ''GroupRepository::saveKey'' (key_upsert g u k)"

definition GroupRepository_replaceAllKeys :: "int \<Rightarrow> (string \<times> string) list \<Rightarrow> unit W" where
  "GroupRepository_replaceAllKeys g pairs =
     wrap_db ''GroupRepository::replaceAllKeys''
       (bnd DbManager_session (\<lambda>_. transaction
         (bnd (sql (key_delete (\<lambda>r. gk_group_id r = g)))
           (\<lambda>_. for_each (\<lambda>p. sql (key_insert g (fst p) (snd p))) pairs))))"

definition key_select :: "int \<Rightarrow> string \<Rightarrow> string option stmt" where
  "key_select g u =
     query (\<lambda>e n d. fetch_one gk_encrypted_aes_key gk_encrypted_aes_key (find (key_at g u) (group_keys d)))"

definition GroupRepository_getKey :: "int \<Rightarrow> string \<Rightarrow> string option W" where
  "GroupRepository_getKey g u = repo ''GroupRepository::getKey'' (key_select g u)"

section \<open>Messages and receipts\<close>

definition gmessage_insert :: "int \<Rightarrow> string \<Rightarrow> string \<Rightarrow> string \<Rightarrow> int stmt" where
  "gmessage_insert g u body ts e n d =
     insert_row T_group_messages
       [(ts_parse e ts = None, ''invalid_datetime_format''),
        (\<not> varchar_fits e 64 u, too_long),
        (g \<notin> group_ids d \<or> u \<notin> usernames d, no_parent)]
       group_messages_update
       (\<lambda>i. \<lparr>x_id = i, x_group_id = g, x_sender = u, x_encrypted_body = body,
             x_timestamp = the (ts_parse e ts)\<rparr>) d"

definition GroupRepository_saveMessage :: "int \<Rightarrow> string \<Rightarrow> string \<Rightarrow> string \<Rightarrow> int W" where
  "GroupRepository_saveMessage g u body ts =
     repo ''GroupRepository::saveMessage'' (gmessage_insert g u body ts)"

text \<open>The join of messages with the reader's memberships, oldest first.\<close>

definition gmessages_joined :: "string \<Rightarrow> (gmessages_row \<Rightarrow> bool) \<Rightarrow> database \<Rightarrow> gmessages_row list" where
  "gmessages_joined u P d =
     sort_key x_timestamp
       [gm. gm \<leftarrow> group_messages d, m \<leftarrow> group_members d,
            mb_group_id m = x_group_id gm \<and> mb_username m = u \<and> P gm]"

definition rowToGroupMessage :: "external \<Rightarrow> gmessages_row \<Rightarrow> GroupMessageRow" where
  "rowToGroupMessage e r =
     \<lparr>gr_groupId = x_group_id r, gr_sender = x_sender r, gr_encryptedBody = x_encrypted_body r,
      gr_timestamp = ts_iso e (x_timestamp r)\<rparr>"

definition gmessage_select :: "string \<Rightarrow> string \<Rightarrow> GroupMessageRow list stmt" where
  "gmessage_select u ts =
     (if ts = [] then query (\<lambda>e n d. fetch_all x_sender (rowToGroupMessage e) (gmessages_joined u (\<lambda>_. True) d))
      else query_cast (\<lambda>e n d. map_option
             (\<lambda>t. fetch_all x_sender (rowToGroupMessage e) (gmessages_joined u (\<lambda>gm. t < x_timestamp gm) d))
             (ts_parse e ts)))"

definition GroupRepository_findMessagesForUserSince :: "string \<Rightarrow> string \<Rightarrow> GroupMessageRow list W" where
  "GroupRepository_findMessagesForUserSince u ts =
     repo ''GroupRepository::findMessagesForUserSince'' (gmessage_select u ts)"

definition receipt_insert :: "int \<Rightarrow> string \<Rightarrow> unit stmt" where
  "receipt_insert mid u e n d =
     (if \<exists>r \<in> set (receipts d). rc_message_id r = mid \<and> rc_username r = u then (Inr (), d)
      else if mid \<notin> gmessage_ids d then (Inl no_parent, d)
      else (Inr (), receipts_update
             (\<lambda>rs. rs @ [\<lparr>rc_message_id = mid, rc_username = u, rc_delivered_at = None, rc_seen_at = None\<rparr>]) d))"

definition GroupRepository_insertReceiptRows :: "int \<Rightarrow> string list \<Rightarrow> unit W" where
  "GroupRepository_insertReceiptRows mid us =
     wrap_db ''GroupRepository::insertReceiptRows''
       (bnd DbManager_session (\<lambda>_. for_each (\<lambda>u. sql (receipt_insert mid u)) us))"

text \<open>The group messages a receipt names by the canonical text of their timestamp.\<close>

definition gmessages_at :: "external \<Rightarrow> int \<Rightarrow> string \<Rightarrow> database \<Rightarrow> gmessages_row list" where
  "gmessages_at e g ts d = filter (\<lambda>gm. x_group_id gm = g \<and> ts_iso e (x_timestamp gm) = ts) (group_messages d)"

definition receipt_update ::
  "int \<Rightarrow> string \<Rightarrow> string \<Rightarrow> (int \<Rightarrow> receipts_row \<Rightarrow> receipts_row) \<Rightarrow> unit stmt" where
  "receipt_update g ts u f =
     dml (\<lambda>e n d. receipts_update (update_where
       (\<lambda>r. rc_message_id r \<in> x_id ` set (gmessages_at e g ts d) \<and> rc_username r = u) (f n)) d)"

definition sender_select :: "int \<Rightarrow> string \<Rightarrow> string list stmt" where
  "sender_select g ts =
     query (\<lambda>e n d. filter (\<lambda>u. u \<noteq> []) (remdups (map x_sender (gmessages_at e g ts d))))"

definition markReceipt ::
  "int \<Rightarrow> string \<Rightarrow> string \<Rightarrow> (int \<Rightarrow> receipts_row \<Rightarrow> receipts_row) \<Rightarrow> string \<Rightarrow> string list W" where
  "markReceipt g ts u f ctx =
     wrap_db ctx (bnd DbManager_session (\<lambda>_. bnd (sql (receipt_update g ts u f)) (\<lambda>_. sql (sender_select g ts))))"

definition coalesce :: "'a option \<Rightarrow> 'a \<Rightarrow> 'a option" where
  "coalesce x v = (case x of None \<Rightarrow> Some v | Some w \<Rightarrow> Some w)"

definition set_delivered :: "int \<Rightarrow> receipts_row \<Rightarrow> receipts_row" where
  "set_delivered n r = r\<lparr>rc_delivered_at := coalesce (rc_delivered_at r) n\<rparr>"

definition set_seen :: "int \<Rightarrow> receipts_row \<Rightarrow> receipts_row" where
  "set_seen n r = r\<lparr>rc_seen_at := coalesce (rc_seen_at r) n, rc_delivered_at := coalesce (rc_delivered_at r) n\<rparr>"

definition GroupRepository_markReceiptDelivered :: "int \<Rightarrow> string \<Rightarrow> string \<Rightarrow> string list W" where
  "GroupRepository_markReceiptDelivered g ts u =
     markReceipt g ts u set_delivered ''GroupRepository::markReceiptDelivered''"

definition GroupRepository_markReceiptSeen :: "int \<Rightarrow> string \<Rightarrow> string \<Rightarrow> string list W" where
  "GroupRepository_markReceiptSeen g ts u = markReceipt g ts u set_seen ''GroupRepository::markReceiptSeen''"

definition receipt_delete :: "int \<Rightarrow> string \<Rightarrow> unit stmt" where
  "receipt_delete g u =
     dml (\<lambda>e n d. receipts_update (delete_where
       (\<lambda>r. rc_message_id r \<in> x_id ` set (filter (\<lambda>gm. x_group_id gm = g) (group_messages d))
            \<and> rc_username r = u)) d)"

definition GroupRepository_deleteReceiptsForMember :: "int \<Rightarrow> string \<Rightarrow> unit W" where
  "GroupRepository_deleteReceiptsForMember g u =
     repo ''GroupRepository::deleteReceiptsForMember'' (receipt_delete g u)"

section \<open>Statements the handlers issue themselves\<close>

text \<open>\<open>INSERT INTO offline_read_receipts \<dots> ON CONFLICT DO NOTHING\<close>.\<close>

definition orr_insert :: "string \<Rightarrow> string \<Rightarrow> string \<Rightarrow> int option \<Rightarrow> string \<Rightarrow> unit stmt" where
  "orr_insert fu tu ts g kind e n d =
     (if varchar_fits e 64 fu \<and> varchar_fits e 64 tu
         \<and> (\<exists>r \<in> set (read_receipts d). rr_from_user r = fu \<and> rr_to_user r = tu \<and> rr_message_ts r = ts)
      then (Inr (), d\<lparr>seqs := (seqs d)(T_read_receipts := seqs d T_read_receipts + 1)\<rparr>)
      else void_st (\<lambda>e n. insert_row T_read_receipts
             [(\<not> varchar_fits e 64 fu \<or> \<not> varchar_fits e 64 tu, too_long),
              (fu \<notin> usernames d \<or> tu \<notin> usernames d \<or> (\<exists>x. g = Some x \<and> x \<notin> group_ids d), no_parent)]
             read_receipts_update
             (\<lambda>i. \<lparr>rr_id = i, rr_from_user = fu, rr_to_user = tu, rr_message_ts = ts, rr_group_id = g,
                   rr_kind = kind, rr_queued_at = n, rr_delivered = False\<rparr>)) e n d)"

definition orr_select :: "string \<Rightarrow> orr_row list stmt" where
  "orr_select u =
     query (\<lambda>e n d. filter (\<lambda>r. rr_from_user r \<noteq> [])
       (sort_key rr_queued_at (filter (\<lambda>r. rr_to_user r = u \<and> \<not> rr_delivered r) (read_receipts d))))"

definition orr_mark :: "int \<Rightarrow> unit stmt" where
  "orr_mark i =
     dml (\<lambda>e n. read_receipts_update (update_where (\<lambda>r. rr_id r = i) (\<lambda>r. r\<lparr>rr_delivered := True\<rparr>)))"

text \<open>
  \<open>DELETE FROM groups WHERE id = $1\<close> with the \<open>ON DELETE CASCADE\<close> of members, keys,
  messages (and through them receipts) and queued group receipts.
\<close>

definition group_delete :: "int \<Rightarrow> unit stmt" where
  "group_delete g =
     dml (\<lambda>e n d.
       d\<lparr>groups := delete_where (\<lambda>r. g_id r = g) (groups d),
         group_members := delete_where (\<lambda>r. mb_group_id r = g) (group_members d),
         group_keys := delete_where (\<lambda>r. gk_group_id r = g) (group_keys d),
         group_messages := delete_where (\<lambda>r. x_group_id r = g) (group_messages d),
         receipts := delete_where (\<lambda>r. rc_message_id r \<in>
             x_id ` set (filter (\<lambda>gm. x_group_id gm = g) (group_messages d))) (receipts d),
         read_receipts := delete_where (\<lambda>r. rr_group_id r = Some g) (read_receipts d)\<rparr>)"

lemmas [repo_defs] =
  GroupRepository_createGroup_def GroupRepository_findGroupById_def GroupRepository_addMember_def
  GroupRepository_getMembers_def GroupRepository_getMemberRole_def GroupRepository_memberCount_def
  GroupRepository_updateRole_def GroupRepository_saveKey_def GroupRepository_getKey_def
  GroupRepository_saveMessage_def GroupRepository_findMessagesForUserSince_def
  GroupRepository_deleteReceiptsForMember_def

lemmas [stmt_defs] = group_select_def member_select_def key_select_def sender_select_def orr_select_def

section \<open>Integrity\<close>

lemma group_insert_ok [stmt_ok]: "st_keeps db_ok (group_insert name creator)"
  unfolding st_keeps_def group_insert_def
  by (intro allI impI insert_row_ok) (auto simp: db_ok_def ok_defs key_defs)

lemma members_update_ok:
  assumes "db_ok d" "valid_role role"
  shows "db_ok (group_members_update (update_where P (\<lambda>r. r\<lparr>mb_role := role\<rparr>)) d)"
  using assms
  by (simp add: db_ok_def ok_defs key_defs map_update_where ball_update_where)

lemma member_upsert_ok [stmt_ok]: "st_keeps db_ok (member_upsert g u role)"
proof -
  have "db_ok (snd (member_upsert g u role e n d))" if "db_ok d" for e n d
    using that
    by (auto simp: member_upsert_def members_update_ok)
      (auto simp: db_ok_def ok_defs key_defs member_at_def)
  then show ?thesis by (simp add: st_keeps_def)
qed

lemma role_update_ok [stmt_ok]: "st_keeps db_ok (role_update g u role)"
proof -
  have "db_ok (snd (role_update g u role e n d))" if d: "db_ok d" for e n d
  proof (cases "(\<exists>r \<in> set (group_members d). member_at g u r)")
    case True
    with d show ?thesis by (simp add: role_update_def members_update_ok)
  next
    case False
    then have "group_members_update (update_where (member_at g u) (\<lambda>r. r\<lparr>mb_role := role\<rparr>)) d = d"
      by (cases d) (simp add: update_where_id)
    with d False show ?thesis by (simp add: role_update_def)
  qed
  then show ?thesis by (simp add: st_keeps_def)
qed

lemma key_delete_ok [stmt_ok]: "st_keeps db_ok (key_delete P)"
  unfolding key_delete_def
  by (intro st_keeps_dml) (simp add: db_ok_def ok_defs key_defs distinct_map_delete_where)

lemma member_delete_ok [stmt_ok]: "st_keeps db_ok (member_delete g u)"
  unfolding member_delete_def
  by (intro st_keeps_dml) (simp add: db_ok_def ok_defs key_defs distinct_map_delete_where)

lemma key_insert_ok [stmt_ok]: "st_keeps db_ok (key_insert g u k)"
  unfolding st_keeps_def key_insert_def
  by (auto simp: db_ok_def ok_defs key_defs key_at_def)

lemma key_upsert_ok [stmt_ok]: "st_keeps db_ok (key_upsert g u k)"
proof -
  have "db_ok (group_keys_update (update_where P (\<lambda>r. r\<lparr>gk_encrypted_aes_key := k\<rparr>)) d)"
    if "db_ok d" for P d
    using that by (simp add: db_ok_def ok_defs key_defs map_update_where ball_update_where)
  then show ?thesis using key_insert_ok by (simp add: st_keeps_def key_upsert_def)
qed

lemma gmessage_insert_ok [stmt_ok]: "st_keeps db_ok (gmessage_insert g u body ts)"
  unfolding st_keeps_def gmessage_insert_def
  by (intro allI impI insert_row_ok) (auto simp: db_ok_def ok_defs key_defs)

lemma receipt_insert_ok [stmt_ok]: "st_keeps db_ok (receipt_insert mid u)"
  unfolding st_keeps_def receipt_insert_def
  by (auto simp: db_ok_def ok_defs key_defs)

text \<open>What a \<open>SET\<close> clause of \<open>markReceipt\<close> may do to a row.\<close>

definition receipt_clause :: "(int \<Rightarrow> receipts_row \<Rightarrow> receipts_row) \<Rightarrow> bool" where
  "receipt_clause f \<longleftrightarrow>
     (\<forall>n r. rc_message_id (f n r) = rc_message_id r \<and> rc_username (f n r) = rc_username r
        \<and> ((rc_seen_at r \<noteq> None \<longrightarrow> rc_delivered_at r \<noteq> None) \<longrightarrow>
            (rc_seen_at (f n r) \<noteq> None \<longrightarrow> rc_delivered_at (f n r) \<noteq> None)))"

lemma receipt_clauses [simp]: "receipt_clause set_delivered" "receipt_clause set_seen"
  by (auto simp: receipt_clause_def set_delivered_def set_seen_def coalesce_def split: option.splits)

lemma receipt_update_ok: "receipt_clause f \<Longrightarrow> st_keeps db_ok (receipt_update g ts u f)"
  unfolding receipt_update_def
  by (intro st_keeps_dml)
    (simp add: db_ok_def ok_defs key_defs receipt_clause_def map_update_where ball_update_where)

lemma receipt_delete_ok [stmt_ok]: "st_keeps db_ok (receipt_delete g u)"
  unfolding receipt_delete_def
  by (intro st_keeps_dml) (simp add: db_ok_def ok_defs key_defs distinct_map_delete_where)

lemma orr_insert_ok [stmt_ok]: "st_keeps db_ok (orr_insert fu tu ts g kind)"
proof -
  have "db_ok (snd (orr_insert fu tu ts g kind e n d))" if d: "db_ok d" for e n d
    unfolding orr_insert_def
    using d by (auto intro!: insert_row_ok) (auto simp: db_ok_def ok_defs key_defs)
  then show ?thesis by (simp add: st_keeps_def)
qed

lemma orr_mark_ok [stmt_ok]: "st_keeps db_ok (orr_mark i)"
  unfolding orr_mark_def
  by (intro st_keeps_dml) (simp add: db_ok_def ok_defs key_defs map_update_where ball_update_where)

lemma group_delete_ok [stmt_ok]: "st_keeps db_ok (group_delete g)"
proof -
  have "db_ok (snd (group_delete g e n d))" if d: "db_ok d" for e n d
    using d unfolding db_ok_def
    by (simp add: group_delete_def ok_defs user_ids_def usernames_def message_ids_def
        group_ids_def [of "_\<lparr>groups := _, group_members := _, group_keys := _, group_messages := _,
          receipts := _, read_receipts := _\<rparr>"] distinct_map_delete_where)
      (auto simp: gmessage_ids_def group_ids_def intro: image_split)
  then show ?thesis by (simp add: st_keeps_def)
qed

lemma group_queries_ok [stmt_ok]:
  "st_keeps db_ok (group_select g)" "st_keeps db_ok (member_select g)" "st_keeps db_ok (key_select g u)"
  "st_keeps db_ok (sender_select g ts)" "st_keeps db_ok (orr_select u)" "st_keeps db_ok (gmessage_select u ts)"
  by (simp_all add: stmt_defs gmessage_select_def)

lemma group_repository_ok [m_ok]:
  "keeps db_step (GroupRepository_createGroup name u)"
  "keeps db_step (GroupRepository_findGroupById g)"
  "keeps db_step (GroupRepository_addMember g u role)"
  "keeps db_step (GroupRepository_getMembers g)"
  "keeps db_step (GroupRepository_getMemberRole g u)"
  "keeps db_step (GroupRepository_memberCount g)"
  "keeps db_step (GroupRepository_updateRole g u role)"
  "keeps db_step (GroupRepository_saveKey g u k)"
  "keeps db_step (GroupRepository_getKey g u)"
  "keeps db_step (GroupRepository_saveMessage g u body ts)"
  "keeps db_step (GroupRepository_findMessagesForUserSince u ts)"
  "keeps db_step (GroupRepository_deleteReceiptsForMember g u)"
  unfolding repo_defs by (intro repo_step stmt_ok)+

lemma group_methods_ok [m_ok]:
  "keeps db_step (GroupRepository_removeMember g u)"
  "keeps db_step (GroupRepository_replaceAllKeys g pairs)"
  "keeps db_step (GroupRepository_insertReceiptRows mid us)"
  "keeps db_step (GroupRepository_markReceiptDelivered g ts u)"
  "keeps db_step (GroupRepository_markReceiptSeen g ts u)"
  unfolding GroupRepository_removeMember_def GroupRepository_replaceAllKeys_def
    GroupRepository_insertReceiptRows_def GroupRepository_markReceiptDelivered_def
    GroupRepository_markReceiptSeen_def markReceipt_def
  by (intro step_rules stmt_ok receipt_update_ok receipt_clauses)+

section \<open>The roles of the members\<close>

text \<open>
  What the group handlers rely on: adding, changing or removing a membership sets the role of
  that member of that group and of nobody else.  The empty string is the role of an outsider.
\<close>

locale role_store =
  fixes role :: "int \<Rightarrow> string \<Rightarrow> database \<Rightarrow> string"
    and add :: "int \<Rightarrow> string \<Rightarrow> string \<Rightarrow> unit stmt"
    and change :: "int \<Rightarrow> string \<Rightarrow> string \<Rightarrow> unit stmt"
    and drop :: "int \<Rightarrow> string \<Rightarrow> unit stmt"
  assumes role_add:
      "add g u r e n d = (Inr (), d') \<Longrightarrow> role g' u' d' = (if g' = g \<and> u' = u then r else role g' u' d)"
    and role_change:
      "db_ok d \<Longrightarrow> change g u r e n d = (Inr (), d') \<Longrightarrow>
         role g' u' d' = (if g' = g \<and> u' = u \<and> role g u d \<noteq> [] then r else role g' u' d)"
    and role_drop:
      "drop g u e n d = (Inr (), d') \<Longrightarrow> role g' u' d' = (if g' = g \<and> u' = u then [] else role g' u' d)"
begin

text \<open>Adding an outsider never changes the role of a present member.\<close>

lemma add_outsider:
  "add g u r e n d = (Inr (), d') \<Longrightarrow> role g u d = [] \<Longrightarrow> role g' u' d \<noteq> [] \<Longrightarrow> role g' u' d' = role g' u' d"
  by (auto simp: role_add)

text \<open>After a removal the outsiders are those before and the removed member.\<close>

lemma drop_outsiders:
  "drop g u e n d = (Inr (), d') \<Longrightarrow> {v. role g v d' = []} = insert u {v. role g v d = []}"
  by (auto simp: role_drop)

lemma change_keeps_members:
  "db_ok d \<Longrightarrow> change g u r e n d = (Inr (), d') \<Longrightarrow> r \<noteq> [] \<Longrightarrow> (role g' v d' = []) = (role g' v d = [])"
  by (auto simp: role_change)

end

lemma role_of_append:
  "role_of g u (group_members_update (\<lambda>rs. rs @ [x]) d) =
     (if role_of g u d = [] \<and> (\<forall>r \<in> set (group_members d). \<not> member_at g u r) \<and> member_at g u x
      then mb_role x else role_of g u d)"
  by (auto simp: role_of_def find_append find_None_set split: option.splits dest!: find_SomeD)

lemma role_of_update:
  "role_of g u (group_members_update (update_where (member_at g' u') (\<lambda>r. r\<lparr>mb_role := x\<rparr>)) d) =
     (if (\<exists>r \<in> set (group_members d). member_at g u r) \<and> g = g' \<and> u = u' then x else role_of g u d)"
proof -
  have "find (member_at g u) (update_where (member_at g' u') (\<lambda>r. r\<lparr>mb_role := x\<rparr>) rs) =
      map_option (\<lambda>r. if member_at g' u' r then r\<lparr>mb_role := x\<rparr> else r) (find (member_at g u) rs)" for rs
    by (induction rs) (auto simp: member_at_def)
  note step = this
  show ?thesis
  proof (cases "find (member_at g u) (group_members d)")
    case None
    then have "\<forall>r \<in> set (group_members d). \<not> member_at g u r" by (simp add: find_None_set)
    with None show ?thesis by (simp add: role_of_def step)
  next
    case (Some a)
    then have "a \<in> set (group_members d)" "member_at g u a" by (auto dest: find_SomeD)
    with Some show ?thesis by (auto simp: role_of_def step) (auto simp: member_at_def)
  qed
qed

lemma role_of_delete:
  "role_of g u (group_members_update (delete_where (member_at g' u')) d) =
     (if g = g' \<and> u = u' then [] else role_of g u d)"
proof -
  have "find (member_at g u) (delete_where (member_at g' u') rs) =
      (if g = g' \<and> u = u' then None else find (member_at g u) rs)" for rs
    by (induction rs) (auto simp: delete_where_def member_at_def [abs_def])
  then show ?thesis by (simp add: role_of_def)
qed

lemma role_of_outsider:
  "role_of g u d = [] \<longleftrightarrow> (\<forall>r \<in> set (group_members d). \<not> member_at g u r)" if "members_ok d"
  using that
  by (auto simp: role_of_def members_ok_def valid_role_def find_None_set split: option.splits
      dest!: find_SomeD)

interpretation roles: role_store role_of member_upsert role_update member_delete
proof unfold_locales
  fix g u r e n d d' g' u'
  show "role_of g' u' d' = (if g' = g \<and> u' = u then r else role_of g' u' d)"
    if "member_upsert g u r e n d = (Inr (), d')"
    using that
    by (auto simp: member_upsert_def role_of_update role_of_append split: if_splits)
      (auto simp: member_at_def role_of_def find_None_set split: option.splits dest!: find_SomeD)
  show "role_of g' u' d' = (if g' = g \<and> u' = u \<and> role_of g u d \<noteq> [] then r else role_of g' u' d)"
    if "db_ok d" "role_update g u r e n d = (Inr (), d')"
    using that role_of_outsider [OF db_okD(6) [OF that(1)], of g u]
    by (auto simp: role_update_def role_of_update split: if_splits)
  show "role_of g' u' d' = (if g' = g \<and> u' = u then [] else role_of g' u' d)"
    if "member_delete g u e n d = (Inr (), d')"
    using that by (auto simp: member_delete_def dml_def role_of_delete)
qed

section \<open>What the methods guarantee\<close>

definition key_row :: "int \<Rightarrow> string \<times> string \<Rightarrow> keys_row" where
  "key_row g p = \<lparr>gk_group_id = g, gk_username = fst p, gk_encrypted_aes_key = snd p\<rparr>"

lemma wp_insert_keys:
  "wp (for_each (\<lambda>p. sql (key_insert g (fst p) (snd p))) pairs)
     (\<lambda>_ t. distinct (map fst pairs) \<and> (\<forall>p \<in> set pairs. \<forall>r \<in> set (group_keys (db s)). \<not> key_at g (fst p) r)
        \<and> db t = group_keys_update (\<lambda>rs. rs @ map (key_row g) pairs) (db s))
     (\<lambda>e t. is_Poco e) s"
proof (induction pairs arbitrary: s)
  case Nil
  show ?case by (cases "db s") (simp add: wp)
next
  case (Cons p pairs)
  have step: "wp (sql (key_insert g (fst p) (snd p)))
      (\<lambda>_ t. (\<forall>r \<in> set (group_keys (db s)). \<not> key_at g (fst p) r)
         \<and> db t = group_keys_update (\<lambda>rs. rs @ [key_row g p]) (db s)) (\<lambda>e t. is_Poco e) s"
    by (auto simp: wp key_insert_def key_row_def split: option.splits)
  show ?case
    unfolding for_each.simps wp_bnd
    by (rule wp_mono [OF step], rule wp_mono [OF Cons.IH])
      (auto simp: key_at_def key_row_def comp_def)
qed

lemma for_each_poco: "wp (for_each (\<lambda>p. sql (key_insert g (fst p) (snd p))) pairs) Q E s" if
  "\<And>t. distinct (map fst pairs) \<Longrightarrow> (\<forall>p \<in> set pairs. \<forall>r \<in> set (group_keys (db s)). \<not> key_at g (fst p) r) \<Longrightarrow>
     db t = group_keys_update (\<lambda>rs. rs @ map (key_row g) pairs) (db s) \<Longrightarrow> Q () t"
  "\<And>e t. is_Poco e \<Longrightarrow> E e t"
  by (rule wp_mono [OF wp_insert_keys [of g pairs s]]) (use that in auto)

text \<open>
  Rotating the keys of a group is all or nothing.  When it returns, the keys of the group
  are exactly the given pairs (whose users are then pairwise different) and the keys of other
  groups and every other table are unchanged; when it throws, no table changed.
\<close>

lemma replaceAllKeys_exact:
  "case GroupRepository_replaceAllKeys g pairs s of
     (Inr _, s') \<Rightarrow>
       distinct (map fst pairs)
       \<and> db s' = (db s)\<lparr>group_keys :=
           filter (\<lambda>r. gk_group_id r \<noteq> g) (group_keys (db s)) @ map (key_row g) pairs\<rparr>
   | (Inl e, s') \<Rightarrow> db s' = db s \<and> is_Db e"
proof -
  have "wp (GroupRepository_replaceAllKeys g pairs)
     (\<lambda>_ s'. distinct (map fst pairs)
       \<and> db s' = (db s)\<lparr>group_keys :=
           filter (\<lambda>r. gk_group_id r \<noteq> g) (group_keys (db s)) @ map (key_row g) pairs\<rparr>)
     (\<lambda>e s'. db s' = db s \<and> is_Db e) s"
    by (auto simp: GroupRepository_replaceAllKeys_def wrap_db_def wp dml_def key_delete_def delete_where_def
        split: option.splits intro!: for_each_poco)
  then show ?thesis by (simp only: wp_def)
qed

text \<open>How a receipt may evolve: its key is fixed and a stamp that is set stays as it is.\<close>

definition receipt_le :: "receipts_row \<Rightarrow> receipts_row \<Rightarrow> bool" where
  "receipt_le r r' \<longleftrightarrow>
     rc_message_id r' = rc_message_id r \<and> rc_username r' = rc_username r
     \<and> (rc_delivered_at r = None \<or> rc_delivered_at r' = rc_delivered_at r)
     \<and> (rc_seen_at r = None \<or> rc_seen_at r' = rc_seen_at r)"

definition seen_by :: "external \<Rightarrow> int \<Rightarrow> string \<Rightarrow> string \<Rightarrow> database \<Rightarrow> receipts_row \<Rightarrow> bool" where
  "seen_by e g ts u d r \<longleftrightarrow> rc_message_id r \<in> x_id ` set (gmessages_at e g ts d) \<and> rc_username r = u"

lemma wp_markReceipt:
  "wp (markReceipt g ts u f ctx)
     (\<lambda>senders t. ext t = ext s \<and> set senders = x_sender ` set (gmessages_at (ext s) g ts (db s)) - {[]}
        \<and> (\<exists>n. db t = receipts_update (update_where (seen_by (ext s) g ts u (db s)) (f n)) (db s)))
     (\<lambda>e t. ext t = ext s \<and> (db t = db s \<or>
        (\<exists>n. db t = receipts_update (update_where (seen_by (ext s) g ts u (db s)) (f n)) (db s)))) s"
proof -
  have [simp]: "gmessages_at e g ts (receipts_update h d) = gmessages_at e g ts d" for e h d
    by (simp add: gmessages_at_def)
  show ?thesis
    by (auto simp: markReceipt_def wrap_db_def wp dml_def query_def receipt_update_def sender_select_def
        seen_by_def [abs_def] split: option.splits)
qed

lemma set_seen_twice: "update_where P (set_seen m) (update_where P (set_seen n) rs) = update_where P (set_seen n) rs"
  if "\<And>r. P (set_seen n r) = P r"
  using that by (induction rs) (auto simp: set_seen_def coalesce_def split: option.splits)

lemma seen_by_set_seen [simp]: "seen_by e g ts u d (set_seen n r) = seen_by e g ts u d r"
  by (simp add: seen_by_def set_seen_def)

lemma seen_by_receipts [simp]: "seen_by e g ts u (receipts_update h d) = seen_by e g ts u d"
  by (simp add: seen_by_def gmessages_at_def fun_eq_iff)

text \<open>
  Marking a group message as seen stamps every receipt the reader has for it, as delivered
  too; stamps that were already set and the rows of other members are kept, marking it
  again changes nothing, and the senders reported are those of the messages named.
\<close>

lemma markReceiptSeen_idempotent:
  "case GroupRepository_markReceiptSeen g ts u s of
     (Inr senders, s') \<Rightarrow>
       set senders = x_sender ` set (gmessages_at (ext s) g ts (db s)) - {[]}
       \<and> list_all (\<lambda>r. rc_seen_at r \<noteq> None \<and> rc_delivered_at r \<noteq> None)
           (filter (seen_by (ext s) g ts u (db s)) (receipts (db s')))
       \<and> list_all2 (\<lambda>r r'. receipt_le r r' \<and> (seen_by (ext s) g ts u (db s) r \<or> r' = r))
           (receipts (db s)) (receipts (db s'))
       \<and> db (snd (GroupRepository_markReceiptSeen g ts u s')) = db s'
   | (Inl e, s') \<Rightarrow> list_all2 receipt_le (receipts (db s)) (receipts (db s'))"
proof -
  let ?P = "seen_by (ext s) g ts u (db s)"
  let ?m = "GroupRepository_markReceiptSeen g ts u"
  have le: "list_all2 (\<lambda>r r'. receipt_le r r' \<and> (?P r \<or> r' = r)) rs (update_where ?P (set_seen n) rs)" for n rs
    by (induction rs) (auto simp: receipt_le_def set_seen_def coalesce_def split: option.splits)
  have refl: "list_all2 receipt_le rs rs" for rs
    by (induction rs) (auto simp: receipt_le_def)
  have stamped: "list_all (\<lambda>r. rc_seen_at r \<noteq> None \<and> rc_delivered_at r \<noteq> None)
      (filter ?P (update_where ?P (set_seen n) rs))" for n rs
    by (induction rs) (auto simp: set_seen_def seen_by_def coalesce_def split: option.splits)
  have again: "db (snd (?m t)) = db t"
    if "ext t = ext s" "db t = receipts_update (update_where ?P (set_seen n)) (db s)" for t n
    using wp_markReceipt [of g ts u set_seen "''GroupRepository::markReceiptSeen''" t] that
    by (auto simp: GroupRepository_markReceiptSeen_def wp_def set_seen_twice comp_def
        split: prod.splits sum.splits)
  have "wp ?m
     (\<lambda>senders s'. set senders = x_sender ` set (gmessages_at (ext s) g ts (db s)) - {[]}
       \<and> list_all (\<lambda>r. rc_seen_at r \<noteq> None \<and> rc_delivered_at r \<noteq> None) (filter ?P (receipts (db s')))
       \<and> list_all2 (\<lambda>r r'. receipt_le r r' \<and> (?P r \<or> r' = r)) (receipts (db s)) (receipts (db s'))
       \<and> db (snd (?m s')) = db s')
     (\<lambda>e s'. list_all2 receipt_le (receipts (db s)) (receipts (db s'))) s"
    unfolding GroupRepository_markReceiptSeen_def
    by (rule wp_mono [OF wp_markReceipt])
      (auto simp: le stamped refl again [unfolded GroupRepository_markReceiptSeen_def]
        simp del: not_None_eq intro: list_all2_mono [OF le])
  then show ?thesis by (simp only: wp_def)
qed

end
