(* ===== verification/Server.thy ===== *)
theory Server
  imports GroupRepository
begin

text \<open>
  The live side of the server: \<open>ClientSession\<close> (the state of one connection and its two
  directions), the client map of \<open>Server\<close> (the locale \<open>client_registry\<close>), the
  skeleton of \<open>ICommandHandler\<close>, \<open>PacketHandlerFactory\<close>, and \<open>handler_step\<close>, the
  preorder along which every handler moves.
\<close>

section \<open>\<open>ClientSession\<close>\<close>

definition setState :: "conn \<Rightarrow> CSState \<Rightarrow> unit W" where
  "setState c st = upd (\<lambda>s. s\<lparr>conns := (conns s)(c := (conns s c)\<lparr>cs_state := st\<rparr>)\<rparr>)"

definition setUsername :: "conn \<Rightarrow> string \<Rightarrow> unit W" where
  "setUsername c u = upd (\<lambda>s. s\<lparr>conns := (conns s)(c := (conns s c)\<lparr>cs_username := u\<rparr>)\<rparr>)"

definition setSessionToken :: "conn \<Rightarrow> string \<Rightarrow> unit W" where
  "setSessionToken c t = upd (\<lambda>s. s\<lparr>conns := (conns s)(c := (conns s c)\<lparr>cs_sessionToken := t\<rparr>)\<rparr>)"

definition getUsername :: "conn \<Rightarrow> string W" where
  "getUsername c = gets (\<lambda>s. cs_username (conns s c))"

definition getSessionToken :: "conn \<Rightarrow> string W" where
  "getSessionToken c = gets (\<lambda>s. cs_sessionToken (conns s c))"

definition isAuthenticated :: "conn \<Rightarrow> bool W" where
  "isAuthenticated c = gets (\<lambda>s. cs_state (conns s c) = Authenticated)"

definition send_frame :: "conn \<Rightarrow> frame \<Rightarrow> unit W" where
  "send_frame c f s =
     (case net_fault (ext s) (clock s) c of
        Some msg \<Rightarrow> (Inl (PocoException msg), tick s)
      | None \<Rightarrow> (Inr (), (tick s)\<lparr>outbox := outbox s @ [(c, f)]\<rparr>))"

definition send :: "conn \<Rightarrow> Packet \<Rightarrow> unit W" where
  "send c p =
     catch_if is_Poco (send_frame c (Text (serialize p)))
       (\<lambda>e. thr (NetworkException (''ClientSession::send failed: '' @ what e)))"

text \<open>
  What \<open>receiveFrame\<close> yields: an exception (a broken socket, the receive timeout, a frame
  above \<open>MAX_PACKET_SIZE\<close>) or a frame with its opcode.
\<close>

datatype opcode = OP_DATA | OP_CLOSE | OP_PING | OP_PONG

datatype ws_event = WsError string | WsFrame opcode string

datatype received = Again | Closed | Received Packet

text \<open>One turn of the loop of \<open>ClientSession::receive\<close>; \<open>Again\<close> is \<open>continue\<close>.\<close>

definition receive_turn :: "conn \<Rightarrow> ws_event \<Rightarrow> received W" where
  "receive_turn c ev =
     catch_if is_Poco
       (case ev of
          WsError msg \<Rightarrow> thr (PocoException msg)
        | WsFrame op buf \<Rightarrow>
            if op = OP_CLOSE then bnd (setState c Disconnected) (\<lambda>_. retn Closed)
            else if op = OP_PING then bnd (send_frame c (Pong buf)) (\<lambda>_. retn Again)
            else if op = OP_PONG then retn Again
            else if buf = [] then bnd (setState c Disconnected) (\<lambda>_. retn Closed)
            else bnd (gets (\<lambda>s. uninit_int (ext s))) (\<lambda>t0.
                   bnd (lift_sum (deserialize t0 buf)) (\<lambda>p. retn (Received p))))
       (\<lambda>e. thr (NetworkException (''ClientSession::receive failed: '' @ what e)))"

section \<open>The client map\<close>

type_synonym client_map = "string \<rightharpoonup> conn list"

definition sessions_in :: "string \<Rightarrow> client_map \<Rightarrow> conn list" where
  "sessions_in u m = (case m u of None \<Rightarrow> [] | Some cs \<Rightarrow> cs)"

definition add_client :: "string \<Rightarrow> conn \<Rightarrow> client_map \<Rightarrow> client_map" where
  "add_client u c m = m(u \<mapsto> sessions_in u m @ [c])"

definition remove_client :: "string \<Rightarrow> conn \<Rightarrow> client_map \<Rightarrow> client_map" where
  "remove_client u c m =
     (case m u of
        None \<Rightarrow> m
      | Some cs \<Rightarrow>
          (let vec = filter (\<lambda>x. x \<noteq> c) cs in if vec = [] then m(u := None) else m(u \<mapsto> vec)))"

definition find_client :: "string \<Rightarrow> client_map \<Rightarrow> conn option" where
  "find_client u m =
     (case m u of None \<Rightarrow> None | Some cs \<Rightarrow> (case cs of [] \<Rightarrow> None | c # _ \<Rightarrow> Some c))"

definition addClient :: "string \<Rightarrow> conn \<Rightarrow> unit W" where
  "addClient u c = upd (\<lambda>s. s\<lparr>clients := add_client u c (clients s)\<rparr>)"

definition removeClient :: "string \<Rightarrow> conn \<Rightarrow> unit W" where
  "removeClient u c = upd (\<lambda>s. s\<lparr>clients := remove_client u c (clients s)\<rparr>)"

definition findClient :: "string \<Rightarrow> conn option W" where
  "findClient u = gets (\<lambda>s. find_client u (clients s))"

definition getSessionsForUser :: "string \<Rightarrow> conn list W" where
  "getSessionsForUser u = gets (\<lambda>s. sessions_in u (clients s))"

section \<open>\<open>Server::onCleanupTimer\<close>\<close>

text \<open>\<open>try { m } catch (const std::exception&) { log }\<close>\<close>

definition ignore_errors :: "unit W \<Rightarrow> unit W" where
  "ignore_errors m = catch_if (\<lambda>_. True) m (\<lambda>_. retn ())"

definition onCleanupTimer :: "unit W" where
  "onCleanupTimer =
     bnd (ignore_errors SessionRepository_deactivateExpired) (\<lambda>_.
     bnd (ignore_errors OfflineQueueRepository_cleanupDelivered) (\<lambda>_.
     ignore_errors OfflineQueueRepository_cleanupExhausted))"

section \<open>Handlers\<close>

record handler =
  h_validate :: "Packet \<Rightarrow> exn + unit"
  h_authorize :: "conn \<Rightarrow> unit W"
  h_execute :: "Packet \<Rightarrow> conn \<Rightarrow> unit W"

text \<open>\<open>ICommandHandler::handle\<close>, the template method.\<close>

definition handle :: "handler \<Rightarrow> Packet \<Rightarrow> conn \<Rightarrow> unit W" where
  "handle h p c =
     bnd (lift_sum (h_validate h p)) (\<lambda>_. bnd (h_authorize h c) (\<lambda>_. h_execute h p c))"

text \<open>A chain of \<open>if (b) throw ProtocolException(m);\<close>.\<close>

definition reject_if :: "(bool \<times> string) list \<Rightarrow> exn + unit" where
  "reject_if cs = (case first_violation cs of None \<Rightarrow> Inr () | Some m \<Rightarrow> Inl (ProtocolException m))"

definition protocol_error :: "string \<Rightarrow> 'a W" where
  "protocol_error m = thr (ProtocolException m)"

text \<open>\<open>BaseAuthHandler::authorize\<close>\<close>

definition BaseAuth_authorize :: "conn \<Rightarrow> unit W" where
  "BaseAuth_authorize c =
     bnd (isAuthenticated c) (\<lambda>a.
     bnd (throw_if (\<not> a) (ProtocolException ''BaseAuthHandler: request rejected - session not authenticated'')) (\<lambda>_.
     bnd (getSessionToken c) (\<lambda>tok.
     bnd (throw_if (tok = []) (ProtocolException ''BaseAuthHandler: request rejected - no session token'')) (\<lambda>_.
     bnd (SessionRepository_findByToken tok) (\<lambda>r.
     throw_if (r = None) (ProtocolException ''BaseAuthHandler: request rejected - session expired or revoked''))))))"

section \<open>\<open>PacketHandlerFactory\<close>\<close>

definition registerHandler :: "PacketType \<Rightarrow> 'h \<Rightarrow> (int \<rightharpoonup> 'h) \<Rightarrow> (int \<rightharpoonup> 'h)" where
  "registerHandler t h reg = reg(type_code t \<mapsto> h)"

definition factory_create :: "(int \<rightharpoonup> 'h) \<Rightarrow> PacketType \<Rightarrow> exn + 'h" where
  "factory_create reg t =
     (case reg (type_code t) of
        None \<Rightarrow> Inl (ProtocolException (''PacketHandlerFactory: no handler registered for type '' @ int_str (type_code t)))
      | Some h \<Rightarrow> Inr h)"

section \<open>Laws of the client map\<close>

locale client_registry =
  fixes sess :: "string \<Rightarrow> 'm \<Rightarrow> conn list"
    and first :: "string \<Rightarrow> 'm \<Rightarrow> conn option"
    and add :: "string \<Rightarrow> conn \<Rightarrow> 'm \<Rightarrow> 'm"
    and remove :: "string \<Rightarrow> conn \<Rightarrow> 'm \<Rightarrow> 'm"
  assumes sess_add: "sess u (add v c m) = (if u = v then sess u m @ [c] else sess u m)"
    and sess_remove: "sess u (remove v c m) = (if u = v then filter (\<lambda>x. x \<noteq> c) (sess u m) else sess u m)"
    and first_sess: "first u m = (case sess u m of [] \<Rightarrow> None | c # _ \<Rightarrow> Some c)"
begin

lemma first_online: "first u m \<noteq> None \<longleftrightarrow> sess u m \<noteq> []"
  by (simp add: first_sess split: list.splits)

lemma first_in: "first u m = Some c \<Longrightarrow> c \<in> set (sess u m)"
  by (auto simp: first_sess split: list.splits)

lemma removed: "c \<notin> set (sess u (remove u c m))"
  by (simp add: sess_remove)

lemma add_remove: "c \<notin> set (sess v m) \<Longrightarrow> sess u (remove v c (add v c m)) = sess u m"
  by (auto simp: sess_add sess_remove filter_id_conv)

lemma first_after_add: "first v (add v c m) = (case first v m of None \<Rightarrow> Some c | Some x \<Rightarrow> Some x)"
  by (simp add: first_sess sess_add split: list.splits)

end

interpretation clients_map: client_registry sessions_in find_client add_client remove_client
  by unfold_locales
    (auto simp: sessions_in_def find_client_def add_client_def remove_client_def Let_def
      split: option.splits list.splits)

text \<open>No user is mapped to an empty list.\<close>

definition no_empty_entry :: "client_map \<Rightarrow> bool" where
  "no_empty_entry m \<longleftrightarrow> [] \<notin> ran m"

lemma no_empty_entry_add: "no_empty_entry m \<Longrightarrow> no_empty_entry (add_client u c m)"
  by (auto simp: no_empty_entry_def add_client_def ran_def split: if_splits)

lemma no_empty_entry_remove: "no_empty_entry m \<Longrightarrow> no_empty_entry (remove_client u c m)"
  by (auto simp: no_empty_entry_def remove_client_def ran_def Let_def split: if_splits option.splits)

text \<open>
  The client map keeps the sessions of each user in order of arrival: adding appends, removing
  drops every entry of that connection and nothing else, a user is found exactly while a
  session is left (the oldest one is returned), and no empty entry stays behind.
\<close>

lemma client_map_laws:
  "sessions_in u (add_client v c m) = (if u = v then sessions_in u m @ [c] else sessions_in u m)
   \<and> sessions_in u (remove_client v c m) =
       (if u = v then filter (\<lambda>x. x \<noteq> c) (sessions_in u m) else sessions_in u m)
   \<and> find_client u m = (case sessions_in u m of [] \<Rightarrow> None | x # _ \<Rightarrow> Some x)
   \<and> (case remove_client v c m v of None \<Rightarrow> True | Some cs \<Rightarrow> cs \<noteq> [])"
  using clients_map.sess_add clients_map.sess_remove clients_map.first_sess
  by (auto simp: remove_client_def Let_def split: option.splits)

section \<open>Weakest preconditions of the live side\<close>

lemma getUsername_wp [wp]: "wp (getUsername c) Q E s = Q (cs_username (conns s c)) s"
  by (simp add: getUsername_def wp)

lemma getSessionToken_wp [wp]: "wp (getSessionToken c) Q E s = Q (cs_sessionToken (conns s c)) s"
  by (simp add: getSessionToken_def wp)

lemma isAuthenticated_wp [wp]: "wp (isAuthenticated c) Q E s = Q (cs_state (conns s c) = Authenticated) s"
  by (simp add: isAuthenticated_def wp)

lemma findClient_wp [wp]: "wp (findClient u) Q E s = Q (find_client u (clients s)) s"
  by (simp add: findClient_def wp)

lemma getSessionsForUser_wp [wp]: "wp (getSessionsForUser u) Q E s = Q (sessions_in u (clients s)) s"
  by (simp add: getSessionsForUser_def wp)

lemma send_wp [wp]:
  "wp (send c p) Q E s =
     (case net_fault (ext s) (clock s) c of
        Some msg \<Rightarrow> E (NetworkException (''ClientSession::send failed: '' @ msg)) (tick s)
      | None \<Rightarrow> Q () ((tick s)\<lparr>outbox := outbox s @ [(c, Text (serialize p))]\<rparr>))"
  by (simp add: send_def wp) (simp add: wp_def send_frame_def wp_thr split: option.splits)

lemma ignore_errors_wp [wp]: "wp (ignore_errors m) Q E s = wp m Q (\<lambda>_. Q ()) s"
  by (simp add: ignore_errors_def wp)

lemma returns_send [ret]: "returns (send c p)"
  by (simp add: returns_def wp quiet_def)

lemma returns_getters [ret]:
  "returns (getUsername c)" "returns (findClient u)" "returns (getSessionsForUser u)"
  by (simp_all add: returns_def wp)

lemma returns_ignore [ret]: "returns m \<Longrightarrow> returns (ignore_errors m)"
  unfolding ignore_errors_def by (rule returns_catch)

lemma receive_data:
  "wf_packet p \<Longrightarrow> wp (receive_turn c (WsFrame OP_DATA (serialize p))) Q E s = Q (Received p) s"
  using read_packet_serialize [of p "uninit_int (ext s)"]
  by (simp add: receive_turn_def wp deserialize_def lift_sum_def)

section \<open>Frames on the wire\<close>

text \<open>The server sends packets in their text form, and answers pings.\<close>

definition packet_frame :: "frame \<Rightarrow> bool" where
  "packet_frame f = (case f of Text m \<Rightarrow> (\<exists>p. m = serialize p) | Pong _ \<Rightarrow> True)"

definition grown :: "(conn \<times> frame) list \<Rightarrow> (conn \<times> frame) list \<Rightarrow> bool" where
  "grown a b \<longleftrightarrow> (\<exists>fs. b = a @ fs \<and> list_all (\<lambda>x. packet_frame (snd x)) fs)"

lemma grown_refl [simp]: "grown a a"
  by (simp add: grown_def)

lemma grown_trans [trans]: "grown a b \<Longrightarrow> grown b d \<Longrightarrow> grown a d"
  by (auto simp: grown_def)

lemma grown_snoc [simp]: "grown a (a @ [x]) = packet_frame (snd x)"
  by (simp add: grown_def)

lemma packet_frame_simps [simp]: "packet_frame (Text (serialize p))" "packet_frame (Pong b)"
  by (auto simp: packet_frame_def)

section \<open>Steps of a handler\<close>

text \<open>
  What handling a packet of connection \<open>c\<close> may do: it leaves the other connections, the
  client map and the configuration alone, only appends frames of packets to the outbox, and keeps
  the tables intact.
\<close>

definition handler_step :: "conn \<Rightarrow> world \<Rightarrow> world \<Rightarrow> bool" where
  "handler_step c s s' \<longleftrightarrow>
     ext s' = ext s \<and> pool s' = pool s \<and> clients s' = clients s
     \<and> (\<forall>x. x \<noteq> c \<longrightarrow> conns s' x = conns s x)
     \<and> grown (outbox s) (outbox s') \<and> (db_ok (db s) \<longrightarrow> db_ok (db s'))"

interpretation hs: step_preorder "handler_step c" for c
  by unfold_locales (auto simp: handler_step_def intro: grown_trans)

lemma db_step_hs: "keeps db_step m \<Longrightarrow> keeps (handler_step c) m"
  by (erule keeps_weaken) (auto simp: db_step_def only_db_def handler_step_def)

named_theorems h_step \<open>operations along which a handler moves\<close>

lemma send_frame_hs: "packet_frame f \<Longrightarrow> keeps (handler_step c) (send_frame x f)"
  by (auto simp: keeps_def send_frame_def handler_step_def split: option.splits)

lemma send_hs [h_step]: "keeps (handler_step c) (send x p)"
  unfolding send_def by (intro hs.rules send_frame_hs packet_frame_simps)

lemma setters_hs [h_step]:
  "keeps (handler_step c) (setState c st)" "keeps (handler_step c) (setUsername c u)"
  "keeps (handler_step c) (setSessionToken c t)"
  by (simp_all add: keeps_def setState_def setUsername_def setSessionToken_def handler_step_def)

lemma getters_hs [h_step]:
  "keeps (handler_step c) (getUsername x)" "keeps (handler_step c) (getSessionToken x)"
  "keeps (handler_step c) (isAuthenticated x)" "keeps (handler_step c) (findClient u)"
  "keeps (handler_step c) (getSessionsForUser u)"
  by (simp_all add: getUsername_def getSessionToken_def isAuthenticated_def findClient_def
      getSessionsForUser_def hs.k_gets)

lemma protocol_error_hs [h_step]: "keeps (handler_step c) (protocol_error m)"
  by (simp add: protocol_error_def hs.k_thr)

lemmas repo_hs [h_step] = m_ok [THEN db_step_hs]

lemma ignore_errors_hs [h_step]: "keeps (handler_step c) m \<Longrightarrow> keeps (handler_step c) (ignore_errors m)"
  unfolding ignore_errors_def by (intro hs.rules)

lemma BaseAuth_authorize_hs [h_step]: "keeps (handler_step c) (BaseAuth_authorize x)"
  unfolding BaseAuth_authorize_def by (intro hs.rules h_step)

lemma handle_hs:
  "(\<And>x. keeps (handler_step c) (h_authorize h x)) \<Longrightarrow> keeps (handler_step c) (h_execute h p c) \<Longrightarrow>
    keeps (handler_step c) (handle h p c)"
  unfolding handle_def by (intro hs.rules)

lemma receive_turn_hs: "keeps (handler_step c) (receive_turn c ev)"
  unfolding receive_turn_def
  by (cases ev; simp only: ws_event.case; intro hs.rules send_frame_hs packet_frame_simps h_step)

lemma cleanup_hs: "keeps (handler_step c) onCleanupTimer"
  unfolding onCleanupTimer_def by (intro hs.rules h_step)

end
