(* ===== verification/AuthHandlers.thy ===== *)
theory AuthHandlers
  imports Server
begin

text \<open>
  The handlers that establish identity: \<open>RegisterHandler\<close>, \<open>LoginHandler\<close> with the three
  flushes that follow a login, and \<open>KeyExchangeHandler\<close>; and the gate of
  \<open>BaseAuthHandler\<close>, as the locale \<open>gated_handler\<close>.
\<close>

section \<open>Passwords and tokens\<close>

definition RAND_bytes :: "nat \<Rightarrow> string option W" where
  "RAND_bytes n s = (Inr (rand_bytes (ext s) (clock s) n), tick s)"

text \<open>
  Fetching Argon2id, creating its context and deriving: the three texts are those the caller
  attaches to the three possible failures.
\<close>

definition argon2_derive :: "string \<Rightarrow> string \<Rightarrow> string \<Rightarrow> string \<Rightarrow> string \<Rightarrow> string W" where
  "argon2_derive no_kdf no_ctx failed pw salt s =
     (case kdf_faults (ext s) (clock s) of
        Some KdfUnavailable \<Rightarrow> (Inl (CryptoException no_kdf), tick s)
      | Some KdfNoContext \<Rightarrow> (Inl (CryptoException no_ctx), tick s)
      | Some KdfDeriveFailed \<Rightarrow> (Inl (CryptoException failed), tick s)
      | None \<Rightarrow> (Inr (argon2id (ext s) pw salt), tick s))"

definition hashPassword :: "string \<Rightarrow> string W" where
  "hashPassword pw =
     bnd (RAND_bytes 16) (\<lambda>r. case r of
        None \<Rightarrow> thr (CryptoException ''RegisterHandler: RAND_bytes failed'')
      | Some salt \<Rightarrow>
          bnd (argon2_derive ''RegisterHandler: Argon2id not available in this OpenSSL build''
                 ''RegisterHandler: EVP_KDF_CTX_new failed'' ''RegisterHandler: Argon2id derive failed'' pw salt)
            (\<lambda>out. retn (toHex salt @ '':'' @ toHex out)))"

definition verifyPassword :: "string \<Rightarrow> string \<Rightarrow> bool W" where
  "verifyPassword pw stored =
     (case split_at CHR '':'' stored of
        None \<Rightarrow> retn False
      | Some (saltHex, expectedHex) \<Rightarrow>
          bnd (lift_sum (fromHex saltHex)) (\<lambda>salt.
          bnd (argon2_derive ''LoginHandler: Argon2id not available'' ''LoginHandler: EVP_KDF_CTX_new failed''
                 ''LoginHandler: Argon2id verify failed'' pw salt) (\<lambda>out.
          retn (toHex out = expectedHex))))"

definition Register_generateToken :: "string W" where
  "Register_generateToken =
     bnd (RAND_bytes 32) (\<lambda>r. case r of
        None \<Rightarrow> thr (CryptoException ''RegisterHandler: RAND_bytes for token failed'')
      | Some buf \<Rightarrow> retn (toHex buf))"

definition Login_generateToken :: "string W" where
  "Login_generateToken =
     bnd (RAND_bytes 32) (\<lambda>r. case r of
        None \<Rightarrow> thr (CryptoException ''LoginHandler: RAND_bytes failed'')
      | Some buf \<Rightarrow> retn (toHex buf))"

section \<open>\<open>RegisterHandler\<close>\<close>

definition Register_validate :: "Packet \<Rightarrow> exn + unit" where
  "Register_validate p =
     reject_if
       [(pfrom p = [], ''REGISTER: username (from) is required''),
        (pbody p = [], ''REGISTER: password (body) is required''),
        (64 < length (pfrom p), ''REGISTER: username exceeds 64 characters''),
        (length (pbody p) < 8, ''REGISTER: password must be at least 8 characters'')]"

text \<open>A queued message as it is forwarded to its recipient.\<close>

definition forward_packet :: "string \<Rightarrow> Message \<Rightarrow> Packet" where
  "forward_packet u m =
     (new_packet MESSAGE)\<lparr>pfrom := ms_sender m, pto := u, pbody := ms_encryptedBody m,
        pkey := ms_encryptedKey m, ptimestamp := ms_createdAt m\<rparr>"

definition token_ack :: "string \<Rightarrow> string \<Rightarrow> Packet" where
  "token_ack u tok = (new_packet ACK)\<lparr>pto := u, pbody := tok\<rparr>"

definition Register_flush :: "conn \<Rightarrow> string \<Rightarrow> OfflineMessage \<Rightarrow> unit W" where
  "Register_flush c u entry =
     bnd (MessageRepository_findById (om_messageId entry)) (\<lambda>mo. case mo of
        None \<Rightarrow> retn ()
      | Some m \<Rightarrow>
          bnd (send c (forward_packet u m)) (\<lambda>_. OfflineQueueRepository_markDelivered (om_id entry)))"

definition Register_execute :: "Packet \<Rightarrow> conn \<Rightarrow> unit W" where
  "Register_execute p c =
     bnd (UserRepository_findByUsername (pfrom p)) (\<lambda>ex.
     bnd (throw_if (ex \<noteq> None) (ProtocolException ''REGISTER: username already taken'')) (\<lambda>_.
     bnd (hashPassword (pbody p)) (\<lambda>ph.
     bnd (UserRepository_save \<lparr>us_id = 0, us_username = pfrom p, us_passwordHash = ph, us_publicKey = [],
            us_lastSeen = [], us_createdAt = []\<rparr>) (\<lambda>_.
     bnd (UserRepository_findByUsername (pfrom p)) (\<lambda>saved.
     let userId = (case saved of None \<Rightarrow> 0 | Some u \<Rightarrow> us_id u) in
     bnd Register_generateToken (\<lambda>tok.
     bnd (SessionRepository_save \<lparr>se_id = 0, se_userId = userId, se_sessionToken = tok, se_createdAt = [],
            se_expiresAt = [], se_isActive = True\<rparr>) (\<lambda>_.
     bnd (setUsername c (pfrom p)) (\<lambda>_.
     bnd (setSessionToken c tok) (\<lambda>_.
     bnd (setState c Authenticated) (\<lambda>_.
     bnd (OfflineQueueRepository_findUndeliveredByRecipient (pfrom p)) (\<lambda>entries.
     bnd (for_each (Register_flush c (pfrom p)) entries) (\<lambda>_.
     send c (token_ack (pfrom p) tok)))))))))))))"

definition RegisterHandler :: handler where
  "RegisterHandler =
     \<lparr>h_validate = Register_validate, h_authorize = (\<lambda>_. retn ()), h_execute = Register_execute\<rparr>"

section \<open>\<open>LoginHandler\<close>\<close>

definition Login_validate :: "Packet \<Rightarrow> exn + unit" where
  "Login_validate p =
     reject_if
       [(pfrom p = [], ''LOGIN: username (from) is required''),
        (pbody p = [], ''LOGIN: password (body) is required'')]"

text \<open>\<open>for (auto& x : xs) { if (f(x)) break; }\<close>\<close>

primrec for_each_break :: "('a \<Rightarrow> ('s, bool) M) \<Rightarrow> 'a list \<Rightarrow> ('s, unit) M" where
  "for_each_break f [] = retn ()"
| "for_each_break f (x # xs) = bnd (f x) (\<lambda>stop. if stop then retn () else for_each_break f xs)"

text \<open>
  One queue entry: the attempt is counted first; a dead socket stops the loop, any other
  exception skips the entry.
\<close>

definition Login_flush :: "conn \<Rightarrow> string \<Rightarrow> OfflineMessage \<Rightarrow> bool W" where
  "Login_flush c u entry =
     catch_if (\<lambda>_. True)
       (bnd (OfflineQueueRepository_incrementAttempts (om_id entry)) (\<lambda>_.
        bnd (MessageRepository_findById (om_messageId entry)) (\<lambda>mo. case mo of
           None \<Rightarrow> retn False
         | Some m \<Rightarrow>
             bnd (send c (forward_packet u m)) (\<lambda>_.
             bnd (OfflineQueueRepository_markDelivered (om_id entry)) (\<lambda>_. retn False)))))
       (\<lambda>e. retn (is_Network e))"

definition receipt_packet :: "string \<Rightarrow> orr_row \<Rightarrow> Packet" where
  "receipt_packet u r =
     (let gid = (case rr_group_id r of None \<Rightarrow> 0 | Some g \<Rightarrow> g);
          base = (if rr_kind r = ''delivered'' then (new_packet ACK)\<lparr>perrorMsg := ''delivered''\<rparr>
                  else new_packet READ_RECEIPT)
      in base\<lparr>pfrom := rr_from_user r, pto := (if 0 < gid then int_str gid else u), pbody := rr_message_ts r\<rparr>)"

definition flushOfflineReadReceipts :: "string \<Rightarrow> conn \<Rightarrow> unit W" where
  "flushOfflineReadReceipts u c =
     wrap_db ''LoginHandler::flushOfflineReadReceipts''
       (bnd DbManager_session (\<lambda>_. bnd (sql (orr_select u)) (\<lambda>rs.
          for_each (\<lambda>r. bnd (send c (receipt_packet u r)) (\<lambda>_. sql (orr_mark (rr_id r)))) rs)))"

definition pending_packet :: "string \<Rightarrow> PendingNotification \<Rightarrow> Packet" where
  "pending_packet u n =
     (new_packet (pd_type n))\<lparr>pfrom := pd_fromUser n, pto := u, pbody := pd_body n,
        perrorMsg := pd_errorMsg n, pkey := pd_packetKey n\<rparr>"

definition try_send :: "conn \<Rightarrow> Packet \<Rightarrow> unit W" where
  "try_send c p = catch_if is_Network (send c p) (\<lambda>_. retn ())"

definition flushPendingNotifications :: "string \<Rightarrow> conn \<Rightarrow> unit W" where
  "flushPendingNotifications u c =
     bnd (PendingNotificationRepository_findAndClear u) (\<lambda>ns.
       for_each (\<lambda>n. try_send c (pending_packet u n)) ns)"

definition Login_execute :: "Packet \<Rightarrow> conn \<Rightarrow> unit W" where
  "Login_execute p c =
     bnd (UserRepository_findByUsername (pfrom p)) (\<lambda>uo. case uo of
        None \<Rightarrow> protocol_error ''LOGIN: invalid credentials''
      | Some u \<Rightarrow>
          bnd (verifyPassword (pbody p) (us_passwordHash u)) (\<lambda>good.
          bnd (throw_if (\<not> good) (ProtocolException ''LOGIN: invalid credentials'')) (\<lambda>_.
          bnd Login_generateToken (\<lambda>tok.
          bnd (SessionRepository_deactivateAllForUser (us_id u)) (\<lambda>_.
          bnd (SessionRepository_save \<lparr>se_id = 0, se_userId = us_id u, se_sessionToken = tok, se_createdAt = [],
                 se_expiresAt = [], se_isActive = True\<rparr>) (\<lambda>_.
          bnd (setUsername c (pfrom p)) (\<lambda>_.
          bnd (setSessionToken c tok) (\<lambda>_.
          bnd (setState c Authenticated) (\<lambda>_.
          bnd (ignore_errors (UserRepository_updateLastSeen (pfrom p))) (\<lambda>_.
          bnd (send c (token_ack (pfrom p) tok)) (\<lambda>_.
          bnd (OfflineQueueRepository_findUndeliveredByRecipient (pfrom p)) (\<lambda>entries.
          bnd (for_each_break (Login_flush c (pfrom p)) entries) (\<lambda>_.
          bnd (flushOfflineReadReceipts (pfrom p) c) (\<lambda>_.
          flushPendingNotifications (pfrom p) c))))))))))))))"

definition LoginHandler :: handler where
  "LoginHandler =
     \<lparr>h_validate = Login_validate, h_authorize = (\<lambda>_. retn ()), h_execute = Login_execute\<rparr>"

section \<open>\<open>KeyExchangeHandler\<close>\<close>

definition KeyExchange_validate :: "Packet \<Rightarrow> exn + unit" where
  "KeyExchange_validate p =
     reject_if
       [(pfrom p = [], ''KEY_EXCHANGE: sender (from) is required''),
        (pkey p = [] \<and> pto p = [],
         ''KEY_EXCHANGE: provide key to upload or '' @ [CHR 0x27] @ ''to'' @ [CHR 0x27] @ '' to request a peer key'')]"

definition KeyExchange_execute :: "Packet \<Rightarrow> conn \<Rightarrow> unit W" where
  "KeyExchange_execute p c =
     bnd (when_m (pkey p \<noteq> [])
           (bnd (UserRepository_findByUsername (pfrom p)) (\<lambda>uo. case uo of
              None \<Rightarrow> protocol_error ''KEY_EXCHANGE: sender not found''
            | Some u \<Rightarrow> UserRepository_save (u\<lparr>us_publicKey := pkey p\<rparr>)))) (\<lambda>_.
     if pto p \<noteq> [] then
       bnd (UserRepository_findByUsername (pto p)) (\<lambda>po. case po of
          None \<Rightarrow> protocol_error ''KEY_EXCHANGE: requested user not found''
        | Some peer \<Rightarrow>
            send c ((new_packet KEY_EXCHANGE)\<lparr>pfrom := pto p, pto := pfrom p, pkey := us_publicKey peer\<rparr>))
     else send c ((new_packet ACK)\<lparr>pto := pfrom p\<rparr>))"

definition KeyExchangeHandler :: handler where
  "KeyExchangeHandler =
     \<lparr>h_validate = KeyExchange_validate, h_authorize = BaseAuth_authorize, h_execute = KeyExchange_execute\<rparr>"

section \<open>Steps\<close>

lemma clock_hs: "(\<And>s. snd (m s) = tick s) \<Longrightarrow> keeps (handler_step c) m"
  by (simp add: keeps_def handler_step_def)

lemma crypto_hs [h_step]:
  "keeps (handler_step c) (RAND_bytes n)" "keeps (handler_step c) (argon2_derive a b d pw salt)"
  by (rule clock_hs; simp add: RAND_bytes_def argon2_derive_def split: option.splits kdf_fault.splits)+

lemma tokens_hs [h_step]:
  "keeps (handler_step c) (hashPassword pw)" "keeps (handler_step c) (verifyPassword pw st)"
  "keeps (handler_step c) Register_generateToken" "keeps (handler_step c) Login_generateToken"
  unfolding hashPassword_def verifyPassword_def Register_generateToken_def Login_generateToken_def
  by (intro hs.rules h_step)+

lemma for_each_break_hs:
  "(\<And>x. keeps (handler_step c) (f x)) \<Longrightarrow> keeps (handler_step c) (for_each_break f xs)"
  by (induction xs) (auto intro!: hs.rules)

lemma Register_execute_hs: "keeps (handler_step c) (Register_execute p c)"
  unfolding Register_execute_def Register_flush_def by (intro hs.rules h_step)

lemma try_send_hs [h_step]: "keeps (handler_step c) (try_send x p)"
  unfolding try_send_def by (intro hs.rules h_step)

lemma flushes_hs [h_step]:
  "keeps (handler_step c) (Login_flush x u entry)"
  "keeps (handler_step c) (flushOfflineReadReceipts u x)"
  "keeps (handler_step c) (flushPendingNotifications u x)"
  unfolding Login_flush_def flushOfflineReadReceipts_def flushPendingNotifications_def wrap_db_def
  by (intro hs.rules h_step session_step [THEN db_step_hs] sql_step [THEN db_step_hs] stmt_ok)+

lemma Login_execute_hs: "keeps (handler_step c) (Login_execute p c)"
  unfolding Login_execute_def by (intro hs.rules h_step for_each_break_hs)

lemma KeyExchange_execute_hs: "keeps (handler_step c) (KeyExchange_execute p c)"
  unfolding KeyExchange_execute_def by (intro hs.rules h_step)

section \<open>The gate\<close>

text \<open>
  A connection is authorised when it is authenticated and its token belongs to a session that is
  active and not expired at the time of the query (the second tick: the first borrows the session).
\<close>

definition authorised :: "world \<Rightarrow> conn \<Rightarrow> bool" where
  "authorised s c \<longleftrightarrow>
     cs_state (conns s c) = Authenticated \<and> cs_sessionToken (conns s c) \<noteq> []
     \<and> (\<exists>r \<in> set (sessions (db s)). s_session_token r = cs_sessionToken (conns s c)
          \<and> session_live (db_now (ext s) (Suc (clock s))) r)"

text \<open>Nothing happened but the passing of time.\<close>

definition untouched :: "world \<Rightarrow> world \<Rightarrow> bool" where
  "untouched s s' \<longleftrightarrow> only_db s s' \<and> db s' = db s"

lemma untouched_tick [simp]: "untouched s s" "untouched s (tick s)" "untouched s (tick (tick s))"
  by (simp_all add: untouched_def only_db_def)

interpretation ut: step_preorder untouched
  by unfold_locales (auto simp: untouched_def intro: odb.R_trans)

lemma repo_query_wp:
  "wp (repo ctx (query q)) (\<lambda>r t. untouched s t \<and> (\<exists>n. r = q (ext s) n (db s)))
     (\<lambda>e t. untouched s t \<and> is_Db e) s"
  by (auto simp: repo_def wrap_db_def wp query_def untouched_def only_db_def split: option.splits)

lemma findByUsername_wp:
  "wp (UserRepository_findByUsername u)
     (\<lambda>r t. untouched s t \<and>
        r = fetch_one u_username (rowToUser (ext s)) (find (\<lambda>r. u_username r = u) (users (db s))))
     (\<lambda>e t. untouched s t \<and> is_Db e) s"
  unfolding UserRepository_findByUsername_def user_select_name_def
  by (rule wp_mono [OF repo_query_wp]) auto

lemma findByToken_wp:
  "wp (SessionRepository_findByToken tok)
     (\<lambda>r t. untouched s t \<and> (r \<noteq> None \<longrightarrow> (\<exists>x \<in> set (sessions (db s)).
        s_session_token x = tok \<and> session_live (db_now (ext s) (Suc (clock s))) x)))
     (\<lambda>e t. untouched s t \<and> is_Db e) s"
  by (auto simp: SessionRepository_findByToken_def repo_def wrap_db_def wp session_select_token_def query_def
      untouched_def only_db_def fetch_one_def split: option.splits dest!: find_SomeD)

lemma authorize_wp:
  "wp (BaseAuth_authorize c) (\<lambda>_ t. untouched s t \<and> authorised s c)
     (\<lambda>e t. untouched s t \<and> (is_Protocol e \<or> is_Db e)) s"
  by (auto simp: BaseAuth_authorize_def wp isAuthenticated_def getSessionToken_def authorised_def
      intro!: wp_mono [OF findByToken_wp] split: option.splits if_splits)

lemma authorize_accepts:
  assumes "quiet s" "authorised s c"
  shows "wp (BaseAuth_authorize c) (\<lambda>_. untouched s) (\<lambda>_ _. False) s"
proof -
  obtain r where r: "find (\<lambda>x. s_session_token x = cs_sessionToken (conns s c)
      \<and> session_live (db_now (ext s) (Suc (clock s))) x) (sessions (db s)) = Some r"
    using assms(2) by (fastforce simp: authorised_def find_None_iff not_None_eq [symmetric])
  then have "s_session_token r = cs_sessionToken (conns s c)" by (auto dest: find_SomeD)
  then show ?thesis
    using assms(2) r
    by (auto simp: BaseAuth_authorize_def wp authorised_def SessionRepository_findByToken_def wp_repo_quiet [OF assms(1)]
        session_select_token_def query_def fetch_one_def untouched_def only_db_def)
qed

locale gated_handler =
  fixes h :: handler
  assumes gate: "h_authorize h = BaseAuth_authorize"
    and validate_protocol: "h_validate h p = Inl e \<Longrightarrow> is_Protocol e"
begin

lemma rejected:
  assumes "\<not> authorised s c"
  shows "wp (handle h p c) (\<lambda>_ _. False) (\<lambda>e t. untouched s t \<and> (is_Protocol e \<or> is_Db e)) s"
  using assms validate_protocol [of p]
  by (auto simp: handle_def wp gate split: sum.splits intro!: wp_mono [OF authorize_wp])

end

lemma reject_if_protocol [simp]: "reject_if cs = Inl e \<Longrightarrow> is_Protocol e"
  by (auto simp: reject_if_def split: option.splits)

interpretation key_exchange: gated_handler KeyExchangeHandler
  by unfold_locales (auto simp: KeyExchangeHandler_def KeyExchange_validate_def)

section \<open>What a password check accepts\<close>

definition password_matches :: "external \<Rightarrow> string \<Rightarrow> string \<Rightarrow> bool" where
  "password_matches e pw stored \<longleftrightarrow>
     (case split_at CHR '':'' stored of
        None \<Rightarrow> False
      | Some (sh, eh) \<Rightarrow> (case fromHex sh of Inl _ \<Rightarrow> False | Inr salt \<Rightarrow> toHex (argon2id e pw salt) = eh))"

lemma toHex_inject [simp]: "toHex a = toHex b \<longleftrightarrow> a = b"
  using fromHex_toHex by (metis sum.inject(2))

lemma matches_hash:
  "password_matches e pw' (toHex salt @ '':'' @ toHex (argon2id e pw salt)) \<longleftrightarrow>
     argon2id e pw' salt = argon2id e pw salt"
  using toHex_no_sep [of salt] by (simp add: password_matches_def fromHex_toHex)

lemma derive_wp [wp]:
  "wp (argon2_derive a b d pw salt) Q E s =
     (case kdf_faults (ext s) (clock s) of
        Some KdfUnavailable \<Rightarrow> E (CryptoException a) (tick s)
      | Some KdfNoContext \<Rightarrow> E (CryptoException b) (tick s)
      | Some KdfDeriveFailed \<Rightarrow> E (CryptoException d) (tick s)
      | None \<Rightarrow> Q (argon2id (ext s) pw salt) (tick s))"
  by (simp add: wp_def argon2_derive_def split: option.splits kdf_fault.splits)

lemma RAND_bytes_wp [wp]: "wp (RAND_bytes n) Q E s = Q (rand_bytes (ext s) (clock s) n) (tick s)"
  by (simp add: wp_def RAND_bytes_def)

lemma verifyPassword_wp:
  "wp (verifyPassword pw stored) (\<lambda>b t. b = password_matches (ext s) pw stored \<and> untouched s t)
     (\<lambda>e t. untouched s t) s"
  by (auto simp: verifyPassword_def wp password_matches_def split: option.splits sum.splits kdf_fault.splits)

lemma hashPassword_wp:
  "wp (hashPassword pw)
     (\<lambda>ph t. untouched s t \<and> (\<exists>salt. rand_bytes (ext s) (clock s) 16 = Some salt
        \<and> ph = toHex salt @ '':'' @ toHex (argon2id (ext s) pw salt)))
     (\<lambda>e t. untouched s t) s"
  by (auto simp: hashPassword_def wp split: option.splits kdf_fault.splits)

text \<open>
  C35. A password that was hashed verifies: with Argon2id available, the check of the right password
  against the stored hash returns true, and the check of any other password returns true
  only if Argon2id maps the two passwords to the same digest under the stored salt.
\<close>

theorem password_roundtrip:
  assumes "hashPassword pw s = (Inr stored, s1)" "ext t = ext s" "kdf_faults (ext t) (clock t) = None"
  shows "fst (verifyPassword pw stored t) = Inr True
    \<and> (\<exists>salt. rand_bytes (ext s) (clock s) 16 = Some salt
        \<and> fst (verifyPassword pw' stored t) = Inr (argon2id (ext s) pw' salt = argon2id (ext s) pw salt))"
proof -
  obtain salt where salt: "rand_bytes (ext s) (clock s) 16 = Some salt"
    and st: "stored = toHex salt @ '':'' @ toHex (argon2id (ext s) pw salt)"
    using wp_InrD [OF hashPassword_wp assms(1)] by auto
  have "fst (verifyPassword q stored t) = Inr (argon2id (ext s) q salt = argon2id (ext s) pw salt)" for q
    using assms(2,3) toHex_no_sep [of salt]
    by (simp add: st verifyPassword_def fromHex_toHex bnd_def lift_sum_def retn_def argon2_derive_def)
  with salt show ?thesis by simp
qed

text \<open>Witness of C35, in the example environment.\<close>

lemma password_roundtrip_witness:
  "fst (verifyPassword ''secret12'' (toHex (replicate 16 (char_of (0::nat))) @ '':''
      @ toHex (''secret12'' @ replicate 16 (char_of (0::nat)))) example_world) = Inr True"
proof -
  let ?stored = "toHex (replicate 16 (char_of (0::nat))) @ '':''
      @ toHex (''secret12'' @ replicate 16 (char_of (0::nat)))"
  have "hashPassword ''secret12'' example_world = (Inr ?stored, tick (tick example_world))"
    by (simp add: hashPassword_def bnd_def RAND_bytes_def argon2_derive_def retn_def example_world_def
        example_ext_def tick_def)
  from password_roundtrip [OF this, of example_world] show ?thesis
    by (simp add: example_world_def example_ext_def)
qed

section \<open>A login that succeeds\<close>

text \<open>What follows the issue of the token: the acknowledgement and the three flushes.\<close>

definition Login_rest :: "Packet \<Rightarrow> conn \<Rightarrow> string \<Rightarrow> unit W" where
  "Login_rest p c tok =
     bnd (ignore_errors (UserRepository_updateLastSeen (pfrom p))) (\<lambda>_.
     bnd (send c (token_ack (pfrom p) tok)) (\<lambda>_.
     bnd (OfflineQueueRepository_findUndeliveredByRecipient (pfrom p)) (\<lambda>entries.
     bnd (for_each_break (Login_flush c (pfrom p)) entries) (\<lambda>_.
     bnd (flushOfflineReadReceipts (pfrom p) c) (\<lambda>_.
     flushPendingNotifications (pfrom p) c)))))"

text \<open>Repository calls and sends leave the sessions table and the connections alone.\<close>

definition sess_view :: "world \<Rightarrow> sessions_row list \<times> (conn \<Rightarrow> ClientSession) \<times> external" where
  "sess_view s = (sessions (db s), conns s, ext s)"

lemma repo_view:
  assumes "\<And>e n d. sessions (snd (st e n d)) = sessions d"
  shows "frame sess_view (repo ctx st)"
proof -
  have "keeps only_db (repo ctx st)" "pres (\<lambda>s. sessions (db s) = v) (repo ctx st)" for v
    by (auto intro!: repo_only_db repo_pres simp: st_keeps_def assms)
  then show ?thesis by (auto simp: keeps_def sess_view_def only_db_def)
qed

lemma sql_view:
  assumes "\<And>e n d. sessions (snd (st e n d)) = sessions d"
  shows "frame sess_view (sql st)"
proof -
  have "keeps only_db (sql st)" "pres (\<lambda>s. sessions (db s) = v) (sql st)" for v
    by (auto intro!: sql_only_db sql_pres simp: st_keeps_def assms)
  then show ?thesis by (auto simp: keeps_def sess_view_def only_db_def)
qed

lemma session_view: "frame sess_view DbManager_session"
  using session_only_db session_pres [of "\<lambda>d. sessions d = v" for v]
  by (auto simp: keeps_def sess_view_def only_db_def)

lemma send_view: "frame sess_view (send c p)"
  by (simp add: keeps_wp wp sess_view_def split: option.splits)

lemma for_each_break_frame: "(\<And>x. frame f (g x)) \<Longrightarrow> frame f (for_each_break g xs)"
  by (induction xs) (auto intro!: frm.rules)

lemma Login_rest_view: "frame sess_view (Login_rest p c tok)"
  unfolding Login_rest_def Login_flush_def flushOfflineReadReceipts_def flushPendingNotifications_def
    PendingNotificationRepository_findAndClear_def try_send_def ignore_errors_def wrap_db_def
    repo_defs stmt_defs orr_mark_def
  by (intro frm.rules send_view session_view repo_view sql_view for_each_break_frame;
      simp add: query_def dml_def)

text \<open>What a login does once the password has been accepted.\<close>

definition Login_grant :: "Packet \<Rightarrow> conn \<Rightarrow> int \<Rightarrow> unit W" where
  "Login_grant p c uid =
     bnd Login_generateToken (\<lambda>tok.
     bnd (bnd (SessionRepository_deactivateAllForUser uid) (\<lambda>_.
            SessionRepository_save \<lparr>se_id = 0, se_userId = uid, se_sessionToken = tok, se_createdAt = [],
              se_expiresAt = [], se_isActive = True\<rparr>)) (\<lambda>_.
     bnd (setUsername c (pfrom p)) (\<lambda>_.
     bnd (setSessionToken c tok) (\<lambda>_.
     bnd (setState c Authenticated) (\<lambda>_. Login_rest p c tok)))))"

lemma Login_execute_eq:
  "Login_execute p c =
     bnd (UserRepository_findByUsername (pfrom p)) (\<lambda>uo. case uo of
        None \<Rightarrow> protocol_error ''LOGIN: invalid credentials''
      | Some u \<Rightarrow>
          bnd (verifyPassword (pbody p) (us_passwordHash u)) (\<lambda>good.
          bnd (throw_if (\<not> good) (ProtocolException ''LOGIN: invalid credentials'')) (\<lambda>_.
          Login_grant p c (us_id u))))"
  unfolding Login_execute_def Login_grant_def Login_rest_def bnd_assoc ..

text \<open>Everything before the grant leaves the state alone; the grant needs a matching user.\<close>

lemma Login_execute_wpI:
  assumes "\<And>row t. row \<in> set (users (db s)) \<Longrightarrow> u_username row = pfrom p \<Longrightarrow>
      password_matches (ext s) (pbody p) (u_password_hash row) \<Longrightarrow> untouched s t \<Longrightarrow>
      wp (Login_grant p c (u_id row)) Q E t"
    and "\<And>e t. untouched s t \<Longrightarrow> E e t"
  shows "wp (Login_execute p c) Q E s"
  unfolding Login_execute_eq wp_bnd
proof (rule wp_mono [OF findByUsername_wp], goal_cases)
  case (1 uo t)
  show ?case
  proof (cases uo)
    case None
    with 1 assms(2) show ?thesis by (simp add: protocol_error_def wp)
  next
    case (Some u)
    then obtain row where row: "row \<in> set (users (db s))" "u_username row = pfrom p" "u = rowToUser (ext s) row"
      using 1 by (auto simp: fetch_one_def dest!: find_SomeD split: option.splits if_splits)
    have grant: "wp (Login_grant p c (us_id u)) Q E t'"
      if "password_matches (ext t) (pbody p) (us_passwordHash u)" "untouched t t'" for t'
      using assms(1) [OF row(1,2)] that 1 row(3) ut.R_trans [of s t t']
      by (simp add: rowToUser_def untouched_def only_db_def)
    show ?thesis
      unfolding Some option.case wp_bnd
      by (rule wp_mono [OF verifyPassword_wp])
        (use 1 in \<open>auto simp: wp intro!: grant assms(2) intro: ut.R_trans\<close>)
  qed
qed (use assms(2) in auto)

lemma setters_wp [wp]:
  "wp (setState c st) Q E s = Q () (s\<lparr>conns := (conns s)(c := (conns s c)\<lparr>cs_state := st\<rparr>)\<rparr>)"
  "wp (setUsername c u) Q E s = Q () (s\<lparr>conns := (conns s)(c := (conns s c)\<lparr>cs_username := u\<rparr>)\<rparr>)"
  "wp (setSessionToken c tok) Q E s = Q () (s\<lparr>conns := (conns s)(c := (conns s c)\<lparr>cs_sessionToken := tok\<rparr>)\<rparr>)"
  by (simp_all add: setState_def setUsername_def setSessionToken_def wp)

text \<open>The tokens of the live sessions of a user.\<close>

definition active_tokens :: "int \<Rightarrow> database \<Rightarrow> string list" where
  "active_tokens uid d = map s_session_token (filter (\<lambda>r. s_user_id r = uid \<and> s_is_active r) (sessions d))"

lemma deactivate_none: "filter (\<lambda>r. s_user_id r = uid \<and> s_is_active r)
    (update_where (\<lambda>r. s_user_id r = uid) (\<lambda>r. r\<lparr>s_is_active := False\<rparr>) rs) = []"
  by (induction rs) auto

lemma issue_session_wp:
  "wp (bnd (SessionRepository_deactivateAllForUser uid) (\<lambda>_.
         SessionRepository_save \<lparr>se_id = 0, se_userId = uid, se_sessionToken = tok, se_createdAt = [],
            se_expiresAt = [], se_isActive = True\<rparr>))
     (\<lambda>_ t. only_db s t \<and> users (db t) = users (db s) \<and> active_tokens uid (db t) = [tok]) (\<lambda>_ _. True) s"
  unfolding SessionRepository_deactivateAllForUser_def SessionRepository_save_def wp_bnd
  by (rule wp_mono [OF repo_wp], rule wp_mono [OF repo_wp])
    (auto simp: session_deactivate_def dml_eq session_save_st_def session_insert_def void_st_Inr
      insert_row_Inr active_tokens_def deactivate_none only_db_def)

lemma token_wp [wp]:
  "wp Login_generateToken Q E s =
     (case rand_bytes (ext s) (clock s) 32 of
        None \<Rightarrow> E (CryptoException ''LoginHandler: RAND_bytes failed'') (tick s)
      | Some buf \<Rightarrow> Q (toHex buf) (tick s))"
  by (simp add: Login_generateToken_def wp split: option.splits)

lemma Login_grant_wp:
  "wp (Login_grant p c uid)
     (\<lambda>_ t. \<exists>tok. conns t c = \<lparr>cs_state = Authenticated, cs_username = pfrom p, cs_sessionToken = tok\<rparr>
        \<and> active_tokens uid (db t) = [tok])
     (\<lambda>_ _. True) s"
proof -
  have rest: "wp (Login_rest p c tok) (\<lambda>_ t'. sess_view t' = sess_view t) (\<lambda>_ _. True) t" for tok t
    using keeps_wpD [OF Login_rest_view [of p c tok], of t] by (rule wp_mono) auto
  have set: "wp (bnd (setUsername c (pfrom p)) (\<lambda>_. bnd (setSessionToken c tok) (\<lambda>_.
        bnd (setState c Authenticated) (\<lambda>_. Login_rest p c tok))))
      (\<lambda>_ t'. conns t' c = \<lparr>cs_state = Authenticated, cs_username = pfrom p, cs_sessionToken = tok\<rparr>
         \<and> active_tokens uid (db t') = active_tokens uid (db t)) (\<lambda>_ _. True) t" for tok t
    unfolding wp_bnd setters_wp
    by (rule wp_mono [OF rest]) (auto simp: sess_view_def active_tokens_def)
  have "wp (bnd (bnd (SessionRepository_deactivateAllForUser uid) (\<lambda>_.
            SessionRepository_save \<lparr>se_id = 0, se_userId = uid, se_sessionToken = tok, se_createdAt = [],
              se_expiresAt = [], se_isActive = True\<rparr>)) (\<lambda>_.
        bnd (setUsername c (pfrom p)) (\<lambda>_. bnd (setSessionToken c tok) (\<lambda>_.
          bnd (setState c Authenticated) (\<lambda>_. Login_rest p c tok)))))
      (\<lambda>_ t'. \<exists>tok. conns t' c = \<lparr>cs_state = Authenticated, cs_username = pfrom p, cs_sessionToken = tok\<rparr>
         \<and> active_tokens uid (db t') = [tok]) (\<lambda>_ _. True) t" for tok t
    by (subst wp_bnd, rule wp_mono [OF issue_session_wp], rule wp_mono [OF set]) auto
  then show ?thesis
    unfolding Login_grant_def wp_bnd [of Login_generateToken] by (simp add: token_wp split: option.splits)
qed

text \<open>
  C13. Without the right credentials a login has no effect: if no registered user of that name has
  a stored hash that the given password matches, the handler throws and neither the tables nor
  any connection, the client map or the outbox change.
\<close>

theorem login_requires_credentials:
  assumes "\<not> (\<exists>r \<in> set (users (db s)). u_username r = pfrom p
      \<and> password_matches (ext s) (pbody p) (u_password_hash r))"
  shows "wp (handle LoginHandler p c) (\<lambda>_ _. False) (\<lambda>e t. untouched s t) s"
proof -
  have "wp (Login_execute p c) (\<lambda>_ _. False) (\<lambda>e t. untouched s t) s"
    by (rule Login_execute_wpI) (use assms in auto)
  then show ?thesis
    by (simp add: handle_def LoginHandler_def wp split: sum.splits)
qed

text \<open>Witness of C13: nobody logs in as bob with a wrong password in the example state.\<close>

lemma login_requires_credentials_witness:
  "wp (handle LoginHandler ((new_packet LOGIN)\<lparr>pfrom := ''bob'', pbody := ''guess''\<rparr>) 1)
     (\<lambda>_ _. False) (\<lambda>e t. untouched example_state t) example_state"
proof (rule login_requires_credentials)
  have "\<not> password_matches example_ext ''guess'' ''00:00''"
    by (simp add: password_matches_def split_at_def stoi16_def hex_val_def toHex_def hex_char_def
        example_ext_def split: sum.splits)
  then show "\<not> (\<exists>r \<in> set (users (db example_state)).
      u_username r = pfrom ((new_packet LOGIN)\<lparr>pfrom := ''bob'', pbody := ''guess''\<rparr>)
      \<and> password_matches (ext example_state) (pbody ((new_packet LOGIN)\<lparr>pfrom := ''bob'', pbody := ''guess''\<rparr>))
          (u_password_hash r))"
    by (simp add: example_state_def example_world_def example_db_def example_user_def)
qed

text \<open>
  A login leaves exactly one session: when it returns, the named user exists with a matching
  password, the connection is authenticated as that user, and the active sessions of the user
  are the one just issued to it (every older token is revoked).
\<close>

lemma login_single_session:
  "wp (Login_execute p c)
     (\<lambda>_ t. \<exists>row tok. row \<in> set (users (db s)) \<and> u_username row = pfrom p
        \<and> password_matches (ext s) (pbody p) (u_password_hash row)
        \<and> conns t c = \<lparr>cs_state = Authenticated, cs_username = pfrom p, cs_sessionToken = tok\<rparr>
        \<and> active_tokens (u_id row) (db t) = [tok])
     (\<lambda>_ _. True) s"
  by (rule Login_execute_wpI) (auto intro!: wp_mono [OF Login_grant_wp])

lemma returns_for_each_break [ret]: "(\<And>x. returns (f x)) \<Longrightarrow> returns (for_each_break f xs)"
proof (induction xs)
  case (Cons x xs)
  then have "returns (if stop then retn () else for_each_break f xs)" for stop
    by (simp add: ret)
  with Cons.prems show ?case by (simp add: ret)
qed (simp add: ret)

lemma returns_Login_rest: "returns (Login_rest p c tok)"
  unfolding Login_rest_def Login_flush_def flushOfflineReadReceipts_def flushPendingNotifications_def
    PendingNotificationRepository_findAndClear_def try_send_def repo_defs stmt_defs orr_mark_def
  by (intro ret)

lemma verifyPassword_ok:
  "password_matches (ext t) pw st \<Longrightarrow> kdf_faults (ext t) (clock t) = None \<Longrightarrow>
    wp (verifyPassword pw st) Q E t = Q True (tick t)"
  by (auto simp: password_matches_def verifyPassword_def wp split: option.splits sum.splits prod.splits)

lemma user_ids_sessions [simp]: "user_ids (sessions_update f d) = user_ids d"
  by (simp add: user_ids_def)

lemma Login_grant_ok:
  assumes "quiet s" "uid \<in> user_ids (db s)" "rand_bytes (ext s) (clock s) 32 = Some buf"
    "varchar_fits (ext s) 256 (toHex buf)" "toHex buf \<notin> s_session_token ` set (sessions (db s))"
  shows "wp (Login_grant p c uid) (\<lambda>_ _. True) (\<lambda>_ _. False) s"
proof -
  have rest: "wp (Login_rest p c tok) (\<lambda>_ _. True) (\<lambda>_ _. False) t" if "quiet t" for tok t
    using returnsD [OF returns_Login_rest that] by (rule wp_mono) auto
  show ?thesis
    using assms
    by (simp add: Login_grant_def wp SessionRepository_deactivateAllForUser_def SessionRepository_save_def
        wp_repo_quiet session_deactivate_def dml_def session_save_st_def void_st_def session_insert_def
        insert_row_def Let_def image_update_where rest)
qed

lemma Login_execute_ok:
  assumes "quiet s" "db_ok (db s)" "row \<in> set (users (db s))" "u_username row = pfrom p"
    "pfrom p \<noteq> []" "password_matches (ext s) (pbody p) (u_password_hash row)"
    "kdf_faults (ext s) = (\<lambda>_. None)" "rand_bytes (ext s) (clock s + 3) 32 = Some buf"
    "varchar_fits (ext s) 256 (toHex buf)" "toHex buf \<notin> s_session_token ` set (sessions (db s))"
  shows "wp (Login_execute p c) (\<lambda>_ _. True) (\<lambda>_ _. False) s"
proof -
  have found: "find (\<lambda>r. u_username r = pfrom p) (users (db s)) = Some row"
    using assms(2-4) by (auto simp: db_ok_def users_ok_def intro: find_unique)
  have uid: "u_id row \<in> user_ids (db s)" using assms(3) by (simp add: user_ids_def)
  let ?t = "tick (tick (tick s))\<lparr>db := db s\<rparr>"
  have "wp (Login_grant p c (u_id row)) (\<lambda>_ _. True) (\<lambda>_ _. False) ?t"
    by (rule Login_grant_ok [of _ _ buf]) (use assms uid in \<open>auto simp: numeral_3_eq_3\<close>)
  then show ?thesis
    using assms found
    by (simp add: Login_execute_eq wp UserRepository_findByUsername_def wp_repo_quiet user_select_name_def
        query_def fetch_one_def rowToUser_def verifyPassword_ok tick_db_update)
qed

text \<open>
  C36. A login with the right credentials succeeds when neither the database nor the network
  fails, Argon2id is available and the 32 random bytes give a token that fits and is new; the connection then is
  authenticated as that user under a token that is the user's only active one.  Nothing is asked of the connection: it may
  be logged in already, as the same or as another user, and the login then replaces that user and token (the header of
  \<open>LoginHandler.h\<close> says that \<open>authorize()\<close> rejects a double login; \<open>LoginHandler.cpp\<close> lets it pass).
\<close>

theorem login_succeeds:
  assumes "quiet s" "db_ok (db s)" "row \<in> set (users (db s))" "u_username row = pfrom p"
    "pfrom p \<noteq> []" "pbody p \<noteq> []" "password_matches (ext s) (pbody p) (u_password_hash row)"
    "kdf_faults (ext s) = (\<lambda>_. None)" "rand_bytes (ext s) (clock s + 3) 32 = Some buf"
    "varchar_fits (ext s) 256 (toHex buf)" "toHex buf \<notin> s_session_token ` set (sessions (db s))"
  shows "\<exists>t tok. handle LoginHandler p c s = (Inr (), t)
    \<and> conns t c = \<lparr>cs_state = Authenticated, cs_username = pfrom p, cs_sessionToken = tok\<rparr>
    \<and> active_tokens (u_id row) (db t) = [tok]"
proof -
  have "find (\<lambda>r. u_username r = pfrom p) (users (db s)) = Some r" if "r \<in> set (users (db s))" "u_username r = pfrom p" for r
    using that assms(2) by (auto simp: db_ok_def users_ok_def intro: find_unique)
  from this [OF assms(3,4)] this have "row' = row" if "row' \<in> set (users (db s))" "u_username row' = pfrom p" for row'
    using that by (metis option.inject)
  then have "wp (Login_execute p c) (\<lambda>_ t. \<exists>tok. conns t c = \<lparr>cs_state = Authenticated, cs_username = pfrom p, cs_sessionToken = tok\<rparr>
      \<and> active_tokens (u_id row) (db t) = [tok]) (\<lambda>_ _. True) s"
    by (rule_tac wp_mono [OF login_single_session]) auto
  from wp_conj [OF Login_execute_ok [OF assms(1-5,7-11)] this]
  have "wp (handle LoginHandler p c) (\<lambda>_ t. \<exists>tok. conns t c = \<lparr>cs_state = Authenticated, cs_username = pfrom p, cs_sessionToken = tok\<rparr>
      \<and> active_tokens (u_id row) (db t) = [tok]) (\<lambda>_ _. False) s"
    using assms(5,6) by (simp add: handle_def LoginHandler_def wp Login_validate_def reject_if_def)
  then show ?thesis
    by (auto simp: wp_def split: prod.splits sum.splits)
qed

text \<open>
  Witness of C36: dave, whose stored hash has an empty salt, logs in to the example server over a connection on which bob is
  logged in; Argon2id is the concatenation of password and salt.
\<close>

definition example_login_state :: world where
  "example_login_state = example_world\<lparr>db := empty_db\<lparr>users :=
     [\<lparr>u_id = 1, u_username = ''dave'', u_password_hash = '':'' @ toHex ''pw'', u_public_key = [],
       u_last_seen = 0, u_created_at = 0\<rparr>], seqs := (\<lambda>_. 2)\<rparr>\<rparr>"

definition example_busy_state :: world where
  "example_busy_state = example_login_state\<lparr>
     conns := (\<lambda>_. \<lparr>cs_state = Authenticated, cs_username = ''bob'', cs_sessionToken = ''old''\<rparr>)\<rparr>"

lemma login_succeeds_witness:
  "\<exists>t tok. handle LoginHandler ((new_packet LOGIN)\<lparr>pfrom := ''dave'', pbody := ''pw''\<rparr>) 1 example_busy_state = (Inr (), t)
     \<and> conns t 1 = \<lparr>cs_state = Authenticated, cs_username = ''dave'', cs_sessionToken = tok\<rparr>"
proof -
  have row: "db_ok (db example_busy_state)"
    by (simp add: example_busy_state_def example_login_state_def db_ok_def ok_defs key_defs keyed_def empty_db_def)
  have "password_matches (ext example_busy_state) (pbody ((new_packet LOGIN)\<lparr>pfrom := ''dave'', pbody := ''pw''\<rparr>))
      (u_password_hash (hd (users (db example_busy_state))))"
    by (simp add: example_busy_state_def example_login_state_def example_world_def example_ext_def password_matches_def split_at_def)
  then show ?thesis
    using login_succeeds [OF _ row, of "hd (users (db example_busy_state))" "(new_packet LOGIN)\<lparr>pfrom := ''dave'', pbody := ''pw''\<rparr>"
        "replicate 32 (char_of (3 :: nat))" 1]
    by (auto simp: example_busy_state_def example_login_state_def example_world_def example_ext_def empty_db_def quiet_def)
qed

section \<open>Registration\<close>

lemma user_row_visible:
  "fetch_one u_username (rowToUser e) (find (\<lambda>r. u_username r = u) rs) = None \<Longrightarrow> u \<noteq> [] \<Longrightarrow>
    u \<notin> u_username ` set rs"
  by (auto simp: fetch_one_def find_None_set split: option.splits if_splits dest!: find_SomeD)

text \<open>The account part of a registration: the taken name is refused, else the row is inserted.\<close>

definition Register_account :: "Packet \<Rightarrow> unit W" where
  "Register_account p =
     bnd (UserRepository_findByUsername (pfrom p)) (\<lambda>ex.
     bnd (throw_if (ex \<noteq> None) (ProtocolException ''REGISTER: username already taken'')) (\<lambda>_.
     bnd (hashPassword (pbody p)) (\<lambda>ph.
     UserRepository_save \<lparr>us_id = 0, us_username = pfrom p, us_passwordHash = ph, us_publicKey = [],
       us_lastSeen = [], us_createdAt = []\<rparr>)))"

definition Register_rest :: "Packet \<Rightarrow> conn \<Rightarrow> unit W" where
  "Register_rest p c =
     bnd (UserRepository_findByUsername (pfrom p)) (\<lambda>saved.
     let userId = (case saved of None \<Rightarrow> 0 | Some u \<Rightarrow> us_id u) in
     bnd Register_generateToken (\<lambda>tok.
     bnd (SessionRepository_save \<lparr>se_id = 0, se_userId = userId, se_sessionToken = tok, se_createdAt = [],
            se_expiresAt = [], se_isActive = True\<rparr>) (\<lambda>_.
     bnd (setUsername c (pfrom p)) (\<lambda>_.
     bnd (setSessionToken c tok) (\<lambda>_.
     bnd (setState c Authenticated) (\<lambda>_.
     bnd (OfflineQueueRepository_findUndeliveredByRecipient (pfrom p)) (\<lambda>entries.
     bnd (for_each (Register_flush c (pfrom p)) entries) (\<lambda>_.
     send c (token_ack (pfrom p) tok)))))))))"

lemma Register_execute_eq: "Register_execute p c = bnd (Register_account p) (\<lambda>_. Register_rest p c)"
  unfolding Register_execute_def Register_account_def Register_rest_def bnd_assoc ..

text \<open>The new row of a registered account.\<close>

definition account_added :: "Packet \<Rightarrow> world \<Rightarrow> world \<Rightarrow> bool" where
  "account_added p s t \<longleftrightarrow>
     (\<exists>row. users (db t) = users (db s) @ [row] \<and> u_username row = pfrom p
        \<and> u_username row \<notin> usernames (db s) \<and> password_matches (ext s) (pbody p) (u_password_hash row))"

lemma Register_account_wp:
  assumes "pfrom p \<noteq> []"
  shows "wp (Register_account p) (\<lambda>_ t. account_added p s t \<and> ext t = ext s)
     (\<lambda>e t. users (db t) = users (db s)) s"
  unfolding Register_account_def wp_bnd
proof (rule wp_mono [OF findByUsername_wp], goal_cases)
  case (1 ex t)
  then have u: "untouched s t" and ex: "ex = None \<Longrightarrow> pfrom p \<notin> usernames (db s)"
    using user_row_visible [OF _ assms] by (auto simp: usernames_def)
  have save: "wp (UserRepository_save \<lparr>us_id = 0, us_username = pfrom p, us_passwordHash = ph,
        us_publicKey = [], us_lastSeen = [], us_createdAt = []\<rparr>)
      (\<lambda>_ t. account_added p s t \<and> ext t = ext s) (\<lambda>e t. users (db t) = users (db s)) t2"
    if "untouched s t2" "ex = None" "ph = toHex salt @ '':'' @ toHex (argon2id (ext s) (pbody p) salt)" for t2 ph salt
    unfolding UserRepository_save_def
    by (rule wp_mono [OF repo_wp])
      (use that ex [OF that(2)] matches_hash in \<open>auto simp: user_save_st_def user_insert_def st_results
        account_added_def untouched_def only_db_def\<close>)
  show ?case
    unfolding wp_throw_if
    using u save
    by (auto simp: untouched_def intro!: wp_mono [OF hashPassword_wp])
      (auto simp: untouched_def only_db_def)
qed (auto simp: untouched_def)

lemma Register_rest_users: "frame (\<lambda>s. users (db s)) (Register_rest p c)"
proof -
  have r: "frame (\<lambda>s. users (db s)) (repo ctx st)" if "\<And>e n d. users (snd (st e n d)) = users d" for ctx and st :: "'a stmt"
    using repo_pres [of "\<lambda>d. users d = v" st ctx for v] that by (auto simp: st_keeps_def keeps_def)
  have s: "frame (\<lambda>s. users (db s)) (send x q)" for x q
    by (simp add: keeps_wp wp split: option.splits)
  have [simp]: "users (snd (session_insert uid tok e n d)) = users d" for uid tok e n d
    by (simp add: session_insert_def insert_row_def Let_def split: option.splits)
  show ?thesis
    unfolding Register_rest_def Register_flush_def Register_generateToken_def repo_defs stmt_defs
      setState_def setUsername_def setSessionToken_def
    by (intro frm.rules frm.k_upd s r;
        simp add: query_def dml_def session_save_st_def keeps_def RAND_bytes_def)
qed

text \<open>
  C37. Registration creates the account once: when it returns, exactly one row was added to the
  users, under a name nobody had before and with a hash that the chosen password matches;
  when it throws, at most that row was added.
\<close>

theorem register_adds_account:
  assumes "pfrom p \<noteq> []"
  shows "wp (Register_execute p c) (\<lambda>_ t. account_added p s t)
     (\<lambda>_ t. users (db t) = users (db s) \<or> account_added p s t) s"
proof -
  have rest: "wp (Register_rest p c) (\<lambda>_ t. account_added p s t) (\<lambda>_ t. users (db t) = users (db s) \<or> account_added p s t) t"
    if "account_added p s t" for t
    using keeps_wpD [OF Register_rest_users [of p c], of t]
    by (rule wp_mono) (use that in \<open>auto simp: account_added_def\<close>)
  show ?thesis
    unfolding Register_execute_eq wp_bnd
    by (rule wp_mono [OF Register_account_wp [OF assms]]) (auto intro: rest)
qed

text \<open>Witness of C37: erin registers with the example server.\<close>

lemma register_adds_account_witness:
  "wp (Register_execute ((new_packet REGISTER)\<lparr>pfrom := ''erin'', pbody := ''longpass''\<rparr>) 1)
     (\<lambda>_ t. account_added ((new_packet REGISTER)\<lparr>pfrom := ''erin'', pbody := ''longpass''\<rparr>) example_state t)
     (\<lambda>_ t. users (db t) = users (db example_state)
        \<or> account_added ((new_packet REGISTER)\<lparr>pfrom := ''erin'', pbody := ''longpass''\<rparr>) example_state t)
     example_state"
  by (rule register_adds_account) simp

section \<open>Flushing the offline queue\<close>

text \<open>The frames sent between two states, and a message of the tables among them.\<close>

definition fresh_frames :: "world \<Rightarrow> world \<Rightarrow> (conn \<times> frame) set" where
  "fresh_frames s t = set (drop (length (outbox s)) (outbox t))"

definition handed_to :: "conn \<Rightarrow> string \<Rightarrow> world \<Rightarrow> world \<Rightarrow> int \<Rightarrow> bool" where
  "handed_to c u s t i \<longleftrightarrow>
     (\<exists>m \<in> set (messages (db s)). m_id m = i
        \<and> (c, Text (serialize (forward_packet u (rowToMessage (ext s) m)))) \<in> fresh_frames s t)"

text \<open>
  How a queue entry may change during a flush to connection \<open>c\<close> of user \<open>u\<close>: it keeps
  its identity, its attempts never decrease, and it becomes delivered only if it is for this user and
  its message was put on the wire, after an attempt was counted when the flush counts attempts (\<open>b\<close>:
  log-in does, registration does not).
\<close>

definition queue_flow :: "bool \<Rightarrow> conn \<Rightarrow> string \<Rightarrow> world \<Rightarrow> world \<Rightarrow> offline_row \<Rightarrow> offline_row \<Rightarrow> bool" where
  "queue_flow b c u s t r r' \<longleftrightarrow>
     o_id r' = o_id r \<and> o_message_id r' = o_message_id r \<and> o_recipient r' = o_recipient r
     \<and> o_delivery_attempts r \<le> o_delivery_attempts r' \<and> (o_delivered r \<longrightarrow> o_delivered r')
     \<and> (o_delivered r' \<longrightarrow> o_delivered r
          \<or> o_recipient r = u \<and> (b \<longrightarrow> o_delivery_attempts r < o_delivery_attempts r')
            \<and> handed_to c u s t (o_message_id r))"

definition flushed :: "bool \<Rightarrow> conn \<Rightarrow> string \<Rightarrow> world \<Rightarrow> world \<Rightarrow> bool" where
  "flushed b c u s t \<longleftrightarrow>
     ext t = ext s \<and> messages (db t) = messages (db s) \<and> prefix (outbox s) (outbox t)
     \<and> list_all2 (queue_flow b c u s t) (offline_queue (db s)) (offline_queue (db t))"

lemma fresh_frames_trans:
  assumes "prefix (outbox s) (outbox t)" "prefix (outbox t) (outbox v)"
  shows "fresh_frames s t \<subseteq> fresh_frames s v" "fresh_frames t v \<subseteq> fresh_frames s v"
  using assms by (auto simp: fresh_frames_def prefix_def)

lemma fresh_frames_append [simp]: "outbox t = outbox s @ fs \<Longrightarrow> fresh_frames s t = set fs"
  by (simp add: fresh_frames_def)

lemma queue_flow_trans:
  assumes "queue_flow b c u s t r r'" "queue_flow b c u t v r' r''" "flushed b c u s t" "prefix (outbox t) (outbox v)"
  shows "queue_flow b c u s v r r''"
proof -
  have sub: "fresh_frames s t \<subseteq> fresh_frames s v" "fresh_frames t v \<subseteq> fresh_frames s v"
    using fresh_frames_trans [OF _ assms(4)] assms(3) by (auto simp: flushed_def)
  have "handed_to c u s t i \<Longrightarrow> handed_to c u s v i" for i using sub(1) by (auto simp: handed_to_def)
  moreover have "handed_to c u t v i \<Longrightarrow> handed_to c u s v i" for i
    using sub(2) assms(3) by (auto simp: handed_to_def flushed_def)
  ultimately show ?thesis using assms(1,2) by (auto simp: queue_flow_def)
qed

interpretation fl: step_preorder "flushed b c u" for b c u
proof unfold_locales
  show "flushed b c u s s" for b c u s
    by (auto simp: flushed_def queue_flow_def intro: list.rel_refl)
  show "flushed b c u s v" if st: "flushed b c u s t" and tv: "flushed b c u t v" for b c u s t v
  proof -
    have pre: "prefix (outbox t) (outbox v)" using tv by (simp add: flushed_def)
    have "list_all2 (queue_flow b c u s v) (offline_queue (db s)) (offline_queue (db v))"
      by (rule list_all2_trans [where ?P1.0 = "queue_flow b c u s t" and ?P2.0 = "queue_flow b c u t v"
            and bs = "offline_queue (db t)"])
        (use st tv pre in \<open>auto simp: flushed_def intro: queue_flow_trans [OF _ _ st]\<close>)
    with st tv show ?thesis by (auto simp: flushed_def intro: prefix_order.trans)
  qed
qed

lemma list_all2_update_where:
  "(\<And>r. r \<in> set rs \<Longrightarrow> \<not> P r \<Longrightarrow> R r r) \<Longrightarrow> (\<And>r. r \<in> set rs \<Longrightarrow> P r \<Longrightarrow> R r (f r)) \<Longrightarrow>
    list_all2 R rs (update_where P f rs)"
  by (induction rs) auto

lemma queue_flow_refl [simp]: "queue_flow b c u s t r r"
  by (simp add: queue_flow_def)

lemma flushed_same:
  "ext t = ext s \<Longrightarrow> db t = db s \<Longrightarrow> prefix (outbox s) (outbox t) \<Longrightarrow> flushed b c u s t"
  by (simp add: flushed_def list.rel_refl)

lemma flushed_untouched: "only_db s t \<Longrightarrow> db t = db s \<Longrightarrow> flushed b c u s t"
  by (simp add: flushed_same only_db_def)

lemma bump_then_mark:
  "update_where (\<lambda>r. o_id r = i) (\<lambda>r. r\<lparr>o_delivered := True\<rparr>)
     (update_where (\<lambda>r. o_id r = i) (\<lambda>r. r\<lparr>o_delivery_attempts := o_delivery_attempts r + 1\<rparr>) rs)
   = update_where (\<lambda>r. o_id r = i)
     (\<lambda>r. r\<lparr>o_delivery_attempts := o_delivery_attempts r + 1, o_delivered := True\<rparr>) (rs :: offline_row list)"
  by (induction rs) auto

lemma findMessage_wp:
  "wp (MessageRepository_findById i)
     (\<lambda>r t. untouched s t \<and> (\<forall>x. r = Some x \<longrightarrow> (\<exists>m \<in> set (messages (db s)). m_id m = i \<and> x = rowToMessage (ext s) m)))
     (\<lambda>e t. untouched s t) s"
  unfolding MessageRepository_findById_def message_select_id_def
  by (rule wp_mono [OF repo_query_wp])
    (auto simp: fetch_one_def split: option.splits if_splits dest!: find_SomeD)

text \<open>The rows with the key of an entry are what the entry says, and for user \<open>u\<close>.\<close>

definition entry_for :: "string \<Rightarrow> OfflineMessage \<Rightarrow> database \<Rightarrow> bool" where
  "entry_for u q d \<longleftrightarrow>
     (\<forall>r \<in> set (offline_queue d). o_id r = om_id q \<longrightarrow> o_message_id r = om_messageId q \<and> o_recipient r = u)"

lemma entry_for_flushed: "flushed b c u s t \<Longrightarrow> entry_for v q (db s) \<Longrightarrow> entry_for v q (db t)"
  by (auto simp: entry_for_def flushed_def queue_flow_def list_all2_conv_all_nth all_set_conv_all_nth)

text \<open>One entry: counting the attempt, then sending and marking it delivered.\<close>

lemma Login_flush_wp:
  assumes "entry_for u q (db s)"
  shows "wp (Login_flush c u q) (\<lambda>_. flushed True c u s) (\<lambda>_. flushed True c u s) s"
proof -
  let ?bump = "offline_queue_update (update_where (\<lambda>r. o_id r = om_id q)
     (\<lambda>r. r\<lparr>o_delivery_attempts := o_delivery_attempts r + 1\<rparr>))"
  let ?mark = "offline_queue_update (update_where (\<lambda>r. o_id r = om_id q) (\<lambda>r. r\<lparr>o_delivered := True\<rparr>))"
  have bump: "flushed True c u s t" if "only_db s t" "db t = ?bump (db s)" for t
    using that by (auto simp: flushed_def only_db_def queue_flow_def intro!: list_all2_update_where)
  have sent: "flushed True c u s t" if "ext t = ext s" "db t = ?bump (db s)" "prefix (outbox s) (outbox t)" for t
    using that by (auto simp: flushed_def queue_flow_def intro!: list_all2_update_where)
  have mark: "flushed True c u s t"
    if "ext t = ext s" "db t = ?mark (?bump (db s))" "prefix (outbox s) (outbox t)"
      "m \<in> set (messages (db s))" "m_id m = om_messageId q"
      "(c, Text (serialize (forward_packet u (rowToMessage (ext s) m)))) \<in> fresh_frames s t" for t m
    using that assms
    by (auto simp: flushed_def queue_flow_def bump_then_mark handed_to_def entry_for_def intro!: list_all2_update_where)
  have deliver: "wp (bnd (send c (forward_packet u (rowToMessage (ext s) m))) (\<lambda>_.
        bnd (OfflineQueueRepository_markDelivered (om_id q)) (\<lambda>_. retn False)))
      (\<lambda>_. flushed True c u s) (\<lambda>_. flushed True c u s) t"
    if t: "ext t = ext s" "db t = ?bump (db s)" "outbox t = outbox s"
      and m: "m \<in> set (messages (db s))" "m_id m = om_messageId q" for t m
  proof -
    let ?t = "(tick t)\<lparr>outbox := outbox t @ [(c, Text (serialize (forward_packet u (rowToMessage (ext s) m))))]\<rparr>"
    have "wp (OfflineQueueRepository_markDelivered (om_id q)) (\<lambda>_. flushed True c u s) (\<lambda>_. flushed True c u s) ?t"
      unfolding OfflineQueueRepository_markDelivered_def queue_mark_delivered_def
      by (rule wp_mono [OF repo_wp])
        (use t m in \<open>auto simp: only_db_def st_results intro: mark [OF _ _ _ m] sent\<close>)
    then show ?thesis
      using t by (auto simp: wp wp_retn_fun split: option.splits intro!: sent elim: wp_mono)
  qed
  show ?thesis
    unfolding Login_flush_def wp_catch_if wp_bnd [of "repo _ _"]
      OfflineQueueRepository_incrementAttempts_def queue_increment_def
  proof (rule wp_mono [OF repo_wp], goal_cases)
    case (1 x t)
    then have t: "only_db s t" "db t = ?bump (db s)" by (auto simp: st_results)
    show ?case
      unfolding wp_bnd [of "MessageRepository_findById _"]
    proof (rule wp_mono [OF findMessage_wp], goal_cases)
      case (1 mo t1)
      then show ?case
        using t deliver [of t1] bump [of t1]
        by (cases mo) (auto simp: wp_retn untouched_def only_db_def elim!: wp_mono)
    next
      case (2 e t1)
      then show ?case using t bump [of t1] by (auto simp: wp_retn untouched_def only_db_def)
    qed
  next
    case (2 e t)
    then show ?case by (auto simp: wp_retn st_results intro!: flushed_untouched)
  qed
qed

lemma flush_loop_wp:
  assumes "\<forall>q \<in> set qs. entry_for u q (db s)"
  shows "wp (for_each_break (Login_flush c u) qs) (\<lambda>_. flushed True c u s) (\<lambda>_. flushed True c u s) s"
  using assms
proof (induction qs arbitrary: s)
  case Nil
  show ?case by (simp add: wp fl.R_refl)
next
  case (Cons q qs)
  have tail: "wp (if stop then retn () else for_each_break (Login_flush c u) qs)
      (\<lambda>_. flushed True c u s) (\<lambda>_. flushed True c u s) t" if t: "flushed True c u s t" for stop t
  proof -
    have "wp (for_each_break (Login_flush c u) qs) (\<lambda>_. flushed True c u t) (\<lambda>_. flushed True c u t) t"
      by (rule Cons.IH) (use Cons.prems entry_for_flushed [OF t] in auto)
    then show ?thesis
      by (auto simp: wp t intro: fl.R_trans [OF t] elim: wp_mono)
  qed
  show ?case
    unfolding for_each_break.simps wp_bnd
    by (rule wp_mono [OF Login_flush_wp]) (use Cons.prems tail in auto)
qed

text \<open>The entries the query finds are for the user it was asked for.\<close>

lemma find_entries_wp:
  assumes "db_ok (db s)"
  shows "wp (OfflineQueueRepository_findUndeliveredByRecipient u)
     (\<lambda>qs t. untouched s t \<and> (\<forall>q \<in> set qs. entry_for u q (db t))) (\<lambda>_. untouched s) s"
proof -
  have "keyed o_id (seqs (db s) T_offline_queue) (offline_queue (db s))"
    using db_okD(4) [OF assms] by (simp add: queue_ok_def)
  then have "entry_for u (rowToOfflineMessage e r) (db s)" if "r \<in> set (offline_queue (db s))" "o_recipient r = u" for e r
    using that keyed_inj by (fastforce simp: entry_for_def rowToOfflineMessage_def)
  then show ?thesis
    unfolding OfflineQueueRepository_findUndeliveredByRecipient_def queue_select_undelivered_def
    by (intro wp_mono [OF repo_query_wp]) (auto simp: fetch_all_def untouched_def)
qed

lemma untouched_flushed: "untouched s t \<Longrightarrow> flushed b c u s t"
  by (simp add: untouched_def flushed_untouched)

text \<open>
  The flush of the offline queue after a login: in every outcome, including a broken socket or a
  failing database at any point, an entry is marked delivered only if it is for the user who logged in,
  an attempt was counted for it and the flush sent its message to the client; entries are neither
  dropped nor changed otherwise.
\<close>

lemma login_flush_wp:
  assumes "db_ok (db s)"
  shows "wp (bnd (OfflineQueueRepository_findUndeliveredByRecipient u) (for_each_break (Login_flush c u)))
     (\<lambda>_. flushed True c u s) (\<lambda>_. flushed True c u s) s"
  unfolding wp_bnd
proof (rule wp_mono [OF find_entries_wp [OF assms]], goal_cases)
  case (1 qs t)
  then show ?case
    by (intro wp_mono [OF flush_loop_wp]) (auto intro: fl.R_trans untouched_flushed)
qed (rule untouched_flushed)

text \<open>Registration flushes without counting: each message is sent and marked, the first failure ends it.\<close>

lemma mark_flushed:
  assumes "entry_for u q (db s)" "m \<in> set (messages (db s))" "m_id m = om_messageId q"
    and "ext t = ext s" "db t = offline_queue_update (update_where (\<lambda>r. o_id r = om_id q) (\<lambda>r. r\<lparr>o_delivered := True\<rparr>)) (db s)"
    and "outbox t = outbox s @ [(c, Text (serialize (forward_packet u (rowToMessage (ext s) m))))]"
  shows "flushed False c u s t"
  using assms by (auto simp: flushed_def queue_flow_def handed_to_def entry_for_def intro!: list_all2_update_where)

lemma Register_flush_wp:
  assumes "entry_for u q (db s)"
  shows "wp (Register_flush c u q) (\<lambda>_. flushed False c u s) (\<lambda>_. flushed False c u s) s"
  unfolding Register_flush_def wp_bnd [of "MessageRepository_findById _"]
proof (rule wp_mono [OF findMessage_wp], goal_cases)
  case (1 mo t)
  have deliver: "wp (OfflineQueueRepository_markDelivered (om_id q)) (\<lambda>_. flushed False c u s) (\<lambda>_. flushed False c u s)
      ((tick t)\<lparr>outbox := outbox t @ [(c, Text (serialize (forward_packet u (rowToMessage (ext s) m))))]\<rparr>)"
    if "untouched s t" "m \<in> set (messages (db s))" "m_id m = om_messageId q" for m
    unfolding OfflineQueueRepository_markDelivered_def queue_mark_delivered_def
  proof (rule wp_mono [OF repo_wp], goal_cases)
    case (1 x v)
    then show ?case
      using that(1) by (intro mark_flushed [OF assms that(2,3)]) (auto simp: st_results untouched_def only_db_def)
  next
    case (2 e v)
    then show ?case
      using that(1) by (intro flushed_same) (auto simp: st_results untouched_def only_db_def)
  qed
  show ?case
    using 1 deliver
    by (auto simp: wp split: option.splits intro!: flushed_untouched) (auto simp: untouched_def only_db_def)
qed (rule untouched_flushed)

lemma register_flush_wp:
  assumes "db_ok (db s)"
  shows "wp (bnd (OfflineQueueRepository_findUndeliveredByRecipient u) (for_each (Register_flush c u)))
     (\<lambda>_. flushed False c u s) (\<lambda>_. flushed False c u s) s"
  unfolding wp_bnd
proof (rule wp_mono [OF find_entries_wp [OF assms]], goal_cases)
  case (1 qs t)
  let ?I = "\<lambda>ys v. flushed False c u s v \<and> (\<forall>q \<in> set ys. entry_for u q (db v))"
  show ?case
  proof (rule wp_for_each [where I = ?I])
    fix x ys v
    assume v: "?I (x # ys) v"
    then have "entry_for u x (db v)" by simp
    from Register_flush_wp [OF this, of c] show "wp (Register_flush c u x) (\<lambda>_. ?I ys) (\<lambda>_. flushed False c u s) v"
      by (rule wp_mono) (use v in \<open>auto intro: fl.R_trans entry_for_flushed\<close>)
  qed (use 1 in \<open>auto intro: untouched_flushed\<close>)
qed (rule untouched_flushed)

end
