(* ===== verification/MessageHandlers.thy ===== *)
theory MessageHandlers
  imports AuthHandlers
begin

text \<open>
  The handlers of one-to-one traffic: \<open>MessageHandler\<close>, \<open>AckHandler\<close>,
  \<open>ReadReceiptHandler\<close>, \<open>SyncHistoryHandler\<close> and \<open>DeleteConversationHandler\<close>
  (the second and third also serve the receipts of groups).
\<close>

definition quoted :: "string \<Rightarrow> string" where
  "quoted s = CHR 0x27 # s @ [CHR 0x27]"

section \<open>\<open>MessageHandler\<close>\<close>

definition Message_validate :: "Packet \<Rightarrow> exn + unit" where
  "Message_validate p =
     reject_if
       [(pfrom p = [], ''MESSAGE: sender (from) is required''),
        (pto p = [], ''MESSAGE: recipient (to) is required''),
        (pbody p = [], ''MESSAGE: encrypted body is required''),
        (pkey p = [], ''MESSAGE: encrypted key is required'')]"

text \<open>The dual key field: \<open>recipientKey;senderKey\<close> or the plain \<open>recipientKey\<close>.\<close>

definition split_key :: "string \<Rightarrow> string \<times> string" where
  "split_key k = (case split_at CHR '';'' k of None \<Rightarrow> (k, []) | Some (r, s) \<Rightarrow> (r, s))"

text \<open>Sending to every session of a user but the acting one, ignoring dead sockets.\<close>

definition send_siblings :: "conn \<Rightarrow> string \<Rightarrow> Packet \<Rightarrow> unit W" where
  "send_siblings c u p =
     bnd (getSessionsForUser u) (for_each (\<lambda>x. when_m (x \<noteq> c) (try_send x p)))"

definition Message_route :: "Packet \<Rightarrow> string \<Rightarrow> unit W" where
  "Message_route p recipientKey =
     bnd (findClient (pto p)) (\<lambda>r. case r of
        Some x \<Rightarrow> send x (p\<lparr>pkey := recipientKey\<rparr>)
      | None \<Rightarrow>
          bnd (MessageRepository_findByRecipient (pto p)) (\<lambda>saved.
            when_m (saved \<noteq> [])
              (OfflineQueueRepository_save
                 \<lparr>om_id = 0, om_messageId = ms_id (last saved), om_recipient = pto p, om_queuedAt = [],
                  om_delivered = False, om_deliveryAttempts = 0\<rparr>)))"

definition Message_execute :: "Packet \<Rightarrow> conn \<Rightarrow> unit W" where
  "Message_execute p c =
     (let (recipientKey, senderKey) = split_key (pkey p) in
      bnd (MessageRepository_save
             \<lparr>ms_id = 0, ms_sender = pfrom p, ms_recipient = pto p, ms_encryptedBody = pbody p,
              ms_encryptedKey = recipientKey, ms_senderEncryptedKey = senderKey, ms_status = ''sent'',
              ms_createdAt = ptimestamp p\<rparr>) (\<lambda>_.
      bnd (Message_route p recipientKey) (\<lambda>_.
      bnd (send_siblings c (pfrom p) (p\<lparr>perrorMsg := ''1''\<rparr>)) (\<lambda>_.
      send c ((new_packet ACK)\<lparr>pto := pfrom p, ptimestamp := ptimestamp p\<rparr>)))))"

definition MessageHandler :: handler where
  "MessageHandler =
     \<lparr>h_validate = Message_validate, h_authorize = BaseAuth_authorize, h_execute = Message_execute\<rparr>"

section \<open>\<open>AckHandler\<close>\<close>

definition isNumeric :: "string \<Rightarrow> bool" where
  "isNumeric s \<longleftrightarrow> s \<noteq> [] \<and> list_all isdigit s"

definition Ack_validate :: "Packet \<Rightarrow> exn + unit" where
  "Ack_validate p =
     (if perrorMsg p = ''delivered'' then
        reject_if
          [(\<not> isNumeric (pto p), ''ACK: delivered receipt needs numeric group id in '' @ quoted ''to''),
           (pbody p = [], ''ACK: delivered receipt needs message timestamp in body'')]
      else
        reject_if
          [(pbody p = [], ''ACK: message id (body) is required''),
           (\<not> list_all isdigit (pbody p), ''ACK: message id must be a positive integer'')])"

text \<open>
  Queueing a receipt for an offline user; the statement runs inside
  \<open>try \<dots> catch (Poco::Exception)\<close> with its own text.
\<close>

definition queue_receipt ::
  "string \<Rightarrow> string \<Rightarrow> string \<Rightarrow> string \<Rightarrow> int option \<Rightarrow> string \<Rightarrow> unit W" where
  "queue_receipt ctx fu tu ts g kind = repo ctx (orr_insert fu tu ts g kind)"

definition delivered_packet :: "string \<Rightarrow> Packet \<Rightarrow> Packet" where
  "delivered_packet member p =
     (new_packet ACK)\<lparr>pfrom := member, pto := pto p, pbody := pbody p, perrorMsg := ''delivered''\<rparr>"

definition executeGroupDelivered :: "Packet \<Rightarrow> conn \<Rightarrow> unit W" where
  "executeGroupDelivered p c =
     bnd (lift_sum (stoi (pto p))) (\<lambda>groupId.
     bnd (getUsername c) (\<lambda>member.
     bnd (GroupRepository_getMemberRole groupId member) (\<lambda>role.
     bnd (throw_if (role = []) (ProtocolException (''ACK: acker is not a member of group '' @ pto p))) (\<lambda>_.
     bnd (GroupRepository_markReceiptDelivered groupId (pbody p) member) (\<lambda>senders.
     for_each (\<lambda>sender. when_m (sender \<noteq> member)
        (bnd (findClient sender) (\<lambda>peer. case peer of
           Some x \<Rightarrow> try_send x (delivered_packet member p)
         | None \<Rightarrow> queue_receipt ''AckHandler: delivered queue failed'' member sender (pbody p)
                     (Some groupId) ''delivered''))) senders)))))"

definition Ack_execute :: "Packet \<Rightarrow> conn \<Rightarrow> unit W" where
  "Ack_execute p c =
     (if perrorMsg p = ''delivered'' then executeGroupDelivered p c
      else
        bnd (lift_sum (stoi (pbody p))) (\<lambda>messageId.
        bnd (MessageRepository_findById messageId) (\<lambda>mo.
        bnd (case mo of None \<Rightarrow> retn () | Some m \<Rightarrow> MessageRepository_save (m\<lparr>ms_status := ''delivered''\<rparr>)) (\<lambda>_.
        bnd OfflineQueueRepository_findAll (\<lambda>entries.
        case find (\<lambda>e. om_messageId e = messageId \<and> \<not> om_delivered e) entries of
          None \<Rightarrow> retn ()
        | Some e \<Rightarrow> OfflineQueueRepository_markDelivered (om_id e))))))"

definition AckHandler :: handler where
  "AckHandler = \<lparr>h_validate = Ack_validate, h_authorize = BaseAuth_authorize, h_execute = Ack_execute\<rparr>"

section \<open>\<open>ReadReceiptHandler\<close>\<close>

definition ReadReceipt_validate :: "Packet \<Rightarrow> exn + unit" where
  "ReadReceipt_validate p =
     reject_if
       [(pfrom p = [], ''READ_RECEIPT: sender (from) is required''),
        (pto p = [], ''READ_RECEIPT: recipient (to) is required''),
        (pbody p = [], ''READ_RECEIPT: message timestamp (body) is required'')]"

definition ReadReceipt_group :: "Packet \<Rightarrow> unit W" where
  "ReadReceipt_group p =
     bnd (lift_sum (stoi (pto p))) (\<lambda>groupId.
     bnd (GroupRepository_getMemberRole groupId (pfrom p)) (\<lambda>role.
     bnd (throw_if (role = []) (ProtocolException (''READ_RECEIPT: reader is not a member of group '' @ pto p))) (\<lambda>_.
     bnd (GroupRepository_markReceiptSeen groupId (pbody p) (pfrom p)) (\<lambda>_.
     bnd (GroupRepository_getMembers groupId) (\<lambda>members.
     for_each (\<lambda>m. when_m (gb_username m \<noteq> pfrom p)
        (bnd (findClient (gb_username m)) (\<lambda>peer. case peer of
           Some x \<Rightarrow> try_send x p
         | None \<Rightarrow> queue_receipt ''ReadReceiptHandler: group queue failed'' (pfrom p) (gb_username m) (pbody p)
                     (Some groupId) ''seen''))) members)))))"

definition ReadReceipt_execute :: "Packet \<Rightarrow> conn \<Rightarrow> unit W" where
  "ReadReceipt_execute p c =
     bnd (getUsername c) (\<lambda>u.
     bnd (throw_if (pfrom p \<noteq> u)
            (ProtocolException ''READ_RECEIPT: sender mismatch with authenticated session'')) (\<lambda>_.
     if isNumeric (pto p) then ReadReceipt_group p
     else
       bnd (bnd (findClient (pto p)) (\<lambda>r. case r of
              Some x \<Rightarrow> send x p
            | None \<Rightarrow> queue_receipt ''ReadReceiptHandler: queue failed'' (pfrom p) (pto p) (pbody p) None ''seen'')) (\<lambda>_.
       send_siblings c (pfrom p) p)))"

definition ReadReceiptHandler :: handler where
  "ReadReceiptHandler =
     \<lparr>h_validate = ReadReceipt_validate, h_authorize = BaseAuth_authorize, h_execute = ReadReceipt_execute\<rparr>"

section \<open>\<open>SyncHistoryHandler\<close>\<close>

definition SyncHistory_validate :: "Packet \<Rightarrow> exn + unit" where
  "SyncHistory_validate p = reject_if [(pfrom p = [], ''SYNC_HISTORY: sender (from) is required'')]"

definition replay_packet :: "string \<Rightarrow> Message \<Rightarrow> Packet" where
  "replay_packet u m =
     (let isOutgoing = (ms_sender m = u) in
      (new_packet MESSAGE)\<lparr>pfrom := ms_sender m, pto := ms_recipient m, pbody := ms_encryptedBody m,
         ptimestamp := ms_createdAt m, perrorMsg := (if isOutgoing then ''1'' else ''0''),
         pkey := (if isOutgoing \<and> ms_senderEncryptedKey m \<noteq> [] then ms_senderEncryptedKey m
                  else ms_encryptedKey m)\<rparr>)"

definition replay_group_packet :: "GroupMessageRow \<Rightarrow> Packet" where
  "replay_group_packet g =
     (new_packet GROUP_MESSAGE)\<lparr>pfrom := gr_sender g, pto := int_str (gr_groupId g),
        pbody := gr_encryptedBody g, ptimestamp := gr_timestamp g\<rparr>"

text \<open>\<open>std::sort\<close> with \<open>operator<\<close> on \<open>Message\<close>, which compares \<open>createdAt\<close>.\<close>

definition sort_messages :: "Message list \<Rightarrow> Message list" where
  "sort_messages = sort_key ms_createdAt"

text \<open>A query with a cursor that falls back to the full history on a \<open>DbException\<close>.\<close>

definition with_fallback :: "(string \<Rightarrow> 'a W) \<Rightarrow> string \<Rightarrow> 'a W" where
  "with_fallback q cursor = catch_if is_Db (q cursor) (\<lambda>_. q [])"

definition SyncHistory_execute :: "Packet \<Rightarrow> conn \<Rightarrow> unit W" where
  "SyncHistory_execute p c =
     bnd (getUsername c) (\<lambda>u.
     bnd (with_fallback (MessageRepository_findAllForUser u) (pbody p)) (\<lambda>ms.
     bnd (for_each (\<lambda>m. send c (replay_packet u m)) (sort_messages ms)) (\<lambda>_.
     bnd (with_fallback (GroupRepository_findMessagesForUserSince u) (pbody p)) (\<lambda>gs.
     bnd (for_each (\<lambda>g. send c (replay_group_packet g)) gs) (\<lambda>_.
     send c ((new_packet ACK)\<lparr>pto := u\<rparr>))))))"

definition SyncHistoryHandler :: handler where
  "SyncHistoryHandler =
     \<lparr>h_validate = SyncHistory_validate, h_authorize = BaseAuth_authorize, h_execute = SyncHistory_execute\<rparr>"

section \<open>\<open>DeleteConversationHandler\<close>\<close>

definition DeleteConversation_validate :: "Packet \<Rightarrow> exn + unit" where
  "DeleteConversation_validate p =
     reject_if [(pto p = [], ''DELETE_CONVERSATION: peer (to) is required'')]"

text \<open>
  Sending a notification to a user who may be offline: true when it was handed to a live session.
\<close>

definition notify :: "string \<Rightarrow> Packet \<Rightarrow> bool W" where
  "notify u p =
     bnd (findClient u) (\<lambda>peer. case peer of
        None \<Rightarrow> retn False
      | Some x \<Rightarrow> catch_if is_Network (bnd (send x p) (\<lambda>_. retn True)) (\<lambda>_. retn False))"

definition DeleteConversation_execute :: "Packet \<Rightarrow> conn \<Rightarrow> unit W" where
  "DeleteConversation_execute p c =
     bnd (getUsername c) (\<lambda>actor.
     bnd (MessageRepository_deleteConversation actor (pto p)) (\<lambda>_.
     bnd (notify (pto p) ((new_packet DELETE_CONVERSATION)\<lparr>pfrom := actor, pto := pto p\<rparr>)) (\<lambda>delivered.
     bnd (when_m (\<not> delivered)
            (PendingNotificationRepository_queue (pto p) DELETE_CONVERSATION actor [] [] [])) (\<lambda>_.
     send c ((new_packet ACK)\<lparr>pto := actor\<rparr>)))))"

definition DeleteConversationHandler :: handler where
  "DeleteConversationHandler =
     \<lparr>h_validate = DeleteConversation_validate, h_authorize = BaseAuth_authorize,
      h_execute = DeleteConversation_execute\<rparr>"

section \<open>Steps\<close>

lemma send_siblings_hs [h_step]: "keeps (handler_step c) (send_siblings x u p)"
  unfolding send_siblings_def by (intro hs.rules h_step)

lemma queue_receipt_hs [h_step]: "keeps (handler_step c) (queue_receipt ctx fu tu ts g kind)"
  unfolding queue_receipt_def by (intro repo_step [THEN db_step_hs] stmt_ok)

lemma notify_hs [h_step]: "keeps (handler_step c) (notify u p)"
  unfolding notify_def by (intro hs.rules h_step)

lemma Message_execute_hs: "keeps (handler_step c) (Message_execute p c)"
  unfolding Message_execute_def Message_route_def by (intro hs.rules h_step)

lemma Ack_execute_hs: "keeps (handler_step c) (Ack_execute p c)"
  unfolding Ack_execute_def executeGroupDelivered_def by (intro hs.rules h_step)

lemma ReadReceipt_execute_hs: "keeps (handler_step c) (ReadReceipt_execute p c)"
  unfolding ReadReceipt_execute_def ReadReceipt_group_def by (intro hs.rules h_step)

lemma SyncHistory_execute_hs: "keeps (handler_step c) (SyncHistory_execute p c)"
  unfolding SyncHistory_execute_def with_fallback_def by (intro hs.rules h_step)

lemma DeleteConversation_execute_hs: "keeps (handler_step c) (DeleteConversation_execute p c)"
  unfolding DeleteConversation_execute_def by (intro hs.rules h_step)

interpretation message_h: gated_handler MessageHandler
  by unfold_locales (auto simp: MessageHandler_def Message_validate_def)

interpretation ack_h: gated_handler AckHandler
  by unfold_locales (auto simp: AckHandler_def Ack_validate_def split: if_splits)

interpretation read_receipt_h: gated_handler ReadReceiptHandler
  by unfold_locales (auto simp: ReadReceiptHandler_def ReadReceipt_validate_def)

interpretation sync_h: gated_handler SyncHistoryHandler
  by unfold_locales (auto simp: SyncHistoryHandler_def SyncHistory_validate_def)

interpretation delete_conversation_h: gated_handler DeleteConversationHandler
  by unfold_locales (auto simp: DeleteConversationHandler_def DeleteConversation_validate_def)

section \<open>Sending without faults\<close>

text \<open>Only the outbox and the clock moved, and exactly the given frames were sent.\<close>

definition sent :: "(conn \<times> frame) list \<Rightarrow> world \<Rightarrow> world \<Rightarrow> bool" where
  "sent fs s t \<longleftrightarrow>
     ext t = ext s \<and> pool t = pool s \<and> db t = db s \<and> clients t = clients s \<and> conns t = conns s
     \<and> outbox t = outbox s @ fs"

lemma sent_quiet: "sent fs s t \<Longrightarrow> quiet s \<Longrightarrow> quiet t"
  by (simp add: sent_def quiet_def)

lemma sent_nil [simp]: "sent [] s s"
  by (simp add: sent_def)

lemma sent_trans: "sent fs s t \<Longrightarrow> sent gs t v \<Longrightarrow> sent (fs @ gs) s v"
  by (simp add: sent_def)

lemma send_quiet_wp: "quiet s \<Longrightarrow> wp (send c p) (\<lambda>_. sent [(c, Text (serialize p))] s) (\<lambda>_ _. False) s"
  by (simp add: wp quiet_def sent_def)

lemma sent_bnd:
  assumes "sent fs s t" "wp m (\<lambda>x t'. sent gs t t' \<and> R x) (\<lambda>_ _. False) t"
    and "\<And>x t'. sent (fs @ gs) s t' \<Longrightarrow> R x \<Longrightarrow> wp (k x) Q E t'"
  shows "wp (bnd m k) Q E t"
  unfolding wp_bnd [of m] by (rule wp_mono [OF assms(2)]) (auto intro: assms(3) sent_trans [OF assms(1)])

lemma wp_sent_any: "wp m (\<lambda>_. sent gs t) E t \<Longrightarrow> wp m (\<lambda>x t'. sent gs t t' \<and> True) E t"
  by simp

lemma send_loop_quiet_wp:
  assumes "quiet s" "\<And>x s. quiet s \<Longrightarrow> wp (f x) (\<lambda>_. sent (g x) s) (\<lambda>_ _. False) s"
  shows "wp (for_each f xs) (\<lambda>_. sent (concat (map g xs)) s) (\<lambda>_ _. False) s"
  using assms(1)
proof (induction xs arbitrary: s)
  case Nil
  show ?case by (simp add: wp)
next
  case (Cons x xs)
  show ?case
    unfolding for_each.simps wp_bnd
    by (rule wp_mono [OF assms(2) [OF Cons.prems]])
      (auto intro!: wp_mono [OF Cons.IH] intro: sent_quiet [OF _ Cons.prems] sent_trans)
qed

definition echoes :: "conn \<Rightarrow> string \<Rightarrow> Packet \<Rightarrow> client_map \<Rightarrow> (conn \<times> frame) list" where
  "echoes c u p m = map (\<lambda>x. (x, Text (serialize p))) (filter (\<lambda>x. x \<noteq> c) (sessions_in u m))"

lemma send_siblings_quiet_wp:
  assumes "quiet s"
  shows "wp (send_siblings c u p) (\<lambda>_. sent (echoes c u p (clients s)) s) (\<lambda>_ _. False) s"
proof -
  have one: "wp (when_m (x \<noteq> c) (try_send x p)) (\<lambda>_. sent (if x \<noteq> c then [(x, Text (serialize p))] else []) s)
      (\<lambda>_ _. False) s" if "quiet s" for x s
    using that by (simp add: try_send_def wp quiet_def sent_def)
  have "concat (map (\<lambda>x. if x \<noteq> c then [(x, Text (serialize p))] else []) xs) =
      map (\<lambda>x. (x, Text (serialize p))) (filter (\<lambda>x. x \<noteq> c) xs)" for xs
    by (induction xs) auto
  moreover have "wp (for_each (\<lambda>x. when_m (x \<noteq> c) (try_send x p)) xs)
      (\<lambda>_. sent (concat (map (\<lambda>x. if x \<noteq> c then [(x, Text (serialize p))] else []) xs)) s) (\<lambda>_ _. False) s" for xs
    by (rule send_loop_quiet_wp [OF assms one])
  ultimately show ?thesis
    by (simp add: send_siblings_def wp echoes_def)
qed

section \<open>Routing of a message\<close>

text \<open>The stored row of a message packet.\<close>

definition message_row :: "Packet \<Rightarrow> int \<Rightarrow> int \<Rightarrow> messages_row" where
  "message_row p i ts =
     \<lparr>m_id = i, m_sender = pfrom p, m_recipient = pto p, m_body = pbody p,
      m_encrypted_key = fst (split_key (pkey p)), m_sender_encrypted_key = snd (split_key (pkey p)),
      m_status = ''sent'', m_created_at = ts\<rparr>"

text \<open>The fields of the packet fit the columns and its timestamp, if any, is one.\<close>

definition storable :: "external \<Rightarrow> Packet \<Rightarrow> bool" where
  "storable e p \<longleftrightarrow>
     varchar_fits e 64 (pfrom p) \<and> varchar_fits e 64 (pto p) \<and> varchar_fits e 16 ''sent''
     \<and> (ptimestamp p = [] \<or> ts_parse e (ptimestamp p) \<noteq> None)"

definition message_ack :: "Packet \<Rightarrow> Packet" where
  "message_ack p = (new_packet ACK)\<lparr>pto := pfrom p, ptimestamp := ptimestamp p\<rparr>"

definition stored :: "Packet \<Rightarrow> int \<Rightarrow> world \<Rightarrow> world \<Rightarrow> bool" where
  "stored p ts s t \<longleftrightarrow>
     (quiet s \<longrightarrow> quiet t) \<and> only_db s t
     \<and> coalesce_ts (ext s) (db_now (ext s) (Suc (clock s))) (ptimestamp p) = Some ts
     \<and> db t = (db s)\<lparr>messages := messages (db s) @ [message_row p (seqs (db s) T_messages) ts],
                    seqs := (seqs (db s))(T_messages := seqs (db s) T_messages + 1)\<rparr>"

lemma store_message_wp:
  assumes "quiet s" "storable (ext s) p"
  shows "wp (MessageRepository_save
             \<lparr>ms_id = 0, ms_sender = pfrom p, ms_recipient = pto p, ms_encryptedBody = pbody p,
              ms_encryptedKey = fst (split_key (pkey p)), ms_senderEncryptedKey = snd (split_key (pkey p)),
              ms_status = ''sent'', ms_createdAt = ptimestamp p\<rparr>)
     (\<lambda>_ t. \<exists>ts. stored p ts s t) (\<lambda>_ _. False) s"
  using assms
  by (auto simp: MessageRepository_save_def wp_repo_quiet message_save_st_def message_insert_def void_st_def
      insert_row_def Let_def coalesce_ts_def storable_def stored_def message_row_def only_db_def quiet_def
      split: if_splits)

text \<open>What is left after routing: the echoes and the acknowledgement.\<close>

lemma Message_tail_wp:
  assumes "quiet s"
  shows "wp (bnd (send_siblings c (pfrom p) (p\<lparr>perrorMsg := ''1''\<rparr>)) (\<lambda>_. send c (message_ack p)))
     (\<lambda>_. sent (echoes c (pfrom p) (p\<lparr>perrorMsg := ''1''\<rparr>) (clients s) @ [(c, Text (serialize (message_ack p)))]) s)
     (\<lambda>_ _. False) s"
  unfolding wp_bnd
  by (rule wp_mono [OF send_siblings_quiet_wp [OF assms]])
    (auto intro!: wp_mono [OF send_quiet_wp] intro: sent_quiet [OF _ assms] sent_trans)

lemma Message_execute_eq:
  "Message_execute p c =
     bnd (MessageRepository_save
             \<lparr>ms_id = 0, ms_sender = pfrom p, ms_recipient = pto p, ms_encryptedBody = pbody p,
              ms_encryptedKey = fst (split_key (pkey p)), ms_senderEncryptedKey = snd (split_key (pkey p)),
              ms_status = ''sent'', ms_createdAt = ptimestamp p\<rparr>) (\<lambda>_.
     bnd (Message_route p (fst (split_key (pkey p)))) (\<lambda>_.
     bnd (send_siblings c (pfrom p) (p\<lparr>perrorMsg := ''1''\<rparr>)) (\<lambda>_. send c (message_ack p))))"
  by (simp add: Message_execute_def message_ack_def split_beta)

lemma message_online_wp:
  assumes "quiet s" "storable (ext s) p" "find_client (pto p) (clients s) = Some x"
  shows "wp (Message_execute p c)
     (\<lambda>_ t. (\<exists>ts. messages (db t) = messages (db s) @ [message_row p (seqs (db s) T_messages) ts])
        \<and> offline_queue (db t) = offline_queue (db s)
        \<and> outbox t = outbox s @ [(x, Text (serialize (p\<lparr>pkey := fst (split_key (pkey p))\<rparr>)))]
            @ echoes c (pfrom p) (p\<lparr>perrorMsg := ''1''\<rparr>) (clients s) @ [(c, Text (serialize (message_ack p)))])
     (\<lambda>_ _. False) s"
proof -
  have route: "wp (Message_route p k) (\<lambda>_. sent [(x, Text (serialize (p\<lparr>pkey := k\<rparr>)))] t) (\<lambda>_ _. False) t"
    if "quiet t" "clients t = clients s" for t k
    using that assms(3) send_quiet_wp [OF that(1)] by (simp add: Message_route_def findClient_wp wp_bnd)
  show ?thesis
    unfolding Message_execute_eq wp_bnd [of "MessageRepository_save _"]
  proof (rule wp_mono [OF store_message_wp [OF assms(1,2)]], goal_cases)
    case (1 _ t)
    then obtain ts where t: "stored p ts s t" by blast
    then have q: "quiet t" "clients t = clients s" using assms(1) by (auto simp: stored_def only_db_def)
    show ?case
      unfolding wp_bnd [of "Message_route _ _"]
      by (rule wp_mono [OF route [OF q]], rule wp_mono [OF Message_tail_wp])
        (use t q in \<open>auto simp: sent_def stored_def only_db_def quiet_def\<close>)
  qed simp
qed

text \<open>
  A message for a user who is online is stored once and forwarded at once: the recipient's
  session receives the packet with only the recipient's key segment, every other session of the
  sender gets an echo with both segments, the sender gets the acknowledgement, and nothing is
  queued.
\<close>

lemma message_online:
  assumes "quiet s" "storable (ext s) p" "find_client (pto p) (clients s) = Some x"
  shows "wp (Message_execute p c)
     (\<lambda>_ t. (\<exists>ts. messages (db t) = messages (db s) @ [message_row p (seqs (db s) T_messages) ts])
        \<and> offline_queue (db t) = offline_queue (db s)
        \<and> outbox t = outbox s @ [(x, Text (serialize (p\<lparr>pkey := fst (split_key (pkey p))\<rparr>)))]
            @ echoes c (pfrom p) (p\<lparr>perrorMsg := ''1''\<rparr>) (clients s) @ [(c, Text (serialize (message_ack p)))])
     (\<lambda>_ _. False) s"
  by (rule message_online_wp [OF assms])

text \<open>An instance: alice writes to bob, who is connected on 2, from connection 1.\<close>

definition example_message :: Packet where
  "example_message = (new_packet MESSAGE)\<lparr>pfrom := ''alice'', pto := ''bob'', pbody := ''cipher'', pkey := ''kb;ka''\<rparr>"

lemma example_storable: "storable example_ext example_message"
  by (simp add: storable_def example_ext_def example_message_def new_packet_def)

lemma message_online_witness:
  "let s = example_state\<lparr>clients := [''bob'' \<mapsto> [2]]\<rparr> in
   wp (Message_execute example_message 1)
     (\<lambda>_ t. outbox t = outbox s @ [(2, Text (serialize (example_message\<lparr>pkey := ''kb''\<rparr>))),
        (1, Text (serialize (message_ack example_message)))]) (\<lambda>_ _. False) s"
proof -
  let ?s = "example_state\<lparr>clients := [''bob'' \<mapsto> [2]]\<rparr>"
  have "wp (Message_execute example_message 1)
     (\<lambda>_ t. (\<exists>ts. messages (db t) = messages (db ?s) @ [message_row example_message (seqs (db ?s) T_messages) ts])
        \<and> offline_queue (db t) = offline_queue (db ?s)
        \<and> outbox t = outbox ?s @ [(2, Text (serialize (example_message\<lparr>pkey := fst (split_key (pkey example_message))\<rparr>)))]
            @ echoes 1 (pfrom example_message) (example_message\<lparr>perrorMsg := ''1''\<rparr>) (clients ?s)
            @ [(1, Text (serialize (message_ack example_message)))]) (\<lambda>_ _. False) ?s"
    by (rule message_online)
      (use example_storable in \<open>simp_all add: example_state_def example_world_def find_client_def example_message_def
        quiet_def example_ext_def\<close>)
  moreover have "fst (split_key (pkey example_message)) = ''kb''"
    "echoes 1 (pfrom example_message) q (clients ?s) = []" for q
    by (simp_all add: split_key_def split_at_def example_message_def echoes_def sessions_in_def)
  ultimately show ?thesis
    unfolding Let_def by (elim wp_mono) simp_all
qed

text \<open>The message the handler believes to have just stored: the latest one for the recipient.\<close>

definition latest_for :: "string \<Rightarrow> messages_row list \<Rightarrow> messages_row" where
  "latest_for u ms =
     last (filter (\<lambda>r. m_sender r \<noteq> []) (sort_key m_created_at (filter (\<lambda>r. m_recipient r = u) ms)))"

definition queue_row :: "int \<Rightarrow> int \<Rightarrow> string \<Rightarrow> int \<Rightarrow> offline_row" where
  "queue_row i mid u n =
     \<lparr>o_id = i, o_message_id = mid, o_recipient = u, o_queued_at = n, o_delivered = False, o_delivery_attempts = 0\<rparr>"

lemma latest_for_in:
  assumes "r \<in> set (ms)" "m_recipient r = u" "m_sender r \<noteq> []"
  shows "latest_for u ms \<in> set (ms)"
proof -
  have "filter (\<lambda>r. m_sender r \<noteq> []) (sort_key m_created_at (filter (\<lambda>r. m_recipient r = u) (ms))) \<noteq> []"
    using assms by (auto simp: filter_empty_conv)
  from last_in_set [OF this] show ?thesis unfolding latest_for_def by simp
qed

lemma latest_for_newest:
  assumes "m_recipient row = u" "m_sender row \<noteq> []"
    "\<forall>r \<in> set ms. m_recipient r = u \<longrightarrow> m_created_at r \<le> m_created_at row"
  shows "latest_for u (ms @ [row]) = row"
proof -
  let ?L = "sort_key m_created_at (filter (\<lambda>r. m_recipient r = u) ms @ [row])"
  have "last ?L = row" by (rule last_sort_key_snoc) (use assms(3) in auto)
  moreover have "?L \<noteq> []" by (metis append_is_Nil_conv list.set_intros(1) list.size(3) length_0_conv length_sort not_Cons_self2)
  ultimately have "last (filter (\<lambda>r. m_sender r \<noteq> []) ?L) = row"
    using last_filter_last [of ?L "\<lambda>r. m_sender r \<noteq> []"] assms(2) by simp
  then show ?thesis using assms(1) by (simp add: latest_for_def)
qed

text \<open>A later message for the same user hides the one just stored.\<close>

lemma latest_for_later:
  assumes "r \<in> set (ms)" "m_recipient r = u" "m_sender r \<noteq> []"
  shows "m_created_at r \<le> m_created_at (latest_for u ms)"
  unfolding latest_for_def
  by (rule last_sort_key_max) (use assms in auto)

lemma route_offline_wp:
  assumes "quiet s" "find_client (pto p) (clients s) = None" "varchar_fits (ext s) 64 (pto p)"
    "r \<in> set (messages (db s))" "m_recipient r = pto p" "m_sender r \<noteq> []"
  shows "wp (Message_route p k)
     (\<lambda>_ t. quiet t \<and> only_db s t \<and> messages (db t) = messages (db s)
        \<and> (\<exists>n. offline_queue (db t) = offline_queue (db s)
             @ [queue_row (seqs (db s) T_offline_queue) (m_id (latest_for (pto p) (messages (db s)))) (pto p) n]))
     (\<lambda>_ _. False) s"
proof -
  let ?rs = "filter (\<lambda>r. m_sender r \<noteq> []) (sort_key m_created_at (filter (\<lambda>r. m_recipient r = pto p) (messages (db s))))"
  have ne: "?rs \<noteq> []" using assms(4-6) by (auto simp: filter_empty_conv)
  have "m_id (latest_for (pto p) (messages (db s))) \<in> message_ids (db s)"
    using latest_for_in [OF assms(4-6)] by (simp add: message_ids_def)
  moreover have "message_select (\<lambda>r. m_recipient r = pto p) (ext s) (db s) = map (rowToMessage (ext s)) ?rs"
    by (simp add: message_select_def fetch_all_def)
  moreover have "ms_id (last (map (rowToMessage (ext s)) ?rs)) = m_id (latest_for (pto p) (messages (db s)))"
    using ne by (simp add: last_map rowToMessage_def latest_for_def)
  ultimately show ?thesis
    using assms(1-3) ne
    by (simp add: Message_route_def wp MessageRepository_findByRecipient_def OfflineQueueRepository_save_def
        wp_repo_quiet query_def queue_save_st_def void_st_def queue_insert_def insert_row_def Let_def only_db_def
        queue_row_def)
qed

text \<open>Storing and queueing for an offline recipient, with the entry the code creates.\<close>

lemma message_offline_wp:
  assumes "quiet s" "storable (ext s) p" "find_client (pto p) (clients s) = None" "pfrom p \<noteq> []"
  shows "wp (Message_execute p c)
     (\<lambda>_ t. \<exists>ts n. coalesce_ts (ext s) (db_now (ext s) (Suc (clock s))) (ptimestamp p) = Some ts
        \<and> messages (db t) = messages (db s) @ [message_row p (seqs (db s) T_messages) ts]
        \<and> offline_queue (db t) = offline_queue (db s)
             @ [queue_row (seqs (db s) T_offline_queue) (m_id (latest_for (pto p) (messages (db t)))) (pto p) n]
        \<and> outbox t = outbox s @ echoes c (pfrom p) (p\<lparr>perrorMsg := ''1''\<rparr>) (clients s)
             @ [(c, Text (serialize (message_ack p)))])
     (\<lambda>_ _. False) s"
  unfolding Message_execute_eq wp_bnd [of "MessageRepository_save _"]
proof (rule wp_mono [OF store_message_wp [OF assms(1,2)]], goal_cases)
  case (1 _ t)
  then obtain ts where t: "stored p ts s t" by blast
  let ?row = "message_row p (seqs (db s) T_messages) ts"
  have pre: "quiet t" "find_client (pto p) (clients t) = None" "varchar_fits (ext t) 64 (pto p)"
    "?row \<in> set (messages (db t))" "m_recipient ?row = pto p" "m_sender ?row \<noteq> []"
    using t assms by (auto simp: stored_def only_db_def storable_def message_row_def)
  show ?case
    unfolding wp_bnd [of "Message_route _ _"]
    by (rule wp_mono [OF route_offline_wp [OF pre]], rule wp_mono [OF Message_tail_wp])
      (use t assms(1) in \<open>auto simp: sent_def stored_def only_db_def\<close>)
qed simp

text \<open>
  A message for a user who is offline is stored and queued for exactly that user, provided its
  timestamp is not older than those of the messages the user already has: the new queue entry
  refers to the row just stored, is undelivered and has no attempts; nothing is sent but the
  echoes and the acknowledgement.
\<close>

lemma message_offline:
  assumes "quiet s" "storable (ext s) p" "find_client (pto p) (clients s) = None" "pfrom p \<noteq> []"
    "\<forall>r \<in> set (messages (db s)). m_recipient r = pto p \<longrightarrow>
       m_created_at r \<le> the (coalesce_ts (ext s) (db_now (ext s) (Suc (clock s))) (ptimestamp p))"
  shows "wp (Message_execute p c)
     (\<lambda>_ t. \<exists>ts n. messages (db t) = messages (db s) @ [message_row p (seqs (db s) T_messages) ts]
        \<and> offline_queue (db t) = offline_queue (db s)
             @ [queue_row (seqs (db s) T_offline_queue) (seqs (db s) T_messages) (pto p) n]
        \<and> outbox t = outbox s @ echoes c (pfrom p) (p\<lparr>perrorMsg := ''1''\<rparr>) (clients s)
             @ [(c, Text (serialize (message_ack p)))])
     (\<lambda>_ _. False) s"
proof -
  let ?row = "message_row p (seqs (db s) T_messages)"
  have "latest_for (pto p) (messages (db s) @ [?row ts]) = ?row ts"
    if "coalesce_ts (ext s) (db_now (ext s) (Suc (clock s))) (ptimestamp p) = Some ts" for ts
    by (rule latest_for_newest) (use assms(4,5) that in \<open>auto simp: message_row_def\<close>)
  then show ?thesis
    by (intro wp_mono [OF message_offline_wp [OF assms(1-4)]]) (fastforce simp: message_row_def)+
qed

text \<open>An instance: alice writes to carol, who is offline and has no messages yet.\<close>

lemma message_offline_witness:
  "wp (Message_execute (example_message\<lparr>pto := ''carol''\<rparr>) 1)
     (\<lambda>_ t. \<exists>n. offline_queue (db t) = offline_queue (db example_state) @ [queue_row 10 10 ''carol'' n])
     (\<lambda>_ _. False) example_state"
proof -
  let ?p = "example_message\<lparr>pto := ''carol''\<rparr>"
  have "wp (Message_execute ?p 1)
     (\<lambda>_ t. \<exists>ts n. messages (db t) = messages (db example_state)
             @ [message_row ?p (seqs (db example_state) T_messages) ts]
        \<and> offline_queue (db t) = offline_queue (db example_state)
             @ [queue_row (seqs (db example_state) T_offline_queue) (seqs (db example_state) T_messages) (pto ?p) n]
        \<and> outbox t = outbox example_state @ echoes 1 (pfrom ?p) (?p\<lparr>perrorMsg := ''1''\<rparr>) (clients example_state)
             @ [(1, Text (serialize (message_ack ?p)))]) (\<lambda>_ _. False) example_state"
    by (rule message_offline)
      (simp_all add: example_state_def example_world_def example_message_def example_db_def example_ext_def
        storable_def new_packet_def find_client_def quiet_def)
  then show ?thesis
    by (elim wp_mono) (auto simp: example_state_def example_db_def)
qed

text \<open>
  With an older client timestamp the queue gets the wrong message: when the offline recipient
  already has a message with a later timestamp, the entry created for the new message refers to
  a row with a later timestamp, never to the row just stored.
\<close>

lemma message_offline_misqueued:
  assumes "quiet s" "storable (ext s) p" "find_client (pto p) (clients s) = None" "pfrom p \<noteq> []" "db_ok (db s)"
    "r \<in> set (messages (db s))" "m_recipient r = pto p" "m_sender r \<noteq> []"
    "the (coalesce_ts (ext s) (db_now (ext s) (Suc (clock s))) (ptimestamp p)) < m_created_at r"
  shows "wp (Message_execute p c)
     (\<lambda>_ t. \<exists>mid n. offline_queue (db t) = offline_queue (db s)
             @ [queue_row (seqs (db s) T_offline_queue) mid (pto p) n]
        \<and> mid \<noteq> seqs (db s) T_messages)
     (\<lambda>_ _. False) s"
proof -
  have "m_id (latest_for (pto p) (messages (db s) @ [message_row p (seqs (db s) T_messages) ts])) \<noteq> seqs (db s) T_messages"
    if ts: "coalesce_ts (ext s) (db_now (ext s) (Suc (clock s))) (ptimestamp p) = Some ts" for ts
  proof -
    let ?ms = "messages (db s) @ [message_row p (seqs (db s) T_messages) ts]"
    have "m_created_at r \<le> m_created_at (latest_for (pto p) ?ms)"
      by (rule latest_for_later) (use assms(6-8) in auto)
    then have "latest_for (pto p) ?ms \<noteq> message_row p (seqs (db s) T_messages) ts"
      using assms(9) ts by (auto simp: message_row_def)
    moreover have "latest_for (pto p) ?ms \<in> set ?ms"
      by (rule latest_for_in [of r]) (use assms(6-8) in auto)
    ultimately have "latest_for (pto p) ?ms \<in> set (messages (db s))" by auto
    then show ?thesis using assms(5) by (auto simp: db_ok_def messages_ok_def keyed_def)
  qed
  then show ?thesis
    by (intro wp_mono [OF message_offline_wp [OF assms(1-4)]]) fastforce+
qed

text \<open>An instance: alice sends bob a message with timestamp 4, while he has one of time 5.\<close>

lemma message_offline_misqueued_witness:
  "wp (Message_execute (example_message\<lparr>ptimestamp := int_str 4\<rparr>) 1)
     (\<lambda>_ t. \<exists>mid n. offline_queue (db t) = offline_queue (db example_state)
             @ [queue_row (seqs (db example_state) T_offline_queue) mid (pto (example_message\<lparr>ptimestamp := int_str 4\<rparr>)) n]
        \<and> mid \<noteq> seqs (db example_state) T_messages)
     (\<lambda>_ _. False) example_state"
proof (rule message_offline_misqueued [OF _ _ _ _ example_state_ok, where r = "hd (messages example_db)"])
  have four: "ts_parse example_ext (int_str 4) = Some 4"
    by (simp add: example_ext_def in_int_def INT_MAX_def INT_MIN_def)
  then show "storable (ext example_state) (example_message\<lparr>ptimestamp := int_str 4\<rparr>)"
    using example_storable by (simp add: storable_def example_state_def example_world_def)
  from four show "the (coalesce_ts (ext example_state) (db_now (ext example_state) (Suc (clock example_state)))
      (ptimestamp (example_message\<lparr>ptimestamp := int_str 4\<rparr>))) < m_created_at (hd (messages example_db))"
    by (simp add: coalesce_ts_def example_state_def example_world_def example_db_def)
qed (simp_all add: example_state_def example_world_def example_message_def example_db_def find_client_def quiet_def
    example_ext_def)

section \<open>Replaying the history\<close>

text \<open>The messages a client is owed: those of its user, after the cursor when the cursor is a timestamp.\<close>

definition after_cursor :: "external \<Rightarrow> string \<Rightarrow> int \<Rightarrow> bool" where
  "after_cursor e cursor t = (if cursor = [] then True else case ts_parse e cursor of None \<Rightarrow> True | Some x \<Rightarrow> x < t)"

definition owed_messages :: "string \<Rightarrow> string \<Rightarrow> external \<Rightarrow> database \<Rightarrow> Message list" where
  "owed_messages u cursor e d =
     message_select (\<lambda>r. (m_sender r = u \<or> m_recipient r = u) \<and> after_cursor e cursor (m_created_at r)) e d"

definition owed_group_messages :: "string \<Rightarrow> string \<Rightarrow> external \<Rightarrow> database \<Rightarrow> GroupMessageRow list" where
  "owed_group_messages u cursor e d =
     fetch_all x_sender (rowToGroupMessage e) (gmessages_joined u (\<lambda>gm. after_cursor e cursor (x_timestamp gm)) d)"

text \<open>Frames to one connection.\<close>

definition frames :: "conn \<Rightarrow> Packet list \<Rightarrow> (conn \<times> frame) list" where
  "frames c ps = map (\<lambda>p. (c, Text (serialize p))) ps"

lemma cursor_query_wp:
  assumes "quiet s"
  shows "wp (with_fallback (MessageRepository_findAllForUser u) cursor)
       (\<lambda>ms t. sent [] s t \<and> ms = owed_messages u cursor (ext s) (db s)) (\<lambda>_ _. False) s"
    and "wp (with_fallback (GroupRepository_findMessagesForUserSince u) cursor)
       (\<lambda>gs t. sent [] s t \<and> gs = owed_group_messages u cursor (ext s) (db s)) (\<lambda>_ _. False) s"
  using assms
  by (auto simp: with_fallback_def wp MessageRepository_findAllForUser_def
      GroupRepository_findMessagesForUserSince_def wp_repo_quiet message_select_user_def gmessage_select_def
      query_def query_cast_def owed_messages_def owed_group_messages_def after_cursor_def sent_def
      split: option.splits)

lemma send_all_wp:
  assumes "quiet s"
  shows "wp (for_each (\<lambda>x. send c (f x)) xs) (\<lambda>_. sent (frames c (map f xs)) s) (\<lambda>_ _. False) s"
proof -
  have "concat (map (\<lambda>x. [(c, Text (serialize (f x)))]) xs) = frames c (map f xs)"
    by (induction xs) (auto simp: frames_def)
  with send_loop_quiet_wp [OF assms send_quiet_wp, of "\<lambda>_. c" f xs] show ?thesis by simp
qed

lemma owed_private:
  "list_all (\<lambda>m. ms_sender m = u \<or> ms_recipient m = u) (owed_messages u cursor e d)"
  "list_all (\<lambda>g. \<exists>r \<in> set (group_members d). mb_group_id r = gr_groupId g \<and> mb_username r = u)
     (owed_group_messages u cursor e d)"
  by (auto simp: owed_messages_def message_select_def fetch_all_def rowToMessage_def list_all_iff
      owed_group_messages_def gmessages_joined_def rowToGroupMessage_def)

text \<open>A state in which every connection belongs to bob.\<close>

definition bob_state :: world where
  "bob_state = example_state\<lparr>conns := (\<lambda>_. fresh_session\<lparr>cs_username := ''bob''\<rparr>)\<rparr>"

text \<open>
  Synchronising replays to the requesting connection, and to nobody else, exactly the direct
  messages its user sent or received and the messages of the groups the user belongs to, after
  the cursor (all of them when the cursor is empty or no timestamp), the direct ones in order of
  time, and then acknowledges; the tables do not change.
\<close>

lemma sync_replays:
  assumes "quiet s" "u = cs_username (conns s c)"
  shows "wp (SyncHistory_execute p c)
     (\<lambda>_ t. db t = db s
        \<and> outbox t = outbox s
            @ frames c (map (replay_packet u) (sort_messages (owed_messages u (pbody p) (ext s) (db s))))
            @ frames c (map replay_group_packet (owed_group_messages u (pbody p) (ext s) (db s)))
            @ frames c [(new_packet ACK)\<lparr>pto := u\<rparr>]
        \<and> list_all (\<lambda>m. ms_sender m = u \<or> ms_recipient m = u) (owed_messages u (pbody p) (ext s) (db s))
        \<and> list_all (\<lambda>g. \<exists>r \<in> set (group_members (db s)). mb_group_id r = gr_groupId g \<and> mb_username r = u)
            (owed_group_messages u (pbody p) (ext s) (db s)))
     (\<lambda>_ _. False) s"
proof -
  let ?ms = "owed_messages u (pbody p) (ext s) (db s)" and ?gs = "owed_group_messages u (pbody p) (ext s) (db s)"
  note q = sent_quiet [OF _ assms(1)]
  have "wp (SyncHistory_execute p c)
     (\<lambda>_. sent ((([] @ frames c (map (replay_packet u) (sort_messages ?ms))) @ [])
        @ frames c (map replay_group_packet ?gs) @ frames c [(new_packet ACK)\<lparr>pto := u\<rparr>]) s) (\<lambda>_ _. False) s"
    unfolding SyncHistory_execute_def wp_bnd [of "getUsername c"] getUsername_wp assms(2) [symmetric]
  proof (rule sent_bnd [OF sent_nil cursor_query_wp(1) [OF assms(1)]], goal_cases)
    case (1 _ t1) note s1 = 1(1)
    show ?case unfolding 1(2)
    proof (rule sent_bnd [OF s1 wp_sent_any [OF send_all_wp [OF q [OF s1]]]], goal_cases)
      case (1 _ t2) note s2 = 1(1)
      show ?case
      proof (rule sent_bnd [OF s2 cursor_query_wp(2) [OF q [OF s2]]], goal_cases)
        case (1 gs t3) note s3 = 1(1)
        have gs: "gs = ?gs" using 1(2) s2 by (simp add: sent_def)
        show ?case unfolding gs
          by (rule sent_bnd [OF s3 wp_sent_any [OF send_all_wp [OF q [OF s3]]]])
            (auto intro!: wp_mono [OF send_quiet_wp] dest: q sent_trans simp: frames_def)
      qed
    qed
  qed
  then show ?thesis using owed_private by (auto elim!: wp_mono simp: sent_def)
qed

text \<open>An instance: bob's device asks for everything and gets one direct message, one group message and the acknowledgement.\<close>

lemma sync_replays_witness:
  "wp (SyncHistory_execute (new_packet SYNC_HISTORY) 1)
     (\<lambda>_ t. db t = example_db \<and> map fst (outbox t) = [1, 1, 1]) (\<lambda>_ _. False) bob_state"
  by (rule wp_mono [OF sync_replays [OF _ refl]])
    (simp_all add: bob_state_def example_state_def example_world_def example_db_def quiet_def example_ext_def
      new_packet_def frames_def owed_messages_def owed_group_messages_def message_select_def fetch_all_def
      gmessages_joined_def after_cursor_def sort_messages_def)

end
