(* ===== verification/GroupHandlers.thy ===== *)
theory GroupHandlers
  imports MessageHandlers
begin

text \<open>
  The handlers of groups: \<open>CreateGroupHandler\<close>, \<open>GroupMessageHandler\<close>,
  \<open>GroupKeyExchangeHandler\<close>, \<open>GroupInfoHandler\<close>, \<open>GroupLeaveHandler\<close> and
  \<open>DeleteGroupHandler\<close>.
\<close>

section \<open>Parsing the fields\<close>

definition parseMembers :: "string \<Rightarrow> string list" where
  "parseMembers body = filter (\<lambda>m. m \<noteq> []) (getline_loop CHR '','' (istream_of body))"

text \<open>The pairs \<open>user:key\<close> of a key map; entries without both parts are skipped.\<close>

definition parse_entry :: "string \<Rightarrow> (string \<times> string) list" where
  "parse_entry entry =
     (case split_at CHR '':'' entry of
        None \<Rightarrow> []
      | Some (user, key) \<Rightarrow> if user \<noteq> [] \<and> key \<noteq> [] then [(user, key)] else [])"

definition parseKeyPairs :: "string \<Rightarrow> (string \<times> string) list" where
  "parseKeyPairs f = concat (map parse_entry (getline_loop CHR '';'' (istream_of f)))"

definition parseKeyPairsGKE :: "string \<Rightarrow> (string \<times> string) list" where
  "parseKeyPairsGKE f = concat (map parse_entry (getline_loop CHR ''|'' (istream_of f)))"

text \<open>\<open>std::stoi(packet.to)\<close> with its exceptions turned into a protocol error.\<close>

definition group_id_of :: "string \<Rightarrow> string \<Rightarrow> int W" where
  "group_id_of err t = (case stoi t of Inl _ \<Rightarrow> protocol_error err | Inr g \<Rightarrow> retn g)"

text \<open>Joining with semicolons: \<open>if (!acc.empty()) acc += ";"; acc += x;\<close>\<close>

definition join_semi :: "string list \<Rightarrow> string" where
  "join_semi xs = foldl (\<lambda>acc x. (if acc = [] then [] else acc @ '';'') @ x) [] xs"

section \<open>\<open>CreateGroupHandler\<close>\<close>

definition CreateGroup_validate :: "Packet \<Rightarrow> exn + unit" where
  "CreateGroup_validate p =
     reject_if
       [(perrorMsg p = [], ''CREATE_GROUP: group name (errorMsg) is required''),
        (pbody p = [], ''CREATE_GROUP: member list (body) is required''),
        (pkey p = [], ''CREATE_GROUP: key map (key) is required''),
        (length (parseMembers (pbody p)) + 1 < 2 \<or> 32 < length (parseMembers (pbody p)) + 1,
         ''CREATE_GROUP: group size must be between 2 and 32 (inclusive)'')]"

definition check_members :: "string list \<Rightarrow> unit W" where
  "check_members ms =
     for_each (\<lambda>m. bnd (UserRepository_findByUsername m) (\<lambda>u.
       throw_if (u = None) (ProtocolException (''CREATE_GROUP: user not found: '' @ m)))) ms"

text \<open>A notification that is queued when it cannot be sent.\<close>

definition notify_or_queue ::
  "string \<Rightarrow> Packet \<Rightarrow> PacketType \<Rightarrow> string \<Rightarrow> string \<Rightarrow> string \<Rightarrow> string \<Rightarrow> unit W" where
  "notify_or_queue u p ty fu bd em pk =
     bnd (notify u p) (\<lambda>delivered.
       when_m (\<not> delivered) (PendingNotificationRepository_queue u ty fu bd em pk))"

definition invite_packet :: "string \<Rightarrow> string \<Rightarrow> string \<Rightarrow> string \<Rightarrow> string \<Rightarrow> Packet" where
  "invite_packet fu tu name gid key =
     (new_packet GROUP_INVITE)\<lparr>pfrom := fu, pto := tu, perrorMsg := name, pbody := gid, pkey := key\<rparr>"

definition CreateGroup_execute :: "Packet \<Rightarrow> conn \<Rightarrow> unit W" where
  "CreateGroup_execute p c =
     bnd (getUsername c) (\<lambda>creator.
     let members = parseMembers (pbody p); keyPairs = parseKeyPairs (pkey p); keyMap = map_of (rev keyPairs) in
     bnd (check_members members) (\<lambda>_.
     bnd (GroupRepository_createGroup (perrorMsg p) creator) (\<lambda>groupId.
     bnd (GroupRepository_addMember groupId creator ''creator'') (\<lambda>_.
     bnd (for_each (\<lambda>m. GroupRepository_addMember groupId m ''member'') members) (\<lambda>_.
     bnd (for_each (\<lambda>uk. GroupRepository_saveKey groupId (fst uk) (snd uk)) keyPairs) (\<lambda>_.
     bnd (for_each (\<lambda>m. let key = (case keyMap m of None \<Rightarrow> [] | Some k \<Rightarrow> k) in
            notify_or_queue m (invite_packet creator m (perrorMsg p) (int_str groupId) key)
              GROUP_INVITE creator (int_str groupId) (perrorMsg p) key) members) (\<lambda>_.
     send c ((new_packet GROUP_INFO)\<lparr>pfrom := creator, pto := creator, pbody := int_str groupId,
               perrorMsg := perrorMsg p,
               pkey := creator @ '':creator'' @ concat (map (\<lambda>m. '';'' @ m @ '':member'') members)\<rparr>))))))))"

definition CreateGroupHandler :: handler where
  "CreateGroupHandler =
     \<lparr>h_validate = CreateGroup_validate, h_authorize = BaseAuth_authorize, h_execute = CreateGroup_execute\<rparr>"

section \<open>\<open>GroupMessageHandler\<close>\<close>

definition GroupMessage_validate :: "Packet \<Rightarrow> exn + unit" where
  "GroupMessage_validate p =
     reject_if
       [(pfrom p = [], ''GROUP_MESSAGE: sender (from) is required''),
        (pto p = [], ''GROUP_MESSAGE: group_id (to) is required''),
        (pbody p = [], ''GROUP_MESSAGE: encrypted body is required'')]"

text \<open>Sending to a member who may be offline, without queueing.\<close>

definition send_if_online :: "string \<Rightarrow> Packet \<Rightarrow> unit W" where
  "send_if_online u p =
     bnd (findClient u) (\<lambda>peer. case peer of None \<Rightarrow> retn () | Some x \<Rightarrow> try_send x p)"

definition GroupMessage_execute :: "Packet \<Rightarrow> conn \<Rightarrow> unit W" where
  "GroupMessage_execute p c =
     bnd (group_id_of (''GROUP_MESSAGE: invalid group_id in '' @ quoted ''to'') (pto p)) (\<lambda>groupId.
     bnd (getUsername c) (\<lambda>senderName.
     bnd (GroupRepository_getMemberRole groupId senderName) (\<lambda>role.
     bnd (throw_if (role = []) (ProtocolException (''GROUP_MESSAGE: sender is not a member of group '' @ pto p))) (\<lambda>_.
     bnd (GroupRepository_saveMessage groupId (pfrom p) (pbody p) (ptimestamp p)) (\<lambda>msgId.
     bnd (GroupRepository_getMembers groupId) (\<lambda>members.
     let recipients = filter (\<lambda>u. u \<noteq> senderName) (map gb_username members) in
     bnd (GroupRepository_insertReceiptRows msgId recipients) (\<lambda>_.
     bnd (for_each (\<lambda>m. when_m (gb_username m \<noteq> senderName) (send_if_online (gb_username m) p)) members) (\<lambda>_.
     send c ((new_packet ACK)\<lparr>pto := pfrom p, ptimestamp := ptimestamp p, perrorMsg := pto p,
               pkey := join_semi recipients\<rparr>)))))))))"

definition GroupMessageHandler :: handler where
  "GroupMessageHandler =
     \<lparr>h_validate = GroupMessage_validate, h_authorize = BaseAuth_authorize, h_execute = GroupMessage_execute\<rparr>"

section \<open>\<open>GroupKeyExchangeHandler\<close>\<close>

definition GroupKeyExchange_validate :: "Packet \<Rightarrow> exn + unit" where
  "GroupKeyExchange_validate p =
     reject_if [(pto p = [], ''GROUP_KEY_EXCHANGE: group_id (to) is required'')]"

definition group_name_or_empty :: "GroupInfo option \<Rightarrow> string" where
  "group_name_or_empty g = (case g of None \<Rightarrow> [] | Some i \<Rightarrow> gi_name i)"

text \<open>Key recovery: a member asks for the own stored key.\<close>

definition resend_key :: "Packet \<Rightarrow> conn \<Rightarrow> int \<Rightarrow> string \<Rightarrow> string \<Rightarrow> unit W" where
  "resend_key p c groupId actorName actorRole =
     bnd (throw_if (actorRole = [])
            (ProtocolException (''GROUP_KEY_EXCHANGE: requester is not a member of group '' @ pto p))) (\<lambda>_.
     bnd (GroupRepository_getKey groupId actorName) (\<lambda>stored. case stored of
        None \<Rightarrow> protocol_error (''GROUP_KEY_EXCHANGE: no stored key for requester in group '' @ pto p)
      | Some k \<Rightarrow>
          bnd (GroupRepository_findGroupById groupId) (\<lambda>g.
          send c (invite_packet actorName actorName (group_name_or_empty g) (pto p) k))))"

text \<open>Telling one affected member: an invite for the new member, the bare key for the others.\<close>

definition notify_key :: "Packet \<Rightarrow> string \<Rightarrow> string \<Rightarrow> bool \<Rightarrow> string \<times> string \<Rightarrow> unit W" where
  "notify_key p actorName groupName isNew uk =
     (let u = fst uk; key = snd uk;
          resp = (if isNew then invite_packet actorName u groupName (pto p) key
                  else (new_packet GROUP_KEY_EXCHANGE)\<lparr>pfrom := actorName, pto := pto p, pkey := key, pbody := u\<rparr>)
      in bnd (notify u resp) (\<lambda>delivered.
           when_m (\<not> delivered \<and> isNew)
             (PendingNotificationRepository_queue u GROUP_INVITE actorName (pto p) groupName key)))"

definition add_single :: "int \<Rightarrow> string \<times> string \<Rightarrow> bool W" where
  "add_single groupId uk =
     bnd (GroupRepository_getMemberRole groupId (fst uk)) (\<lambda>r.
     bnd (when_m (r = []) (GroupRepository_addMember groupId (fst uk) ''member'')) (\<lambda>_.
     bnd (GroupRepository_saveKey groupId (fst uk) (snd uk)) (\<lambda>_. retn (r = []))))"

definition GroupKeyExchange_execute :: "Packet \<Rightarrow> conn \<Rightarrow> unit W" where
  "GroupKeyExchange_execute p c =
     bnd (group_id_of (''GROUP_KEY_EXCHANGE: invalid group_id in '' @ quoted ''to'') (pto p)) (\<lambda>groupId.
     bnd (getUsername c) (\<lambda>actorName.
     bnd (GroupRepository_getMemberRole groupId actorName) (\<lambda>actorRole.
     if pkey p = [] then resend_key p c groupId actorName actorRole
     else
       bnd (throw_if (actorRole \<noteq> ''creator'' \<and> actorRole \<noteq> ''admin'')
              (ProtocolException ''GROUP_KEY_EXCHANGE: only creator or admin may distribute keys'')) (\<lambda>_.
       let keyPairs = parseKeyPairsGKE (pkey p) in
       bnd (throw_if (keyPairs = [])
              (ProtocolException ''GROUP_KEY_EXCHANGE: no valid key pairs found in key field'')) (\<lambda>_.
       bnd (if length keyPairs = 1 then add_single groupId (hd keyPairs)
            else bnd (GroupRepository_replaceAllKeys groupId keyPairs) (\<lambda>_. retn False)) (\<lambda>newMemberAdded.
       bnd (if newMemberAdded then bnd (GroupRepository_findGroupById groupId) (\<lambda>g. retn (group_name_or_empty g))
            else retn []) (\<lambda>groupName.
       for_each (\<lambda>uk. notify_key p actorName groupName (newMemberAdded \<and> fst uk = fst (hd keyPairs)) uk)
         keyPairs)))))))"

definition GroupKeyExchangeHandler :: handler where
  "GroupKeyExchangeHandler =
     \<lparr>h_validate = GroupKeyExchange_validate, h_authorize = BaseAuth_authorize,
      h_execute = GroupKeyExchange_execute\<rparr>"

section \<open>\<open>GroupInfoHandler\<close>\<close>

definition GroupInfo_validate :: "Packet \<Rightarrow> exn + unit" where
  "GroupInfo_validate p = reject_if [(pto p = [], ''GROUP_INFO: group_id (to) is required'')]"

definition grant_admin :: "Packet \<Rightarrow> int \<Rightarrow> string \<Rightarrow> unit W" where
  "grant_admin p groupId requester =
     bnd (GroupRepository_getMemberRole groupId requester) (\<lambda>role.
     bnd (throw_if (role \<noteq> ''creator'')
            (ProtocolException ''GROUP_INFO: only the creator may grant admin status'')) (\<lambda>_.
     bnd (throw_if (pkey p = [])
            (ProtocolException ''GROUP_INFO: target username (key) is required for grant_admin'')) (\<lambda>_.
     GroupRepository_updateRole groupId (pkey p) ''admin'')))"

definition revoke_admin :: "Packet \<Rightarrow> int \<Rightarrow> string \<Rightarrow> unit W" where
  "revoke_admin p groupId requester =
     bnd (GroupRepository_getMemberRole groupId requester) (\<lambda>role.
     bnd (throw_if (role \<noteq> ''creator'')
            (ProtocolException ''GROUP_INFO: only the creator may revoke admin status'')) (\<lambda>_.
     bnd (throw_if (pkey p = [])
            (ProtocolException ''GROUP_INFO: target username (key) is required for revoke_admin'')) (\<lambda>_.
     bnd (GroupRepository_getMemberRole groupId (pkey p)) (\<lambda>target.
     bnd (throw_if (target \<noteq> ''admin'') (ProtocolException ''GROUP_INFO: target is not an admin'')) (\<lambda>_.
     GroupRepository_updateRole groupId (pkey p) ''member'')))))"

definition GroupInfo_execute :: "Packet \<Rightarrow> conn \<Rightarrow> unit W" where
  "GroupInfo_execute p c =
     bnd (group_id_of (''GROUP_INFO: invalid group_id in '' @ quoted ''to'') (pto p)) (\<lambda>groupId.
     bnd (getUsername c) (\<lambda>requester.
     let isRoleChange = (pbody p = ''grant_admin'' \<or> pbody p = ''revoke_admin'') in
     bnd (when_m (pbody p = ''grant_admin'') (grant_admin p groupId requester)) (\<lambda>_.
     bnd (when_m (pbody p = ''revoke_admin'') (revoke_admin p groupId requester)) (\<lambda>_.
     bnd (GroupRepository_findGroupById groupId) (\<lambda>go. case go of
        None \<Rightarrow> protocol_error (''GROUP_INFO: group not found: '' @ pto p)
      | Some g \<Rightarrow>
          bnd (GroupRepository_getMembers groupId) (\<lambda>members.
          let resp = (new_packet GROUP_INFO)\<lparr>pfrom := requester, pto := requester, pbody := pto p,
                 perrorMsg := gi_name g,
                 pkey := join_semi (map (\<lambda>m. gb_username m @ '':'' @ gb_role m) members)\<rparr> in
          bnd (send c resp) (\<lambda>_.
          when_m isRoleChange
            (for_each (\<lambda>m. when_m (gb_username m \<noteq> requester)
               (send_if_online (gb_username m) (resp\<lparr>pto := gb_username m\<rparr>))) members))))))))"

definition GroupInfoHandler :: handler where
  "GroupInfoHandler =
     \<lparr>h_validate = GroupInfo_validate, h_authorize = BaseAuth_authorize, h_execute = GroupInfo_execute\<rparr>"

section \<open>\<open>GroupLeaveHandler\<close>\<close>

definition GroupLeave_validate :: "Packet \<Rightarrow> exn + unit" where
  "GroupLeave_validate p = reject_if [(pto p = [], ''GROUP_LEAVE: group_id (to) is required'')]"

definition GroupLeave_execute :: "Packet \<Rightarrow> conn \<Rightarrow> unit W" where
  "GroupLeave_execute p c =
     bnd (group_id_of (''GROUP_LEAVE: invalid group_id in '' @ quoted ''to'') (pto p)) (\<lambda>groupId.
     bnd (getUsername c) (\<lambda>actorName.
     bnd (GroupRepository_getMemberRole groupId actorName) (\<lambda>actorRole.
     bnd (throw_if (actorRole = [])
            (ProtocolException (''GROUP_LEAVE: actor is not a member of group '' @ pto p))) (\<lambda>_.
     let isKick = (pbody p \<noteq> []); target = (if isKick then pbody p else actorName) in
     bnd (GroupRepository_getMemberRole groupId target) (\<lambda>targetRole.
     bnd (throw_if (targetRole = ''creator'')
            (ProtocolException ''GROUP_LEAVE: creator cannot leave or be kicked'')) (\<lambda>_.
     bnd (throw_if (isKick \<and> targetRole = ''admin'' \<and> actorRole \<noteq> ''creator'')
            (ProtocolException ''GROUP_LEAVE: only the creator can kick an admin'')) (\<lambda>_.
     bnd (throw_if (isKick \<and> actorRole \<noteq> ''creator'' \<and> actorRole \<noteq> ''admin'')
            (ProtocolException ''GROUP_LEAVE: only creator or admin can kick members'')) (\<lambda>_.
     bnd (GroupRepository_removeMember groupId target) (\<lambda>_.
     bnd (GroupRepository_deleteReceiptsForMember groupId target) (\<lambda>_.
     bnd (send_if_online target ((new_packet GROUP_LEAVE)\<lparr>pto := target, pbody := pto p\<rparr>)) (\<lambda>_.
     when_m isKick
       (send c ((new_packet GROUP_LEAVE)\<lparr>pto := actorName, pbody := ''rotate'', pkey := pto p\<rparr>)))))))))))))"

definition GroupLeaveHandler :: handler where
  "GroupLeaveHandler =
     \<lparr>h_validate = GroupLeave_validate, h_authorize = BaseAuth_authorize, h_execute = GroupLeave_execute\<rparr>"

section \<open>\<open>DeleteGroupHandler\<close>\<close>

definition DeleteGroup_validate :: "Packet \<Rightarrow> exn + unit" where
  "DeleteGroup_validate p = reject_if [(pto p = [], ''DELETE_GROUP: group_id (to) is required'')]"

definition DeleteGroup_execute :: "Packet \<Rightarrow> conn \<Rightarrow> unit W" where
  "DeleteGroup_execute p c =
     bnd (group_id_of (''DELETE_GROUP: invalid group_id in '' @ quoted ''to'') (pto p)) (\<lambda>groupId.
     bnd (getUsername c) (\<lambda>actor.
     bnd (GroupRepository_getMemberRole groupId actor) (\<lambda>role.
     bnd (throw_if (role = []) (ProtocolException ''DELETE_GROUP: actor is not a member of this group'')) (\<lambda>_.
     bnd (throw_if (role \<noteq> ''creator'')
            (ProtocolException ''DELETE_GROUP: only the creator may delete the group'')) (\<lambda>_.
     bnd (GroupRepository_getMembers groupId) (\<lambda>members.
     bnd (for_each (\<lambda>m. notify_or_queue (gb_username m)
            ((new_packet GROUP_LEAVE)\<lparr>pto := gb_username m, pbody := pto p\<rparr>) GROUP_LEAVE actor (pto p) [] [])
            members) (\<lambda>_.
     bnd DbManager_session (\<lambda>_. sql (group_delete groupId)))))))))"

definition DeleteGroupHandler :: handler where
  "DeleteGroupHandler =
     \<lparr>h_validate = DeleteGroup_validate, h_authorize = BaseAuth_authorize, h_execute = DeleteGroup_execute\<rparr>"

section \<open>Steps\<close>

lemma group_id_hs [h_step]: "keeps (handler_step c) (group_id_of err t)"
  unfolding group_id_of_def by (intro hs.rules h_step)

lemma group_sends_hs [h_step]:
  "keeps (handler_step c) (notify_or_queue u p ty fu bd em pk)"
  "keeps (handler_step c) (send_if_online u p)"
  "keeps (handler_step c) (notify_key p a g isNew uk)"
  unfolding notify_or_queue_def send_if_online_def notify_key_def by (intro hs.rules h_step)+

lemma CreateGroup_execute_hs: "keeps (handler_step c) (CreateGroup_execute p c)"
  unfolding CreateGroup_execute_def check_members_def by (intro hs.rules h_step)

lemma GroupMessage_execute_hs: "keeps (handler_step c) (GroupMessage_execute p c)"
  unfolding GroupMessage_execute_def by (intro hs.rules h_step)

lemma GroupKeyExchange_execute_hs: "keeps (handler_step c) (GroupKeyExchange_execute p c)"
  unfolding GroupKeyExchange_execute_def resend_key_def add_single_def by (intro hs.rules h_step)

lemma GroupInfo_execute_hs: "keeps (handler_step c) (GroupInfo_execute p c)"
  unfolding GroupInfo_execute_def grant_admin_def revoke_admin_def by (intro hs.rules h_step)

lemma GroupLeave_execute_hs: "keeps (handler_step c) (GroupLeave_execute p c)"
  unfolding GroupLeave_execute_def by (intro hs.rules h_step)

lemma DeleteGroup_execute_hs: "keeps (handler_step c) (DeleteGroup_execute p c)"
  unfolding DeleteGroup_execute_def
  by (intro hs.rules h_step session_step [THEN db_step_hs] sql_step [THEN db_step_hs] stmt_ok)

interpretation create_group_h: gated_handler CreateGroupHandler
  by unfold_locales (auto simp: CreateGroupHandler_def CreateGroup_validate_def)

interpretation group_message_h: gated_handler GroupMessageHandler
  by unfold_locales (auto simp: GroupMessageHandler_def GroupMessage_validate_def)

interpretation group_key_h: gated_handler GroupKeyExchangeHandler
  by unfold_locales (auto simp: GroupKeyExchangeHandler_def GroupKeyExchange_validate_def)

interpretation group_info_h: gated_handler GroupInfoHandler
  by unfold_locales (auto simp: GroupInfoHandler_def GroupInfo_validate_def)

interpretation group_leave_h: gated_handler GroupLeaveHandler
  by unfold_locales (auto simp: GroupLeaveHandler_def GroupLeave_validate_def)

interpretation delete_group_h: gated_handler DeleteGroupHandler
  by unfold_locales (auto simp: DeleteGroupHandler_def DeleteGroup_validate_def)

end
