(* ===== verification/Dispatch.thy ===== *)
theory Dispatch
  imports GroupHandlers
begin

text \<open>
  \<open>Server::registerHandlers\<close>, \<open>ConnectionHandler::handleRequest\<close> and the server as a
  transition system: connections open, each event of a socket is one turn of its loop, the
  cleanup timer fires.  A turn is atomic here; the sources run the turns of different
  connections on different threads and protect the client map by a mutex.
\<close>

section \<open>Registration\<close>

definition registerHandlers :: "int \<rightharpoonup> handler" where
  "registerHandlers =
     (registerHandler DELETE_CONVERSATION DeleteConversationHandler
     (registerHandler DELETE_GROUP DeleteGroupHandler
     (registerHandler GROUP_LEAVE GroupLeaveHandler
     (registerHandler GROUP_INFO GroupInfoHandler
     (registerHandler GROUP_KEY_EXCHANGE GroupKeyExchangeHandler
     (registerHandler GROUP_MESSAGE GroupMessageHandler
     (registerHandler CREATE_GROUP CreateGroupHandler
     (registerHandler READ_RECEIPT ReadReceiptHandler
     (registerHandler SYNC_HISTORY SyncHistoryHandler
     (registerHandler ACK AckHandler
     (registerHandler KEY_EXCHANGE KeyExchangeHandler
     (registerHandler MESSAGE MessageHandler
     (registerHandler LOGIN LoginHandler
     (registerHandler REGISTER RegisterHandler Map.empty))))))))))))))"

section \<open>One connection\<close>

text \<open>The locals \<open>username\<close> and \<open>sessionToken\<close> of \<open>handleRequest\<close>.\<close>

type_synonym locals = "string \<times> string"

definition err_packet :: "exn \<Rightarrow> Packet" where
  "err_packet e = (new_packet ERR)\<lparr>perrorMsg := what e\<rparr>"

definition send_err :: "conn \<Rightarrow> exn \<Rightarrow> unit W" where
  "send_err c e = ignore_errors (send c (err_packet e))"

text \<open>Registration in the client map after a handled packet.\<close>

definition track_client :: "conn \<Rightarrow> locals \<Rightarrow> locals W" where
  "track_client c loc =
     bnd (isAuthenticated c) (\<lambda>a.
     bnd (getUsername c) (\<lambda>newUsername.
     if a \<and> newUsername \<noteq> [] then
       bnd (when_m (fst loc \<noteq> [] \<and> fst loc \<noteq> newUsername) (removeClient (fst loc) c)) (\<lambda>_.
       bnd (getSessionToken c) (\<lambda>tok.
       bnd (addClient newUsername c) (\<lambda>_. retn (newUsername, tok))))
     else retn loc))"

text \<open>Dispatching one packet: every \<open>AppException\<close> is answered with \<open>ERR\<close>.\<close>

definition process_packet :: "conn \<Rightarrow> locals \<Rightarrow> Packet \<Rightarrow> locals W" where
  "process_packet c loc p =
     catch_if is_App
       (bnd (lift_sum (factory_create registerHandlers (ptype p))) (\<lambda>h.
        bnd (handle h p c) (\<lambda>_. track_client c loc)))
       (\<lambda>e. bnd (send_err c e) (\<lambda>_. retn loc))"

text \<open>One turn of the \<open>while (true)\<close>; false when the loop is left by \<open>break\<close>.\<close>

definition connection_turn :: "conn \<Rightarrow> locals \<Rightarrow> ws_event \<Rightarrow> (locals \<times> bool) W" where
  "connection_turn c loc ev =
     bnd (catch_if is_Protocol (receive_turn c ev) (\<lambda>e. bnd (send_err c e) (\<lambda>_. retn Again)))
       (\<lambda>r. case r of
          Again \<Rightarrow> retn (loc, True)
        | Closed \<Rightarrow> retn (loc, False)
        | Received p \<Rightarrow> bnd (process_packet c loc p) (\<lambda>loc'. retn (loc', True)))"

text \<open>What always runs when the connection ends.\<close>

definition cleanup :: "conn \<Rightarrow> locals \<Rightarrow> unit W" where
  "cleanup c loc =
     when_m (fst loc \<noteq> [])
       (bnd (removeClient (fst loc) c) (\<lambda>_.
        bnd (ignore_errors (UserRepository_updateLastSeen (fst loc))) (\<lambda>_.
        when_m (snd loc \<noteq> []) (ignore_errors (SessionRepository_deactivateByToken (snd loc))))))"

text \<open>A turn whose exceptions are caught by the outer \<open>try\<close>, which ends the loop.\<close>

definition guarded_turn :: "conn \<Rightarrow> locals \<Rightarrow> ws_event \<Rightarrow> (locals \<times> bool) W" where
  "guarded_turn c loc ev = catch_if (\<lambda>_. True) (connection_turn c loc ev) (\<lambda>_. retn (loc, False))"

text \<open>
  The loop over the events of the socket: \<open>Some\<close> locals while the connection is still open
  when the events are used up, \<open>None\<close> after it has ended and been cleaned up.
\<close>

primrec serve :: "conn \<Rightarrow> locals \<Rightarrow> ws_event list \<Rightarrow> locals option W" where
  "serve c loc [] = retn (Some loc)"
| "serve c loc (ev # evs) =
     bnd (guarded_turn c loc ev) (\<lambda>r.
       if snd r then serve c (fst r) evs else bnd (cleanup c (fst r)) (\<lambda>_. retn None))"

definition handleRequest :: "conn \<Rightarrow> ws_event list \<Rightarrow> locals option W" where
  "handleRequest c evs =
     bnd (upd (\<lambda>s. s\<lparr>conns := (conns s)(c := fresh_session)\<rparr>)) (\<lambda>_. serve c ([], []) evs)"

text \<open>\<open>Server::main\<close> up to the moment it accepts connections: a failing database is logged.\<close>

definition server_start :: "unit W" where
  "server_start = catch_if is_Db DbManager_init (\<lambda>_. retn ())"

section \<open>The server\<close>

record system =
  sys_world :: world
  sys_open :: "conn \<rightharpoonup> locals"

inductive sys_step :: "system \<Rightarrow> system \<Rightarrow> bool" where
  connect:
    "sys_open S c = None \<Longrightarrow>
     sys_step S \<lparr>sys_world = (sys_world S)\<lparr>conns := (conns (sys_world S))(c := fresh_session)\<rparr>,
                sys_open = (sys_open S)(c \<mapsto> ([], []))\<rparr>"
| turn:
    "sys_open S c = Some loc \<Longrightarrow> guarded_turn c loc ev (sys_world S) = (Inr (loc', True), w) \<Longrightarrow>
     sys_step S \<lparr>sys_world = w, sys_open = (sys_open S)(c \<mapsto> loc')\<rparr>"
| disconnect:
    "sys_open S c = Some loc \<Longrightarrow> guarded_turn c loc ev (sys_world S) = (Inr (loc', False), w) \<Longrightarrow>
     sys_step S \<lparr>sys_world = snd (cleanup c loc' w), sys_open = (sys_open S)(c := None)\<rparr>"
| timer:
    "sys_step S (S\<lparr>sys_world := snd (onCleanupTimer (sys_world S))\<rparr>)"

inductive_cases sys_stepE: "sys_step S S'"

definition initial :: "world \<Rightarrow> system" where
  "initial w = \<lparr>sys_world = w\<lparr>clients := Map.empty\<rparr>, sys_open = Map.empty\<rparr>"

section \<open>Handlers are steps\<close>

lemma created_handler:
  assumes "factory_create registerHandlers t = Inr h"
  shows "(t = LOGIN \<and> h = LoginHandler) \<or> (t = REGISTER \<and> h = RegisterHandler) \<or> gated_handler h"
  using assms
  by (cases t)
    (auto simp: factory_create_def registerHandlers_def registerHandler_def
      message_h.gated_handler_axioms ack_h.gated_handler_axioms read_receipt_h.gated_handler_axioms
      sync_h.gated_handler_axioms delete_conversation_h.gated_handler_axioms
      create_group_h.gated_handler_axioms group_message_h.gated_handler_axioms
      group_key_h.gated_handler_axioms group_info_h.gated_handler_axioms
      group_leave_h.gated_handler_axioms delete_group_h.gated_handler_axioms
      key_exchange.gated_handler_axioms)

lemmas execute_hs = Register_execute_hs Login_execute_hs KeyExchange_execute_hs Message_execute_hs
  Ack_execute_hs ReadReceipt_execute_hs SyncHistory_execute_hs DeleteConversation_execute_hs
  CreateGroup_execute_hs GroupMessage_execute_hs GroupKeyExchange_execute_hs GroupInfo_execute_hs
  GroupLeave_execute_hs DeleteGroup_execute_hs

lemmas handler_defs = RegisterHandler_def LoginHandler_def KeyExchangeHandler_def MessageHandler_def
  AckHandler_def ReadReceiptHandler_def SyncHistoryHandler_def DeleteConversationHandler_def
  CreateGroupHandler_def GroupMessageHandler_def GroupKeyExchangeHandler_def GroupInfoHandler_def
  GroupLeaveHandler_def DeleteGroupHandler_def

lemma created_hs:
  assumes "factory_create registerHandlers t = Inr h"
  shows "keeps (handler_step c) (handle h p c)"
proof -
  have "(\<forall>x. keeps (handler_step c) (h_authorize h x)) \<and> keeps (handler_step c) (h_execute h p c)"
    using assms
    by (cases t)
      (auto simp: factory_create_def registerHandlers_def registerHandler_def handler_defs
        execute_hs BaseAuth_authorize_hs hs.k_retn)
  then show ?thesis by (intro handle_hs) auto
qed

lemma dispatch_hs:
  "keeps (handler_step c)
     (bnd (lift_sum (factory_create registerHandlers (ptype p))) (\<lambda>h. handle h p c))"
  by (cases "factory_create registerHandlers (ptype p)")
    (auto simp: lift_sum_def hs.k_thr intro: created_hs)

lemma send_err_hs: "keeps (handler_step c) (send_err x e)"
  unfolding send_err_def by (intro h_step)

section \<open>The gate in front of the handlers\<close>

text \<open>A well-formed frame that its handler accepts.\<close>

lemma handled_turn_any:
  assumes "wf_packet p" "factory_create registerHandlers (ptype p) = Inr h"
    and "wp (handle h p c) (\<lambda>_. Q) (\<lambda>_ _. False) s" "\<And>u m. Q u \<Longrightarrow> Q (u\<lparr>clients := m\<rparr>)"
  shows "wp (guarded_turn c loc (WsFrame OP_DATA (serialize p))) (\<lambda>r t. snd r \<and> Q t) (\<lambda>_ _. False) s"
proof -
  have "wp (process_packet c loc p) (\<lambda>_. Q) (\<lambda>_ _. False) s"
    unfolding process_packet_def wp_catch_if assms(2)
    using assms(3) by (simp add: lift_sum_def wp_bnd wp_retn)
      (erule wp_mono, auto simp: track_client_def wp addClient_def removeClient_def intro!: assms(4))
  then show ?thesis
    unfolding guarded_turn_def wp_catch_if connection_turn_def wp_bnd receive_data [OF assms(1)]
    by (simp add: wp_bnd) (erule wp_mono, auto simp: wp)
qed

lemma handled_turn_wp:
  assumes "wf_packet p" "factory_create registerHandlers (ptype p) = Inr h"
    and "wp (handle h p c) (\<lambda>_ u. Q (db u) (outbox u)) (\<lambda>_ _. False) s"
  shows "wp (guarded_turn c loc (WsFrame OP_DATA (serialize p))) (\<lambda>r t. snd r \<and> Q (db t) (outbox t)) (\<lambda>_ _. False) s"
  by (rule handled_turn_any [OF assms(1,2), where Q = "\<lambda>u. Q (db u) (outbox u)"]) (use assms(3) in auto)

text \<open>A well-formed frame of a connection that passes the gate reaches the handler of its type.\<close>

lemma gated_turn_wp:
  assumes "wf_packet p" "factory_create registerHandlers (ptype p) = Inr h" "gated_handler h"
    and "h_validate h p = Inr ()" "quiet s" "authorised s c"
    and run: "\<And>t. untouched s t \<Longrightarrow> wp (h_execute h p c) (\<lambda>_ u. Q (db u) (outbox u)) (\<lambda>_ _. False) t"
  shows "wp (guarded_turn c loc (WsFrame OP_DATA (serialize p))) (\<lambda>r t. snd r \<and> Q (db t) (outbox t)) (\<lambda>_ _. False) s"
proof (rule handled_turn_wp [OF assms(1,2)])
  show "wp (handle h p c) (\<lambda>_ u. Q (db u) (outbox u)) (\<lambda>_ _. False) s"
    unfolding handle_def gated_handler.gate [OF assms(3)] assms(4)
    by (simp add: lift_sum_def wp_bnd wp_retn) (rule wp_mono [OF authorize_accepts [OF assms(5,6)]], auto intro: run)
qed

text \<open>Log-in passes no gate.\<close>

lemma login_turn_wp:
  assumes "wf_packet p" "ptype p = LOGIN" "pfrom p \<noteq> []" "pbody p \<noteq> []"
    and "wp (Login_execute p c) (\<lambda>_ u. Q (db u) (outbox u)) (\<lambda>_ _. False) s"
  shows "wp (guarded_turn c loc (WsFrame OP_DATA (serialize p))) (\<lambda>r t. snd r \<and> Q (db t) (outbox t)) (\<lambda>_ _. False) s"
  by (rule handled_turn_wp [OF assms(1), where h = LoginHandler])
    (use assms(2-5) in \<open>simp_all add: factory_create_def registerHandlers_def registerHandler_def handle_def LoginHandler_def
      Login_validate_def reject_if_def lift_sum_def wp_bnd wp_retn\<close>)

text \<open>The frame of a message for a user who is online: its first effect is the forwarded frame.\<close>

lemma message_frame_wp:
  assumes "wf_packet p" "ptype p = MESSAGE" "Message_validate p = Inr ()" "quiet w" "authorised w c"
    and "storable (ext w) p" "find_client (pto p) (clients w) = Some x"
  shows "wp (guarded_turn c loc (WsFrame OP_DATA (serialize p)))
     (\<lambda>r t. snd r \<and> (\<exists>rest. outbox t = outbox w @ (x, Text (serialize (p\<lparr>pkey := fst (split_key (pkey p))\<rparr>))) # rest))
     (\<lambda>_ _. False) w"
proof (rule gated_turn_wp [where h = MessageHandler])
  show "factory_create registerHandlers (ptype p) = Inr MessageHandler"
    by (simp add: assms(2) factory_create_def registerHandlers_def registerHandler_def)
  fix t
  assume "untouched w t"
  then have "quiet t" "storable (ext t) p" "find_client (pto p) (clients t) = Some x" "outbox t = outbox w"
    using assms by (auto simp: untouched_def only_db_def quiet_def)
  then show "wp (h_execute MessageHandler p c) (\<lambda>_ u. \<exists>rest. outbox u =
      outbox w @ (x, Text (serialize (p\<lparr>pkey := fst (split_key (pkey p))\<rparr>))) # rest) (\<lambda>_ _. False) t"
    by (simp add: MessageHandler_def) (rule wp_mono [OF message_online_wp], auto)
qed (use assms message_h.gated_handler_axioms in \<open>auto simp: MessageHandler_def\<close>)

text \<open>
  C14. Nothing happens before the gate is passed: a packet of any type but LOGIN and REGISTER, on a
  connection that is not authenticated or whose token is unknown, revoked or expired, changes no
  table, no connection and not the client map, and is answered with at most one ERR; the
  connection goes on.
\<close>

theorem unauthorised_packet_inert:
  assumes "\<not> authorised s c" "ptype p \<noteq> LOGIN" "ptype p \<noteq> REGISTER"
  shows "wp (process_packet c loc p)
     (\<lambda>loc' t. loc' = loc \<and> db t = db s \<and> conns t = conns s \<and> clients t = clients s
        \<and> (outbox t = outbox s \<or> (\<exists>e. outbox t = outbox s @ [(c, Text (serialize (err_packet e)))])))
     (\<lambda>_ _. False) s"
proof -
  let ?d = "bnd (lift_sum (factory_create registerHandlers (ptype p))) (\<lambda>h. handle h p c)"
  have d: "wp ?d (\<lambda>_ _. False) (\<lambda>e t. untouched s t \<and> is_App e) s"
  proof (cases "factory_create registerHandlers (ptype p)")
    case (Inl e)
    then show ?thesis by (auto simp: lift_sum_def wp factory_create_def split: option.splits)
  next
    case (Inr h)
    then have g: "gated_handler h" using created_handler [OF Inr] assms(2,3) by auto
    have app: "is_App e" if "is_Protocol e \<or> is_Db e" for e using that by (cases e) auto
    show ?thesis
      unfolding Inr lift_sum_def
      by (simp add: wp_bnd wp_retn) (rule wp_mono [OF gated_handler.rejected [OF g assms(1)]], auto intro: app)
  qed
  then show ?thesis
    unfolding process_packet_def wp_catch_if bnd_assoc [symmetric] wp_bnd [of ?d]
    by (rule wp_mono) (auto simp: send_err_def wp untouched_def only_db_def split: option.splits)
qed

text \<open>Witness of C14: a message from a connection that never logged in.\<close>

lemma unauthorised_packet_inert_witness:
  "\<not> authorised example_state 1
   \<and> wp (process_packet 1 ([], []) example_message) (\<lambda>loc t. loc = ([], []) \<and> db t = example_db) (\<lambda>_ _. False) example_state"
proof -
  have a: "\<not> authorised example_state 1"
    by (simp add: authorised_def example_state_def example_world_def fresh_session_def)
  have "ptype example_message \<noteq> LOGIN" "ptype example_message \<noteq> REGISTER"
    by (simp_all add: example_message_def new_packet_def)
  from unauthorised_packet_inert [OF a this] have "wp (process_packet 1 ([], []) example_message)
      (\<lambda>loc t. loc = ([], []) \<and> db t = example_db) (\<lambda>_ _. False) example_state"
    by (rule wp_mono) (auto simp: example_state_def)
  with a show ?thesis ..
qed

section \<open>The client map follows the open connections\<close>

text \<open>What one turn of connection \<open>c\<close> does to its locals and to the client map.\<close>

definition tracked :: "conn \<Rightarrow> locals \<Rightarrow> world \<Rightarrow> locals \<Rightarrow> world \<Rightarrow> bool" where
  "tracked c loc s loc' t \<longleftrightarrow>
     loc' = loc \<and> clients t = clients s
     \<or> fst loc' \<noteq> [] \<and> clients t = add_client (fst loc') c
         (if fst loc \<noteq> [] \<and> fst loc \<noteq> fst loc' then remove_client (fst loc) c (clients s) else clients s)"

text \<open>A step of the whole server as seen by the other connections.\<close>

definition turn_step :: "conn \<Rightarrow> world \<Rightarrow> world \<Rightarrow> bool" where
  "turn_step c s t \<longleftrightarrow>
     ext t = ext s \<and> pool t = pool s \<and> (\<forall>x. x \<noteq> c \<longrightarrow> conns t x = conns s x)
     \<and> grown (outbox s) (outbox t) \<and> (db_ok (db s) \<longrightarrow> db_ok (db t))"

lemma handler_turn_step: "handler_step c s t \<Longrightarrow> turn_step c s t \<and> clients t = clients s"
  by (simp add: handler_step_def turn_step_def)

lemma track_client_wp:
  "wp (track_client c loc) (\<lambda>loc' t. tracked c loc s loc' t \<and> turn_step c s t) (\<lambda>_ _. False) s"
  by (simp add: track_client_def wp addClient_def removeClient_def tracked_def turn_step_def)

lemma process_packet_wp:
  "wp (process_packet c loc p) (\<lambda>loc' t. tracked c loc s loc' t \<and> turn_step c s t)
     (\<lambda>e t. clients t = clients s \<and> turn_step c s t \<and> \<not> is_App e) s"
proof -
  let ?d = "bnd (lift_sum (factory_create registerHandlers (ptype p))) (\<lambda>h. handle h p c)"
  have err: "wp (bnd (send_err c e) (\<lambda>_. retn loc)) (\<lambda>loc' t'. tracked c loc s loc' t' \<and> turn_step c s t')
      (\<lambda>e t. clients t = clients s \<and> turn_step c s t \<and> \<not> is_App e) t"
    if "handler_step c s t" for e t
  proof -
    have "wp (send_err c e) (\<lambda>_. handler_step c t) (\<lambda>_ _. False) t"
      using keeps_wpD [OF send_err_hs [of c c e], of t] by (simp add: send_err_def wp)
    then show ?thesis
      unfolding wp_bnd
      by (rule wp_mono)
        (drule hs.R_trans [OF that], drule handler_turn_step, simp add: wp tracked_def, simp)
  qed
  have d: "wp ?d (\<lambda>_. handler_step c s) (\<lambda>_. handler_step c s) s"
    by (rule keeps_wpD [OF dispatch_hs])
  have "wp (bnd ?d (\<lambda>_. track_client c loc))
      (\<lambda>loc' t. tracked c loc s loc' t \<and> turn_step c s t) (\<lambda>_. handler_step c s) s"
  proof (subst wp_bnd, rule wp_mono [OF d])
    fix x t
    assume t: "handler_step c s t"
    show "wp (track_client c loc) (\<lambda>loc' t. tracked c loc s loc' t \<and> turn_step c s t) (\<lambda>_. handler_step c s) t"
      by (rule wp_mono [OF track_client_wp])
        (use t in \<open>auto simp: tracked_def turn_step_def handler_step_def dest: grown_trans\<close>)
  qed
  then show ?thesis
    unfolding process_packet_def wp_catch_if bnd_assoc
    by (rule wp_mono) (auto intro: err dest: handler_turn_step)
qed

lemma guarded_turn_wp:
  "wp (guarded_turn c loc ev) (\<lambda>r t. tracked c loc s (fst r) t \<and> turn_step c s t) (\<lambda>_ _. False) s"
proof -
  let ?Q = "\<lambda>r t. tracked c loc s (fst r) t \<and> turn_step c s t"
  let ?E = "\<lambda>e t. clients t = clients s \<and> turn_step c s t"
  let ?r = "catch_if is_Protocol (receive_turn c ev) (\<lambda>e. bnd (send_err c e) (\<lambda>_. retn Again))"
  have "wp ?r (\<lambda>_. handler_step c s) (\<lambda>_. handler_step c s) s"
    by (rule keeps_wpD) (intro hs.rules receive_turn_hs send_err_hs)
  then have "wp (connection_turn c loc ev) ?Q ?E s"
    unfolding connection_turn_def wp_bnd
  proof (rule wp_mono)
    fix x t
    assume t: "handler_step c s t"
    show "wp (case x of Again \<Rightarrow> retn (loc, True) | Closed \<Rightarrow> retn (loc, False)
        | Received p \<Rightarrow> bnd (process_packet c loc p) (\<lambda>loc'. retn (loc', True))) ?Q ?E t"
    proof (cases x)
      case (Received p)
      show ?thesis
        unfolding Received received.case wp_bnd
        by (rule wp_mono [OF process_packet_wp])
          (use t in \<open>auto simp: wp tracked_def turn_step_def handler_step_def dest: grown_trans\<close>)
    qed (use handler_turn_step [OF t] in \<open>simp_all add: wp tracked_def\<close>)
  qed (auto dest: handler_turn_step)
  then show ?thesis
    unfolding guarded_turn_def wp_catch_if
    by (rule wp_mono) (auto simp: wp tracked_def)
qed

lemma cleanup_wp:
  "wp (cleanup c loc)
     (\<lambda>_ t. turn_step c s t \<and> clients t = (if fst loc = [] then clients s else remove_client (fst loc) c (clients s)))
     (\<lambda>_ _. False) s"
proof -
  have db: "wp (ignore_errors m) (\<lambda>_. handler_step c s) (\<lambda>_ _. False) s" if "keeps db_step m" for m s
    using keeps_wpD [OF db_step_hs [OF that], of c s] by (simp add: wp)
  let ?s = "s\<lparr>clients := remove_client (fst loc) c (clients s)\<rparr>"
  have rest: "wp (bnd (ignore_errors (UserRepository_updateLastSeen (fst loc))) (\<lambda>_.
        when_m (snd loc \<noteq> []) (ignore_errors (SessionRepository_deactivateByToken (snd loc)))))
      (\<lambda>_. handler_step c ?s) (\<lambda>_ _. False) ?s"
    unfolding wp_bnd
    by (rule wp_mono [OF db [OF repositories_ok(4)]])
      (auto simp: wp_when intro: wp_mono [OF db [OF repositories_ok(12)]] hs.R_trans)
  show ?thesis
    using wp_mono [OF rest, of "\<lambda>_ t. turn_step c s t \<and> clients t = remove_client (fst loc) c (clients s)"
        "\<lambda>_ _. False"]
    by (auto simp: cleanup_def wp removeClient_def wp_bnd_fun turn_step_def handler_step_def)
qed

text \<open>Every registered connection is open and known under that name, and conversely.\<close>

definition reg_ok :: "(conn \<rightharpoonup> locals) \<Rightarrow> client_map \<Rightarrow> bool" where
  "reg_ok ops m \<longleftrightarrow> (\<forall>u c. c \<in> set (sessions_in u m) \<longleftrightarrow> u \<noteq> [] \<and> (\<exists>tok. ops c = Some (u, tok)))"

lemma reg_ok_tracked:
  assumes "reg_ok ops (clients s)" "ops c = Some loc" "tracked c loc s loc' t"
  shows "reg_ok (ops(c \<mapsto> loc')) (clients t)"
proof (cases "loc' = loc \<and> clients t = clients s")
  case True
  with assms(1,2) show ?thesis by (simp add: fun_upd_idem)
next
  case False
  with assms show ?thesis
    by (cases loc; cases loc')
      (auto simp: reg_ok_def tracked_def clients_map.sess_add clients_map.sess_remove split: if_splits)
qed

lemma reg_ok_closed:
  assumes "reg_ok ops m" "ops c = Some loc"
  shows "reg_ok (ops(c := None)) (if fst loc = [] then m else remove_client (fst loc) c m)"
  using assms by (cases loc) (auto simp: reg_ok_def clients_map.sess_remove split: if_splits)

definition sys_ok :: "system \<Rightarrow> bool" where
  "sys_ok S \<longleftrightarrow> db_ok (db (sys_world S)) \<and> reg_ok (sys_open S) (clients (sys_world S))"

lemma sys_step_ok:
  assumes "sys_step S S'" "sys_ok S"
  shows "sys_ok S'"
  using assms
proof (cases rule: sys_step.cases)
  case (connect c)
  then show ?thesis using assms(2) by (auto simp: sys_ok_def reg_ok_def)
next
  case (turn c loc ev loc' w)
  then show ?thesis
    using assms(2) wp_InrD [OF guarded_turn_wp turn(3)]
    by (auto simp: sys_ok_def turn_step_def intro: reg_ok_tracked)
next
  case (disconnect c loc ev loc' w)
  have t: "tracked c loc (sys_world S) loc' w \<and> turn_step c (sys_world S) w"
    using wp_InrD [OF guarded_turn_wp disconnect(3)] by simp
  then have "reg_ok ((sys_open S)(c \<mapsto> loc')) (clients w)"
    using assms(2) disconnect(2) by (auto simp: sys_ok_def intro: reg_ok_tracked)
  from reg_ok_closed [OF this, of c loc'] show ?thesis
    using t assms(2) disconnect(1) cleanup_wp [of c loc' w]
    by (auto simp: sys_ok_def turn_step_def wp_def split: prod.splits sum.splits)
next
  case timer
  obtain r t where rt: "onCleanupTimer (sys_world S) = (r, t)" by force
  with timer show ?thesis
    using assms(2) keepsD [OF cleanup_hs rt, of 0] by (simp add: sys_ok_def handler_step_def)
qed

lemma initial_ok: "db_ok (db w) \<Longrightarrow> sys_ok (initial w)"
  by (simp add: sys_ok_def initial_def reg_ok_def sessions_in_def)

text \<open>
  C7. In every reachable state of the server the tables satisfy all constraints of the schema
  (unique names and tokens, references, roles, receipts), and the client map lists for each
  user exactly the open connections that are registered under that name: a packet is never
  routed to a connection that has ended.
\<close>

theorem server_invariant:
  assumes "db_ok (db w)" "rtranclp sys_step (initial w) S"
  shows "db_ok (db (sys_world S))
    \<and> (\<forall>u c. c \<in> set (sessions_in u (clients (sys_world S))) \<longleftrightarrow>
          u \<noteq> [] \<and> (\<exists>tok. sys_open S c = Some (u, tok)))"
proof -
  have "sys_ok S"
    using assms(2) by (induction rule: rtranclp_induct) (auto simp: initial_ok assms(1) sys_step_ok)
  then show ?thesis by (simp add: sys_ok_def reg_ok_def)
qed

text \<open>Witness of C7: a client connects to the server of the example state.\<close>

lemma server_invariant_witness:
  "\<exists>S. sys_step (initial example_state) S \<and> sys_open S 7 = Some ([], []) \<and> db_ok (db (sys_world S))"
proof -
  have open0: "sys_open (initial example_state) 7 = None" by (simp add: initial_def)
  note step = connect [OF open0]
  have "db_ok (db example_state)" by (rule example_state_ok)
  from server_invariant [OF this r_into_rtranclp, OF step] step show ?thesis by force
qed

end
