(* ===== verification/Client.thy ===== *)
theory Client
  imports Protocol
begin

text \<open>
  The state of the Qt client and the libraries it stands on.  The members of
  \<open>NetworkManager\<close>, the two list models, the account databases of \<open>LocalStorage\<close>,
  the settings and the socket are one record; every method is a computation over it in the
  monad of the prelude.

  Qt and OpenSSL are not part of the sources: what the client calls of them is the record
  \<open>library\<close>, whose fields are arbitrary functions.  A call that may fail takes the number of
  such calls so far, so that failures and fresh randomness can differ from call to call.
  A \<open>QString\<close> is its UTF-8 text.
\<close>

section \<open>Libraries\<close>

text \<open>A valid \<open>QDateTime\<close>: wall clock in milliseconds, and whether and how it is zoned.\<close>

record qdatetime =
  qd_local :: bool
  qd_wall :: int
  qd_offset :: int

record library =
  RAND_bytes :: "nat \<Rightarrow> nat \<Rightarrow> string option"
  evp_fails :: "nat \<Rightarrow> bool"
  gcm_seal :: "string \<Rightarrow> string \<Rightarrow> string \<Rightarrow> string \<times> string"
  gcm_open :: "string \<Rightarrow> string \<Rightarrow> string \<Rightarrow> string \<Rightarrow> string option"
  rsa_keygen :: "nat \<Rightarrow> int"
  write_pub_pem :: "int \<Rightarrow> string"
  write_priv_pem :: "int \<Rightarrow> string"
  read_pub_pem :: "string \<Rightarrow> int option"
  read_priv_pem :: "string \<Rightarrow> int option"
  oaep_encrypt :: "nat \<Rightarrow> int \<Rightarrow> string \<Rightarrow> string option"
  oaep_decrypt :: "int \<Rightarrow> string \<Rightarrow> string option"
  toBase64 :: "string \<Rightarrow> string"
  fromBase64 :: "string \<Rightarrow> string"
  toLatin1 :: "string \<Rightarrow> string"
  fromUtf8 :: "string \<Rightarrow> string"
  trimmed :: "string \<Rightarrow> string"
  parse_iso_ms :: "string \<Rightarrow> qdatetime option"
  parse_iso :: "string \<Rightarrow> qdatetime option"
  print_iso_ms :: "int \<Rightarrow> string"
  utc_now :: "nat \<Rightarrow> int"
  local_iso_now :: "nat \<Rightarrow> string"
  sqlite_fails :: "nat \<Rightarrow> bool"
  app_data :: string

section \<open>The account database\<close>

text \<open>
  The rows of the SQLite file of one account.  The two \<open>id\<close> columns are never read and are
  left out; \<open>INTEGER\<close> flags are booleans.
\<close>

record message_entry =
  lm_peer :: string
  lm_sender :: string
  lm_content :: string
  lm_timestamp :: string
  lm_is_outgoing :: bool
  lm_status :: string

record conversation_entry =
  lc_peer :: string
  lc_last_message :: string
  lc_last_timestamp :: string
  lc_unread_count :: int

record group_message_entry =
  lx_group_id :: string
  lx_sender :: string
  lx_content :: string
  lx_timestamp :: string
  lx_is_outgoing :: bool
  lx_status :: string

record group_key_entry =
  lk_group_id :: string
  lk_aes_key_base64 :: string

record group_entry =
  lg_group_id :: string
  lg_name :: string
  lg_role :: string
  lg_last_message :: "string option"
  lg_last_timestamp :: "string option"
  lg_unread_count :: int

record recipient_entry =
  lr_group_id :: string
  lr_timestamp :: string
  lr_member :: string
  lr_delivered :: bool
  lr_seen :: bool

text \<open>What \<open>createSchema\<close> creates one by one: tables, columns added later, unique indexes.\<close>

datatype schema_item =
    Tab_messages | Idx_messages_dedup | Tab_conversations | Col_conversations_unread
  | Tab_group_messages | Col_group_messages_status | Tab_group_keys | Tab_groups
  | Col_groups_unread | Idx_gm_dedup | Tab_recipients

record account =
  ac_schema :: "schema_item list"
  ac_messages :: "message_entry list"
  ac_conversations :: "conversation_entry list"
  ac_group_messages :: "group_message_entry list"
  ac_group_keys :: "group_key_entry list"
  ac_groups :: "group_entry list"
  ac_recipients :: "recipient_entry list"

definition empty_account :: account where
  "empty_account =
     \<lparr>ac_schema = [], ac_messages = [], ac_conversations = [], ac_group_messages = [],
      ac_group_keys = [], ac_groups = [], ac_recipients = []\<rparr>"

section \<open>Members of the classes\<close>

record PendingGroupCreate =
  pg_name :: string
  pg_members :: "string list"
  pg_aesKey :: string
  pg_collectedKeys :: "(string \<times> string) list"
  pg_waitingFor :: "string list"

record NetworkManager =
  serverUrl :: string
  lastMessage :: string
  currentUsername :: string
  hasError :: bool
  ownPrivKey :: string
  ownPubKey :: string
  peerKeys :: "string \<rightharpoonup> string"
  pendingMessages :: "string \<rightharpoonup> (string \<times> string) list"
  pendingRegister :: bool
  intentionallyConnecting :: bool
  unreadTimestamps :: "string \<rightharpoonup> string list"
  pendingGroupMemberAdds :: "string \<rightharpoonup> string list"
  pendingGroupKeyRequests :: "string list"
  pendingGroupPackets :: "string \<rightharpoonup> Packet list"
  pendingGroupSends :: "string \<rightharpoonup> (string \<times> string) list"
  pendingGroupCreations :: "PendingGroupCreate list"
  groupKeys :: "string \<rightharpoonup> string"
  groupNames :: "string \<rightharpoonup> string"

record ChatEntry =
  ce_sender :: string
  ce_content :: string
  ce_timestamp :: string
  ce_isOutgoing :: bool
  ce_status :: string

record ChatModel =
  chat_entries :: "ChatEntry list"
  chat_cache :: "string \<rightharpoonup> ChatEntry list"
  activePeer :: string

record ConvEntry =
  cv_username :: string
  cv_lastMessage :: string
  cv_timestamp :: string
  cv_isGroup :: bool
  cv_groupId :: string
  cv_unreadCount :: int

text \<open>The signals, with their arguments in order.\<close>

datatype signal =
    messageReceived string
  | lastMessageChanged
  | connectionChanged
  | connected
  | disconnected
  | errorOcurred string
  | currentUsernameChanged
  | messageDecrypted string string string
  | conversationDeleted string
  | peerKeyReceived string string
  | syncComplete
  | messageDelivered string
  | messageSeen string string
  | groupMessageDelivered string string
  | groupReceiptUpdated string string
  | historySyncMessage string string string string bool string
  | convListUpdated string string string int
  | groupInviteReceived string string
  | groupMessageDecrypted string string string string bool
  | groupKeyUpdated string
  | groupInfoReceived string string "(string \<times> string) list"
  | groupLeft string
  | groupHistorySyncMessage string string string string bool string
  | groupConvUpdated string string string string int

text \<open>The socket: its state, the frames handed to it, and what was asked of it.\<close>

record socket =
  so_connected :: bool
  so_sent :: "string list"
  so_opened :: "string list"
  so_verifies_peer :: bool
  so_pinging :: bool
  so_reconnects :: nat

record client =
  lib :: library
  calls :: nat
  settings :: "string \<rightharpoonup> string"
  files :: "string \<rightharpoonup> account"
  db_open :: "string option"
  sock :: socket
  nm :: NetworkManager
  chat :: ChatModel
  conv :: "ConvEntry list"
  signals :: "signal list"

type_synonym 'a C = "(client, 'a) M"

section \<open>Access\<close>

definition getNM :: "(NetworkManager \<Rightarrow> 'a) \<Rightarrow> 'a C" where
  "getNM f = gets (\<lambda>s. f (nm s))"

definition updNM :: "(NetworkManager \<Rightarrow> NetworkManager) \<Rightarrow> unit C" where
  "updNM f = upd (\<lambda>s. s\<lparr>nm := f (nm s)\<rparr>)"

definition updSock :: "(socket \<Rightarrow> socket) \<Rightarrow> unit C" where
  "updSock f = upd (\<lambda>s. s\<lparr>sock := f (sock s)\<rparr>)"

definition emit :: "signal \<Rightarrow> unit C" where
  "emit x = upd (\<lambda>s. s\<lparr>signals := signals s @ [x]\<rparr>)"

text \<open>The number of the next call of a library function that may fail or draw randomness.\<close>

definition next_call :: "nat C" where
  "next_call s = (Inr (calls s), s\<lparr>calls := Suc (calls s)\<rparr>)"

lemma wp_getNM [wp]: "wp (getNM f) Q E s = Q (f (nm s)) s"
  by (simp add: getNM_def wp)

lemma wp_client [wp]:
  "wp (updNM g) Q E s = Q () (s\<lparr>nm := g (nm s)\<rparr>)"
  "wp (updSock h) Q E s = Q () (s\<lparr>sock := h (sock s)\<rparr>)"
  "wp (emit x) Q E s = Q () (s\<lparr>signals := signals s @ [x]\<rparr>)"
  by (simp_all add: updNM_def updSock_def emit_def wp)

lemma wp_next_call [wp]: "wp next_call Q E s = Q (calls s) (s\<lparr>calls := Suc (calls s)\<rparr>)"
  by (simp add: next_call_def wp_def)

section \<open>Helpers of Qt used as plain functions\<close>

text \<open>\<open>QMap::value(k)\<close> with a default-constructed result, and \<open>m[k].append(x)\<close>.\<close>

definition qvalue :: "('k \<rightharpoonup> 'v list) \<Rightarrow> 'k \<Rightarrow> 'v list" where
  "qvalue m k = (case m k of None \<Rightarrow> [] | Some v \<Rightarrow> v)"

definition qappend :: "'k \<Rightarrow> 'v \<Rightarrow> ('k \<rightharpoonup> 'v list) \<Rightarrow> ('k \<rightharpoonup> 'v list)" where
  "qappend k x m = m(k \<mapsto> qvalue m k @ [x])"

lemma qvalue_qappend [simp]: "qvalue (qappend k x m) k' = (if k' = k then qvalue m k @ [x] else qvalue m k')"
  by (simp add: qvalue_def qappend_def)

text \<open>\<open>QString::split(sep, Qt::SkipEmptyParts)\<close> and \<open>QStringList::join\<close>.\<close>

function split_all :: "char \<Rightarrow> string \<Rightarrow> string list" where
  "split_all c s = (case split_at c s of None \<Rightarrow> [s] | Some (a, b) \<Rightarrow> a # split_all c b)"
  by pat_completeness auto
termination
  by (relation "measure (\<lambda>(c, s). length s)") (auto dest!: split_at_SomeD)

declare split_all.simps [simp del]

definition qsplit :: "char \<Rightarrow> string \<Rightarrow> string list" where
  "qsplit c s = filter (\<lambda>x. x \<noteq> []) (split_all c s)"

definition qjoin :: "string \<Rightarrow> string list \<Rightarrow> string" where
  "qjoin sep xs = concat (case xs of [] \<Rightarrow> [] | y # ys \<Rightarrow> y # map (\<lambda>x. sep @ x) ys)"

lemma split_all_last: "c \<notin> set s \<Longrightarrow> split_all c s = [s]"
  by (subst split_all.simps) simp

lemma split_all_field: "c \<notin> set a \<Longrightarrow> split_all c (a @ c # b) = a # split_all c b"
  by (subst split_all.simps) simp

lemma split_all_join:
  assumes "list_all (\<lambda>x. c \<notin> set x) xs" "xs \<noteq> []"
  shows "split_all c (qjoin [c] xs) = xs"
  using assms
proof (induction xs rule: induct_list012)
  case (3 x y zs)
  have "qjoin [c] (x # y # zs) = x @ c # qjoin [c] (y # zs)" by (simp add: qjoin_def)
  then show ?case using 3 by (simp add: split_all_field)
qed (simp_all add: qjoin_def split_all_last)

text \<open>A list that was joined with a separator none of its parts contains is recovered.\<close>

lemma qsplit_qjoin:
  assumes "list_all (\<lambda>x. c \<notin> set x \<and> x \<noteq> []) xs"
  shows "qsplit c (qjoin [c] xs) = xs"
proof (cases "xs = []")
  case True
  then show ?thesis by (simp add: qsplit_def qjoin_def split_all_last)
next
  case False
  have "list_all (\<lambda>x. c \<notin> set x) xs" using assms by (simp add: list_all_iff)
  with False have "split_all c (qjoin [c] xs) = xs" by (intro split_all_join)
  then show ?thesis using assms by (simp add: qsplit_def list_all_iff filter_id_conv)
qed

text \<open>\<open>QMap::insert\<close> on the pairs in order of their keys.\<close>

fun qinsert :: "string \<Rightarrow> 'v \<Rightarrow> (string \<times> 'v) list \<Rightarrow> (string \<times> 'v) list" where
  "qinsert k v [] = [(k, v)]"
| "qinsert k v ((k', v') # m) =
     (if k < k' then (k, v) # (k', v') # m else if k = k' then (k, v) # m else (k', v') # qinsert k v m)"

lemma map_of_qinsert:
  "sorted_wrt (<) (map fst m) \<Longrightarrow> map_of (qinsert k v m) = (map_of m)(k \<mapsto> v)"
  by (induction m rule: qinsert.induct) auto

lemma fst_qinsert: "fst ` set (qinsert k v m) = insert k (fst ` set m)"
  by (induction k v m rule: qinsert.induct) auto

lemma sorted_qinsert: "sorted_wrt (<) (map fst m) \<Longrightarrow> sorted_wrt (<) (map fst (qinsert k v m))"
proof (induction k v m rule: qinsert.induct)
  case (2 k v k' v' m)
  have "fst ` set (qinsert k v m) = insert k (fst ` set m)" by (rule fst_qinsert)
  then show ?case using 2 by (auto simp: image_iff; metis fst_conv)
qed simp

end
