(* ===== verification/Crypto.thy ===== *)
theory Crypto
  imports Client
begin

text \<open>
  \<^verbatim>\<open>frontend/src\<close>: \<open>OpensslAdapter\<close>, \<open>AesGcmStrategy\<close>, \<open>RsaOaepStrategy\<close>,
  \<open>CryptoEngine\<close>, \<open>TimestampUtil\<close> and \<open>PacketBuilder\<close>.  Every OpenSSL call the
  code tests for success is a possible failure of its own; what the primitives compute is a field
  of \<open>library\<close>.  An \<open>EVP_PKEY\<close> is the number of its key pair.
\<close>

section \<open>OpenSSL calls\<close>

text \<open>\<open>if (EVP_...(...) != 1) throw CryptoException(msg);\<close>\<close>

definition evp :: "string \<Rightarrow> unit C" where
  "evp msg = bnd next_call (\<lambda>n. bnd (gets (\<lambda>s. evp_fails (lib s) n)) (\<lambda>b. throw_if b (CryptoException msg)))"

definition rand_bytes_or :: "nat \<Rightarrow> string \<Rightarrow> string C" where
  "rand_bytes_or n msg =
     bnd next_call (\<lambda>k. bnd (gets (\<lambda>s. RAND_bytes (lib s) k n)) (\<lambda>r. case r of
        None \<Rightarrow> thr (CryptoException msg)
      | Some bs \<Rightarrow> retn bs))"

definition or_crypto :: "string \<Rightarrow> 'a option \<Rightarrow> 'a C" where
  "or_crypto msg r = (case r of None \<Rightarrow> thr (CryptoException msg) | Some x \<Rightarrow> retn x)"

section \<open>\<open>OpensslAdapter\<close>\<close>

definition publicKeyToPem :: "int \<Rightarrow> string C" where
  "publicKeyToPem k =
     bnd (evp ''OpensslAdapter: BIO_new failed'') (\<lambda>_.
     bnd (evp ''OpensslAdapter: PEM_write_bio_PUBKEY failed'') (\<lambda>_.
     gets (\<lambda>s. write_pub_pem (lib s) k)))"

definition privateKeyToPem :: "int \<Rightarrow> string C" where
  "privateKeyToPem k =
     bnd (evp ''OpensslAdapter: BIO_new failed'') (\<lambda>_.
     bnd (evp ''OpensslAdapter: PEM_write_bio_PrivateKey failed'') (\<lambda>_.
     gets (\<lambda>s. write_priv_pem (lib s) k)))"

definition pemToPublicKey :: "string \<Rightarrow> int C" where
  "pemToPublicKey pem =
     bnd (evp ''OpensslAdapter: BIO_new_mem_buf failed'') (\<lambda>_.
     bnd (gets (\<lambda>s. read_pub_pem (lib s) pem)) (or_crypto ''OpensslAdapter: PEM_read_bio_PUBKEY failed''))"

definition pemToPrivateKey :: "string \<Rightarrow> int C" where
  "pemToPrivateKey pem =
     bnd (evp ''OpensslAdapter: BIO_new_mem_buf failed'') (\<lambda>_.
     bnd (gets (\<lambda>s. read_priv_pem (lib s) pem)) (or_crypto ''OpensslAdapter: PEM_read_bio_PrivateKey failed''))"

section \<open>\<open>AesGcmStrategy\<close>\<close>

definition KEY_SIZE :: nat where "KEY_SIZE = 32"
definition IV_SIZE :: nat where "IV_SIZE = 12"
definition TAG_SIZE :: nat where "TAG_SIZE = 16"

definition aes_encrypt :: "string \<Rightarrow> string \<Rightarrow> string C" where
  "aes_encrypt data key =
     bnd (throw_if (length key \<noteq> KEY_SIZE) (CryptoException ''AES-256-GCM encrypt: key must be 32 bytes'')) (\<lambda>_.
     bnd (rand_bytes_or IV_SIZE ''AES-256-GCM encrypt: RAND_bytes failed'') (\<lambda>iv.
     bnd (evp ''AES-256-GCM encrypt: EVP_CIPHER_CTX_new failed'') (\<lambda>_.
     bnd (evp ''AES-256-GCM encrypt: EVP_EncryptInit_ex failed'') (\<lambda>_.
     bnd (evp ''AES-256-GCM encrypt: EVP_EncryptUpdate failed'') (\<lambda>_.
     bnd (evp ''AES-256-GCM encrypt: EVP_EncryptFinal_ex failed'') (\<lambda>_.
     bnd (gets (\<lambda>s. gcm_seal (lib s) key iv data)) (\<lambda>(ciphertext, tag).
     bnd (evp ''AES-256-GCM encrypt: EVP_CTRL_GCM_GET_TAG failed'') (\<lambda>_.
     retn (iv @ ciphertext @ tag)))))))))"

text \<open>The message of the tag check has a long dash, here as its three bytes.\<close>

definition tag_mismatch :: string where
  "tag_mismatch =
     ''AES-256-GCM decrypt: authentication tag mismatch '' @ [CHR 0xE2, CHR 0x80, CHR 0x94] @ '' data tampered''"

definition aes_decrypt :: "string \<Rightarrow> string \<Rightarrow> string C" where
  "aes_decrypt data key =
     bnd (throw_if (length key \<noteq> KEY_SIZE) (CryptoException ''AES-256-GCM decrypt: key must be 32 bytes'')) (\<lambda>_.
     bnd (throw_if (length data < IV_SIZE + TAG_SIZE) (CryptoException ''AES-256-GCM decrypt: ciphertext too short'')) (\<lambda>_.
     let iv = take IV_SIZE data;
         tag = drop (length data - TAG_SIZE) data;
         ciphertext = take (length data - IV_SIZE - TAG_SIZE) (drop IV_SIZE data) in
     bnd (evp ''AES-256-GCM decrypt: EVP_CIPHER_CTX_new failed'') (\<lambda>_.
     bnd (evp ''AES-256-GCM decrypt: EVP_DecryptInit_ex failed'') (\<lambda>_.
     bnd (evp ''AES-256-GCM decrypt: EVP_CTRL_GCM_SET_TAG failed'') (\<lambda>_.
     bnd (evp ''AES-256-GCM decrypt: EVP_DecryptUpdate failed'') (\<lambda>_.
     bnd (gets (\<lambda>s. gcm_open (lib s) key iv ciphertext tag)) (or_crypto tag_mismatch)))))))"

definition aes_generateKey :: "string C" where
  "aes_generateKey = rand_bytes_or KEY_SIZE ''AES-256-GCM generateKey: RAND_bytes failed''"

section \<open>\<open>RsaOaepStrategy\<close>\<close>

definition rsa_generateKeypair :: "(string \<times> string) C" where
  "rsa_generateKeypair =
     bnd (evp ''RSA generateKeypair: EVP_PKEY_CTX_new_id failed'') (\<lambda>_.
     bnd (evp ''RSA generateKeypair: EVP_PKEY_keygen_init failed'') (\<lambda>_.
     bnd (evp ''RSA generateKeypair: EVP_PKEY_CTX_set_rsa_keygen_bits failed'') (\<lambda>_.
     bnd (evp ''RSA generateKeypair: EVP_PKEY_keygen failed'') (\<lambda>_.
     bnd next_call (\<lambda>n.
     bnd (gets (\<lambda>s. rsa_keygen (lib s) n)) (\<lambda>k.
     bnd (publicKeyToPem k) (\<lambda>pub.
     bnd (privateKeyToPem k) (\<lambda>priv. retn (pub, priv)))))))))"

definition encryptWithPublic :: "string \<Rightarrow> string \<Rightarrow> string C" where
  "encryptWithPublic data publicKey =
     bnd (pemToPublicKey publicKey) (\<lambda>k.
     bnd (evp ''RSA encryptWithPublic: EVP_PKEY_CTX_new failed'') (\<lambda>_.
     bnd (evp ''RSA encryptWithPublic: EVP_PKEY_encrypt_init failed'') (\<lambda>_.
     bnd (evp ''RSA encryptWithPublic: set OAEP padding failed'') (\<lambda>_.
     bnd (evp ''RSA encryptWithPublic: EVP_PKEY_encrypt (size query) failed'') (\<lambda>_.
     bnd next_call (\<lambda>n.
     bnd (gets (\<lambda>s. oaep_encrypt (lib s) n k data))
       (or_crypto ''RSA encryptWithPublic: EVP_PKEY_encrypt failed'')))))))"

definition decryptWithPrivate :: "string \<Rightarrow> string \<Rightarrow> string C" where
  "decryptWithPrivate data privateKey =
     bnd (pemToPrivateKey privateKey) (\<lambda>k.
     bnd (evp ''RSA decryptWithPrivate: EVP_PKEY_CTX_new failed'') (\<lambda>_.
     bnd (evp ''RSA decryptWithPrivate: EVP_PKEY_decrypt_init failed'') (\<lambda>_.
     bnd (evp ''RSA decryptWithPrivate: set OAEP padding failed'') (\<lambda>_.
     bnd (evp ''RSA decryptWithPrivate: EVP_PKEY_decrypt (size query) failed'') (\<lambda>_.
     bnd (gets (\<lambda>s. oaep_decrypt (lib s) k data))
       (or_crypto ''RSA decryptWithPrivate: EVP_PKEY_decrypt failed''))))))"

section \<open>\<open>CryptoEngine\<close>\<close>

definition Crypto_encrypt :: "string \<Rightarrow> string \<Rightarrow> string C" where
  "Crypto_encrypt plaintext aesKey =
     bnd (aes_encrypt plaintext aesKey) (\<lambda>r. gets (\<lambda>s. toBase64 (lib s) r))"

definition Crypto_decrypt :: "string \<Rightarrow> string \<Rightarrow> string C" where
  "Crypto_decrypt ciphertext aesKey =
     bnd (gets (\<lambda>s. fromBase64 (lib s) ciphertext)) (\<lambda>raw.
     bnd (aes_decrypt raw aesKey) (\<lambda>r. gets (\<lambda>s. fromUtf8 (lib s) r)))"

definition generateAESKey :: "string C" where "generateAESKey = aes_generateKey"

definition generateRSAKeypair :: "(string \<times> string) C" where "generateRSAKeypair = rsa_generateKeypair"

definition encryptRSA :: "string \<Rightarrow> string \<Rightarrow> string C" where
  "encryptRSA data publicKey = encryptWithPublic data publicKey"

definition decryptRSA :: "string \<Rightarrow> string \<Rightarrow> string C" where
  "decryptRSA data privateKey = decryptWithPrivate data privateKey"

section \<open>\<open>TimestampUtil\<close> and the clock\<close>

definition canonical :: "library \<Rightarrow> string \<Rightarrow> string" where
  "canonical l raw =
     (let s = trimmed l raw;
          s' = (if 10 < length s \<and> s ! 10 = CHR '' '' then s[10 := CHR ''T''] else s)
      in case parse_iso_ms l s' of
           None \<Rightarrow> raw
         | Some dt \<Rightarrow> print_iso_ms l (if qd_local dt then qd_wall dt else qd_wall dt - qd_offset dt))"

definition canonicalC :: "string \<Rightarrow> string C" where
  "canonicalC raw = gets (\<lambda>s. canonical (lib s) raw)"

text \<open>\<open>QDateTime::currentDateTimeUtc().toString(Qt::ISODateWithMs)\<close>\<close>

definition utcNow :: "string C" where
  "utcNow = bnd next_call (\<lambda>n. gets (\<lambda>s. print_iso_ms (lib s) (utc_now (lib s) n)))"

section \<open>\<open>PacketBuilder\<close>\<close>

record PacketBuilder =
  pb_type :: "PacketType option"
  pb_from :: string
  pb_to :: string
  pb_body :: string
  pb_key :: string

definition new_PacketBuilder :: PacketBuilder where
  "new_PacketBuilder = \<lparr>pb_type = None, pb_from = [], pb_to = [], pb_body = [], pb_key = []\<rparr>"

definition setType :: "PacketType \<Rightarrow> PacketBuilder \<Rightarrow> PacketBuilder" where
  "setType t b = b\<lparr>pb_type := Some t\<rparr>"

definition setFrom :: "string \<Rightarrow> PacketBuilder \<Rightarrow> PacketBuilder" where
  "setFrom x b = b\<lparr>pb_from := x\<rparr>"

definition setTo :: "string \<Rightarrow> PacketBuilder \<Rightarrow> PacketBuilder" where
  "setTo x b = b\<lparr>pb_to := x\<rparr>"

definition setBody :: "string \<Rightarrow> PacketBuilder \<Rightarrow> PacketBuilder" where
  "setBody x b = b\<lparr>pb_body := x\<rparr>"

definition setKey :: "string \<Rightarrow> PacketBuilder \<Rightarrow> PacketBuilder" where
  "setKey x b = b\<lparr>pb_key := x\<rparr>"

text \<open>\<open>None\<close> is the \<open>std::logic_error\<close> for a missing type.\<close>

definition build :: "PacketBuilder \<Rightarrow> Packet option C" where
  "build b =
     (case pb_type b of
        None \<Rightarrow> retn None
      | Some t \<Rightarrow>
          bnd next_call (\<lambda>n. gets (\<lambda>s. Some
            \<lparr>ptype = t, pversion = PROTOCOL_VERSION, pfrom = pb_from b, pto = pb_to b,
             pbody = pb_body b, pkey = pb_key b, ptimestamp = local_iso_now (lib s) n, perrorMsg = []\<rparr>)))"

section \<open>What the libraries promise\<close>

text \<open>
  The documented behaviour the client relies on: GCM opens what it sealed and keeps lengths,
  OAEP decrypts what was encrypted for the same key pair, PEM and Base64 are read back, Base64
  uses its own alphabet only and encodes nothing as nothing, and \<open>RAND_bytes\<close> fills the buffer.
\<close>

definition base64_char :: "char \<Rightarrow> bool" where
  "base64_char c \<longleftrightarrow>
     isdigit c \<or> (65 \<le> (of_char c :: nat) \<and> of_char c \<le> (90 :: nat)) \<or> (97 \<le> (of_char c :: nat) \<and> of_char c \<le> (122 :: nat))
     \<or> c = CHR ''+'' \<or> c = CHR ''/'' \<or> c = CHR ''=''"

definition library_laws :: "library \<Rightarrow> bool" where
  "library_laws l \<longleftrightarrow>
     (\<forall>k iv d. length (fst (gcm_seal l k iv d)) = length d \<and> length (snd (gcm_seal l k iv d)) = TAG_SIZE
        \<and> gcm_open l k iv (fst (gcm_seal l k iv d)) (snd (gcm_seal l k iv d)) = Some d)
     \<and> (\<forall>k n d c. oaep_encrypt l n k d = Some c \<longrightarrow> oaep_decrypt l k c = Some d)
     \<and> (\<forall>k. read_pub_pem l (write_pub_pem l k) = Some k \<and> read_priv_pem l (write_priv_pem l k) = Some k)
     \<and> (\<forall>x. fromBase64 l (toBase64 l x) = x \<and> list_all base64_char (toBase64 l x))
     \<and> (\<forall>x. list_all base64_char x \<longrightarrow> toLatin1 l x = x)
     \<and> (\<forall>i n bs. RAND_bytes l i n = Some bs \<longrightarrow> length bs = n)
     \<and> toBase64 l [] = []"

lemma library_lawsD:
  assumes "library_laws l"
  shows "length (fst (gcm_seal l k iv d)) = length d" "length (snd (gcm_seal l k iv d)) = TAG_SIZE"
    "gcm_open l k iv (fst (gcm_seal l k iv d)) (snd (gcm_seal l k iv d)) = Some d"
    "oaep_encrypt l n q d = Some c \<Longrightarrow> oaep_decrypt l q c = Some d"
    "read_pub_pem l (write_pub_pem l q) = Some q" "read_priv_pem l (write_priv_pem l q) = Some q"
    "fromBase64 l (toBase64 l x) = x" "toLatin1 l (toBase64 l x) = toBase64 l x"
    "list_all base64_char (toBase64 l x)"
    "RAND_bytes l i m = Some bs \<Longrightarrow> length bs = m" "toBase64 l [] = []"
  using assms by (auto simp: library_laws_def)

lemma base64_no_sep:
  assumes "list_all base64_char x"
  shows "CHR ''|'' \<notin> set x" "CHR '';'' \<notin> set x" "CHR '':'' \<notin> set x" "CHR 0x0A \<notin> set x"
  using assms by (auto simp: list_all_iff base64_char_def isdigit_def)

text \<open>No OpenSSL call fails.\<close>

definition crypto_up :: "library \<Rightarrow> bool" where
  "crypto_up l \<longleftrightarrow>
     (\<forall>n. \<not> evp_fails l n) \<and> (\<forall>i n. RAND_bytes l i n \<noteq> None)
     \<and> (\<forall>n k d. length d \<le> KEY_SIZE \<longrightarrow> oaep_encrypt l n k d \<noteq> None)"

text \<open>
  A run of the engine advances the call counter and changes nothing else.
\<close>

definition called :: "client \<Rightarrow> client \<Rightarrow> bool" where
  "called s t \<longleftrightarrow> (\<exists>n \<ge> calls s. t = s\<lparr>calls := n\<rparr>)"

lemma called_simps:
  assumes "called s t"
  shows "lib t = lib s" "settings t = settings s" "files t = files s" "db_open t = db_open s"
    "sock t = sock s" "nm t = nm s" "chat t = chat s" "conv t = conv s" "signals t = signals s"
    "calls s \<le> calls t"
  using assms by (auto simp: called_def)

interpretation cl: step_preorder called
proof
  show "called s s" for s by (auto simp: called_def intro: exI [of _ "calls s"])
  show "called s u" if "called s t" "called t u" for s t u
    using that unfolding called_def by (metis client.select_convs(2) client.surjective client.update_convs(2) le_trans)
qed

lemma called_step [intro!, simp]: "called s (s\<lparr>calls := Suc (calls s)\<rparr>)"
  unfolding called_def by (rule exI [of _ "Suc (calls s)"]) simp

lemma next_call_cl: "keeps called next_call"
  by (simp add: keeps_def next_call_def)

lemma evp_cl: "keeps called (evp m)"
  unfolding evp_def by (intro cl.rules next_call_cl)

lemma or_crypto_cl: "keeps called (or_crypto m r)"
  unfolding or_crypto_def by (intro cl.rules)

lemma rand_bytes_or_cl: "keeps called (rand_bytes_or n m)"
  unfolding rand_bytes_or_def by (intro cl.rules next_call_cl)

lemmas openssl_cl = next_call_cl evp_cl or_crypto_cl rand_bytes_or_cl

lemma utcNow_cl: "keeps called utcNow"
  unfolding utcNow_def by (intro cl.rules openssl_cl)

lemma canonicalC_cl: "keeps called (canonicalC x)"
  unfolding canonicalC_def by (intro cl.rules)

lemma engine_cl:
  "keeps called (Crypto_encrypt p k)" "keeps called (Crypto_decrypt p k)" "keeps called generateAESKey"
  "keeps called generateRSAKeypair" "keeps called (encryptRSA d pk)" "keeps called (decryptRSA d sk)"
  unfolding Crypto_encrypt_def Crypto_decrypt_def aes_encrypt_def aes_decrypt_def Let_def
    generateAESKey_def aes_generateKey_def generateRSAKeypair_def rsa_generateKeypair_def
    publicKeyToPem_def privateKeyToPem_def encryptRSA_def encryptWithPublic_def pemToPublicKey_def
    decryptRSA_def decryptWithPrivate_def pemToPrivateKey_def case_prod_unfold
  by (intro cl.rules openssl_cl)+

section \<open>Runs without failures\<close>

lemma evp_up [simp]: "crypto_up (lib s) \<Longrightarrow> wp (evp m) Q E s = Q () (s\<lparr>calls := Suc (calls s)\<rparr>)"
  by (simp add: evp_def wp crypto_up_def)

lemma wp_rand_bytes_or:
  "wp (rand_bytes_or n m) Q E s =
     (case RAND_bytes (lib s) (calls s) n of
        None \<Rightarrow> E (CryptoException m) (s\<lparr>calls := Suc (calls s)\<rparr>)
      | Some bs \<Rightarrow> Q bs (s\<lparr>calls := Suc (calls s)\<rparr>))"
  by (simp add: rand_bytes_or_def wp split: option.splits)

lemma wp_or_crypto: "wp (or_crypto m r) Q E s = (case r of None \<Rightarrow> E (CryptoException m) s | Some x \<Rightarrow> Q x s)"
  by (simp add: or_crypto_def wp split: option.splits)

lemma crypto_up_rand: "crypto_up l \<Longrightarrow> \<exists>bs. RAND_bytes l i n = Some bs"
  by (simp add: crypto_up_def)

text \<open>\<open>c\<close> is the encoded ciphertext of \<open>p\<close> under \<open>key\<close> in the wire format.\<close>

definition seals :: "library \<Rightarrow> string \<Rightarrow> string \<Rightarrow> string \<Rightarrow> bool" where
  "seals l key c p \<longleftrightarrow>
     (\<exists>iv. length iv = IV_SIZE \<and> c = toBase64 l (iv @ fst (gcm_seal l key iv p) @ snd (gcm_seal l key iv p)))"

lemma sealed_nonempty:
  assumes "library_laws l" "seals l k c m"
  shows "c \<noteq> []"
proof
  assume "c = []"
  with assms(2) obtain iv where iv: "length iv = IV_SIZE"
    and "toBase64 l (iv @ fst (gcm_seal l k iv m) @ snd (gcm_seal l k iv m)) = toBase64 l []"
    by (auto simp: seals_def library_lawsD(11) [OF assms(1)])
  then have "iv @ fst (gcm_seal l k iv m) @ snd (gcm_seal l k iv m) = []"
    using library_lawsD(7) [OF assms(1)] by metis
  with iv show False by (simp add: IV_SIZE_def)
qed

lemma wp_calledI:
  assumes "keeps called m" "wp m Q E s"
  shows "wp m (\<lambda>x t. called s t \<and> Q x t) (\<lambda>e t. called s t \<and> E e t) s"
  by (rule wp_conj [OF keeps_wpD [OF assms(1)] assms(2)])

lemma Crypto_encrypt_wp:
  assumes "library_laws (lib s)" "crypto_up (lib s)" "length key = KEY_SIZE"
  shows "wp (Crypto_encrypt p key) (\<lambda>c t. called s t \<and> seals (lib s) key c p) (\<lambda>_ _. False) s"
proof -
  obtain iv where iv: "RAND_bytes (lib s) (calls s) IV_SIZE = Some iv"
    using crypto_up_rand [OF assms(2)] by blast
  then have l: "length iv = IV_SIZE" using library_lawsD(10) [OF assms(1)] by simp
  have "wp (Crypto_encrypt p key) (\<lambda>c _. seals (lib s) key c p) (\<lambda>_ _. False) s"
    using assms(2,3) iv l
    by (auto simp: Crypto_encrypt_def aes_encrypt_def wp wp_rand_bytes_or seals_def split: prod.splits)
  from wp_calledI [OF engine_cl(1) this] show ?thesis by (rule wp_mono) auto
qed

lemma Crypto_decrypt_wp:
  assumes "library_laws (lib s)" "crypto_up (lib s)" "length key = KEY_SIZE" "seals (lib s) key c p"
  shows "wp (Crypto_decrypt c key) (\<lambda>r t. called s t \<and> r = fromUtf8 (lib s) p) (\<lambda>_ _. False) s"
proof -
  note l = library_lawsD [OF assms(1)]
  have "wp (Crypto_decrypt c key) (\<lambda>r _. r = fromUtf8 (lib s) p) (\<lambda>_ _. False) s"
    using assms(2-4) l(1-3)
    by (auto simp: Crypto_decrypt_def aes_decrypt_def wp wp_or_crypto seals_def l(7) Let_def)
  from wp_calledI [OF engine_cl(2) this] show ?thesis by (rule wp_mono) auto
qed

lemma encryptRSA_wp:
  assumes "library_laws (lib s)" "crypto_up (lib s)" "read_pub_pem (lib s) pk = Some q" "length d \<le> KEY_SIZE"
  shows "wp (encryptRSA d pk) (\<lambda>c t. called s t \<and> oaep_decrypt (lib s) q c = Some d) (\<lambda>_ _. False) s"
proof -
  have "wp (encryptRSA d pk) (\<lambda>c _. oaep_decrypt (lib s) q c = Some d) (\<lambda>_ _. False) s"
    using assms library_lawsD(4) [OF assms(1)]
    by (auto simp: encryptRSA_def encryptWithPublic_def pemToPublicKey_def wp wp_or_crypto crypto_up_def
        evp_up split: option.splits)
  from wp_calledI [OF engine_cl(5) this] show ?thesis by (rule wp_mono) auto
qed

lemma decryptRSA_wp:
  assumes "crypto_up (lib s)" "read_priv_pem (lib s) sk = Some q" "oaep_decrypt (lib s) q c = Some d"
  shows "wp (decryptRSA c sk) (\<lambda>r t. called s t \<and> r = d) (\<lambda>_ _. False) s"
proof -
  have "wp (decryptRSA c sk) (\<lambda>r _. r = d) (\<lambda>_ _. False) s"
    using assms by (auto simp: decryptRSA_def decryptWithPrivate_def pemToPrivateKey_def wp wp_or_crypto)
  from wp_calledI [OF engine_cl(6) this] show ?thesis by (rule wp_mono) auto
qed

lemma generateAESKey_wp:
  assumes "library_laws (lib s)" "crypto_up (lib s)"
  shows "wp generateAESKey (\<lambda>k t. called s t \<and> length k = KEY_SIZE) (\<lambda>_ _. False) s"
proof -
  obtain k where k: "RAND_bytes (lib s) (calls s) KEY_SIZE = Some k"
    using crypto_up_rand [OF assms(2)] by blast
  then have "wp generateAESKey (\<lambda>k _. length k = KEY_SIZE) (\<lambda>_ _. False) s"
    using library_lawsD(10) [OF assms(1)]
    by (auto simp: generateAESKey_def aes_generateKey_def wp_rand_bytes_or)
  from wp_calledI [OF engine_cl(3) this] show ?thesis by (rule wp_mono) auto
qed

section \<open>Example\<close>

text \<open>A library that satisfies the laws: identity ciphers, with hexadecimal digits for Base64.\<close>

definition example_library :: library where
  "example_library =
     \<lparr>RAND_bytes = (\<lambda>i n. Some (replicate n (char_of i))), evp_fails = (\<lambda>_. False),
      gcm_seal = (\<lambda>k iv d. (d, replicate TAG_SIZE (CHR ''t''))), gcm_open = (\<lambda>k iv c t. Some c),
      rsa_keygen = int, write_pub_pem = int_str, write_priv_pem = int_str,
      read_pub_pem = (\<lambda>s. fst (scan_num s)), read_priv_pem = (\<lambda>s. fst (scan_num s)),
      oaep_encrypt = (\<lambda>n k d. Some d), oaep_decrypt = (\<lambda>k c. Some c),
      toBase64 = toHex, fromBase64 = (\<lambda>x. case fromHex x of Inr y \<Rightarrow> y | Inl _ \<Rightarrow> []),
      toLatin1 = (\<lambda>x. x), fromUtf8 = (\<lambda>x. x), trimmed = (\<lambda>x. x),
      parse_iso_ms = (\<lambda>s. None), parse_iso = (\<lambda>s. None), print_iso_ms = int_str, utc_now = int,
      local_iso_now = (\<lambda>n. int_str (int n)), sqlite_fails = (\<lambda>_. False), app_data = ''data''\<rparr>"

lemma base64_hex: "list_all base64_char (toHex x)"
proof -
  have "base64_char (hex_char d)" if "d < 16" for d
    using that of_char_hex_char [of d] by (auto simp: base64_char_def isdigit_def split: if_splits)
  then show ?thesis using toHex_set [of _ x] by (auto simp: list_all_iff)
qed

lemma example_library_laws: "library_laws example_library"
  using scan_num_int_str [where rest = "[]"]
  by (simp add: library_laws_def example_library_def fromHex_toHex base64_hex toHex_def [of "[]"])

lemma example_library_up: "crypto_up example_library"
  by (simp add: crypto_up_def example_library_def)

definition example_client :: client where
  "example_client =
     \<lparr>lib = example_library, calls = 0, settings = Map.empty, files = Map.empty, db_open = None,
      sock = \<lparr>so_connected = True, so_sent = [], so_opened = [], so_verifies_peer = False,
              so_pinging = True, so_reconnects = 0\<rparr>,
      nm = \<lparr>serverUrl = ''wss://h'', lastMessage = [], currentUsername = [], hasError = False,
            ownPrivKey = [], ownPubKey = [], peerKeys = Map.empty, pendingMessages = Map.empty,
            pendingRegister = False, intentionallyConnecting = False, unreadTimestamps = Map.empty,
            pendingGroupMemberAdds = Map.empty, pendingGroupKeyRequests = [],
            pendingGroupPackets = Map.empty, pendingGroupSends = Map.empty,
            pendingGroupCreations = [], groupKeys = Map.empty, groupNames = Map.empty\<rparr>,
      chat = \<lparr>chat_entries = [], chat_cache = Map.empty, activePeer = []\<rparr>, conv = [], signals = []\<rparr>"

section \<open>Properties\<close>

text \<open>
  C33. What the engine encrypts it decrypts: under a 32-byte key, with OpenSSL available, decrypting
  the result of an encryption returns the plaintext, for every plaintext and every nonce drawn.
\<close>

theorem encrypt_decrypt:
  assumes "library_laws (lib s)" "crypto_up (lib s)" "length key = KEY_SIZE" "fromUtf8 (lib s) p = p"
  shows "wp (bnd (Crypto_encrypt p key) (\<lambda>c. Crypto_decrypt c key)) (\<lambda>r t. r = p) (\<lambda>_ _. False) s"
  unfolding wp_bnd
proof (rule wp_mono [OF Crypto_encrypt_wp [OF assms(1-3)]])
  fix c t
  assume t: "called s t \<and> seals (lib s) key c p"
  then have "lib t = lib s" by (simp add: called_simps)
  with t assms show "wp (Crypto_decrypt c key) (\<lambda>r t. r = p) (\<lambda>_ _. False) t"
    by (intro wp_mono [OF Crypto_decrypt_wp]) auto
qed simp

text \<open>Witness of C33: a two-letter plaintext under a constant key.\<close>

lemma encrypt_decrypt_witness:
  "wp (bnd (Crypto_encrypt ''hi'' (replicate 32 CHR ''k'')) (\<lambda>c. Crypto_decrypt c (replicate 32 CHR ''k'')))
     (\<lambda>r t. r = ''hi'') (\<lambda>_ _. False) example_client"
  by (rule encrypt_decrypt)
    (simp_all add: example_client_def example_library_laws example_library_up KEY_SIZE_def,
     simp add: example_library_def)

text \<open>
  Only authenticated data is accepted: when \<open>AesGcmStrategy::decrypt\<close> returns, the key had
  32 bytes, the input held at least a nonce and a tag, and GCM verified exactly the nonce,
  ciphertext and tag that the input consists of; otherwise a \<open>CryptoException\<close> is thrown.
\<close>

lemma aes_decrypt_authentic:
  "wp (aes_decrypt data key)
     (\<lambda>r t. \<exists>iv c tag. data = iv @ c @ tag \<and> length iv = 12 \<and> length tag = 16 \<and> length key = 32
        \<and> gcm_open (lib s) key iv c tag = Some r)
     (\<lambda>e t. \<exists>m. e = CryptoException m) s"
proof -
  have split: "data = take 12 data @ take (length data - 28) (drop 12 data) @ drop (length data - 16) data
      \<and> length (take 12 data) = 12 \<and> length (drop (length data - 16) data) = 16"
    if "\<not> length data < 28"
  proof -
    have "drop (length data - 28) (drop 12 data) = drop (length data - 16) data"
      using that by simp
    then have "drop 12 data = take (length data - 28) (drop 12 data) @ drop (length data - 16) data"
      by (metis append_take_drop_id)
    then have "data = take 12 data @ take (length data - 28) (drop 12 data) @ drop (length data - 16) data"
      by (metis append_take_drop_id)
    then show ?thesis using that by simp
  qed
  have found: "\<exists>iv c tag. data = iv @ c @ tag \<and> length iv = 12 \<and> length tag = 16 \<and> gcm_open (lib s) key iv c tag = Some r"
    if "\<not> length data < 28" "gcm_open (lib s) key (take 12 data) (take (length data - 28) (drop 12 data))
        (drop (length data - 16) data) = Some r" for r
    using split [OF that(1)] that(2) by metis
  show ?thesis
    by (auto intro: found simp: aes_decrypt_def wp wp_or_crypto evp_def Let_def KEY_SIZE_def IV_SIZE_def TAG_SIZE_def
        split: option.splits)
qed

end
