(* ===== verification/LocalStorage.thy ===== *)
theory LocalStorage
  imports Crypto "HOL-Library.Option_ord"
begin

text \<open>
  \<^verbatim>\<open>frontend/src/LocalStorage.cpp\<close>: the per-account SQLite cache.  A statement fails
  when no database is open, when a table, column or index it names was never created, when a
  constraint forbids it, or when SQLite reports an error of its own
  (\<open>sqlite_fails\<close>); the methods log such failures and go on.  Rows are kept in order of
  insertion; \<open>ORDER BY\<close> is the stable sort on the bytes of the text.
\<close>

section \<open>Statements\<close>

text \<open>\<open>QSqlQuery::exec\<close>: \<open>None\<close> when it returns false.\<close>

definition ls_exec :: "schema_item list \<Rightarrow> (account \<Rightarrow> ('a \<times> account) option) \<Rightarrow> 'a option C" where
  "ls_exec need f =
     bnd next_call (\<lambda>n s.
       case Option.bind (db_open s) (\<lambda>p. Option.bind (files s p) (\<lambda>a.
              if sqlite_fails (lib s) n \<or> \<not> set need \<subseteq> set (ac_schema a) then None
              else map_option (\<lambda>(x, a'). (p, x, a')) (f a))) of
         None \<Rightarrow> (Inr None, s)
       | Some (p, x, a') \<Rightarrow> (Inr (Some x), s\<lparr>files := (files s)(p \<mapsto> a')\<rparr>))"

text \<open>A write whose failure is only logged, and a query with the result it has on failure.\<close>

definition ls_write :: "schema_item list \<Rightarrow> (account \<Rightarrow> account) \<Rightarrow> unit C" where
  "ls_write need g = bnd (ls_exec need (\<lambda>a. Some ((), g a))) (\<lambda>_. retn ())"

definition ls_read :: "schema_item list \<Rightarrow> 'a \<Rightarrow> (account \<Rightarrow> 'a) \<Rightarrow> 'a C" where
  "ls_read need d g = bnd (ls_exec need (\<lambda>a. Some (g a, a))) (\<lambda>r. retn (case r of None \<Rightarrow> d | Some x \<Rightarrow> x))"

text \<open>\<open>INSERT OR IGNORE\<close> and \<open>INSERT ... ON CONFLICT DO UPDATE\<close> on a key.\<close>

definition insert_or_ignore :: "('r \<Rightarrow> 'k) \<Rightarrow> 'r \<Rightarrow> 'r list \<Rightarrow> 'r list" where
  "insert_or_ignore key r rs = (if key r \<in> set (map key rs) then rs else rs @ [r])"

definition upsert :: "('r \<Rightarrow> 'k) \<Rightarrow> ('r \<Rightarrow> 'r) \<Rightarrow> 'r \<Rightarrow> 'r list \<Rightarrow> 'r list" where
  "upsert key f r rs =
     (if key r \<in> set (map key rs) then update_where (\<lambda>x. key x = key r) f rs else rs @ [r])"

definition sort_desc :: "('r \<Rightarrow> 'k::linorder) \<Rightarrow> 'r list \<Rightarrow> 'r list" where
  "sort_desc k rs = rev (sort_key k (rev rs))"

definition msg_key :: "message_entry \<Rightarrow> string \<times> string \<times> string" where
  "msg_key r = (lm_peer r, lm_sender r, lm_timestamp r)"

definition gm_key :: "group_message_entry \<Rightarrow> string \<times> string \<times> string" where
  "gm_key r = (lx_group_id r, lx_sender r, lx_timestamp r)"

definition recipient_key :: "recipient_entry \<Rightarrow> string \<times> string \<times> string" where
  "recipient_key r = (lr_group_id r, lr_timestamp r, lr_member r)"

section \<open>Opening an account\<close>

text \<open>
  \<open>replace(QRegularExpression("[^A-Za-z0-9_-]"), "_")\<close>: one underscore per character, so
  continuation bytes of a longer UTF-8 sequence vanish.
\<close>

definition path_char :: "char \<Rightarrow> bool" where
  "path_char c \<longleftrightarrow>
     isdigit c \<or> (65 \<le> (of_char c :: nat) \<and> of_char c \<le> (90 :: nat)) \<or> (97 \<le> (of_char c :: nat) \<and> of_char c \<le> (122 :: nat))
     \<or> c = CHR ''_'' \<or> c = CHR ''-''"

definition sanitized :: "string \<Rightarrow> string" where
  "sanitized u =
     concat (map (\<lambda>c. if path_char c then [c]
                      else if 128 \<le> (of_char c :: nat) \<and> of_char c < (192 :: nat) then []
                      else ''_'') u)"

definition account_path :: "library \<Rightarrow> string \<Rightarrow> string" where
  "account_path l u = app_data l @ ''/accounts/'' @ sanitized u @ ''/bitatm.db''"

definition create_table :: "schema_item \<Rightarrow> schema_item list \<Rightarrow> bool C" where
  "create_table t cols =
     bnd (ls_exec [] (\<lambda>a. Some ((), if t \<in> set (ac_schema a) then a else a\<lparr>ac_schema := t # cols @ ac_schema a\<rparr>)))
       (\<lambda>r. retn (r \<noteq> None))"

definition create_unique_index :: "schema_item \<Rightarrow> schema_item \<Rightarrow> (account \<Rightarrow> bool) \<Rightarrow> bool C" where
  "create_unique_index tab i uniq =
     bnd (ls_exec [tab] (\<lambda>a.
       if i \<in> set (ac_schema a) then Some ((), a)
       else if uniq a then Some ((), a\<lparr>ac_schema := i # ac_schema a\<rparr>) else None)) (\<lambda>r. retn (r \<noteq> None))"

definition add_column :: "schema_item \<Rightarrow> schema_item \<Rightarrow> (account \<Rightarrow> account) \<Rightarrow> bool C" where
  "add_column tab col dflt =
     bnd (ls_exec [tab] (\<lambda>a.
       if col \<in> set (ac_schema a) then None else Some ((), dflt (a\<lparr>ac_schema := col # ac_schema a\<rparr>))))
       (\<lambda>r. retn (r \<noteq> None))"

text \<open>\<open>if (!ok) return false;\<close>\<close>

definition require :: "bool C \<Rightarrow> bool C \<Rightarrow> bool C" where
  "require m k = bnd m (\<lambda>ok. if ok then k else retn False)"

definition createSchema :: "bool C" where
  "createSchema =
     require (create_table Tab_messages [])
    (require (create_unique_index Tab_messages Idx_messages_dedup (\<lambda>a. distinct (map msg_key (ac_messages a))))
    (require (create_table Tab_conversations [])
    (bnd (add_column Tab_conversations Col_conversations_unread
       (\<lambda>a. a\<lparr>ac_conversations := map (\<lambda>r. r\<lparr>lc_unread_count := 0\<rparr>) (ac_conversations a)\<rparr>)) (\<lambda>_.
     require (create_table Tab_group_messages [Col_group_messages_status])
    (bnd (add_column Tab_group_messages Col_group_messages_status
       (\<lambda>a. a\<lparr>ac_group_messages := map (\<lambda>r. r\<lparr>lx_status := ''sent''\<rparr>) (ac_group_messages a)\<rparr>)) (\<lambda>_.
     require (create_table Tab_group_keys [])
    (require (create_table Tab_groups [])
    (bnd (add_column Tab_groups Col_groups_unread
       (\<lambda>a. a\<lparr>ac_groups := map (\<lambda>r. r\<lparr>lg_unread_count := 0\<rparr>) (ac_groups a)\<rparr>)) (\<lambda>_.
     bnd (create_unique_index Tab_group_messages Idx_gm_dedup (\<lambda>a. distinct (map gm_key (ac_group_messages a)))) (\<lambda>_.
     require (create_table Tab_recipients []) (retn True)))))))))))"

definition LocalStorage_close :: "unit C" where
  "LocalStorage_close = upd (\<lambda>s. s\<lparr>db_open := None\<rparr>)"

definition openForUser :: "string \<Rightarrow> bool C" where
  "openForUser u =
     bnd (gets db_open) (\<lambda>o'.
     bnd (when_m (o' \<noteq> None) LocalStorage_close) (\<lambda>_.
     bnd (gets (\<lambda>s. account_path (lib s) u)) (\<lambda>p.
     bnd next_call (\<lambda>n.
     bnd (gets (\<lambda>s. sqlite_fails (lib s) n)) (\<lambda>failed.
     if failed then retn False
     else
       bnd (upd (\<lambda>s. s\<lparr>files := (if files s p = None then (files s)(p \<mapsto> empty_account) else files s),
                      db_open := Some p\<rparr>)) (\<lambda>_.
       bnd (ls_write [] (\<lambda>a. a)) (\<lambda>_. createSchema)))))))"

section \<open>Messages and conversations\<close>

definition saveMessage :: "string \<Rightarrow> string \<Rightarrow> string \<Rightarrow> string \<Rightarrow> bool \<Rightarrow> string \<Rightarrow> unit C" where
  "saveMessage peer sender content timestamp isOutgoing status =
     ls_write [Tab_messages] (\<lambda>a.
       let r = \<lparr>lm_peer = peer, lm_sender = sender, lm_content = content, lm_timestamp = timestamp,
                lm_is_outgoing = isOutgoing, lm_status = status\<rparr>
       in a\<lparr>ac_messages := (if Idx_messages_dedup \<in> set (ac_schema a)
              then insert_or_ignore msg_key r (ac_messages a) else ac_messages a @ [r])\<rparr>)"

definition updateMessageStatus :: "string \<Rightarrow> string \<Rightarrow> string \<Rightarrow> unit C" where
  "updateMessageStatus peer timestamp status =
     ls_write [Tab_messages] (\<lambda>a. a\<lparr>ac_messages :=
       update_where (\<lambda>r. lm_peer r = peer \<and> lm_timestamp r = timestamp) (\<lambda>r. r\<lparr>lm_status := status\<rparr>) (ac_messages a)\<rparr>)"

definition loadMessages :: "string \<Rightarrow> message_entry list C" where
  "loadMessages peer =
     ls_read [Tab_messages] [] (\<lambda>a. sort_key lm_timestamp (filter (\<lambda>r. lm_peer r = peer) (ac_messages a)))"

definition saveConversation :: "string \<Rightarrow> string \<Rightarrow> string \<Rightarrow> unit C" where
  "saveConversation peer lastMsg lastTs =
     ls_write [Tab_conversations] (\<lambda>a. a\<lparr>ac_conversations :=
       upsert lc_peer (\<lambda>r. r\<lparr>lc_last_message := lastMsg, lc_last_timestamp := lastTs\<rparr>)
         \<lparr>lc_peer = peer, lc_last_message = lastMsg, lc_last_timestamp = lastTs, lc_unread_count = 0\<rparr>
         (ac_conversations a)\<rparr>)"

definition loadConversations :: "conversation_entry list C" where
  "loadConversations =
     ls_read [Tab_conversations, Col_conversations_unread] [] (\<lambda>a. sort_desc lc_last_timestamp (ac_conversations a))"

definition incrementUnread :: "string \<Rightarrow> unit C" where
  "incrementUnread peer =
     ls_write [Tab_conversations, Col_conversations_unread] (\<lambda>a. a\<lparr>ac_conversations :=
       update_where (\<lambda>r. lc_peer r = peer) (\<lambda>r. r\<lparr>lc_unread_count := lc_unread_count r + 1\<rparr>) (ac_conversations a)\<rparr>)"

definition resetUnread :: "string \<Rightarrow> unit C" where
  "resetUnread peer =
     ls_write [Tab_conversations, Col_conversations_unread] (\<lambda>a. a\<lparr>ac_conversations :=
       update_where (\<lambda>r. lc_peer r = peer) (\<lambda>r. r\<lparr>lc_unread_count := 0\<rparr>) (ac_conversations a)\<rparr>)"

text \<open>\<open>MAX\<close> over the text of a column, \<open>NULL\<close> when there is no row.\<close>

definition sql_max :: "string list \<Rightarrow> string option" where
  "sql_max xs = (if xs = [] then None else Some (Max (set xs)))"

definition newestTimestamp :: "string C" where
  "newestTimestamp =
     ls_read [Tab_messages, Tab_group_messages] [] (\<lambda>a.
       case max (sql_max (map lm_timestamp (ac_messages a))) (sql_max (map lx_timestamp (ac_group_messages a))) of
         None \<Rightarrow> [] | Some t \<Rightarrow> t)"

definition isDuplicate :: "string \<Rightarrow> string \<Rightarrow> string \<Rightarrow> bool C" where
  "isDuplicate peer sender timestamp =
     ls_read [Tab_messages] False (\<lambda>a. (peer, sender, timestamp) \<in> set (map msg_key (ac_messages a)))"

definition LS_deleteConversation :: "string \<Rightarrow> unit C" where
  "LS_deleteConversation peer =
     bnd (ls_write [Tab_messages] (\<lambda>a. a\<lparr>ac_messages := delete_where (\<lambda>r. lm_peer r = peer) (ac_messages a)\<rparr>)) (\<lambda>_.
     ls_write [Tab_conversations] (\<lambda>a. a\<lparr>ac_conversations := delete_where (\<lambda>r. lc_peer r = peer) (ac_conversations a)\<rparr>))"

section \<open>Groups\<close>

definition saveGroupMessage :: "string \<Rightarrow> string \<Rightarrow> string \<Rightarrow> string \<Rightarrow> bool \<Rightarrow> unit C" where
  "saveGroupMessage groupId sender content timestamp isOutgoing =
     bnd (ls_write [Tab_group_messages] (\<lambda>a.
       let r = \<lparr>lx_group_id = groupId, lx_sender = sender, lx_content = content, lx_timestamp = timestamp,
                lx_is_outgoing = isOutgoing, lx_status = ''sent''\<rparr>
       in a\<lparr>ac_group_messages := (if Idx_gm_dedup \<in> set (ac_schema a)
              then insert_or_ignore gm_key r (ac_group_messages a) else ac_group_messages a @ [r])\<rparr>)) (\<lambda>_.
     ls_write [Tab_groups] (\<lambda>a. a\<lparr>ac_groups :=
       update_where (\<lambda>r. lg_group_id r = groupId)
         (\<lambda>r. r\<lparr>lg_last_message := Some content, lg_last_timestamp := Some timestamp\<rparr>) (ac_groups a)\<rparr>))"

definition loadGroupMessages :: "string \<Rightarrow> group_message_entry list C" where
  "loadGroupMessages groupId =
     ls_read [Tab_group_messages, Col_group_messages_status] []
       (\<lambda>a. sort_key lx_timestamp (filter (\<lambda>r. lx_group_id r = groupId) (ac_group_messages a)))"

definition updateGroupMessageStatus :: "string \<Rightarrow> string \<Rightarrow> string \<Rightarrow> unit C" where
  "updateGroupMessageStatus groupId timestamp status =
     ls_write [Tab_group_messages, Col_group_messages_status] (\<lambda>a. a\<lparr>ac_group_messages :=
       update_where (\<lambda>r. lx_group_id r = groupId \<and> lx_timestamp r = timestamp) (\<lambda>r. r\<lparr>lx_status := status\<rparr>)
         (ac_group_messages a)\<rparr>)"

definition saveGroupKey :: "string \<Rightarrow> string \<Rightarrow> unit C" where
  "saveGroupKey groupId key =
     ls_write [Tab_group_keys] (\<lambda>a. a\<lparr>ac_group_keys :=
       upsert lk_group_id (\<lambda>r. r\<lparr>lk_aes_key_base64 := key\<rparr>)
         \<lparr>lk_group_id = groupId, lk_aes_key_base64 = key\<rparr> (ac_group_keys a)\<rparr>)"

definition loadGroupKey :: "string \<Rightarrow> string C" where
  "loadGroupKey groupId =
     ls_read [Tab_group_keys] [] (\<lambda>a.
       case find (\<lambda>r. lk_group_id r = groupId) (ac_group_keys a) of None \<Rightarrow> [] | Some r \<Rightarrow> lk_aes_key_base64 r)"

definition saveGroup :: "string \<Rightarrow> string \<Rightarrow> string \<Rightarrow> unit C" where
  "saveGroup groupId name role =
     ls_write [Tab_groups] (\<lambda>a. a\<lparr>ac_groups :=
       upsert lg_group_id (\<lambda>r. r\<lparr>lg_name := name, lg_role := role\<rparr>)
         \<lparr>lg_group_id = groupId, lg_name = name, lg_role = role, lg_last_message = None,
          lg_last_timestamp = None, lg_unread_count = 0\<rparr> (ac_groups a)\<rparr>)"

definition incrementGroupUnread :: "string \<Rightarrow> unit C" where
  "incrementGroupUnread groupId =
     ls_write [Tab_groups, Col_groups_unread] (\<lambda>a. a\<lparr>ac_groups :=
       update_where (\<lambda>r. lg_group_id r = groupId) (\<lambda>r. r\<lparr>lg_unread_count := lg_unread_count r + 1\<rparr>) (ac_groups a)\<rparr>)"

definition resetGroupUnread :: "string \<Rightarrow> unit C" where
  "resetGroupUnread groupId =
     ls_write [Tab_groups, Col_groups_unread] (\<lambda>a. a\<lparr>ac_groups :=
       update_where (\<lambda>r. lg_group_id r = groupId) (\<lambda>r. r\<lparr>lg_unread_count := 0\<rparr>) (ac_groups a)\<rparr>)"

record GroupRecord =
  gc_groupId :: string
  gc_name :: string
  gc_role :: string
  gc_lastMessage :: string
  gc_lastTimestamp :: string
  gc_unreadCount :: int

text \<open>\<open>QVariant::toString\<close> of a nullable column.\<close>

definition text_or_empty :: "string option \<Rightarrow> string" where
  "text_or_empty v = (case v of None \<Rightarrow> [] | Some t \<Rightarrow> t)"

definition loadGroups :: "GroupRecord list C" where
  "loadGroups =
     ls_read [Tab_groups, Col_groups_unread] [] (\<lambda>a. map (\<lambda>r.
       \<lparr>gc_groupId = lg_group_id r, gc_name = lg_name r, gc_role = lg_role r,
        gc_lastMessage = text_or_empty (lg_last_message r),
        gc_lastTimestamp = text_or_empty (lg_last_timestamp r), gc_unreadCount = lg_unread_count r\<rparr>)
       (sort_desc lg_last_timestamp (ac_groups a)))"

definition isGroupMessageDuplicate :: "string \<Rightarrow> string \<Rightarrow> string \<Rightarrow> bool C" where
  "isGroupMessageDuplicate groupId sender timestamp =
     ls_read [Tab_group_messages] False (\<lambda>a. (groupId, sender, timestamp) \<in> set (map gm_key (ac_group_messages a)))"

definition removeGroup :: "string \<Rightarrow> unit C" where
  "removeGroup groupId =
     bnd (ls_write [Tab_group_messages] (\<lambda>a. a\<lparr>ac_group_messages :=
       delete_where (\<lambda>r. lx_group_id r = groupId) (ac_group_messages a)\<rparr>)) (\<lambda>_.
     bnd (ls_write [Tab_group_keys] (\<lambda>a. a\<lparr>ac_group_keys :=
       delete_where (\<lambda>r. lk_group_id r = groupId) (ac_group_keys a)\<rparr>)) (\<lambda>_.
     ls_write [Tab_groups] (\<lambda>a. a\<lparr>ac_groups := delete_where (\<lambda>r. lg_group_id r = groupId) (ac_groups a)\<rparr>)))"

definition clearAllData :: "unit C" where
  "clearAllData =
     bnd (ls_write [Tab_group_messages] (\<lambda>a. a\<lparr>ac_group_messages := []\<rparr>)) (\<lambda>_.
     bnd (ls_write [Tab_group_keys] (\<lambda>a. a\<lparr>ac_group_keys := []\<rparr>)) (\<lambda>_.
     bnd (ls_write [Tab_groups] (\<lambda>a. a\<lparr>ac_groups := []\<rparr>)) (\<lambda>_.
     bnd (ls_write [Tab_messages] (\<lambda>a. a\<lparr>ac_messages := []\<rparr>)) (\<lambda>_.
     ls_write [Tab_conversations] (\<lambda>a. a\<lparr>ac_conversations := []\<rparr>)))))"

section \<open>Receipts of group messages\<close>

definition saveRecipientSnapshot :: "string \<Rightarrow> string \<Rightarrow> string list \<Rightarrow> unit C" where
  "saveRecipientSnapshot groupId timestamp members =
     for_each (\<lambda>m. ls_write [Tab_recipients] (\<lambda>a. a\<lparr>ac_recipients :=
       insert_or_ignore recipient_key
         \<lparr>lr_group_id = groupId, lr_timestamp = timestamp, lr_member = m, lr_delivered = False, lr_seen = False\<rparr>
         (ac_recipients a)\<rparr>)) members"

definition markRecipientDelivered :: "string \<Rightarrow> string \<Rightarrow> string \<Rightarrow> unit C" where
  "markRecipientDelivered groupId timestamp member =
     ls_write [Tab_recipients] (\<lambda>a. a\<lparr>ac_recipients :=
       update_where (\<lambda>r. recipient_key r = (groupId, timestamp, member)) (\<lambda>r. r\<lparr>lr_delivered := True\<rparr>) (ac_recipients a)\<rparr>)"

definition markRecipientSeen :: "string \<Rightarrow> string \<Rightarrow> string \<Rightarrow> unit C" where
  "markRecipientSeen groupId timestamp member =
     ls_write [Tab_recipients] (\<lambda>a. a\<lparr>ac_recipients :=
       update_where (\<lambda>r. recipient_key r = (groupId, timestamp, member))
         (\<lambda>r. r\<lparr>lr_delivered := True, lr_seen := True\<rparr>) (ac_recipients a)\<rparr>)"

definition recipients_of :: "string \<Rightarrow> string \<Rightarrow> account \<Rightarrow> recipient_entry list" where
  "recipients_of groupId timestamp a =
     filter (\<lambda>r. lr_group_id r = groupId \<and> lr_timestamp r = timestamp) (ac_recipients a)"

definition recipientCount :: "string \<Rightarrow> string \<Rightarrow> nat C" where
  "recipientCount groupId timestamp =
     ls_read [Tab_recipients] 0 (\<lambda>a. length (recipients_of groupId timestamp a))"

definition all_recipients :: "(recipient_entry \<Rightarrow> bool) \<Rightarrow> string \<Rightarrow> string \<Rightarrow> bool C" where
  "all_recipients flag groupId timestamp =
     bnd (ls_read [Tab_recipients] None
       (\<lambda>a. Some (length (filter (\<lambda>r. \<not> flag r) (recipients_of groupId timestamp a))))) (\<lambda>n.
     if n = Some 0 then bnd (recipientCount groupId timestamp) (\<lambda>k. retn (0 < k)) else retn False)"

definition allRecipientsDelivered :: "string \<Rightarrow> string \<Rightarrow> bool C" where
  "allRecipientsDelivered = all_recipients lr_delivered"

definition allRecipientsSeen :: "string \<Rightarrow> string \<Rightarrow> bool C" where
  "allRecipientsSeen = all_recipients lr_seen"

definition recipientStates :: "string \<Rightarrow> string \<Rightarrow> (string \<times> bool \<times> bool) list C" where
  "recipientStates groupId timestamp =
     ls_read [Tab_recipients] [] (\<lambda>a. map (\<lambda>r. (lr_member r, lr_delivered r, lr_seen r))
       (sort_key lr_member (recipients_of groupId timestamp a)))"

text \<open>The elements for which a query returns true.\<close>

primrec filter_m :: "('a \<Rightarrow> bool C) \<Rightarrow> 'a list \<Rightarrow> 'a list C" where
  "filter_m f [] = retn []"
| "filter_m f (x # xs) =
     bnd (f x) (\<lambda>b. bnd (filter_m f xs) (\<lambda>ys. retn (if b then x # ys else ys)))"

definition removeRecipientsNotIn :: "string \<Rightarrow> string list \<Rightarrow> string list C" where
  "removeRecipientsNotIn groupId members =
     bnd (ls_read [Tab_recipients] []
       (\<lambda>a. map (\<lambda>r. (lr_timestamp r, lr_member r)) (filter (\<lambda>r. lr_group_id r = groupId) (ac_recipients a)))) (\<lambda>rows.
     let doomed = filter (\<lambda>(ts, m). m \<notin> set members) rows;
         doomedTs = rev (remdups (rev (map fst doomed))) in
     bnd (for_each (\<lambda>(ts, m). ls_write [Tab_recipients] (\<lambda>a. a\<lparr>ac_recipients :=
            delete_where (\<lambda>r. recipient_key r = (groupId, ts, m)) (ac_recipients a)\<rparr>)) doomed) (\<lambda>_.
     filter_m (\<lambda>ts. bnd (recipientCount groupId ts) (\<lambda>k. retn (0 < k))) doomedTs))"

section \<open>The invariant of an account\<close>

text \<open>
  Keys are unique (those of messages as far as the index exists), a recipient who has seen a
  message has got it, and no unread count is negative.
\<close>

definition account_ok :: "account \<Rightarrow> bool" where
  "account_ok a \<longleftrightarrow>
     (Idx_messages_dedup \<in> set (ac_schema a) \<longrightarrow> distinct (map msg_key (ac_messages a)))
     \<and> (Idx_gm_dedup \<in> set (ac_schema a) \<longrightarrow> distinct (map gm_key (ac_group_messages a)))
     \<and> distinct (map lc_peer (ac_conversations a)) \<and> distinct (map lk_group_id (ac_group_keys a))
     \<and> distinct (map lg_group_id (ac_groups a)) \<and> distinct (map recipient_key (ac_recipients a))
     \<and> list_all (\<lambda>r. lr_seen r \<longrightarrow> lr_delivered r) (ac_recipients a)
     \<and> list_all (\<lambda>r. 0 \<le> lc_unread_count r) (ac_conversations a)
     \<and> list_all (\<lambda>r. 0 \<le> lg_unread_count r) (ac_groups a)"

definition storage_ok :: "client \<Rightarrow> bool" where
  "storage_ok s \<longleftrightarrow> (\<forall>p a. files s p = Some a \<longrightarrow> account_ok a)"

lemma distinct_insert_or_ignore: "distinct (map key rs) \<Longrightarrow> distinct (map key (insert_or_ignore key r rs))"
  by (auto simp: insert_or_ignore_def)

lemma distinct_upsert:
  "(\<And>x. key (f x) = key x) \<Longrightarrow> distinct (map key rs) \<Longrightarrow> distinct (map key (upsert key f r rs))"
  by (auto simp: upsert_def map_update_where)

lemma all_upsert:
  assumes "list_all P rs" "P r" "\<And>x. P x \<Longrightarrow> P (f x)"
  shows "list_all P (upsert key f r rs)"
  using assms by (auto simp: upsert_def set_update_where list_all_iff)

lemma distinct_delete_where: "distinct (map key rs) \<Longrightarrow> distinct (map key (delete_where P rs))"
  by (simp add: delete_where_def distinct_map_filter)

lemma account_okD:
  assumes "account_ok a"
  shows "Idx_messages_dedup \<in> set (ac_schema a) \<Longrightarrow> distinct (map msg_key (ac_messages a))"
    "Idx_gm_dedup \<in> set (ac_schema a) \<Longrightarrow> distinct (map gm_key (ac_group_messages a))"
    "distinct (map lc_peer (ac_conversations a))" "distinct (map lk_group_id (ac_group_keys a))"
    "distinct (map lg_group_id (ac_groups a))" "distinct (map recipient_key (ac_recipients a))"
    "list_all (\<lambda>r. lr_seen r \<longrightarrow> lr_delivered r) (ac_recipients a)"
    "list_all (\<lambda>r. 0 \<le> lc_unread_count r) (ac_conversations a)" "list_all (\<lambda>r. 0 \<le> lg_unread_count r) (ac_groups a)"
  using assms by (simp_all add: account_ok_def)

text \<open>Replacing the rows of one table.\<close>

lemma account_ok_tables:
  assumes "account_ok a"
  shows "(Idx_messages_dedup \<in> set (ac_schema a) \<Longrightarrow> distinct (map msg_key ms)) \<Longrightarrow> account_ok (a\<lparr>ac_messages := ms\<rparr>)"
    "(Idx_gm_dedup \<in> set (ac_schema a) \<Longrightarrow> distinct (map gm_key gs)) \<Longrightarrow> account_ok (a\<lparr>ac_group_messages := gs\<rparr>)"
    "distinct (map lc_peer cs) \<Longrightarrow> list_all (\<lambda>r. 0 \<le> lc_unread_count r) cs \<Longrightarrow> account_ok (a\<lparr>ac_conversations := cs\<rparr>)"
    "distinct (map lk_group_id ks) \<Longrightarrow> account_ok (a\<lparr>ac_group_keys := ks\<rparr>)"
    "distinct (map lg_group_id gr) \<Longrightarrow> list_all (\<lambda>r. 0 \<le> lg_unread_count r) gr \<Longrightarrow> account_ok (a\<lparr>ac_groups := gr\<rparr>)"
    "distinct (map recipient_key rs) \<Longrightarrow> list_all (\<lambda>r. lr_seen r \<longrightarrow> lr_delivered r) rs \<Longrightarrow> account_ok (a\<lparr>ac_recipients := rs\<rparr>)"
  using assms by (simp_all add: account_ok_def)

lemma all_insert_or_ignore: "list_all P rs \<Longrightarrow> P r \<Longrightarrow> list_all P (insert_or_ignore key r rs)"
  by (auto simp: insert_or_ignore_def)

lemma all_delete_where: "list_all P rs \<Longrightarrow> list_all P (delete_where Q rs)"
  by (simp add: list_all_iff)

lemma distinct_update_where:
  "(\<And>x. key (f x) = key x) \<Longrightarrow> distinct (map key rs) \<Longrightarrow> distinct (map key (update_where P f rs))"
  by (simp add: map_update_where)

lemma all_update_where: "list_all P rs \<Longrightarrow> (\<And>x. P x \<Longrightarrow> P (f x)) \<Longrightarrow> list_all P (update_where Q f rs)"
  by (auto simp: list_all_iff set_update_where)

lemmas account_rules = account_ok_tables distinct_insert_or_ignore distinct_upsert distinct_delete_where
  distinct_update_where all_upsert all_insert_or_ignore all_delete_where all_update_where

lemma empty_account_ok: "account_ok empty_account"
  by (simp add: account_ok_def empty_account_def)

text \<open>
  What a statement may do: it keeps the invariant, touches only the open account and leaves the
  rest of the client alone.
\<close>

definition ls_step :: "client \<Rightarrow> client \<Rightarrow> bool" where
  "ls_step s t \<longleftrightarrow>
     (\<exists>n fs. calls s \<le> n \<and> t = s\<lparr>calls := n, files := fs\<rparr> \<and> (\<forall>p. Some p \<noteq> db_open s \<longrightarrow> fs p = files s p))
     \<and> (storage_ok s \<longrightarrow> storage_ok t)"

lemma ls_step_simps:
  assumes "ls_step s t"
  shows "lib t = lib s" "settings t = settings s" "db_open t = db_open s" "sock t = sock s" "nm t = nm s"
    "chat t = chat s" "conv t = conv s" "signals t = signals s"
  using assms by (auto simp: ls_step_def)

interpretation lss: step_preorder ls_step
proof
  show "ls_step s s" for s
    unfolding ls_step_def by (intro conjI exI [of _ "calls s"] exI [of _ "files s"]) simp_all
  show "ls_step s u" if st: "ls_step s t" and tu: "ls_step t u" for s t u
  proof -
    obtain n fs where t: "calls s \<le> n" "t = s\<lparr>calls := n, files := fs\<rparr>" "\<forall>p. Some p \<noteq> db_open s \<longrightarrow> fs p = files s p"
      using st unfolding ls_step_def by blast
    obtain m gs where u: "calls t \<le> m" "u = t\<lparr>calls := m, files := gs\<rparr>" "\<forall>p. Some p \<noteq> db_open t \<longrightarrow> gs p = files t p"
      using tu unfolding ls_step_def by blast
    have "calls s \<le> m \<and> u = s\<lparr>calls := m, files := gs\<rparr> \<and> (\<forall>p. Some p \<noteq> db_open s \<longrightarrow> gs p = files s p)"
      using t u by simp
    then show ?thesis using st tu unfolding ls_step_def by blast
  qed
qed

lemma called_ls_step: "called s t \<Longrightarrow> ls_step s t"
  unfolding called_def ls_step_def
  by (auto simp: storage_ok_def) (metis client.surjective client.update_convs(2,4))

text \<open>How a statement runs: it fails and only the call counter advances, or it acts on the open account.\<close>

lemma wp_ls_exec:
  "wp (ls_exec need f) Q E s =
     (let s' = s\<lparr>calls := Suc (calls s)\<rparr> in
      case Option.bind (db_open s) (\<lambda>p. Option.bind (files s p) (\<lambda>a.
              if sqlite_fails (lib s) (calls s) \<or> \<not> set need \<subseteq> set (ac_schema a) then None
              else map_option (\<lambda>(x, a'). (p, x, a')) (f a))) of
         None \<Rightarrow> Q None s'
       | Some (p, x, a') \<Rightarrow> Q (Some x) (s'\<lparr>files := (files s)(p \<mapsto> a')\<rparr>))"
  unfolding ls_exec_def wp_bnd wp_next_call by (simp add: wp_def Let_def split: option.splits prod.splits)

lemma ls_exec_step:
  assumes "\<And>a x a'. account_ok a \<Longrightarrow> f a = Some (x, a') \<Longrightarrow> account_ok a'"
  shows "keeps ls_step (ls_exec need f)"
proof -
  have q: "ls_step s (s\<lparr>calls := Suc (calls s)\<rparr>)" for s by (rule called_ls_step) simp
  have w: "ls_step s (s\<lparr>calls := Suc (calls s), files := (files s)(p \<mapsto> a')\<rparr>)"
    if "db_open s = Some p" "files s p = Some a" "f a = Some (x, a')" for s p a x a'
    unfolding ls_step_def
    by (intro conjI exI [of _ "Suc (calls s)"] exI [of _ "(files s)(p \<mapsto> a')"])
      (use that assms [of a x a'] in \<open>auto simp: storage_ok_def\<close>)
  show ?thesis
    by (auto simp: keeps_wp wp_ls_exec Let_def q split: option.splits prod.splits Option.bind_splits if_splits
        intro!: w)
qed

lemma ls_write_step:
  "(\<And>a. account_ok a \<Longrightarrow> account_ok (g a)) \<Longrightarrow> keeps ls_step (ls_write need g)"
  unfolding ls_write_def by (intro lss.rules ls_exec_step) auto

lemma ls_read_step: "keeps ls_step (ls_read need d g)"
  unfolding ls_read_def by (intro lss.rules ls_exec_step) auto

lemma filter_m_step: "(\<And>x. keeps ls_step (f x)) \<Longrightarrow> keeps ls_step (filter_m f xs)"
  by (induction xs) (auto intro!: lss.rules)

named_theorems storage_step \<open>every method of the cache is a step\<close>

lemma messages_step [storage_step]:
  "keeps ls_step (saveMessage p u c t b st)" "keeps ls_step (updateMessageStatus p t st)"
  "keeps ls_step (loadMessages p)" "keeps ls_step (saveConversation p c t)" "keeps ls_step loadConversations"
  "keeps ls_step (incrementUnread p)" "keeps ls_step (resetUnread p)" "keeps ls_step newestTimestamp"
  "keeps ls_step (isDuplicate p u t)" "keeps ls_step (LS_deleteConversation p)"
  unfolding saveMessage_def updateMessageStatus_def loadMessages_def saveConversation_def loadConversations_def
    incrementUnread_def resetUnread_def newestTimestamp_def isDuplicate_def LS_deleteConversation_def Let_def
  by (intro lss.rules ls_read_step ls_write_step;
      auto simp: msg_key_def intro!: account_rules dest: account_okD)+

lemma groups_step [storage_step]:
  "keeps ls_step (saveGroupMessage g u c t b)" "keeps ls_step (loadGroupMessages g)"
  "keeps ls_step (updateGroupMessageStatus g t st)" "keeps ls_step (saveGroupKey g k)" "keeps ls_step (loadGroupKey g)"
  "keeps ls_step (saveGroup g n r)" "keeps ls_step (incrementGroupUnread g)" "keeps ls_step (resetGroupUnread g)"
  "keeps ls_step loadGroups" "keeps ls_step (isGroupMessageDuplicate g u t)" "keeps ls_step (removeGroup g)"
  "keeps ls_step clearAllData"
  unfolding saveGroupMessage_def loadGroupMessages_def updateGroupMessageStatus_def saveGroupKey_def loadGroupKey_def
    saveGroup_def incrementGroupUnread_def resetGroupUnread_def loadGroups_def isGroupMessageDuplicate_def
    removeGroup_def clearAllData_def Let_def
  by (intro lss.rules ls_read_step ls_write_step;
      auto simp: gm_key_def intro!: account_rules dest: account_okD)+

lemma recipients_step [storage_step]:
  "keeps ls_step (saveRecipientSnapshot g t ms)" "keeps ls_step (markRecipientDelivered g t m)"
  "keeps ls_step (markRecipientSeen g t m)" "keeps ls_step (recipientCount g t)"
  "keeps ls_step (allRecipientsDelivered g t)" "keeps ls_step (allRecipientsSeen g t)"
  "keeps ls_step (recipientStates g t)" "keeps ls_step (removeRecipientsNotIn g ms)"
  unfolding saveRecipientSnapshot_def markRecipientDelivered_def markRecipientSeen_def recipientCount_def
    allRecipientsDelivered_def allRecipientsSeen_def all_recipients_def recipientStates_def
    removeRecipientsNotIn_def Let_def
  by (intro lss.rules ls_read_step ls_write_step filter_m_step;
      auto simp: recipient_key_def intro!: account_rules dest: account_okD)+

section \<open>Opening and closing\<close>

lemma schema_step:
  "keeps ls_step (create_table t cs)" if "Idx_messages_dedup \<notin> set (t # cs)" "Idx_gm_dedup \<notin> set (t # cs)"
  using that unfolding create_table_def by (intro lss.rules ls_exec_step) (auto simp: account_ok_def split: if_splits)

lemma index_step:
  "keeps ls_step (create_unique_index tab Idx_messages_dedup (\<lambda>a. distinct (map msg_key (ac_messages a))))"
  "keeps ls_step (create_unique_index tab Idx_gm_dedup (\<lambda>a. distinct (map gm_key (ac_group_messages a))))"
  unfolding create_unique_index_def by (intro lss.rules ls_exec_step; auto simp: account_ok_def split: if_splits)+

lemma column_step:
  assumes "\<And>a. account_ok a \<Longrightarrow> account_ok (dflt a)" "Idx_messages_dedup \<noteq> c" "Idx_gm_dedup \<noteq> c"
  shows "keeps ls_step (add_column tab c dflt)"
proof -
  have "account_ok (dflt (a\<lparr>ac_schema := c # ac_schema a\<rparr>))" if "account_ok a" for a
    by (rule assms(1)) (use that assms(2,3) in \<open>simp add: account_ok_def\<close>)
  then show ?thesis unfolding add_column_def by (intro lss.rules ls_exec_step) (auto split: if_splits)
qed

lemma row_keys [simp]:
  "msg_key (r\<lparr>lm_status := x\<rparr>) = msg_key r" "gm_key (g\<lparr>lx_status := x\<rparr>) = gm_key g"
  by (simp_all add: msg_key_def gm_key_def)

lemma createSchema_step: "keeps ls_step createSchema"
  unfolding createSchema_def require_def
  by (intro lss.rules schema_step index_step column_step;
      auto simp: account_ok_def list_all_iff comp_def)

lemma LocalStorage_close_ok: "pres storage_ok LocalStorage_close"
  by (simp add: keeps_def LocalStorage_close_def storage_ok_def)

lemma ls_step_okD: "ls_step s t \<Longrightarrow> storage_ok s \<Longrightarrow> storage_ok t"
  by (simp add: ls_step_def)

lemma ls_step_ok: "keeps ls_step m \<Longrightarrow> pres storage_ok m"
  by (erule keeps_weaken) (simp add: ls_step_def)

lemma openForUser_ok: "pres storage_ok (openForUser u)"
proof -
  have "pres storage_ok next_call"
    by (rule keeps_weaken [OF next_call_cl]) (auto simp: called_def storage_ok_def)
  moreover have "pres storage_ok (ls_write [] (\<lambda>a. a))"
    by (intro ls_step_ok ls_write_step) simp
  ultimately show ?thesis
    unfolding openForUser_def
    by (intro inv.rules LocalStorage_close_ok ls_step_ok [OF createSchema_step] inv.k_upd)
      (auto simp: storage_ok_def empty_account_ok)
qed

text \<open>
  The file of an account is named after the sanitised user name, and different names may be
  sanitised to the same one: the two accounts then share one cache.
\<close>

lemma accounts_share_cache: "account_path l ''a.b'' = account_path l ''a_b'' \<and> ''a.b'' \<noteq> ''a_b''"
  by (simp add: account_path_def sanitized_def path_char_def isdigit_def)

lemma sanitized_safe: "list_all path_char u \<Longrightarrow> sanitized u = u"
  by (induction u) (auto simp: sanitized_def)

section \<open>The cache without failures\<close>

text \<open>The account \<open>a\<close> is open under \<open>p\<close>, its schema is complete and SQLite reports no error.\<close>

definition ls_up :: "client \<Rightarrow> string \<Rightarrow> account \<Rightarrow> bool" where
  "ls_up s p a \<longleftrightarrow>
     db_open s = Some p \<and> files s p = Some a \<and> (\<forall>n. \<not> sqlite_fails (lib s) n) \<and> set (ac_schema a) = UNIV"

lemma ls_write_up:
  assumes "ls_up s p a"
  shows "wp (ls_write need g) Q E s = Q () (s\<lparr>calls := Suc (calls s), files := (files s)(p \<mapsto> g a)\<rparr>)"
  using assms by (simp add: ls_write_def wp_bnd wp_ls_exec ls_up_def wp_retn Let_def)

lemma ls_read_up:
  assumes "ls_up s p a"
  shows "wp (ls_read need d g) Q E s = Q (g a) (s\<lparr>calls := Suc (calls s)\<rparr>)"
proof -
  have "files s = (files s)(p \<mapsto> a)" using assms by (auto simp: ls_up_def)
  then have "s\<lparr>calls := Suc (calls s), files := (files s)(p \<mapsto> a)\<rparr> = s\<lparr>calls := Suc (calls s)\<rparr>"
    by (metis (no_types, lifting) client.surjective client.update_convs(2,4))
  then show ?thesis
    using assms by (simp add: ls_read_def wp_bnd wp_ls_exec ls_up_def wp_retn Let_def)
qed

lemma ls_up_simps [simp]:
  "ls_up (s\<lparr>calls := n\<rparr>) p a = ls_up s p a" "ls_up (s\<lparr>nm := m\<rparr>) p a = ls_up s p a"
  "ls_up (s\<lparr>signals := g\<rparr>) p a = ls_up s p a" "ls_up (s\<lparr>sock := k\<rparr>) p a = ls_up s p a"
  "ls_up (s\<lparr>chat := c\<rparr>) p a = ls_up s p a" "ls_up (s\<lparr>conv := v\<rparr>) p a = ls_up s p a"
  by (simp_all add: ls_up_def)

lemma ls_up_write:
  "ls_up s p a \<Longrightarrow> ac_schema b = ac_schema a \<Longrightarrow> ls_up (s\<lparr>calls := n, files := (files s)(p \<mapsto> b)\<rparr>) p b"
  by (simp add: ls_up_def)

lemma ls_up_called: "called s t \<Longrightarrow> ls_up t p a = ls_up s p a"
  by (simp add: ls_up_def called_simps)

text \<open>A freshly created cache.\<close>

definition full_schema :: "schema_item list" where
  "full_schema =
     [Tab_recipients, Idx_gm_dedup, Col_groups_unread, Tab_groups, Tab_group_keys, Tab_group_messages,
      Col_group_messages_status, Col_conversations_unread, Tab_conversations, Idx_messages_dedup, Tab_messages]"

lemma full_schema_UNIV: "set full_schema = UNIV"
proof -
  have "x \<in> set full_schema" for x by (cases x) (simp_all add: full_schema_def)
  then show ?thesis by blast
qed

text \<open>Opening the cache of a user who has none creates it, complete and empty.\<close>

lemma openForUser_fresh:
  assumes "\<And>n. \<not> sqlite_fails (lib s) n" "files s (account_path (lib s) u) = None"
  shows "wp (openForUser u) (\<lambda>ok t. ok \<and> lib t = lib s \<and> nm t = nm s
      \<and> ls_up t (account_path (lib s) u) (empty_account\<lparr>ac_schema := full_schema\<rparr>)) (\<lambda>_ _. False) s"
  using assms
  by (simp add: openForUser_def LocalStorage_close_def createSchema_def require_def create_table_def
      create_unique_index_def add_column_def ls_write_def wp wp_ls_exec Let_def empty_account_def
      ls_up_def full_schema_UNIV) (simp add: full_schema_def)

end
