(* ===== verification/ChatModels.thy ===== *)
theory ChatModels
  imports LocalStorage
begin

text \<open>
  \<^verbatim>\<open>frontend/src/ChatModel.cpp\<close> and \<^verbatim>\<open>frontend/src/ConversationListModel.cpp\<close>: the
  list models behind the chat view and the sidebar.  The change notifications of
  \<open>QAbstractListModel\<close> carry no state and are left out.
\<close>

section \<open>Roles and values\<close>

text \<open>\<open>QVariant\<close> as far as the models use it, and \<open>Qt::UserRole\<close>.\<close>

datatype variant = NoValue | Text_v string | Bool_v bool | Int_v int

definition UserRole :: int where "UserRole = 256"

text \<open>A model index: its row when it is valid.\<close>

type_synonym index = "int option"

definition row_at :: "'a list \<Rightarrow> index \<Rightarrow> 'a option" where
  "row_at xs i =
     (case i of None \<Rightarrow> None | Some r \<Rightarrow> if r < 0 \<or> int (length xs) \<le> r then None else Some (xs ! nat r))"

text \<open>The position of the first match, as the \<open>for\<close> loops with \<open>return\<close> look for it.\<close>

fun first_index :: "('a \<Rightarrow> bool) \<Rightarrow> 'a list \<Rightarrow> nat option" where
  "first_index P [] = None"
| "first_index P (x # xs) = (if P x then Some 0 else map_option Suc (first_index P xs))"

section \<open>\<open>ChatModel\<close>\<close>

definition updChat :: "(ChatModel \<Rightarrow> ChatModel) \<Rightarrow> unit C" where
  "updChat f = upd (\<lambda>s. s\<lparr>chat := f (chat s)\<rparr>)"

definition appendMessage :: "string \<Rightarrow> string \<Rightarrow> string \<Rightarrow> bool \<Rightarrow> unit C" where
  "appendMessage sender content timestamp isOutgoing =
     updChat (\<lambda>m. m\<lparr>chat_entries := chat_entries m @
       [\<lparr>ce_sender = sender, ce_content = content, ce_timestamp = timestamp, ce_isOutgoing = isOutgoing,
         ce_status = ''sent''\<rparr>]\<rparr>)"

definition appendAndCache :: "string \<Rightarrow> string \<Rightarrow> string \<Rightarrow> string \<Rightarrow> bool \<Rightarrow> string \<Rightarrow> unit C" where
  "appendAndCache peer sender content timestamp isOutgoing status =
     updChat (\<lambda>m.
       let entry = \<lparr>ce_sender = sender, ce_content = content, ce_timestamp = timestamp,
                    ce_isOutgoing = isOutgoing, ce_status = status\<rparr>;
           m' = m\<lparr>chat_cache := qappend peer entry (chat_cache m)\<rparr>
       in if activePeer m' = peer then m'\<lparr>chat_entries := chat_entries m' @ [entry]\<rparr> else m')"

definition switchConversation :: "string \<Rightarrow> unit C" where
  "switchConversation peer =
     updChat (\<lambda>m. m\<lparr>activePeer := peer, chat_entries := qvalue (chat_cache m) peer\<rparr>)"

definition clearHistory :: "unit C" where
  "clearHistory = updChat (\<lambda>m. m\<lparr>chat_entries := []\<rparr>)"

definition clearAll :: "unit C" where
  "clearAll = updChat (\<lambda>m. m\<lparr>activePeer := [], chat_cache := Map.empty, chat_entries := []\<rparr>)"

definition Chat_rowCount :: "index \<Rightarrow> ChatModel \<Rightarrow> nat" where
  "Chat_rowCount parent m = (if parent \<noteq> None then 0 else length (chat_entries m))"

definition Chat_data :: "index \<Rightarrow> int \<Rightarrow> ChatModel \<Rightarrow> variant" where
  "Chat_data i role m =
     (case row_at (chat_entries m) i of
        None \<Rightarrow> NoValue
      | Some e \<Rightarrow>
          if role = UserRole + 1 then Text_v (ce_sender e)
          else if role = UserRole + 2 then Text_v (ce_content e)
          else if role = UserRole + 3 then Text_v (ce_timestamp e)
          else if role = UserRole + 4 then Bool_v (ce_isOutgoing e)
          else if role = UserRole + 5 then Text_v (ce_status e)
          else NoValue)"

definition Chat_roleNames :: "(int \<times> string) list" where
  "Chat_roleNames =
     [(UserRole + 1, ''sender''), (UserRole + 2, ''content''), (UserRole + 3, ''timestamp''),
      (UserRole + 4, ''isOutgoing''), (UserRole + 5, ''status'')]"

definition set_status :: "string \<Rightarrow> string \<Rightarrow> ChatEntry list \<Rightarrow> ChatEntry list" where
  "set_status timestamp status = update_where (\<lambda>e. ce_timestamp e = timestamp) (\<lambda>e. e\<lparr>ce_status := status\<rparr>)"

definition updateStatus :: "string \<Rightarrow> string \<Rightarrow> string \<Rightarrow> bool \<Rightarrow> unit C" where
  "updateStatus peer timestamp status isGroup =
     bnd (if isGroup then updateGroupMessageStatus peer timestamp status
          else updateMessageStatus peer timestamp status) (\<lambda>_.
     updChat (\<lambda>m.
       let m' = (if activePeer m = peer
                 then m\<lparr>chat_entries := set_status timestamp status (chat_entries m)\<rparr> else m)
       in case chat_cache m' peer of
            None \<Rightarrow> m'
          | Some es \<Rightarrow> m'\<lparr>chat_cache := (chat_cache m')(peer \<mapsto> set_status timestamp status es)\<rparr>))"

section \<open>\<open>ConversationListModel\<close>\<close>

definition updConv :: "(ConvEntry list \<Rightarrow> ConvEntry list) \<Rightarrow> unit C" where
  "updConv f = upd (\<lambda>s. s\<lparr>conv := f (conv s)\<rparr>)"

definition addOrUpdate :: "string \<Rightarrow> string \<Rightarrow> string \<Rightarrow> bool \<Rightarrow> unit C" where
  "addOrUpdate username lastMsg timestamp incUnread =
     bnd (gets (\<lambda>s. first_index (\<lambda>e. cv_username e = username) (conv s))) (\<lambda>it. case it of
        Some i \<Rightarrow>
          bnd (updConv (\<lambda>es. es[i := (es ! i)\<lparr>cv_lastMessage := lastMsg, cv_timestamp := timestamp\<rparr>])) (\<lambda>_.
          when_m incUnread
            (bnd (updConv (\<lambda>es. es[i := (es ! i)\<lparr>cv_unreadCount := cv_unreadCount (es ! i) + 1\<rparr>])) (\<lambda>_.
             incrementUnread username)))
      | None \<Rightarrow>
          bnd (when_m incUnread (incrementUnread username)) (\<lambda>_.
          updConv (\<lambda>es. es @ [\<lparr>cv_username = username, cv_lastMessage = lastMsg, cv_timestamp = timestamp,
            cv_isGroup = False, cv_groupId = [], cv_unreadCount = (if incUnread then 1 else 0)\<rparr>])))"

text \<open>The key of an entry: \<open>e.isGroup ? (e.groupId == peer) : (e.username == peer)\<close>.\<close>

definition conv_key :: "ConvEntry \<Rightarrow> string" where
  "conv_key e = (if cv_isGroup e then cv_groupId e else cv_username e)"

definition Conv_remove :: "string \<Rightarrow> unit C" where
  "Conv_remove peer =
     updConv (\<lambda>es. case first_index (\<lambda>e. conv_key e = peer) es of
        None \<Rightarrow> es | Some i \<Rightarrow> take i es @ drop (Suc i) es)"

definition markRead :: "string \<Rightarrow> unit C" where
  "markRead peer =
     bnd (gets (\<lambda>s. first_index (\<lambda>e. conv_key e = peer) (conv s))) (\<lambda>it. case it of
        None \<Rightarrow> retn ()
      | Some i \<Rightarrow>
          bnd (gets (\<lambda>s. conv s ! i)) (\<lambda>e.
          if cv_unreadCount e = 0 then retn ()
          else
            bnd (if cv_isGroup e then resetGroupUnread (cv_groupId e) else resetUnread (cv_username e)) (\<lambda>_.
            updConv (\<lambda>es. es[i := (es ! i)\<lparr>cv_unreadCount := 0\<rparr>]))))"

definition Conv_clear :: "unit C" where
  "Conv_clear = updConv (\<lambda>es. if es = [] then es else [])"

definition Conv_rowCount :: "index \<Rightarrow> ConvEntry list \<Rightarrow> nat" where
  "Conv_rowCount parent es = (if parent \<noteq> None then 0 else length es)"

definition Conv_data :: "index \<Rightarrow> int \<Rightarrow> ConvEntry list \<Rightarrow> variant" where
  "Conv_data i role es =
     (case row_at es i of
        None \<Rightarrow> NoValue
      | Some e \<Rightarrow>
          if role = UserRole + 1 then Text_v (cv_username e)
          else if role = UserRole + 2 then Text_v (cv_lastMessage e)
          else if role = UserRole + 3 then Text_v (cv_timestamp e)
          else if role = UserRole + 4 then Bool_v (cv_isGroup e)
          else if role = UserRole + 5 then Text_v (cv_groupId e)
          else if role = UserRole + 6 then Int_v (cv_unreadCount e)
          else NoValue)"

definition Conv_roleNames :: "(int \<times> string) list" where
  "Conv_roleNames =
     [(UserRole + 1, ''username''), (UserRole + 2, ''lastMessage''), (UserRole + 3, ''timestamp''),
      (UserRole + 4, ''is_group''), (UserRole + 5, ''group_id''), (UserRole + 6, ''unreadCount'')]"

definition addOrUpdateGroup :: "string \<Rightarrow> string \<Rightarrow> string \<Rightarrow> string \<Rightarrow> bool \<Rightarrow> unit C" where
  "addOrUpdateGroup groupId groupName lastMsg lastTs incUnread =
     bnd (gets (\<lambda>s. first_index (\<lambda>e. cv_isGroup e \<and> cv_groupId e = groupId) (conv s))) (\<lambda>it. case it of
        Some i \<Rightarrow>
          bnd (updConv (\<lambda>es. es[i := (es ! i)
             \<lparr>cv_lastMessage := (if lastMsg \<noteq> [] then lastMsg else cv_lastMessage (es ! i)),
              cv_timestamp := (if lastTs \<noteq> [] then lastTs else cv_timestamp (es ! i))\<rparr>])) (\<lambda>_.
          when_m incUnread
            (bnd (updConv (\<lambda>es. es[i := (es ! i)\<lparr>cv_unreadCount := cv_unreadCount (es ! i) + 1\<rparr>])) (\<lambda>_.
             incrementGroupUnread groupId)))
      | None \<Rightarrow>
          bnd (when_m incUnread (incrementGroupUnread groupId)) (\<lambda>_.
          updConv (\<lambda>es. es @ [\<lparr>cv_username = groupName, cv_lastMessage = lastMsg, cv_timestamp = lastTs,
            cv_isGroup = True, cv_groupId = groupId, cv_unreadCount = (if incUnread then 1 else 0)\<rparr>])))"

definition setUnreadCount :: "string \<Rightarrow> int \<Rightarrow> unit C" where
  "setUnreadCount peer count =
     updConv (\<lambda>es. case first_index (\<lambda>e. conv_key e = peer) es of
        None \<Rightarrow> es
      | Some i \<Rightarrow> if cv_unreadCount (es ! i) = count then es else es[i := (es ! i)\<lparr>cv_unreadCount := count\<rparr>])"

section \<open>Facts on the first match\<close>

lemma first_index_SomeD: "first_index P xs = Some i \<Longrightarrow> i < length xs \<and> P (xs ! i) \<and> (\<forall>j < i. \<not> P (xs ! j))"
  by (induction xs arbitrary: i) (auto split: if_splits simp: less_Suc_eq_0_disj)

lemma first_index_None: "first_index P xs = None \<longleftrightarrow> (\<forall>x \<in> set xs. \<not> P x)"
  by (induction xs) auto

lemma wp_models [wp]:
  "wp (updChat f) Q E s = Q () (s\<lparr>chat := f (chat s)\<rparr>)"
  "wp (updConv g) Q E s = Q () (s\<lparr>conv := g (conv s)\<rparr>)"
  by (simp_all add: updChat_def updConv_def wp)

lemma models_ok:
  "pres storage_ok (updChat f)" "pres storage_ok (updConv g)"
  by (simp_all add: keeps_def updChat_def updConv_def storage_ok_def)

section \<open>The chat view\<close>

text \<open>
  The view shows the cached conversation of the active peer.
\<close>

definition view_synced :: "ChatModel \<Rightarrow> bool" where
  "view_synced m \<longleftrightarrow> chat_entries m = qvalue (chat_cache m) (activePeer m)"

lemma set_status_append [simp]: "set_status t x (es @ [e]) = set_status t x es @ set_status t x [e]"
  by (simp add: set_status_def)

lemma set_status_Nil [simp]: "set_status t x [] = []"
  by (simp add: set_status_def)

lemma chat_unchanged: "keeps ls_step m \<Longrightarrow> frame chat m" "keeps ls_step m \<Longrightarrow> frame conv m"
  by (erule keeps_weaken, simp add: ls_step_simps)+

text \<open>
  C34. The chat view follows the conversations.  As long as the view is filled through
  \<open>switchConversation\<close> it equals the cached conversation of the active peer, also after
  appending to any conversation and after any status change; appending adds the entry to
  exactly one conversation, and switching back and forth loses nothing.
\<close>

theorem chat_view:
  assumes "view_synced (chat s)"
  shows "wp (switchConversation p) (\<lambda>_ t. view_synced (chat t) \<and> chat_cache (chat t) = chat_cache (chat s)
      \<and> activePeer (chat t) = p) (\<lambda>_ _. False) s
   \<and> wp (appendAndCache p u c ts b st)
      (\<lambda>_ t. view_synced (chat t)
         \<and> (\<forall>q. qvalue (chat_cache (chat t)) q = qvalue (chat_cache (chat s)) q
               @ (if q = p then [\<lparr>ce_sender = u, ce_content = c, ce_timestamp = ts, ce_isOutgoing = b, ce_status = st\<rparr>] else [])))
      (\<lambda>_ _. False) s
   \<and> wp (updateStatus p ts st g)
      (\<lambda>_ t. view_synced (chat t)
         \<and> (\<forall>q. qvalue (chat_cache (chat t)) q =
               (if q = p then set_status ts st (qvalue (chat_cache (chat s)) q) else qvalue (chat_cache (chat s)) q)))
      (\<lambda>_ _. False) s"
proof (intro conjI)
  show "wp (switchConversation p) (\<lambda>_ t. view_synced (chat t) \<and> chat_cache (chat t) = chat_cache (chat s)
      \<and> activePeer (chat t) = p) (\<lambda>_ _. False) s"
    by (simp add: switchConversation_def wp view_synced_def)
  show "wp (appendAndCache p u c ts b st)
      (\<lambda>_ t. view_synced (chat t)
         \<and> (\<forall>q. qvalue (chat_cache (chat t)) q = qvalue (chat_cache (chat s)) q
               @ (if q = p then [\<lparr>ce_sender = u, ce_content = c, ce_timestamp = ts, ce_isOutgoing = b, ce_status = st\<rparr>] else [])))
      (\<lambda>_ _. False) s"
    using assms by (auto simp: appendAndCache_def wp view_synced_def Let_def)
  have upd: "wp (updateStatus p ts st g) (\<lambda>_ t. chat t =
        (let m = chat s; m' = (if activePeer m = p then m\<lparr>chat_entries := set_status ts st (chat_entries m)\<rparr> else m)
         in case chat_cache m' p of None \<Rightarrow> m'
            | Some es \<Rightarrow> m'\<lparr>chat_cache := (chat_cache m')(p \<mapsto> set_status ts st es)\<rparr>)) (\<lambda>_ _. False) s"
  proof -
    let ?m = "if g then updateGroupMessageStatus p ts st else updateMessageStatus p ts st"
    have "wp ?m (\<lambda>_ t. chat t = chat s) (\<lambda>_ _. False) s"
      by (auto simp: updateGroupMessageStatus_def updateMessageStatus_def ls_write_def wp wp_ls_exec Let_def
          split: option.splits)
    then show ?thesis
      unfolding updateStatus_def wp_bnd by (rule wp_mono) (auto simp: wp Let_def split: option.splits)
  qed
  show "wp (updateStatus p ts st g)
      (\<lambda>_ t. view_synced (chat t)
         \<and> (\<forall>q. qvalue (chat_cache (chat t)) q =
               (if q = p then set_status ts st (qvalue (chat_cache (chat s)) q) else qvalue (chat_cache (chat s)) q)))
      (\<lambda>_ _. False) s"
    using assms by (intro wp_mono [OF upd])
      (auto simp: view_synced_def Let_def qvalue_def split: option.splits if_splits)
qed

text \<open>C34, applied: the empty view of a fresh client, when a first message arrives.\<close>

theorem chat_view_witness:
  "view_synced (chat example_client)
   \<and> wp (appendAndCache ''bob'' ''bob'' ''hi'' ''t'' False ''sent'')
       (\<lambda>_ t. view_synced (chat t) \<and> length (qvalue (chat_cache (chat t)) ''bob'') = 1) (\<lambda>_ _. False) example_client"
proof -
  have ok: "view_synced (chat example_client)" "qvalue (chat_cache (chat example_client)) ''bob'' = []"
    by (simp_all add: view_synced_def example_client_def qvalue_def)
  note app = chat_view [OF ok(1), of "''bob''" "''bob''" "''hi''" "''t''" False "''sent''" False, THEN conjunct2, THEN conjunct1]
  show ?thesis by (rule conjI [OF ok(1)], rule wp_mono [OF app]) (simp_all add: ok)
qed

end
