(* ===== verification/ClientNetwork.thy ===== *)
theory ClientNetwork
  imports ChatModels
begin

text \<open>
  \<^verbatim>\<open>frontend/src/NetworkManager.cpp\<close>: the client side of the protocol.  Signals are
  appended to \<open>signals\<close> in the order they are emitted; what QML does in response is not part of
  the class and happens, in the model, between two calls.  \<open>catch (const std::exception&)\<close>
  catches every exception of the model.
\<close>

section \<open>Sending\<close>

definition catch_all :: "'a C \<Rightarrow> (exn \<Rightarrow> 'a C) \<Rightarrow> 'a C" where
  "catch_all m h = catch_if (\<lambda>_. True) m h"

definition isConnected :: "bool C" where
  "isConnected = gets (\<lambda>s. so_connected (sock s))"

text \<open>\<open>_hasError = true; _lastMessage = m; emit lastMessageChanged();\<close>\<close>

definition show_error :: "string \<Rightarrow> unit C" where
  "show_error m =
     bnd (updNM (\<lambda>x. x\<lparr>hasError := True, lastMessage := m\<rparr>)) (\<lambda>_. emit lastMessageChanged)"

definition sendPacket :: "Packet \<Rightarrow> unit C" where
  "sendPacket p =
     bnd isConnected (\<lambda>c.
     if \<not> c then show_error ''Not connected to server''
     else updSock (\<lambda>k. k\<lparr>so_sent := so_sent k @ [serialize p]\<rparr>))"

text \<open>A packet of the given type from the current user.\<close>

definition packet_from_me :: "PacketType \<Rightarrow> Packet C" where
  "packet_from_me t = getNM (\<lambda>x. (new_packet t)\<lparr>pfrom := currentUsername x\<rparr>)"

definition connectToServer :: "string \<Rightarrow> unit C" where
  "connectToServer url =
     bnd (updSock (\<lambda>k. k\<lparr>so_verifies_peer := False\<rparr>)) (\<lambda>_.
     bnd (updNM (\<lambda>x. x\<lparr>serverUrl := url, intentionallyConnecting := True\<rparr>)) (\<lambda>_.
     updSock (\<lambda>k. k\<lparr>so_opened := so_opened k @ [url]\<rparr>)))"

definition sendRegister :: "string \<Rightarrow> string \<Rightarrow> unit C" where
  "sendRegister username password =
     bnd (updNM (\<lambda>x. x\<lparr>pendingRegister := True\<rparr>)) (\<lambda>_.
     sendPacket ((new_packet REGISTER)\<lparr>pfrom := username, pbody := password\<rparr>))"

definition sendLogin :: "string \<Rightarrow> string \<Rightarrow> unit C" where
  "sendLogin username password =
     bnd (updNM (\<lambda>x. x\<lparr>pendingRegister := False\<rparr>)) (\<lambda>_.
     sendPacket ((new_packet LOGIN)\<lparr>pfrom := username, pbody := password\<rparr>))"

definition fetchPeerKey :: "string \<Rightarrow> unit C" where
  "fetchPeerKey username =
     bnd (packet_from_me KEY_EXCHANGE) (\<lambda>p. sendPacket (p\<lparr>pto := username\<rparr>))"

definition sendSyncHistory :: "unit C" where
  "sendSyncHistory =
     bnd (packet_from_me SYNC_HISTORY) (\<lambda>p.
     bnd newestTimestamp (\<lambda>ts.
     bnd (gets (\<lambda>s. parse_iso_ms (lib s) ts \<noteq> None \<or> parse_iso (lib s) ts \<noteq> None)) (\<lambda>valid.
     sendPacket (if valid then p\<lparr>pbody := ts\<rparr> else p))))"

definition markConversationRead :: "string \<Rightarrow> unit C" where
  "markConversationRead peer =
     bnd (getNM currentUsername) (\<lambda>me.
     bnd isConnected (\<lambda>c.
     bnd (getNM unreadTimestamps) (\<lambda>unread.
     if me = [] \<or> \<not> c then retn () else case unread peer of
        None \<Rightarrow> retn ()
      | Some timestamps \<Rightarrow>
          bnd (updNM (\<lambda>x. x\<lparr>unreadTimestamps := (unreadTimestamps x)(peer := None)\<rparr>)) (\<lambda>_.
          for_each (\<lambda>ts. bnd (packet_from_me READ_RECEIPT) (\<lambda>p. sendPacket (p\<lparr>pto := peer, pbody := ts\<rparr>)))
            timestamps))))"

definition persistMessage :: "string \<Rightarrow> string \<Rightarrow> string \<Rightarrow> string \<Rightarrow> bool \<Rightarrow> unit C" where
  "persistMessage peer sender content timestamp isOutgoing =
     bnd (saveMessage peer sender content timestamp isOutgoing ''sent'') (\<lambda>_.
     saveConversation peer content timestamp)"

text \<open>\<open>timestamp.isEmpty() ? currentDateTimeUtc() : timestamp\<close>\<close>

definition timestamp_or_now :: "string \<Rightarrow> string C" where
  "timestamp_or_now timestamp = (if timestamp = [] then utcNow else retn timestamp)"

definition encryptAndSend :: "string \<Rightarrow> string \<Rightarrow> string \<Rightarrow> unit C" where
  "encryptAndSend to plaintext timestamp =
     bnd (getNM currentUsername) (\<lambda>me.
     if to = me then retn ()
     else catch_all
       (bnd generateAESKey (\<lambda>aesKey.
        bnd (Crypto_encrypt plaintext aesKey) (\<lambda>encBody.
        bnd (getNM (\<lambda>x. qvalue (peerKeys x) to)) (\<lambda>peerKey.
        bnd (updNM (\<lambda>x. x\<lparr>peerKeys := (peerKeys x)(to \<mapsto> peerKey)\<rparr>)) (\<lambda>_.
        bnd (encryptRSA aesKey peerKey) (\<lambda>wrappedForRecipient.
        bnd (getNM ownPubKey) (\<lambda>pub.
        bnd (encryptRSA aesKey pub) (\<lambda>wrappedForSelf.
        bnd (timestamp_or_now timestamp) (\<lambda>ts.
        bnd (gets (\<lambda>s. toBase64 (lib s) wrappedForRecipient @ '';'' @ toBase64 (lib s) wrappedForSelf)) (\<lambda>k.
        bnd (sendPacket ((new_packet MESSAGE)\<lparr>pfrom := me, pto := to, pbody := encBody, pkey := k, ptimestamp := ts\<rparr>)) (\<lambda>_.
        persistMessage to me plaintext ts True)))))))))))
       (\<lambda>e. show_error (''Encrypt failed: '' @ what e)))"

definition sendMessage :: "string \<Rightarrow> string \<Rightarrow> string \<Rightarrow> unit C" where
  "sendMessage to plaintext timestamp =
     bnd (getNM peerKeys) (\<lambda>keys.
     if keys to = None then
       bnd (updNM (\<lambda>x. x\<lparr>pendingMessages := qappend to (plaintext, timestamp) (pendingMessages x)\<rparr>)) (\<lambda>_.
       fetchPeerKey to)
     else encryptAndSend to plaintext timestamp)"

section \<open>Logging in\<close>

definition settings_bytes :: "string \<Rightarrow> string C" where
  "settings_bytes k = gets (\<lambda>s. case settings s k of None \<Rightarrow> [] | Some v \<Rightarrow> v)"

definition settings_set :: "string \<Rightarrow> string \<Rightarrow> unit C" where
  "settings_set k v = upd (\<lambda>s. s\<lparr>settings := (settings s)(k \<mapsto> v)\<rparr>)"

text \<open>\<open>QSettings::remove\<close> drops the key and everything below it.\<close>

definition settings_remove :: "string \<Rightarrow> unit C" where
  "settings_remove k =
     upd (\<lambda>s. s\<lparr>settings := (\<lambda>x. if x = k \<or> prefix (k @ ''/'') x then None else settings s x)\<rparr>)"

definition loadOrGenerateKeypair :: "unit C" where
  "loadOrGenerateKeypair =
     bnd (getNM currentUsername) (\<lambda>me.
     bnd (settings_bytes (''crypto/'' @ me @ ''/pubkey'')) (\<lambda>pub.
     bnd (settings_bytes (''crypto/'' @ me @ ''/privkey'')) (\<lambda>priv.
     if pub \<noteq> [] \<and> priv \<noteq> [] then updNM (\<lambda>x. x\<lparr>ownPubKey := pub, ownPrivKey := priv\<rparr>)
     else
       bnd generateRSAKeypair (\<lambda>(pubPem, privPem).
       bnd (updNM (\<lambda>x. x\<lparr>ownPubKey := pubPem, ownPrivKey := privPem\<rparr>)) (\<lambda>_.
       bnd (settings_set (''crypto/'' @ me @ ''/pubkey'') pubPem) (\<lambda>_.
       settings_set (''crypto/'' @ me @ ''/privkey'') privPem))))))"

definition load_conversation :: "conversation_entry \<Rightarrow> unit C" where
  "load_conversation c =
     bnd (getNM currentUsername) (\<lambda>me.
     if lc_peer c = me then retn ()
     else
       bnd (loadMessages (lc_peer c)) (\<lambda>msgs.
       bnd (for_each (\<lambda>m. emit (historySyncMessage (lm_peer m) (lm_sender m) (lm_content m) (lm_timestamp m)
              (lm_is_outgoing m) (lm_status m))) msgs) (\<lambda>_.
       emit (convListUpdated (lc_peer c) (lc_last_message c) (lc_last_timestamp c) (lc_unread_count c)))))"

definition load_group :: "GroupRecord \<Rightarrow> unit C" where
  "load_group g =
     bnd (updNM (\<lambda>x. x\<lparr>groupNames := (groupNames x)(gc_groupId g \<mapsto> gc_name g)\<rparr>)) (\<lambda>_.
     bnd (loadGroupKey (gc_groupId g)) (\<lambda>storedKey.
     bnd (when_m (storedKey \<noteq> [])
       (bnd (gets (\<lambda>s. fromBase64 (lib s) (toLatin1 (lib s) storedKey))) (\<lambda>k.
        updNM (\<lambda>x. x\<lparr>groupKeys := (groupKeys x)(gc_groupId g \<mapsto> k)\<rparr>)))) (\<lambda>_.
     bnd (loadGroupMessages (gc_groupId g)) (\<lambda>msgs.
     bnd (for_each (\<lambda>m. emit (groupHistorySyncMessage (lx_group_id m) (lx_sender m) (lx_content m)
            (lx_timestamp m) (lx_is_outgoing m) (lx_status m))) msgs) (\<lambda>_.
     emit (groupConvUpdated (gc_groupId g) (gc_name g) (gc_lastMessage g) (gc_lastTimestamp g) (gc_unreadCount g)))))))"

definition loadLocalHistory :: "unit C" where
  "loadLocalHistory =
     bnd loadConversations (\<lambda>convs.
     bnd (for_each load_conversation convs) (\<lambda>_.
     bnd loadGroups (for_each load_group)))"

definition handleLoginAck :: "Packet \<Rightarrow> unit C" where
  "handleLoginAck p =
     bnd (updNM (\<lambda>x. x\<lparr>hasError := False\<rparr>)) (\<lambda>_.
     bnd (getNM currentUsername) (\<lambda>previous.
     bnd (updNM (\<lambda>x. x\<lparr>currentUsername := pto p, lastMessage := ''Logged in as '' @ pto p\<rparr>)) (\<lambda>_.
     bnd (emit currentUsernameChanged) (\<lambda>_.
     bnd (when_m (previous \<noteq> [] \<and> previous \<noteq> pto p) LocalStorage_close) (\<lambda>_.
     bnd (openForUser (pto p)) (\<lambda>_.
     bnd (getNM pendingRegister) (\<lambda>reg.
     bnd (when_m reg (bnd (settings_remove (''history/'' @ pto p)) (\<lambda>_.
            updNM (\<lambda>x. x\<lparr>pendingRegister := False\<rparr>)))) (\<lambda>_.
     bnd (catch_all
        (bnd loadOrGenerateKeypair (\<lambda>_.
         bnd (getNM ownPubKey) (\<lambda>pub.
         bnd (gets (\<lambda>s. toBase64 (lib s) pub)) (\<lambda>k.
         bnd (sendPacket ((new_packet KEY_EXCHANGE)\<lparr>pfrom := pto p, pkey := k\<rparr>)) (\<lambda>_. retn True)))))
        (\<lambda>e. bnd (show_error (''Key setup failed: '' @ what e)) (\<lambda>_. retn False))) (\<lambda>ok.
     if ok then bnd loadLocalHistory (\<lambda>_. sendSyncHistory) else retn ())))))))))"

definition logout :: "unit C" where
  "logout =
     bnd LocalStorage_close (\<lambda>_.
     bnd (updNM (\<lambda>x. x\<lparr>currentUsername := [], ownPrivKey := [], ownPubKey := [], peerKeys := Map.empty,
            pendingMessages := Map.empty, unreadTimestamps := Map.empty, groupKeys := Map.empty\<rparr>)) (\<lambda>_.
     emit currentUsernameChanged))"

section \<open>Incoming direct messages\<close>

text \<open>\<open>keyField.left(keySep)\<close> and \<open>keyField.mid(keySep + 1)\<close>, or the whole field.\<close>

definition recipient_segment :: "string \<Rightarrow> string" where
  "recipient_segment k = (case split_at CHR '';'' k of None \<Rightarrow> k | Some (a, b) \<Rightarrow> a)"

definition sender_segment :: "string \<Rightarrow> string" where
  "sender_segment k = (case split_at CHR '';'' k of None \<Rightarrow> k | Some (a, b) \<Rightarrow> b)"

text \<open>\<open>p.timestamp.empty() ? currentDateTimeUtc() : canonical(p.timestamp)\<close>\<close>

definition packet_time :: "Packet \<Rightarrow> string C" where
  "packet_time p = (if ptimestamp p = [] then utcNow else canonicalC (ptimestamp p))"

text \<open>Unwrapping the AES key with the own private key.\<close>

definition unwrap_key :: "string \<Rightarrow> string C" where
  "unwrap_key k =
     bnd (gets (\<lambda>s. fromBase64 (lib s) (toLatin1 (lib s) k))) (\<lambda>wrapped.
     bnd (getNM ownPrivKey) (\<lambda>priv. decryptRSA wrapped priv))"

definition open_message :: "string \<Rightarrow> Packet \<Rightarrow> string C" where
  "open_message k p = bnd (unwrap_key k) (\<lambda>aesKey. Crypto_decrypt (pbody p) aesKey)"

definition store_echo :: "string \<Rightarrow> string \<Rightarrow> string \<Rightarrow> string \<Rightarrow> unit C" where
  "store_echo peer me content ts =
     bnd (persistMessage peer me content ts True) (\<lambda>_. emit (historySyncMessage peer me content ts True ''sent''))"

definition handle_echo :: "Packet \<Rightarrow> string \<Rightarrow> string \<Rightarrow> unit C" where
  "handle_echo p me ts =
     (if pto p = me then retn ()
      else bnd (isDuplicate (pto p) me ts) (\<lambda>dup.
        if dup then retn ()
        else bnd (getNM ownPrivKey) (\<lambda>priv.
          if sender_segment (pkey p) = [] \<or> priv = [] then store_echo (pto p) me ''[Sent]'' ts
          else catch_all
            (bnd (open_message (sender_segment (pkey p)) p) (\<lambda>plaintext. store_echo (pto p) me plaintext ts))
            (\<lambda>_. store_echo (pto p) me ''[Sent]'' ts))))"

definition handle_received :: "Packet \<Rightarrow> string \<Rightarrow> string \<Rightarrow> unit C" where
  "handle_received p me ts =
     catch_all
       (bnd (open_message (recipient_segment (pkey p)) p) (\<lambda>plaintext.
        if pfrom p = me then retn ()
        else bnd (isDuplicate (pfrom p) (pfrom p) ts) (\<lambda>dup.
          if dup then retn ()
          else
            bnd (persistMessage (pfrom p) (pfrom p) plaintext ts False) (\<lambda>_.
            bnd (updNM (\<lambda>x. x\<lparr>unreadTimestamps := qappend (pfrom p) ts (unreadTimestamps x)\<rparr>)) (\<lambda>_.
            emit (messageDecrypted (pfrom p) plaintext ts))))))
       (\<lambda>_. if pfrom p = me then retn ()
            else bnd (isDuplicate (pfrom p) (pfrom p) ts) (\<lambda>dup.
              if dup then retn ()
              else
                bnd (persistMessage (pfrom p) (pfrom p) ''[Encrypted]'' ts False) (\<lambda>_.
                emit (messageDecrypted (pfrom p) ''[Encrypted]'' ts))))"

definition handleIncomingMessage :: "Packet \<Rightarrow> unit C" where
  "handleIncomingMessage p =
     bnd (packet_time p) (\<lambda>ts.
     bnd (getNM currentUsername) (\<lambda>me.
     if perrorMsg p = ''1'' then handle_echo p me ts
     else bnd (getNM ownPrivKey) (\<lambda>priv. if priv = [] then retn () else handle_received p me ts)))"

section \<open>Receipts\<close>

definition recomputeGroupAggregate :: "string \<Rightarrow> string \<Rightarrow> unit C" where
  "recomputeGroupAggregate groupId ts =
     bnd (recipientCount groupId ts) (\<lambda>n.
     if n = 0 then retn ()
     else bnd (allRecipientsSeen groupId ts) (\<lambda>seen.
       if seen then
         bnd (updateGroupMessageStatus groupId ts ''seen'') (\<lambda>_. emit (messageSeen groupId ts))
       else bnd (allRecipientsDelivered groupId ts) (\<lambda>delivered.
         when_m delivered
           (bnd (updateGroupMessageStatus groupId ts ''delivered'') (\<lambda>_. emit (groupMessageDelivered groupId ts))))))"

text \<open>\<open>^\d+$\<close>, where \<open>$\<close> also matches before a final newline.\<close>

definition numeric_text :: "string \<Rightarrow> bool" where
  "numeric_text t =
     (let d = (if t \<noteq> [] \<and> last t = CHR 0x0A then butlast t else t) in d \<noteq> [] \<and> list_all isdigit d)"

definition handleReadReceipt :: "Packet \<Rightarrow> unit C" where
  "handleReadReceipt p =
     bnd (canonicalC (pbody p)) (\<lambda>ts.
     if numeric_text (pto p) then
       bnd (markRecipientSeen (pto p) ts (pfrom p)) (\<lambda>_.
       bnd (emit (groupReceiptUpdated (pto p) ts)) (\<lambda>_. recomputeGroupAggregate (pto p) ts))
     else emit (messageSeen (pfrom p) ts))"

definition handleGroupSendAck :: "Packet \<Rightarrow> unit C" where
  "handleGroupSendAck p =
     bnd (canonicalC (ptimestamp p)) (\<lambda>ts.
     let members = qsplit CHR '';'' (pkey p) in
     when_m (members \<noteq> []) (saveRecipientSnapshot (perrorMsg p) ts members))"

definition handleGroupDelivered :: "Packet \<Rightarrow> unit C" where
  "handleGroupDelivered p =
     bnd (canonicalC (pbody p)) (\<lambda>ts.
     bnd (markRecipientDelivered (pto p) ts (pfrom p)) (\<lambda>_.
     bnd (emit (groupReceiptUpdated (pto p) ts)) (\<lambda>_. recomputeGroupAggregate (pto p) ts)))"

definition groupMessageReceipts :: "string \<Rightarrow> string \<Rightarrow> (string \<times> bool \<times> bool) list C" where
  "groupMessageReceipts groupId timestamp = recipientStates groupId timestamp"

section \<open>Group keys and group messages\<close>

definition requestGroupKey :: "string \<Rightarrow> unit C" where
  "requestGroupKey groupId =
     bnd (getNM pendingGroupKeyRequests) (\<lambda>reqs.
     if groupId \<in> set reqs then retn ()
     else
       bnd (updNM (\<lambda>x. x\<lparr>pendingGroupKeyRequests := groupId # pendingGroupKeyRequests x\<rparr>)) (\<lambda>_.
       bnd (packet_from_me GROUP_KEY_EXCHANGE) (\<lambda>p. sendPacket (p\<lparr>pto := groupId\<rparr>))))"

text \<open>Queueing a message, or buffering a packet, until the key of the group arrives.\<close>

definition queue_group_send :: "string \<Rightarrow> string \<Rightarrow> string \<Rightarrow> unit C" where
  "queue_group_send groupId plaintext timestamp =
     bnd (updNM (\<lambda>x. x\<lparr>pendingGroupSends := qappend groupId (plaintext, timestamp) (pendingGroupSends x)\<rparr>)) (\<lambda>_.
     requestGroupKey groupId)"

definition buffer_group_packet :: "Packet \<Rightarrow> unit C" where
  "buffer_group_packet p =
     bnd (updNM (\<lambda>x. x\<lparr>pendingGroupPackets := qappend (pto p) p (pendingGroupPackets x)\<rparr>)) (\<lambda>_.
     requestGroupKey (pto p))"

text \<open>The \<open>try\<close> blocks of the two methods below, with the key of the group.\<close>

definition send_with_key :: "string \<Rightarrow> string \<Rightarrow> string \<Rightarrow> string \<Rightarrow> unit C" where
  "send_with_key groupId plaintext timestamp aesKey =
     catch_all
       (bnd (Crypto_encrypt plaintext aesKey) (\<lambda>ciphertext.
        bnd (timestamp_or_now timestamp) (\<lambda>ts.
        bnd (packet_from_me GROUP_MESSAGE) (\<lambda>p.
        bnd (sendPacket (p\<lparr>pto := groupId, pbody := ciphertext, ptimestamp := ts\<rparr>)) (\<lambda>_.
        bnd (getNM currentUsername) (\<lambda>me. saveGroupMessage groupId me plaintext ts True))))))
       (\<lambda>e. show_error (''sendGroupMessage failed: '' @ what e))"

definition sendGroupMessage :: "string \<Rightarrow> string \<Rightarrow> string \<Rightarrow> unit C" where
  "sendGroupMessage groupId plaintext timestamp =
     bnd (getNM groupKeys) (\<lambda>keys. case keys groupId of
        None \<Rightarrow> queue_group_send groupId plaintext timestamp
      | Some aesKey \<Rightarrow> send_with_key groupId plaintext timestamp aesKey)"

text \<open>The key of the group, from memory or from the cache; \<open>None\<close> after buffering the packet.\<close>

definition group_key_or_buffer :: "Packet \<Rightarrow> string option C" where
  "group_key_or_buffer p =
     bnd (getNM groupKeys) (\<lambda>keys. case keys (pto p) of
        Some k \<Rightarrow> retn (Some k)
      | None \<Rightarrow>
          bnd (loadGroupKey (pto p)) (\<lambda>stored.
          if stored = [] then bnd (buffer_group_packet p) (\<lambda>_. retn None)
          else
            bnd (gets (\<lambda>s. fromBase64 (lib s) (toLatin1 (lib s) stored))) (\<lambda>k.
            bnd (updNM (\<lambda>x. x\<lparr>groupKeys := (groupKeys x)(pto p \<mapsto> k)\<rparr>)) (\<lambda>_. retn (Some k)))))"

definition receive_with_key :: "Packet \<Rightarrow> string \<Rightarrow> string option \<Rightarrow> unit C" where
  "receive_with_key p ts key =
     (case key of
        None \<Rightarrow> retn ()
      | Some aesKey \<Rightarrow>
          bnd (getNM currentUsername) (\<lambda>me.
          bnd (when_m (pfrom p \<noteq> me)
            (sendPacket ((new_packet ACK)\<lparr>pfrom := me, pto := pto p, pbody := ts, perrorMsg := ''delivered''\<rparr>))) (\<lambda>_.
          bnd (isGroupMessageDuplicate (pto p) (pfrom p) ts) (\<lambda>dup.
          if dup then retn ()
          else
            bnd (Crypto_decrypt (pbody p) aesKey) (\<lambda>plaintext.
            bnd (saveGroupMessage (pto p) (pfrom p) plaintext ts (pfrom p = me)) (\<lambda>_.
            bnd (when_m (pfrom p \<noteq> me)
              (updNM (\<lambda>x. x\<lparr>unreadTimestamps := qappend (pto p) ts (unreadTimestamps x)\<rparr>))) (\<lambda>_.
            emit (groupMessageDecrypted (pto p) (pfrom p) plaintext ts (pfrom p = me)))))))))"

definition handleGroupMessage :: "Packet \<Rightarrow> unit C" where
  "handleGroupMessage p =
     bnd (packet_time p) (\<lambda>ts.
     catch_all (bnd (group_key_or_buffer p) (receive_with_key p ts)) (\<lambda>_. retn ()))"

text \<open>Packets and sends that were waiting for the key of the group.\<close>

definition drain_group :: "string \<Rightarrow> unit C" where
  "drain_group groupId =
     bnd (getNM (\<lambda>x. pendingGroupPackets x groupId)) (\<lambda>buffered.
     bnd (case buffered of None \<Rightarrow> retn () | Some ps \<Rightarrow>
        bnd (updNM (\<lambda>x. x\<lparr>pendingGroupPackets := (pendingGroupPackets x)(groupId := None)\<rparr>)) (\<lambda>_.
        for_each handleGroupMessage ps)) (\<lambda>_.
     bnd (getNM (\<lambda>x. pendingGroupSends x groupId)) (\<lambda>sends. case sends of
        None \<Rightarrow> retn ()
      | Some ms \<Rightarrow>
          bnd (updNM (\<lambda>x. x\<lparr>pendingGroupSends := (pendingGroupSends x)(groupId := None)\<rparr>)) (\<lambda>_.
          for_each (\<lambda>(msg, ts). sendGroupMessage groupId msg ts) ms))))"

definition remember_group_key :: "string \<Rightarrow> string \<Rightarrow> unit C" where
  "remember_group_key groupId aesKey =
     bnd (gets (\<lambda>s. toBase64 (lib s) aesKey)) (\<lambda>b. saveGroupKey groupId b)"

definition forget_key_request :: "string \<Rightarrow> unit C" where
  "forget_key_request groupId =
     updNM (\<lambda>x. x\<lparr>pendingGroupKeyRequests := removeAll groupId (pendingGroupKeyRequests x)\<rparr>)"

definition handleGroupInvite :: "Packet \<Rightarrow> unit C" where
  "handleGroupInvite p =
     (let groupId = pbody p; groupName = perrorMsg p in
     catch_all
       (bnd (unwrap_key (pkey p)) (\<lambda>aesKey.
        bnd (updNM (\<lambda>x. x\<lparr>groupKeys := (groupKeys x)(groupId \<mapsto> aesKey),
               groupNames := (groupNames x)(groupId \<mapsto> groupName)\<rparr>)) (\<lambda>_.
        bnd (saveGroup groupId groupName ''member'') (\<lambda>_.
        bnd (remember_group_key groupId aesKey) (\<lambda>_.
        bnd (emit (groupInviteReceived groupId groupName)) (\<lambda>_.
        bnd (forget_key_request groupId) (\<lambda>_.
        bnd (emit (groupKeyUpdated groupId)) (\<lambda>_. drain_group groupId))))))))
       (\<lambda>_. retn ()))"

definition handleGroupKeyExchange :: "Packet \<Rightarrow> unit C" where
  "handleGroupKeyExchange p =
     (let groupId = pto p in
     catch_all
       (bnd (unwrap_key (pkey p)) (\<lambda>aesKey.
        bnd (updNM (\<lambda>x. x\<lparr>groupKeys := (groupKeys x)(groupId \<mapsto> aesKey)\<rparr>)) (\<lambda>_.
        bnd (remember_group_key groupId aesKey) (\<lambda>_.
        bnd (forget_key_request groupId) (\<lambda>_.
        bnd (emit (groupKeyUpdated groupId)) (\<lambda>_. drain_group groupId))))))
       (\<lambda>_. retn ()))"

section \<open>Creating and managing groups\<close>

definition key_part :: "library \<Rightarrow> string \<times> string \<Rightarrow> string" where
  "key_part l e = fst e @ '':'' @ toBase64 l (snd e)"

definition sendCreateGroupPacket :: "PendingGroupCreate \<Rightarrow> unit C" where
  "sendCreateGroupPacket pending =
     bnd (gets (\<lambda>s. map (key_part (lib s)) (pg_collectedKeys pending))) (\<lambda>keyParts.
     bnd (packet_from_me CREATE_GROUP) (\<lambda>p.
     sendPacket (p\<lparr>perrorMsg := pg_name pending, pbody := qjoin '','' (pg_members pending), pkey := qjoin '';'' keyParts\<rparr>)))"

text \<open>The loop over the members: wrap the key for those whose public key is known, ask for the others.\<close>

primrec collect_keys :: "string list \<Rightarrow> PendingGroupCreate \<Rightarrow> PendingGroupCreate C" where
  "collect_keys [] pending = retn pending"
| "collect_keys (m # ms) pending =
     bnd (getNM peerKeys) (\<lambda>keys. case keys m of
        Some pk \<Rightarrow>
          bnd (encryptRSA (pg_aesKey pending) pk) (\<lambda>w.
          collect_keys ms (pending\<lparr>pg_collectedKeys := qinsert m w (pg_collectedKeys pending)\<rparr>))
      | None \<Rightarrow>
          bnd (fetchPeerKey m) (\<lambda>_.
          collect_keys ms (pending\<lparr>pg_waitingFor := pg_waitingFor pending @ [m]\<rparr>)))"

text \<open>A creation whose keys are complete is sent, another one waits.\<close>

definition finish_creation :: "PendingGroupCreate \<Rightarrow> unit C" where
  "finish_creation pending =
     (if pg_waitingFor pending = [] then sendCreateGroupPacket pending
      else updNM (\<lambda>x. x\<lparr>pendingGroupCreations := pendingGroupCreations x @ [pending]\<rparr>))"

definition createGroup :: "string \<Rightarrow> string list \<Rightarrow> unit C" where
  "createGroup name members =
     catch_all
       (bnd generateAESKey (\<lambda>aesKey.
        bnd (updNM (\<lambda>x. x\<lparr>groupKeys := (groupKeys x)(''0'' \<mapsto> aesKey)\<rparr>)) (\<lambda>_.
        bnd (getNM ownPubKey) (\<lambda>pub.
        bnd (getNM currentUsername) (\<lambda>me.
        bnd (if pub \<noteq> [] then bnd (encryptRSA aesKey pub) (\<lambda>w. retn [(me, w)]) else retn []) (\<lambda>own.
        bnd (collect_keys members \<lparr>pg_name = name, pg_members = members, pg_aesKey = aesKey,
               pg_collectedKeys = own, pg_waitingFor = []\<rparr>) finish_creation))))))
       (\<lambda>e. show_error (''createGroup failed: '' @ what e))"

definition kickMember :: "string \<Rightarrow> string \<Rightarrow> unit C" where
  "kickMember groupId username =
     bnd (packet_from_me GROUP_LEAVE) (\<lambda>p. sendPacket (p\<lparr>pto := groupId, pbody := username\<rparr>))"

definition addGroupMember :: "string \<Rightarrow> string \<Rightarrow> unit C" where
  "addGroupMember groupId username =
     bnd (getNM peerKeys) (\<lambda>peers. case peers username of
        None \<Rightarrow>
          bnd (updNM (\<lambda>x. x\<lparr>pendingGroupMemberAdds := qappend username groupId (pendingGroupMemberAdds x)\<rparr>)) (\<lambda>_.
          fetchPeerKey username)
      | Some pk \<Rightarrow>
          bnd (getNM groupKeys) (\<lambda>keys. case keys groupId of
             None \<Rightarrow> retn ()
           | Some aesKey \<Rightarrow>
               catch_all
                 (bnd (encryptRSA aesKey pk) (\<lambda>enc.
                  bnd (gets (\<lambda>s. key_part (lib s) (username, enc))) (\<lambda>k.
                  bnd (packet_from_me GROUP_KEY_EXCHANGE) (\<lambda>p. sendPacket (p\<lparr>pto := groupId, pkey := k\<rparr>)))))
                 (\<lambda>_. retn ())))"

definition grantAdmin :: "string \<Rightarrow> string \<Rightarrow> unit C" where
  "grantAdmin groupId username =
     bnd (packet_from_me GROUP_INFO) (\<lambda>p. sendPacket (p\<lparr>pto := groupId, pbody := ''grant_admin'', pkey := username\<rparr>))"

definition revokeAdmin :: "string \<Rightarrow> string \<Rightarrow> unit C" where
  "revokeAdmin groupId username =
     bnd (packet_from_me GROUP_INFO) (\<lambda>p. sendPacket (p\<lparr>pto := groupId, pbody := ''revoke_admin'', pkey := username\<rparr>))"

definition leaveGroup :: "string \<Rightarrow> unit C" where
  "leaveGroup groupId = bnd (packet_from_me GROUP_LEAVE) (\<lambda>p. sendPacket (p\<lparr>pto := groupId\<rparr>))"

definition deleteGroup :: "string \<Rightarrow> unit C" where
  "deleteGroup groupId = bnd (packet_from_me DELETE_GROUP) (\<lambda>p. sendPacket (p\<lparr>pto := groupId\<rparr>))"

definition fetchGroupInfo :: "string \<Rightarrow> unit C" where
  "fetchGroupInfo groupId = bnd (packet_from_me GROUP_INFO) (\<lambda>p. sendPacket (p\<lparr>pto := groupId\<rparr>))"

definition getGroupName :: "string \<Rightarrow> string C" where
  "getGroupName groupId = getNM (\<lambda>x. case groupNames x groupId of None \<Rightarrow> groupId | Some n \<Rightarrow> n)"

definition deleteConversation :: "string \<Rightarrow> unit C" where
  "deleteConversation peer = bnd (LS_deleteConversation peer) (\<lambda>_. emit (conversationDeleted peer))"

definition deleteConversationForEveryone :: "string \<Rightarrow> unit C" where
  "deleteConversationForEveryone peer =
     bnd (LS_deleteConversation peer) (\<lambda>_.
     bnd (emit (conversationDeleted peer)) (\<lambda>_.
     bnd (packet_from_me DELETE_CONVERSATION) (\<lambda>p. sendPacket (p\<lparr>pto := peer\<rparr>))))"

definition rotateGroupKey :: "string \<Rightarrow> unit C" where
  "rotateGroupKey groupId =
     catch_all
       (bnd generateAESKey (\<lambda>newKey.
        bnd (updNM (\<lambda>x. x\<lparr>groupKeys := (groupKeys x)(groupId \<mapsto> newKey)\<rparr>)) (\<lambda>_.
        bnd (remember_group_key groupId newKey) (\<lambda>_. fetchGroupInfo groupId))))
       (\<lambda>_. retn ())"

definition member_entry :: "string \<Rightarrow> (string \<times> string) list" where
  "member_entry entry = (case split_at CHR '':'' entry of None \<Rightarrow> [] | Some (a, b) \<Rightarrow> [(a, b)])"

definition handleGroupInfo :: "Packet \<Rightarrow> unit C" where
  "handleGroupInfo p =
     (let groupId = pbody p; groupName = perrorMsg p in
     bnd (getNM groupKeys) (\<lambda>keys.
     bnd (case keys ''0'' of None \<Rightarrow> retn () | Some k \<Rightarrow>
        bnd (updNM (\<lambda>x. x\<lparr>groupKeys := (groupKeys x)(''0'' := None, groupId \<mapsto> k)\<rparr>)) (\<lambda>_.
        remember_group_key groupId k)) (\<lambda>_.
     bnd (saveGroup groupId groupName ''creator'') (\<lambda>_.
     bnd (updNM (\<lambda>x. x\<lparr>groupNames := (groupNames x)(groupId \<mapsto> groupName)\<rparr>)) (\<lambda>_.
     let members = concat (map member_entry (qsplit CHR '';'' (pkey p))) in
     bnd (removeRecipientsNotIn groupId (map fst members)) (\<lambda>affected.
     bnd (for_each (\<lambda>t. bnd (emit (groupReceiptUpdated groupId t)) (\<lambda>_. recomputeGroupAggregate groupId t)) affected) (\<lambda>_.
     emit (groupInfoReceived groupId groupName members))))))))"

definition handleGroupLeave :: "Packet \<Rightarrow> unit C" where
  "handleGroupLeave p =
     (if pbody p = ''rotate'' then rotateGroupKey (pkey p)
      else
        bnd (updNM (\<lambda>x. x\<lparr>groupKeys := (groupKeys x)(pbody p := None),
               groupNames := (groupNames x)(pbody p := None)\<rparr>)) (\<lambda>_.
        bnd (removeGroup (pbody p)) (\<lambda>_. emit (groupLeft (pbody p)))))"

definition handleDeleteConversation :: "Packet \<Rightarrow> unit C" where
  "handleDeleteConversation p = bnd (LS_deleteConversation (pfrom p)) (\<lambda>_. emit (conversationDeleted (pfrom p)))"

section \<open>A public key arrives\<close>

primrec map_m :: "('a \<Rightarrow> 'b C) \<Rightarrow> 'a list \<Rightarrow> 'b list C" where
  "map_m f [] = retn []"
| "map_m f (x # xs) = bnd (f x) (\<lambda>y. bnd (map_m f xs) (\<lambda>ys. retn (y # ys)))"

definition supply_key :: "string \<Rightarrow> string \<Rightarrow> PendingGroupCreate \<Rightarrow> PendingGroupCreate C" where
  "supply_key peer pubKey pg =
     (if peer \<in> set (pg_waitingFor pg) then
        let pg' = pg\<lparr>pg_waitingFor := remove1 peer (pg_waitingFor pg)\<rparr> in
        catch_all
          (bnd (encryptRSA (pg_aesKey pg') pubKey) (\<lambda>w.
           retn (pg'\<lparr>pg_collectedKeys := qinsert peer w (pg_collectedKeys pg')\<rparr>)))
          (\<lambda>_. retn pg')
      else retn pg)"

definition handleKeyExchangeResponse :: "Packet \<Rightarrow> unit C" where
  "handleKeyExchangeResponse p =
     (let peer = pfrom p in
     bnd (gets (\<lambda>s. fromBase64 (lib s) (pkey p))) (\<lambda>pubKey.
     bnd (updNM (\<lambda>x. x\<lparr>peerKeys := (peerKeys x)(peer \<mapsto> pubKey)\<rparr>)) (\<lambda>_.
     bnd (gets (\<lambda>s. fromUtf8 (lib s) pubKey)) (\<lambda>shown.
     bnd (emit (peerKeyReceived peer shown)) (\<lambda>_.
     bnd (getNM (\<lambda>x. pendingMessages x peer)) (\<lambda>waiting.
     bnd (case waiting of None \<Rightarrow> retn () | Some ms \<Rightarrow>
        bnd (updNM (\<lambda>x. x\<lparr>pendingMessages := (pendingMessages x)(peer := None)\<rparr>)) (\<lambda>_.
        for_each (\<lambda>(msg, ts). encryptAndSend peer msg ts) ms)) (\<lambda>_.
     bnd (getNM (\<lambda>x. pendingGroupMemberAdds x peer)) (\<lambda>adds.
     bnd (case adds of None \<Rightarrow> retn () | Some gids \<Rightarrow>
        bnd (updNM (\<lambda>x. x\<lparr>pendingGroupMemberAdds := (pendingGroupMemberAdds x)(peer := None)\<rparr>)) (\<lambda>_.
        for_each (\<lambda>gid. addGroupMember gid peer) gids)) (\<lambda>_.
     bnd (getNM pendingGroupCreations) (\<lambda>pgs.
     bnd (map_m (supply_key peer pubKey) pgs) (\<lambda>pgs'.
     bnd (for_each (\<lambda>pg. when_m (pg_waitingFor pg = []) (sendCreateGroupPacket pg)) pgs') (\<lambda>_.
     updNM (\<lambda>x. x\<lparr>pendingGroupCreations := filter (\<lambda>pg. pg_waitingFor pg \<noteq> []) pgs'\<rparr>)))))))))))))"

section \<open>Socket events\<close>

definition handleAck :: "Packet \<Rightarrow> unit C" where
  "handleAck p =
     bnd (updNM (\<lambda>x. x\<lparr>hasError := False\<rparr>)) (\<lambda>_.
     bnd (getNM currentUsername) (\<lambda>me.
     bnd (if perrorMsg p = ''delivered'' then handleGroupDelivered p
          else if perrorMsg p \<noteq> [] \<and> ptimestamp p \<noteq> [] then handleGroupSendAck p
          else if pbody p \<noteq> [] then handleLoginAck p
          else if ptimestamp p \<noteq> [] then bnd (canonicalC (ptimestamp p)) (\<lambda>ts. emit (messageDelivered ts))
          else when_m (pto p = me) (emit syncComplete)) (\<lambda>_.
     emit lastMessageChanged)))"

definition handlePacket :: "Packet \<Rightarrow> unit C" where
  "handlePacket p =
     (case ptype p of
        ERR \<Rightarrow> show_error (perrorMsg p)
      | ACK \<Rightarrow> handleAck p
      | MESSAGE \<Rightarrow> handleIncomingMessage p
      | KEY_EXCHANGE \<Rightarrow> handleKeyExchangeResponse p
      | READ_RECEIPT \<Rightarrow> handleReadReceipt p
      | GROUP_INVITE \<Rightarrow> handleGroupInvite p
      | GROUP_MESSAGE \<Rightarrow> handleGroupMessage p
      | GROUP_KEY_EXCHANGE \<Rightarrow> handleGroupKeyExchange p
      | GROUP_INFO \<Rightarrow> handleGroupInfo p
      | GROUP_LEAVE \<Rightarrow> handleGroupLeave p
      | DELETE_CONVERSATION \<Rightarrow> handleDeleteConversation p
      | _ \<Rightarrow> retn ())"

text \<open>
  A text frame.  The extraction throws on an unknown packet type and nothing catches it.
  \<open>t0\<close> is the indeterminate local of the extraction, as on the server.
\<close>

definition onTextMessageReceived :: "int \<Rightarrow> string \<Rightarrow> unit C" where
  "onTextMessageReceived t0 message =
     (case read_packet t0 (istream_of message) of
        (Inl e, _) \<Rightarrow> thr e
      | (Inr p, ss) \<Rightarrow>
          if ifail ss then
            bnd (updNM (\<lambda>x. x\<lparr>hasError := False, lastMessage := message\<rparr>)) (\<lambda>_.
            bnd (emit lastMessageChanged) (\<lambda>_. emit (messageReceived message)))
          else bnd (handlePacket p) (\<lambda>_. emit (messageReceived message)))"

definition onConnected :: "unit C" where
  "onConnected =
     bnd (updNM (\<lambda>x. x\<lparr>intentionallyConnecting := False\<rparr>)) (\<lambda>_.
     bnd (updSock (\<lambda>k. k\<lparr>so_pinging := True\<rparr>)) (\<lambda>_.
     bnd (emit connectionChanged) (\<lambda>_. emit connected)))"

definition onDisconnected :: "unit C" where
  "onDisconnected =
     bnd (updNM (\<lambda>x. x\<lparr>intentionallyConnecting := False\<rparr>)) (\<lambda>_.
     bnd (updSock (\<lambda>k. k\<lparr>so_pinging := False\<rparr>)) (\<lambda>_.
     bnd (emit connectionChanged) (\<lambda>_.
     bnd (emit disconnected) (\<lambda>_.
     bnd (getNM currentUsername) (\<lambda>me.
     bnd (when_m (me \<noteq> []) (bnd (updNM (\<lambda>x. x\<lparr>currentUsername := []\<rparr>)) (\<lambda>_. emit currentUsernameChanged))) (\<lambda>_.
     bnd (getNM serverUrl) (\<lambda>url.
     when_m (url \<noteq> []) (updSock (\<lambda>k. k\<lparr>so_reconnects := Suc (so_reconnects k)\<rparr>)))))))))"

text \<open>The single-shot timer started by \<open>onDisconnected\<close>.\<close>

definition onReconnectTimer :: "unit C" where
  "onReconnectTimer =
     bnd (updSock (\<lambda>k. k\<lparr>so_reconnects := so_reconnects k - 1\<rparr>)) (\<lambda>_.
     bnd isConnected (\<lambda>c.
     bnd (getNM serverUrl) (\<lambda>url.
     when_m (\<not> c) (updSock (\<lambda>k. k\<lparr>so_opened := so_opened k @ [url]\<rparr>)))))"

definition onSslErrors :: "string list \<Rightarrow> unit C" where
  "onSslErrors errors =
     (case errors of
        [] \<Rightarrow> retn ()
      | e # _ \<Rightarrow>
          bnd (updSock (\<lambda>k. k\<lparr>so_verifies_peer := False\<rparr>)) (\<lambda>_.
          bnd (updNM (\<lambda>x. x\<lparr>hasError := True, lastMessage := e\<rparr>)) (\<lambda>_.
          bnd (emit lastMessageChanged) (\<lambda>_. emit (errorOcurred e)))))"

definition onReachabilityChanged :: "bool \<Rightarrow> unit C" where
  "onReachabilityChanged online =
     bnd isConnected (\<lambda>c.
     bnd (getNM serverUrl) (\<lambda>url.
     bnd (getNM intentionallyConnecting) (\<lambda>connecting.
     if \<not> online then updSock (\<lambda>k. k\<lparr>so_connected := False\<rparr>)
     else when_m (\<not> c \<and> url \<noteq> [] \<and> \<not> connecting) (updSock (\<lambda>k. k\<lparr>so_opened := so_opened k @ [url]\<rparr>)))))"

end
