(* ===== verification/ClientSystem.thy ===== *)
theory ClientSystem
  imports ClientNetwork
begin

text \<open>
  The client as a transition system: the calls of the user interface, the events of the socket
  and of its timers, in any order, and the invariant that every one of them keeps.
\<close>

section \<open>Events\<close>

datatype client_event =
    Connect_to string | Register string string | Login string string | Logout
  | Send string string string | Fetch_key string | Sync | Mark_read string
  | Create_group string "string list" | Send_group string string string | Kick string string
  | Add_member string string | Grant string string | Revoke string string | Leave string
  | Delete_group string | Group_info string | Delete_conv string | Delete_conv_all string
  | Frame int string | Socket_up | Socket_down | Reconnect | Ssl_errors "string list" | Reachability bool

fun client_turn :: "client_event \<Rightarrow> unit C" where
  "client_turn (Connect_to url) = connectToServer url"
| "client_turn (Register u pw) = sendRegister u pw"
| "client_turn (Login u pw) = sendLogin u pw"
| "client_turn Logout = logout"
| "client_turn (Send to m ts) = sendMessage to m ts"
| "client_turn (Fetch_key u) = fetchPeerKey u"
| "client_turn Sync = sendSyncHistory"
| "client_turn (Mark_read p) = markConversationRead p"
| "client_turn (Create_group n ms) = createGroup n ms"
| "client_turn (Send_group g m ts) = sendGroupMessage g m ts"
| "client_turn (Kick g u) = kickMember g u"
| "client_turn (Add_member g u) = addGroupMember g u"
| "client_turn (Grant g u) = grantAdmin g u"
| "client_turn (Revoke g u) = revokeAdmin g u"
| "client_turn (Leave g) = leaveGroup g"
| "client_turn (Delete_group g) = deleteGroup g"
| "client_turn (Group_info g) = fetchGroupInfo g"
| "client_turn (Delete_conv p) = deleteConversation p"
| "client_turn (Delete_conv_all p) = deleteConversationForEveryone p"
| "client_turn (Frame t0 m) = onTextMessageReceived t0 m"
| "client_turn Socket_up = bnd (updSock (\<lambda>k. k\<lparr>so_connected := True\<rparr>)) (\<lambda>_. onConnected)"
| "client_turn Socket_down = bnd (updSock (\<lambda>k. k\<lparr>so_connected := False\<rparr>)) (\<lambda>_. onDisconnected)"
| "client_turn Reconnect = onReconnectTimer"
| "client_turn (Ssl_errors es) = onSslErrors es"
| "client_turn (Reachability b) = onReachabilityChanged b"

inductive client_step :: "client \<Rightarrow> client \<Rightarrow> bool" where
  turn: "client_turn ev s = (Inr (), t) \<Longrightarrow> client_step s t"

inductive_cases client_stepE: "client_step s t"

section \<open>Calls that return\<close>

definition nothrow :: "'a C \<Rightarrow> bool" where
  "nothrow m \<longleftrightarrow> (\<forall>s. wp m (\<lambda>_ _. True) (\<lambda>_ _. False) s)"

named_theorems nt \<open>rules of \<open>nothrow\<close>\<close>

lemma nothrow_wp: "nothrow m \<Longrightarrow> wp m Q E s \<Longrightarrow> wp m Q (\<lambda>_ _. False) s"
  by (auto simp: nothrow_def dest!: spec [of _ s] elim: wp_mono dest: wp_conj)

lemma nothrow_rules [nt]:
  "nothrow (retn x)" "nothrow (gets f)" "nothrow (upd g)" "nothrow (getNM h)" "nothrow (updNM k)"
  "nothrow (updSock l)" "nothrow (emit y)" "nothrow next_call" "nothrow (updChat c)" "nothrow (updConv v)"
  by (simp_all add: nothrow_def wp)

lemma nothrow_bnd [nt]: "nothrow m \<Longrightarrow> (\<And>x. nothrow (f x)) \<Longrightarrow> nothrow (bnd m f)"
  unfolding nothrow_def wp_bnd by (intro allI, rule wp_mono [of m "\<lambda>_ _. True" "\<lambda>_ _. False"]) simp_all

lemma nothrow_cases [nt]:
  "(b \<Longrightarrow> nothrow m) \<Longrightarrow> (\<not> b \<Longrightarrow> nothrow n) \<Longrightarrow> nothrow (if b then m else n)"
  "nothrow n \<Longrightarrow> (\<And>y. nothrow (f y)) \<Longrightarrow> nothrow (case o' of None \<Rightarrow> n | Some y \<Rightarrow> f y)"
  "(\<And>y z. nothrow (g y z)) \<Longrightarrow> nothrow (case pr of (y, z) \<Rightarrow> g y z)"
  "nothrow n \<Longrightarrow> (\<And>y ys. nothrow (h y ys)) \<Longrightarrow> nothrow (case l of [] \<Rightarrow> n | y # ys \<Rightarrow> h y ys)"
  by (simp_all split: option.split prod.split list.split)

lemma nothrow_when [nt]: "nothrow m \<Longrightarrow> nothrow (when_m b m)"
  by (cases b) (simp_all add: nothrow_rules)

lemma nothrow_for_each [nt]: "(\<And>x. nothrow (f x)) \<Longrightarrow> nothrow (for_each f xs)"
  by (induction xs) (simp_all add: nothrow_rules nothrow_bnd)

lemma nothrow_catch [nt]: "(\<And>e. nothrow (h e)) \<Longrightarrow> nothrow (catch_all m h)"
  by (auto simp: nothrow_def catch_all_def wp_catch_if intro!: wpI)

lemma nothrow_lists [nt]:
  "(\<And>x. nothrow (f x)) \<Longrightarrow> nothrow (filter_m f xs)" "(\<And>x. nothrow (h x)) \<Longrightarrow> nothrow (map_m h ys)"
  by (induction xs, simp_all add: nt) (induction ys, simp_all add: nt)

lemma nothrow_sql [nt]: "nothrow (ls_exec need f)" "nothrow (ls_write need g)" "nothrow (ls_read need d h)"
proof -
  show 1: "nothrow (ls_exec need f)" for need f
    by (auto simp: nothrow_def wp_ls_exec Let_def split: option.splits)
  show "nothrow (ls_write need g)" "nothrow (ls_read need d h)"
    unfolding ls_write_def ls_read_def by (intro nt 1)+
qed

lemmas storage_defs = saveMessage_def updateMessageStatus_def loadMessages_def saveConversation_def loadConversations_def
  incrementUnread_def resetUnread_def newestTimestamp_def isDuplicate_def LS_deleteConversation_def
  saveGroupMessage_def loadGroupMessages_def updateGroupMessageStatus_def saveGroupKey_def loadGroupKey_def
  saveGroup_def incrementGroupUnread_def resetGroupUnread_def loadGroups_def isGroupMessageDuplicate_def
  removeGroup_def clearAllData_def saveRecipientSnapshot_def markRecipientDelivered_def markRecipientSeen_def
  recipientCount_def allRecipientsDelivered_def allRecipientsSeen_def all_recipients_def recipientStates_def
  removeRecipientsNotIn_def

lemma nothrow_storage [nt]:
  "nothrow (saveMessage p u c t b st)" "nothrow (loadMessages p)" "nothrow (saveConversation p c t)"
  "nothrow loadConversations" "nothrow newestTimestamp" "nothrow (isDuplicate p u t)"
  "nothrow (LS_deleteConversation p)" "nothrow (saveGroupMessage g u c t b)" "nothrow (loadGroupMessages g)"
  "nothrow (updateGroupMessageStatus g t st)" "nothrow (saveGroupKey g k)" "nothrow (loadGroupKey g)"
  "nothrow (saveGroup g n r)" "nothrow loadGroups" "nothrow (isGroupMessageDuplicate g u t)"
  "nothrow (removeGroup g)" "nothrow (saveRecipientSnapshot g t ms)" "nothrow (markRecipientDelivered g t m)"
  "nothrow (markRecipientSeen g t m)" "nothrow (recipientCount g t)" "nothrow (allRecipientsDelivered g t)"
  "nothrow (allRecipientsSeen g t)" "nothrow (removeRecipientsNotIn g ms)"
  unfolding storage_defs Let_def by (intro nt)+

lemma nothrow_open [nt]: "nothrow (openForUser u)" "nothrow LocalStorage_close"
  unfolding openForUser_def LocalStorage_close_def createSchema_def require_def create_table_def
    create_unique_index_def add_column_def
  by (intro nt)+

lemma nothrow_send [nt]:
  "nothrow (sendPacket p)" "nothrow (show_error m)" "nothrow utcNow" "nothrow (canonicalC x)"
  "nothrow (packet_from_me t)" "nothrow isConnected" "nothrow (fetchPeerKey u)" "nothrow sendSyncHistory"
  "nothrow (persistMessage q u c t' b)" "nothrow (timestamp_or_now t')" "nothrow (packet_time p)"
  "nothrow (requestGroupKey g)" "nothrow (store_echo a b' c' d)" "nothrow (fetchGroupInfo g)"
  unfolding sendPacket_def show_error_def utcNow_def canonicalC_def packet_from_me_def isConnected_def fetchPeerKey_def
    sendSyncHistory_def persistMessage_def timestamp_or_now_def packet_time_def requestGroupKey_def store_echo_def
    fetchGroupInfo_def
  by (intro nt)+

lemma nothrow_client [nt]:
  "nothrow (encryptAndSend q m t)" "nothrow (sendMessage q m t)" "nothrow (handleLoginAck p)"
  "nothrow (handleIncomingMessage p)" "nothrow (recomputeGroupAggregate g t)" "nothrow (handleReadReceipt p)"
  "nothrow (handleGroupSendAck p)" "nothrow (handleGroupDelivered p)" "nothrow (sendGroupMessage g m t)"
  "nothrow (handleGroupMessage p)" "nothrow (drain_group g)" "nothrow (handleGroupInvite p)"
  "nothrow (handleGroupKeyExchange p)" "nothrow (sendCreateGroupPacket pg)" "nothrow (createGroup n ms)"
  "nothrow (addGroupMember g u)" "nothrow (rotateGroupKey g)" "nothrow (handleGroupInfo p)"
  "nothrow (handleGroupLeave p)" "nothrow (handleDeleteConversation p)" "nothrow (supply_key u k pg)"
  "nothrow (handleKeyExchangeResponse p)" "nothrow logout" "nothrow (handleAck p)"
  unfolding encryptAndSend_def sendMessage_def handleLoginAck_def loadLocalHistory_def load_conversation_def
    load_group_def settings_remove_def handleIncomingMessage_def handle_echo_def handle_received_def
    recomputeGroupAggregate_def handleReadReceipt_def handleGroupSendAck_def handleGroupDelivered_def
    sendGroupMessage_def queue_group_send_def send_with_key_def handleGroupMessage_def drain_group_def
    handleGroupInvite_def handleGroupKeyExchange_def sendCreateGroupPacket_def createGroup_def addGroupMember_def
    rotateGroupKey_def handleGroupInfo_def remember_group_key_def handleGroupLeave_def handleDeleteConversation_def
    finish_creation_def supply_key_def handleKeyExchangeResponse_def logout_def handleAck_def Let_def
  by (intro nt)+

section \<open>The invariant\<close>

text \<open>
  Whatever waits for a group key waits for a key that has been asked for, buffered packets are
  filed under their group, and a creation is pending only while some member's key is missing.
\<close>

definition waiting_ok :: "string set \<Rightarrow> NetworkManager \<Rightarrow> bool" where
  "waiting_ok X x \<longleftrightarrow>
     (dom (pendingGroupPackets x) \<union> dom (pendingGroupSends x)) - X \<subseteq> set (pendingGroupKeyRequests x)
     \<and> (\<forall>g ps. pendingGroupPackets x g = Some ps \<longrightarrow> list_all (\<lambda>p. pto p = g) ps)
     \<and> list_all (\<lambda>pg. pg_waitingFor pg \<noteq> []) (pendingGroupCreations x)"

definition client_ok :: "client \<Rightarrow> bool" where
  "client_ok s \<longleftrightarrow> storage_ok s \<and> waiting_ok {} (nm s)"

text \<open>Steps that leave the waiting lists alone and lose no group key.\<close>

definition plain :: "client \<Rightarrow> client \<Rightarrow> bool" where
  "plain s t \<longleftrightarrow>
     (storage_ok s \<longrightarrow> storage_ok t)
     \<and> pendingGroupPackets (nm t) = pendingGroupPackets (nm s)
     \<and> pendingGroupSends (nm t) = pendingGroupSends (nm s)
     \<and> pendingGroupKeyRequests (nm t) = pendingGroupKeyRequests (nm s)
     \<and> pendingGroupCreations (nm t) = pendingGroupCreations (nm s)
     \<and> dom (groupKeys (nm s)) \<subseteq> dom (groupKeys (nm t))"

interpretation pl: step_preorder plain
proof
  show "plain s s" for s by (simp add: plain_def)
  show "plain s u" if "plain s t" "plain t u" for s t u
    using that unfolding plain_def by (elim conjE) (intro conjI; simp?; blast)
qed

lemma plain_ls: "keeps ls_step m \<Longrightarrow> keeps plain m"
  by (erule keeps_weaken) (simp add: plain_def ls_step_simps ls_step_okD)

lemma plain_called: "keeps called m \<Longrightarrow> keeps plain m"
  by (rule plain_ls) (erule keeps_weaken, rule called_ls_step)

lemma plain_basic:
  "keeps plain (emit x)" "keeps plain (updSock k)" "keeps plain (getNM f)" "keeps plain isConnected"
  "keeps plain (settings_bytes a)" "keeps plain (settings_set a b)" "keeps plain (settings_remove a)"
  "keeps plain (packet_from_me t)"
  by (auto simp: keeps_def plain_def emit_def updSock_def getNM_def isConnected_def settings_bytes_def
      settings_set_def settings_remove_def packet_from_me_def storage_ok_def)

lemma plain_updNM:
  assumes "\<And>x. pendingGroupPackets (f x) = pendingGroupPackets x \<and> pendingGroupSends (f x) = pendingGroupSends x
    \<and> pendingGroupKeyRequests (f x) = pendingGroupKeyRequests x
    \<and> pendingGroupCreations (f x) = pendingGroupCreations x \<and> dom (groupKeys x) \<subseteq> dom (groupKeys (f x))"
  shows "keeps plain (updNM f)"
  using assms by (simp add: keeps_def updNM_def plain_def storage_ok_def)

lemma catch_all_pl: "keeps plain m \<Longrightarrow> (\<And>e. keeps plain (h e)) \<Longrightarrow> keeps plain (catch_all m h)"
  unfolding catch_all_def by (rule pl.k_catch_if)

lemmas plain_rules = pl.rules plain_basic plain_called [OF engine_cl(1)] plain_called [OF engine_cl(2)]
  plain_called [OF engine_cl(3)] plain_called [OF engine_cl(4)] plain_called [OF engine_cl(5)]
  plain_called [OF engine_cl(6)] plain_called [OF utcNow_cl] plain_called [OF canonicalC_cl] catch_all_pl

lemmas plain_storage = messages_step [THEN plain_ls] groups_step [THEN plain_ls] recipients_step [THEN plain_ls]

lemma plain_send: "keeps plain (sendPacket p)" "keeps plain (show_error m)"
  unfolding sendPacket_def show_error_def by (intro plain_rules plain_updNM; simp)+

lemma plain_simple:
  "keeps plain (connectToServer url)" "keeps plain (sendRegister u pw)" "keeps plain (sendLogin u pw)"
  "keeps plain (fetchPeerKey u)" "keeps plain sendSyncHistory" "keeps plain (markConversationRead q)"
  "keeps plain (persistMessage q u c t b)" "keeps plain (timestamp_or_now t)"
  "keeps plain (kickMember g u)" "keeps plain (grantAdmin g u)" "keeps plain (revokeAdmin g u)"
  "keeps plain (leaveGroup g)" "keeps plain (deleteGroup g)" "keeps plain (fetchGroupInfo g)"
  "keeps plain (deleteConversation q)" "keeps plain (deleteConversationForEveryone q)"
  "keeps plain onConnected" "keeps plain onDisconnected" "keeps plain onReconnectTimer"
  "keeps plain (onSslErrors es)" "keeps plain (onReachabilityChanged on)"
  unfolding connectToServer_def sendRegister_def sendLogin_def fetchPeerKey_def sendSyncHistory_def
    markConversationRead_def persistMessage_def timestamp_or_now_def kickMember_def grantAdmin_def revokeAdmin_def
    leaveGroup_def deleteGroup_def fetchGroupInfo_def deleteConversation_def deleteConversationForEveryone_def
    onConnected_def onDisconnected_def onReconnectTimer_def onSslErrors_def onReachabilityChanged_def
  by (intro plain_rules plain_send plain_storage plain_updNM; simp)+

lemma plain_open: "keeps plain (openForUser u)" "keeps plain LocalStorage_close"
proof -
  show c: "keeps plain LocalStorage_close"
    by (simp add: keeps_def LocalStorage_close_def plain_def storage_ok_def)
  have "keeps plain (ls_write [] (\<lambda>a. a))" by (intro plain_ls ls_write_step)
  then show "keeps plain (openForUser u)"
    unfolding openForUser_def
    by (intro plain_rules c plain_ls [OF createSchema_step] plain_called [OF next_call_cl] pl.k_upd)
      (auto simp: plain_def storage_ok_def empty_account_ok)
qed

lemma plain_login:
  "keeps plain loadOrGenerateKeypair" "keeps plain (load_conversation c)" "keeps plain (load_group g)"
  "keeps plain loadLocalHistory" "keeps plain (handleLoginAck p)"
proof -
  show 1: "keeps plain loadOrGenerateKeypair" unfolding loadOrGenerateKeypair_def
    by (intro plain_rules plain_updNM) simp_all
  show 2: "keeps plain (load_conversation c)" for c unfolding load_conversation_def
    by (intro plain_rules plain_storage)
  show 3: "keeps plain (load_group g)" for g unfolding load_group_def
    by (intro plain_rules plain_storage plain_updNM) auto
  show 4: "keeps plain loadLocalHistory" unfolding loadLocalHistory_def
    by (intro plain_rules plain_storage 2 3)
  show "keeps plain (handleLoginAck p)" unfolding handleLoginAck_def
    by (intro plain_rules plain_send plain_simple plain_open 1 4 plain_updNM) simp_all
qed

lemma plain_messages:
  "keeps plain (encryptAndSend q m t)" "keeps plain (sendMessage q m t)" "keeps plain (unwrap_key k)"
  "keeps plain (packet_time p)" "keeps plain (handleIncomingMessage p)" "keeps plain (handleDeleteConversation p)"
proof -
  show 1: "keeps plain (encryptAndSend q m t)" for q m t unfolding encryptAndSend_def
    by (intro plain_rules plain_send plain_simple plain_updNM) simp_all
  show "keeps plain (sendMessage q m t)" unfolding sendMessage_def
    by (intro plain_rules plain_simple 1 plain_updNM) simp_all
  show 2: "keeps plain (unwrap_key k)" for k unfolding unwrap_key_def by (intro plain_rules)
  show 3: "keeps plain (packet_time p)" unfolding packet_time_def by (intro plain_rules)
  have 4: "keeps plain (store_echo a b c d)" for a b c d unfolding store_echo_def
    by (intro plain_rules plain_simple)
  show "keeps plain (handleIncomingMessage p)"
    unfolding handleIncomingMessage_def handle_echo_def handle_received_def open_message_def
    by (intro plain_rules plain_storage plain_simple 2 3 4 plain_updNM) simp_all
  show "keeps plain (handleDeleteConversation p)" unfolding handleDeleteConversation_def
    by (intro plain_rules plain_storage)
qed

lemma plain_receipts:
  "keeps plain (recomputeGroupAggregate g t)" "keeps plain (handleReadReceipt p)"
  "keeps plain (handleGroupSendAck p)" "keeps plain (handleGroupDelivered p)"
proof -
  show 1: "keeps plain (recomputeGroupAggregate g t)" for g t unfolding recomputeGroupAggregate_def
    by (intro plain_rules plain_storage)
  show "keeps plain (handleReadReceipt p)" "keeps plain (handleGroupSendAck p)" "keeps plain (handleGroupDelivered p)"
    unfolding handleReadReceipt_def handleGroupSendAck_def handleGroupDelivered_def Let_def
    by (intro plain_rules plain_storage 1)+
qed

lemma plain_groups:
  "keeps plain (remember_group_key g k)" "keeps plain (sendCreateGroupPacket pg)" "keeps plain (collect_keys ms pg)"
  "keeps plain (addGroupMember g u)" "keeps plain (rotateGroupKey g)" "keeps plain (supply_key u k pg)"
  "keeps plain (map_m (supply_key u k) pgs)"
proof -
  show 1: "keeps plain (remember_group_key g k)" for k unfolding remember_group_key_def
    by (intro plain_rules plain_storage)
  show "keeps plain (sendCreateGroupPacket pg)" unfolding sendCreateGroupPacket_def
    by (intro plain_rules plain_send)
  show "keeps plain (collect_keys ms pg)"
    by (induction ms arbitrary: pg) (auto intro!: plain_rules plain_simple)
  show "keeps plain (addGroupMember g u)" unfolding addGroupMember_def
    by (intro plain_rules plain_send plain_simple plain_updNM) simp_all
  show "keeps plain (rotateGroupKey g)" unfolding rotateGroupKey_def
    by (intro plain_rules plain_simple 1 plain_updNM) auto
  show 2: "keeps plain (supply_key u k pg)" for pg unfolding supply_key_def Let_def
    by (intro plain_rules)
  show "keeps plain (map_m (supply_key u k) pgs)"
    by (induction pgs) (auto intro!: plain_rules 2)
qed

section \<open>Waiting for keys\<close>

lemma plain_waiting: "plain s t \<Longrightarrow> waiting_ok X (nm t) = waiting_ok X (nm s)"
  by (simp add: plain_def waiting_ok_def)

lemma plain_ok: "keeps plain m \<Longrightarrow> pres client_ok m"
  by (erule keeps_weaken) (simp add: client_ok_def plain_waiting, simp add: plain_def)

lemma updNM_ok:
  assumes "\<And>x. waiting_ok {} x \<Longrightarrow> waiting_ok {} (f x)"
  shows "pres client_ok (updNM f)"
  using assms by (simp add: keeps_def updNM_def client_ok_def storage_ok_def)

text \<open>Asking for a key repairs the invariant for what was just filed under the group.\<close>

lemma requestGroupKey_wp:
  assumes "storage_ok s" "waiting_ok {g} (nm s)"
  shows "wp (requestGroupKey g) (\<lambda>_. client_ok) (\<lambda>_. client_ok) s"
proof -
  have *: "client_ok t" if "plain (s\<lparr>nm := (nm s)\<lparr>pendingGroupKeyRequests := g # pendingGroupKeyRequests (nm s)\<rparr>\<rparr>) t" for t
    using that assms unfolding client_ok_def
    by (intro conjI) (simp add: plain_def storage_ok_def, subst plain_waiting, assumption, auto simp: waiting_ok_def)
  have k: "keeps plain (bnd (packet_from_me GROUP_KEY_EXCHANGE) (\<lambda>p. sendPacket (p\<lparr>pto := g\<rparr>)))"
    by (intro plain_rules plain_send)
  show ?thesis
  proof (cases "g \<in> set (pendingGroupKeyRequests (nm s))")
    case True
    then show ?thesis using assms by (auto simp: requestGroupKey_def wp client_ok_def waiting_ok_def)
  next
    case False
    show ?thesis
      unfolding requestGroupKey_def wp_bnd [of "getNM _"] wp_getNM
      using False by (simp add: wp_bnd [of "updNM _"] wp_client)
        (rule wp_mono [OF keeps_wpD [OF k]]; erule *)
  qed
qed

lemma waiting_ok_append:
  "waiting_ok {} x \<Longrightarrow> waiting_ok {g} (x\<lparr>pendingGroupSends := qappend g m (pendingGroupSends x)\<rparr>)"
  "waiting_ok {} x \<Longrightarrow> pto p = g \<Longrightarrow> waiting_ok {g} (x\<lparr>pendingGroupPackets := qappend g p (pendingGroupPackets x)\<rparr>)"
  by (auto simp: waiting_ok_def qappend_def qvalue_def split: option.splits)

lemma waiting_ops_ok: "pres client_ok (queue_group_send g m t)" "pres client_ok (buffer_group_packet p)"
proof -
  have "wp (requestGroupKey g) (\<lambda>_. client_ok) (\<lambda>_. client_ok)
      (s\<lparr>nm := (nm s)\<lparr>pendingGroupSends := qappend g (m, t) (pendingGroupSends (nm s))\<rparr>\<rparr>)" if "client_ok s" for s
    using that by (intro requestGroupKey_wp) (auto simp: client_ok_def storage_ok_def intro: waiting_ok_append)
  then show "pres client_ok (queue_group_send g m t)"
    by (intro pres_wpI) (simp add: queue_group_send_def wp_bnd wp_client)
  have "wp (requestGroupKey (pto p)) (\<lambda>_. client_ok) (\<lambda>_. client_ok)
      (s\<lparr>nm := (nm s)\<lparr>pendingGroupPackets := qappend (pto p) p (pendingGroupPackets (nm s))\<rparr>\<rparr>)" if "client_ok s" for s
    using that by (intro requestGroupKey_wp) (auto simp: client_ok_def storage_ok_def intro: waiting_ok_append)
  then show "pres client_ok (buffer_group_packet p)"
    by (intro pres_wpI) (simp add: buffer_group_packet_def wp_bnd wp_client)
qed

text \<open>With the key at hand, sending and receiving in the group leave the waiting lists alone.\<close>

lemma with_key_plain: "keeps plain (send_with_key g m t k)" "keeps plain (receive_with_key p ts key)"
  unfolding send_with_key_def receive_with_key_def
  by (intro plain_rules plain_simple plain_send plain_storage plain_updNM; simp)+

lemma sendGroupMessage_ok: "pres client_ok (sendGroupMessage g m t)"
  unfolding sendGroupMessage_def
  by (intro inv.rules waiting_ops_ok plain_ok [OF plain_basic(3)] plain_ok [OF with_key_plain(1)])

lemma catch_all_ok: "pres client_ok m \<Longrightarrow> (\<And>e. pres client_ok (h e)) \<Longrightarrow> pres client_ok (catch_all m h)"
  unfolding catch_all_def by (rule inv.k_catch_if)

lemma group_key_or_buffer_ok: "pres client_ok (group_key_or_buffer p)"
  unfolding group_key_or_buffer_def
  by (intro inv.rules waiting_ops_ok plain_ok [OF plain_basic(3)] plain_ok [OF plain_storage(15)]
      plain_ok [OF plain_updNM]) auto

lemma handleGroupMessage_ok: "pres client_ok (handleGroupMessage p)"
  unfolding handleGroupMessage_def
  by (intro inv.rules catch_all_ok group_key_or_buffer_ok plain_ok [OF plain_messages(4)] plain_ok [OF with_key_plain(2)])

section \<open>Draining\<close>

lemma with_key_steps:
  assumes "g \<in> dom (groupKeys (nm s))"
  shows "wp (sendGroupMessage g m t) (\<lambda>_. plain s) (\<lambda>_. plain s) s"
    and "pto p = g \<Longrightarrow> wp (handleGroupMessage p) (\<lambda>_. plain s) (\<lambda>_. plain s) s"
proof -
  from assms obtain k where k: "groupKeys (nm s) g = Some k" by blast
  show "wp (sendGroupMessage g m t) (\<lambda>_. plain s) (\<lambda>_. plain s) s"
    unfolding sendGroupMessage_def wp_bnd wp_getNM k option.case by (rule keeps_wpD [OF with_key_plain(1)])
  assume p: "pto p = g"
  have in_t: "wp (catch_all (bnd (group_key_or_buffer p) (receive_with_key p ts)) (\<lambda>_. retn ())) (\<lambda>_. plain s) (\<lambda>_. plain s) t"
    if t: "plain s t" for ts t
  proof -
    from t k obtain k' where k': "groupKeys (nm t) g = Some k'" by (auto simp: plain_def)
    then have "wp (bnd (group_key_or_buffer p) (receive_with_key p ts)) (\<lambda>_. plain s) (\<lambda>_. plain s) t"
      unfolding group_key_or_buffer_def bnd_assoc wp_bnd [of "getNM _"] wp_getNM
      using p by simp (rule wp_mono [OF keeps_wpD [OF with_key_plain(2)]]; erule pl.R_trans [OF t])
    then show ?thesis unfolding catch_all_def wp_catch_if by (rule wp_mono) (simp_all add: wp)
  qed
  show "wp (handleGroupMessage p) (\<lambda>_. plain s) (\<lambda>_. plain s) s"
    unfolding handleGroupMessage_def wp_bnd [of "packet_time _"]
    by (rule wp_mono [OF keeps_wpD [OF plain_messages(4)]]) (auto intro: in_t)
qed

lemma drain_loop:
  assumes "g \<in> dom (groupKeys (nm s))"
    and "\<And>x t. x \<in> set xs \<Longrightarrow> g \<in> dom (groupKeys (nm t)) \<Longrightarrow> wp (f x) (\<lambda>_. plain t) (\<lambda>_. plain t) t"
  shows "wp (for_each f xs) (\<lambda>_. plain s) (\<lambda>_. plain s) s"
proof (rule wp_for_each [where I = "\<lambda>_. plain s"])
  show "plain s s" by (rule pl.R_refl)
  fix x ys t
  assume "plain s t" "x \<in> set xs"
  moreover from this assms(1) have "g \<in> dom (groupKeys (nm t))" by (auto simp: plain_def)
  ultimately show "wp (f x) (\<lambda>_. plain s) (\<lambda>_. plain s) t"
    using assms(2) [of x t] by (auto elim!: wp_mono intro: pl.R_trans)
qed

lemma plain_case_option:
  assumes "wp m (\<lambda>_. plain s) (\<lambda>_. plain s) s" "I s" "\<And>t. plain s t \<Longrightarrow> I t"
  shows "wp m (\<lambda>_. I) (\<lambda>_. I) s"
  using assms(1) by (rule wp_mono) (auto intro: assms(3))

lemma waiting_ok_drop:
  "waiting_ok X x \<Longrightarrow> waiting_ok X (x\<lparr>pendingGroupPackets := (pendingGroupPackets x)(g := None)\<rparr>)"
  "waiting_ok X x \<Longrightarrow> waiting_ok X (x\<lparr>pendingGroupSends := (pendingGroupSends x)(g := None)\<rparr>)"
  by (auto simp: waiting_ok_def)

lemma drain_group_wp:
  assumes "storage_ok s" "waiting_ok {g} (nm s)" "g \<in> dom (groupKeys (nm s))"
  shows "wp (drain_group g) (\<lambda>_. client_ok) (\<lambda>_. client_ok) s"
proof -
  define J where "J t \<longleftrightarrow> storage_ok t \<and> waiting_ok {g} (nm t) \<and> g \<in> dom (groupKeys (nm t))
      \<and> pendingGroupPackets (nm t) g = None" for t
  have plain_J: "J u" if "J t" "plain t u" for t u
    using that plain_waiting [OF that(2)] by (auto simp: J_def plain_def)
  have sends: "wp (case pendingGroupSends (nm t) g of None \<Rightarrow> retn () | Some ms \<Rightarrow>
        bnd (updNM (\<lambda>x. x\<lparr>pendingGroupSends := (pendingGroupSends x)(g := None)\<rparr>)) (\<lambda>_.
        for_each (\<lambda>(msg, ts). sendGroupMessage g msg ts) ms)) (\<lambda>_. client_ok) (\<lambda>_. client_ok) t" if t: "J t" for t
  proof (cases "pendingGroupSends (nm t) g")
    case None
    with t show ?thesis by (auto simp: wp J_def client_ok_def waiting_ok_def)
  next
    case (Some ms)
    let ?u = "t\<lparr>nm := (nm t)\<lparr>pendingGroupSends := (pendingGroupSends (nm t))(g := None)\<rparr>\<rparr>"
    have "client_ok ?u" using t by (auto simp: J_def client_ok_def storage_ok_def waiting_ok_def)
    moreover have "wp (for_each (\<lambda>(msg, ts). sendGroupMessage g msg ts) ms) (\<lambda>_. plain ?u) (\<lambda>_. plain ?u) ?u"
      by (rule drain_loop) (use t in \<open>auto simp: J_def intro: with_key_steps\<close>)
    ultimately show ?thesis
      using Some plain_ok [of "retn ()", OF pl.k_retn]
      by (auto simp: wp_bnd wp_client client_ok_def plain_waiting elim!: wp_mono) (auto simp: plain_def)
  qed
  have packets: "wp (case pendingGroupPackets (nm s) g of None \<Rightarrow> retn () | Some ps \<Rightarrow>
        bnd (updNM (\<lambda>x. x\<lparr>pendingGroupPackets := (pendingGroupPackets x)(g := None)\<rparr>)) (\<lambda>_.
        for_each handleGroupMessage ps)) (\<lambda>_. J) (\<lambda>_. J) s"
  proof (cases "pendingGroupPackets (nm s) g")
    case None
    with assms show ?thesis by (simp add: wp J_def)
  next
    case (Some ps)
    let ?u = "s\<lparr>nm := (nm s)\<lparr>pendingGroupPackets := (pendingGroupPackets (nm s))(g := None)\<rparr>\<rparr>"
    have u: "J ?u" using assms by (auto simp: J_def storage_ok_def intro: waiting_ok_drop)
    have "list_all (\<lambda>p. pto p = g) ps" using assms(2) Some by (auto simp: waiting_ok_def)
    then have "wp (for_each handleGroupMessage ps) (\<lambda>_. plain ?u) (\<lambda>_. plain ?u) ?u"
      by (intro drain_loop) (use u in \<open>auto simp: J_def list_all_iff intro: with_key_steps\<close>)
    with Some show ?thesis by (auto simp: wp_bnd wp_client elim!: wp_mono intro: plain_J [OF u])
  qed
  have never: "nothrow (case pendingGroupPackets (nm s) g of None \<Rightarrow> retn () | Some ps \<Rightarrow>
        bnd (updNM (\<lambda>x. x\<lparr>pendingGroupPackets := (pendingGroupPackets x)(g := None)\<rparr>)) (\<lambda>_.
        for_each handleGroupMessage ps))"
    by (intro nt)
  show ?thesis
    unfolding drain_group_def wp_bnd [of "getNM _"] wp_getNM wp_bnd [of "case_option _ _ _"]
    by (rule wp_mono [OF nothrow_wp [OF never packets]]) (auto simp: wp_bnd [of "getNM _"] wp_getNM intro: sends)
qed

section \<open>Every call keeps the invariant\<close>

lemmas ok_rules = inv.rules catch_all_ok plain_ok [OF plain_basic(1)] plain_ok [OF plain_basic(3)]

text \<open>A group key has arrived: the request is settled and everything that waited for it runs.\<close>

definition key_arrived :: "string \<Rightarrow> unit C" where
  "key_arrived g =
     bnd (forget_key_request g) (\<lambda>_. bnd (emit (groupKeyUpdated g)) (\<lambda>_. drain_group g))"

lemma key_arrived_wp:
  assumes "client_ok s" "g \<in> dom (groupKeys (nm s))"
  shows "wp (key_arrived g) (\<lambda>_. client_ok) (\<lambda>_. client_ok) s"
  unfolding key_arrived_def forget_key_request_def wp_bnd [of "updNM _"] wp_bnd [of "emit _"] wp_client
  by (rule drain_group_wp) (use assms in \<open>auto simp: client_ok_def storage_ok_def waiting_ok_def\<close>)

lemma settle_key_ok:
  assumes "keeps plain m" "\<And>x. g \<in> dom (groupKeys (f x))" "\<And>x. waiting_ok {} x \<Longrightarrow> waiting_ok {} (f x)"
  shows "pres client_ok (bnd (updNM f) (\<lambda>_. bnd m (\<lambda>_. key_arrived g)))"
proof (rule pres_wpI)
  fix s
  assume s: "client_ok s"
  let ?t = "s\<lparr>nm := f (nm s)\<rparr>"
  have t: "client_ok ?t" using s assms(3) by (simp add: client_ok_def storage_ok_def)
  have "wp (bnd m (\<lambda>_. key_arrived g)) (\<lambda>_. client_ok) (\<lambda>_. client_ok) ?t"
    unfolding wp_bnd
  proof (rule wp_mono [OF keeps_wpD [OF assms(1)]])
    fix u
    assume u: "plain ?t u"
    then have "client_ok u" using t by (auto simp: client_ok_def plain_waiting) (simp add: plain_def)
    moreover have "g \<in> dom (groupKeys (nm u))" using u assms(2) [of "nm s"] by (auto simp: plain_def)
    ultimately show "wp (key_arrived g) (\<lambda>_. client_ok) (\<lambda>_. client_ok) u" "client_ok u"
      using key_arrived_wp by blast+
  qed
  then show "wp (bnd (updNM f) (\<lambda>_. bnd m (\<lambda>_. key_arrived g))) (\<lambda>_. client_ok) (\<lambda>_. client_ok) s"
    by (simp add: wp_bnd wp_client)
qed

lemma key_handlers_ok: "pres client_ok (handleGroupInvite p)" "pres client_ok (handleGroupKeyExchange p)"
proof -
  have inv: "handleGroupInvite p = catch_all
       (bnd (unwrap_key (pkey p)) (\<lambda>aesKey.
        bnd (updNM (\<lambda>x. x\<lparr>groupKeys := (groupKeys x)(pbody p \<mapsto> aesKey),
               groupNames := (groupNames x)(pbody p \<mapsto> perrorMsg p)\<rparr>)) (\<lambda>_.
        bnd (bnd (saveGroup (pbody p) (perrorMsg p) ''member'') (\<lambda>_.
             bnd (remember_group_key (pbody p) aesKey) (\<lambda>_. emit (groupInviteReceived (pbody p) (perrorMsg p))))) (\<lambda>_.
        key_arrived (pbody p))))) (\<lambda>_. retn ())"
    by (simp add: handleGroupInvite_def key_arrived_def bnd_assoc Let_def)
  show "pres client_ok (handleGroupInvite p)"
    unfolding inv by (intro ok_rules settle_key_ok plain_rules plain_groups plain_storage plain_ok [OF plain_messages(3)])
      (auto simp: waiting_ok_def)
  have gke: "handleGroupKeyExchange p = catch_all
       (bnd (unwrap_key (pkey p)) (\<lambda>aesKey.
        bnd (updNM (\<lambda>x. x\<lparr>groupKeys := (groupKeys x)(pto p \<mapsto> aesKey)\<rparr>)) (\<lambda>_.
        bnd (remember_group_key (pto p) aesKey) (\<lambda>_. key_arrived (pto p))))) (\<lambda>_. retn ())"
    by (simp add: handleGroupKeyExchange_def key_arrived_def Let_def)
  show "pres client_ok (handleGroupKeyExchange p)"
    unfolding gke by (intro ok_rules settle_key_ok plain_groups plain_ok [OF plain_messages(3)])
      (auto simp: waiting_ok_def)
qed

lemma createGroup_ok: "pres client_ok (createGroup n ms)"
proof -
  have f: "pres client_ok (finish_creation pg)" for pg
    unfolding finish_creation_def by (auto intro!: plain_ok plain_groups updNM_ok simp: waiting_ok_def)
  have g: "keeps plain (updNM (\<lambda>x. x\<lparr>groupKeys := (groupKeys x)(''0'' \<mapsto> k)\<rparr>))" for k
    by (rule plain_updNM) auto
  show ?thesis
    unfolding createGroup_def by (intro inv.k_bnd catch_all_ok f) (intro plain_ok plain_rules plain_send plain_groups g)+
qed

lemma handleKeyExchangeResponse_ok: "pres client_ok (handleKeyExchangeResponse p)"
proof -
  have f: "pres client_ok (updNM (\<lambda>x. x\<lparr>pendingGroupCreations := filter (\<lambda>pg. pg_waitingFor pg \<noteq> []) pgs\<rparr>))" for pgs
    by (rule updNM_ok) (simp add: waiting_ok_def list_all_iff)
  show ?thesis
    unfolding handleKeyExchangeResponse_def Let_def
    by (rule inv.k_bnd [OF plain_ok], intro plain_rules)+
      (intro inv.k_bnd f; intro plain_ok plain_rules plain_messages plain_groups plain_updNM; simp)+
qed

lemma losing_keys_ok:
  "pres client_ok logout" "pres client_ok (handleGroupLeave p)" "pres client_ok (handleGroupInfo p)"
proof -
  have u: "pres client_ok (updNM f)" if "\<And>x. pendingGroupPackets (f x) = pendingGroupPackets x
      \<and> pendingGroupSends (f x) = pendingGroupSends x \<and> pendingGroupKeyRequests (f x) = pendingGroupKeyRequests x
      \<and> pendingGroupCreations (f x) = pendingGroupCreations x" for f
    by (rule updNM_ok) (use that in \<open>simp add: waiting_ok_def\<close>)
  show "pres client_ok logout" unfolding logout_def
    by (intro ok_rules plain_ok [OF plain_open(2)] u) simp
  show "pres client_ok (handleGroupLeave p)" unfolding handleGroupLeave_def
    by (intro ok_rules plain_ok [OF plain_groups(5)] plain_ok [OF plain_storage(21)] u) simp
  show "pres client_ok (handleGroupInfo p)" unfolding handleGroupInfo_def Let_def
    by (intro ok_rules plain_ok [OF plain_groups(1)] plain_ok [OF plain_storage(16)] plain_ok [OF plain_storage(30)]
        plain_ok [OF plain_receipts(1)] u) simp_all
qed

lemma handlePacket_ok: "pres client_ok (handlePacket p)"
proof -
  have "pres client_ok (handleAck p)"
    unfolding handleAck_def
    by (intro plain_ok plain_rules plain_receipts plain_login plain_updNM) simp
  then show ?thesis
    unfolding handlePacket_def
    by (cases "ptype p")
      (simp_all add: key_handlers_ok handleKeyExchangeResponse_ok losing_keys_ok handleGroupMessage_ok
        plain_ok [OF plain_send(2)] plain_ok [OF plain_messages(5)] plain_ok [OF plain_messages(6)]
        plain_ok [OF plain_receipts(2)] inv.k_retn)
qed

lemma onTextMessageReceived_ok: "pres client_ok (onTextMessageReceived t0 m)"
  unfolding onTextMessageReceived_def
  by (intro ok_rules handlePacket_ok plain_ok [OF plain_updNM]) simp

lemma client_turn_ok: "pres client_ok (client_turn ev)"
  by (cases ev)
    (auto intro!: plain_ok [OF plain_simple(1)] plain_ok [OF plain_simple(2)] plain_ok [OF plain_simple(3)]
      losing_keys_ok plain_ok [OF plain_messages(2)] plain_ok [OF plain_simple(4)] plain_ok [OF plain_simple(5)]
      plain_ok [OF plain_simple(6)] createGroup_ok sendGroupMessage_ok plain_ok [OF plain_simple(9)]
      plain_ok [OF plain_groups(4)] plain_ok [OF plain_simple(10)] plain_ok [OF plain_simple(11)]
      plain_ok [OF plain_simple(12)] plain_ok [OF plain_simple(13)] plain_ok [OF plain_simple(14)]
      plain_ok [OF plain_simple(15)] plain_ok [OF plain_simple(16)] onTextMessageReceived_ok
      inv.k_bnd plain_ok [OF plain_basic(2)] plain_ok [OF plain_simple(17)] plain_ok [OF plain_simple(18)]
      plain_ok [OF plain_simple(19)] plain_ok [OF plain_simple(20)] plain_ok [OF plain_simple(21)])

section \<open>Recorded requests go out\<close>

text \<open>The frame that asks the server for the key of a group was handed to the socket.\<close>

definition key_requested :: "string \<Rightarrow> client \<Rightarrow> bool" where
  "key_requested g s \<longleftrightarrow> (\<exists>u. serialize ((new_packet GROUP_KEY_EXCHANGE)\<lparr>pfrom := u, pto := g\<rparr>) \<in> set (so_sent (sock s)))"

definition asking :: "client \<Rightarrow> client \<Rightarrow> bool" where
  "asking s t \<longleftrightarrow> prefix (so_sent (sock s)) (so_sent (sock t)) \<and> so_connected (sock t) = so_connected (sock s)
     \<and> (so_connected (sock s) \<longrightarrow>
          (\<forall>g \<in> set (pendingGroupKeyRequests (nm t)) - set (pendingGroupKeyRequests (nm s)). key_requested g t))"

interpretation ak: step_preorder asking
proof
  show "asking s s" for s by (simp add: asking_def)
  show "asking s u" if st: "asking s t" and tu: "asking t u" for s t u
  proof -
    have "key_requested g t \<Longrightarrow> key_requested g u" for g
      using tu set_mono_prefix [of "so_sent (sock t)" "so_sent (sock u)"] by (auto simp: asking_def key_requested_def)
    then show ?thesis using st tu by (auto simp: asking_def intro: prefix_order.trans)
  qed
qed

lemma ls_ask: "keeps ls_step m \<Longrightarrow> keeps asking m"
  by (erule keeps_weaken) (simp add: asking_def ls_step_simps)

lemma called_ask: "keeps called m \<Longrightarrow> keeps asking m"
  by (erule keeps_weaken) (simp add: asking_def called_simps)

lemma updNM_ask: "(\<And>x. set (pendingGroupKeyRequests (f x)) \<subseteq> set (pendingGroupKeyRequests x)) \<Longrightarrow> keeps asking (updNM f)"
  by (fastforce simp: keeps_wp wp_client asking_def)

lemma updSock_ask: "(\<And>k. prefix (so_sent k) (so_sent (f k)) \<and> so_connected (f k) = so_connected k) \<Longrightarrow> keeps asking (updSock f)"
  by (simp add: keeps_wp wp_client asking_def)

lemma basic_ask:
  "keeps asking (emit x)" "keeps asking (getNM h)" "keeps asking isConnected" "keeps asking (settings_bytes a)"
  "keeps asking (settings_set a b)" "keeps asking (settings_remove a)" "keeps asking (packet_from_me t)"
  "keeps asking LocalStorage_close"
  by (auto simp: keeps_def asking_def emit_def getNM_def isConnected_def settings_bytes_def
      settings_set_def settings_remove_def packet_from_me_def LocalStorage_close_def)

lemma catch_all_ask: "keeps asking m \<Longrightarrow> (\<And>e. keeps asking (h e)) \<Longrightarrow> keeps asking (catch_all m h)"
  unfolding catch_all_def by (rule ak.k_catch_if)

lemma map_m_ask: "(\<And>x. keeps asking (f x)) \<Longrightarrow> keeps asking (map_m f xs)"
  by (induction xs) (simp_all add: ak.rules)

lemmas ask_rules = ak.rules basic_ask catch_all_ask map_m_ask called_ask [OF engine_cl(1)] called_ask [OF engine_cl(2)]
  called_ask [OF engine_cl(3)] called_ask [OF engine_cl(4)] called_ask [OF engine_cl(5)] called_ask [OF engine_cl(6)]
  called_ask [OF utcNow_cl] called_ask [OF canonicalC_cl]
  messages_step [THEN ls_ask] groups_step [THEN ls_ask] recipients_step [THEN ls_ask]

lemma send_ask: "keeps asking (sendPacket p)" "keeps asking (show_error m)"
  unfolding sendPacket_def show_error_def by (intro ask_rules updNM_ask updSock_ask; simp)+

lemma request_ask: "keeps asking (requestGroupKey g)"
proof -
  have "wp (requestGroupKey g) (\<lambda>_. asking s) (\<lambda>_. asking s) s" for s
    by (auto simp: requestGroupKey_def packet_from_me_def sendPacket_def isConnected_def show_error_def wp asking_def key_requested_def)
  then show ?thesis by (simp add: keeps_wp)
qed

lemma open_ask: "keeps asking (openForUser u)"
proof -
  have "keeps asking (ls_write [] (\<lambda>a. a))" by (intro ls_ask ls_write_step)
  then show ?thesis
    unfolding openForUser_def
    by (intro ask_rules ls_ask [OF createSchema_step] called_ask [OF next_call_cl] ak.k_upd) (simp_all add: asking_def)
qed

lemma client_ask:
  "keeps asking (fetchPeerKey u)" "keeps asking sendSyncHistory" "keeps asking (encryptAndSend q m t)"
  "keeps asking (sendMessage q m t)" "keeps asking (sendGroupMessage g m t)" "keeps asking (handleGroupMessage p)"
  "keeps asking (drain_group g)" "keeps asking (addGroupMember g u)" "keeps asking (recomputeGroupAggregate g t)"
  "keeps asking (sendCreateGroupPacket pg)" "keeps asking (collect_keys ms pg)"
proof -
  show 1: "keeps asking (fetchPeerKey u)" "keeps asking sendSyncHistory" "keeps asking (encryptAndSend q m t)" for u q m t
    unfolding fetchPeerKey_def sendSyncHistory_def encryptAndSend_def timestamp_or_now_def persistMessage_def
    by (intro ask_rules send_ask updNM_ask; simp)+
  show "keeps asking (sendMessage q m t)"
    unfolding sendMessage_def by (intro ask_rules 1 updNM_ask) simp
  show 2: "keeps asking (sendGroupMessage g m t)" "keeps asking (handleGroupMessage p)" for g m t p
    unfolding sendGroupMessage_def queue_group_send_def send_with_key_def handleGroupMessage_def packet_time_def
      group_key_or_buffer_def buffer_group_packet_def receive_with_key_def timestamp_or_now_def
    by (intro ask_rules send_ask request_ask updNM_ask; simp)+
  show "keeps asking (drain_group g)"
    unfolding drain_group_def by (intro ask_rules 2 updNM_ask; simp)
  show "keeps asking (addGroupMember g u)"
    unfolding addGroupMember_def by (intro ask_rules 1 send_ask updNM_ask; simp)
  show "keeps asking (recomputeGroupAggregate g t)"
    unfolding recomputeGroupAggregate_def by (intro ask_rules)
  show "keeps asking (sendCreateGroupPacket pg)"
    unfolding sendCreateGroupPacket_def by (intro ask_rules send_ask)
  show "keeps asking (collect_keys ms pg)"
    by (induction ms arbitrary: pg) (auto intro!: ask_rules 1 split: option.split)
qed

lemma frame_ask: "keeps asking (onTextMessageReceived t0 m)"
proof -
  have 1: "keeps asking (handleGroupInvite p)" "keeps asking (handleGroupKeyExchange p)" "keeps asking (handleKeyExchangeResponse p)" for p
    unfolding handleGroupInvite_def handleGroupKeyExchange_def handleKeyExchangeResponse_def unwrap_key_def remember_group_key_def
      forget_key_request_def supply_key_def Let_def
    by (intro ask_rules client_ask updNM_ask; auto)+
  have 2: "keeps asking (handleLoginAck p)" "keeps asking (handleIncomingMessage p)" for p
    unfolding handleLoginAck_def loadOrGenerateKeypair_def loadLocalHistory_def load_conversation_def load_group_def
      handleIncomingMessage_def handle_echo_def handle_received_def store_echo_def packet_time_def open_message_def unwrap_key_def
      persistMessage_def
    by (intro ask_rules client_ask open_ask send_ask updNM_ask; simp)+
  have 3: "keeps asking (handleGroupInfo p)" "keeps asking (handleGroupLeave p)" "keeps asking (handleDeleteConversation p)"
    "keeps asking (handleReadReceipt p)" "keeps asking (handleGroupDelivered p)" "keeps asking (handleGroupSendAck p)" for p
    unfolding handleGroupInfo_def handleGroupLeave_def handleDeleteConversation_def rotateGroupKey_def remember_group_key_def
      fetchGroupInfo_def handleReadReceipt_def handleGroupDelivered_def handleGroupSendAck_def Let_def
    by (intro ask_rules client_ask send_ask updNM_ask; simp)+
  have "keeps asking (handlePacket p)" for p
    unfolding handlePacket_def handleAck_def
    by (cases "ptype p") (auto intro!: ask_rules 1 2 3 client_ask(6) send_ask updNM_ask)
  then show ?thesis
    unfolding onTextMessageReceived_def by (auto intro!: ask_rules updNM_ask split: prod.split sum.split)
qed

lemma turn_ask: "keeps asking (client_turn ev) \<or> keeps plain (client_turn ev)"
proof (cases ev)
  case (Create_group n ms)
  have "keeps asking (createGroup n ms)"
    unfolding createGroup_def finish_creation_def by (intro ask_rules client_ask send_ask updNM_ask; simp)
  then show ?thesis by (simp add: Create_group)
next
  case Logout
  have "keeps asking logout" unfolding logout_def by (intro ask_rules updNM_ask) simp
  then show ?thesis by (simp add: Logout)
qed (auto simp: frame_ask client_ask plain_simple plain_basic intro: pl.k_bnd)

section \<open>Properties\<close>

text \<open>
  C17. Whatever the user does and whatever the server and the network send, in any order and with
  any failures of SQLite and OpenSSL: the account databases keep their keys unique, a recipient
  marked as having seen a message is marked as having got it, unread counts stay
  non-negative, every group for which a packet or a message waits is recorded in
  \<open>pendingGroupKeyRequests\<close>, and a group creation is pending only while it waits for some member's key.  A step that
  newly records a group while the client is connected has handed the request for the key to the socket; while it is not connected
  the group is recorded although nothing is sent.
\<close>

theorem client_invariant:
  assumes "rtranclp client_step s t" "client_ok s"
  shows "storage_ok t \<and> waiting_ok {} (nm t)
    \<and> (\<forall>u g. client_step t u \<and> so_connected (sock t)
         \<and> g \<in> set (pendingGroupKeyRequests (nm u)) - set (pendingGroupKeyRequests (nm t)) \<longrightarrow> key_requested g u)"
proof -
  have "client_ok t"
    using assms
  proof (induction rule: rtranclp_induct)
    case (step u v)
    then show ?case using client_turn_ok by (auto elim!: client_stepE dest: keepsD)
  qed
  moreover have "key_requested g u"
    if "client_step t u" "so_connected (sock t)" "g \<in> set (pendingGroupKeyRequests (nm u)) - set (pendingGroupKeyRequests (nm t))" for u g
  proof -
    from that(1) obtain ev where "client_turn ev t = (Inr (), u)" by (cases rule: client_step.cases) auto
    then have "asking t u \<or> plain t u" using turn_ask [of ev] by (auto dest: keepsD)
    then show ?thesis using that(2,3) by (auto simp: asking_def plain_def)
  qed
  ultimately show ?thesis by (auto simp: client_ok_def)
qed

text \<open>Witness of C17: a message for a group whose key is unknown is queued, and the connected client asks for the key.\<close>

lemma client_invariant_witness:
  "\<exists>t. client_step example_client t \<and> pendingGroupSends (nm t) ''7'' = Some [(''hi'', ''t1'')]
     \<and> ''7'' \<in> set (pendingGroupKeyRequests (nm t)) \<and> key_requested ''7'' t"
proof -
  obtain t where t: "client_turn (Send_group ''7'' ''hi'' ''t1'') example_client = (Inr (), t)"
      "pendingGroupSends (nm t) ''7'' = Some [(''hi'', ''t1'')]"
    by (simp add: sendGroupMessage_def queue_group_send_def requestGroupKey_def packet_from_me_def sendPacket_def
        isConnected_def bnd_def getNM_def updNM_def updSock_def retn_def gets_def upd_def
        example_client_def qappend_def qvalue_def)
  have s: "client_step example_client t" by (rule client_step.turn [OF t(1)])
  have ok: "client_ok example_client"
    by (simp add: client_ok_def storage_ok_def waiting_ok_def example_client_def)
  have "''7'' \<in> set (pendingGroupKeyRequests (nm t))"
    using client_invariant [OF r_into_rtranclp, OF s ok] t(2) by (auto simp: waiting_ok_def)
  moreover from this have "key_requested ''7'' t"
    using client_invariant [OF rtranclp.rtrancl_refl ok] s by (auto simp: example_client_def)
  ultimately show ?thesis using s t(2) by blast
qed

text \<open>Every call returns, but for a frame whose packet type cannot be read.\<close>

lemma turn_returns:
  "case client_turn ev s of
     (Inr _, _) \<Rightarrow> True
   | (Inl e, t) \<Rightarrow> t = s \<and> (\<exists>t0 m. ev = Frame t0 m \<and> fst (read_packet t0 (istream_of m)) = Inl e)"
proof -
  have nt_packet: "nothrow (handlePacket p)" for p
    unfolding handlePacket_def by (cases "ptype p") (simp_all add: nt)
  have frame: "case onTextMessageReceived t0 m s of (Inr _, _) \<Rightarrow> True
      | (Inl e, t) \<Rightarrow> t = s \<and> fst (read_packet t0 (istream_of m)) = Inl e" for t0 m
  proof (cases "read_packet t0 (istream_of m)")
    case (Pair r ss)
    show ?thesis
    proof (cases r)
      case (Inl e)
      with Pair show ?thesis by (simp add: onTextMessageReceived_def thr_def)
    next
      case (Inr p)
      have "nothrow (onTextMessageReceived t0 m)"
        unfolding onTextMessageReceived_def Pair Inr prod.case sum.case by (intro nt nt_packet)
      then have "wp (onTextMessageReceived t0 m) (\<lambda>_ _. True) (\<lambda>_ _. False) s" by (simp add: nothrow_def)
      then show ?thesis by (auto simp: wp_def split: prod.splits sum.splits)
    qed
  qed
  have rest: "nothrow (client_turn ev)" if "\<And>t0 m. ev \<noteq> Frame t0 m"
    using that
    by (cases ev)
      (auto simp: connectToServer_def sendRegister_def sendLogin_def markConversationRead_def kickMember_def
        grantAdmin_def revokeAdmin_def leaveGroup_def deleteGroup_def deleteConversation_def
        deleteConversationForEveryone_def onConnected_def onDisconnected_def onReconnectTimer_def
        onSslErrors_def onReachabilityChanged_def intro!: nt)
  show ?thesis
  proof (cases "\<exists>t0 m. ev = Frame t0 m")
    case True
    then obtain t0 m where ev: "ev = Frame t0 m" by blast
    then show ?thesis using frame [of t0 m] by (auto split: prod.splits sum.splits)
  next
    case False
    then have "wp (client_turn ev) (\<lambda>_ _. True) (\<lambda>_ _. False) s" using rest by (auto simp: nothrow_def)
    then show ?thesis by (auto simp: wp_def split: prod.splits sum.splits)
  qed
qed

text \<open>
  C18. Every call of the interface and every event returns normally, except for one kind of input:
  a text frame whose packet type the extraction does not know makes the slot throw, with the
  client unchanged, since nothing around the extraction catches the exception.
\<close>

theorem client_turn_returns:
  "case client_turn ev s of
     (Inr _, _) \<Rightarrow> True
   | (Inl e, t) \<Rightarrow> t = s \<and> (\<exists>t0 m. ev = Frame t0 m \<and> fst (read_packet t0 (istream_of m)) = Inl e)"
  by (rule turn_returns)

text \<open>For instance the frame of a packet type added by a later server.\<close>

lemma unknown_type_crashes:
  "fst (client_turn (Frame 0 (int_str 99 @ ''|1|a|b|c|d|e|'')) s) =
     Inl (ProtocolException (''unknown packet type: '' @ int_str 99))"
proof -
  have "fst (read_packet 0 (istream_of (int_str 99 @ ''|1|a|b|c|d|e|''))) =
      Inl (ProtocolException (''unknown packet type: '' @ int_str 99))"
    by (simp add: read_packet_def istream_of_def extract_int_int_str in_int_def INT_MAX_def INT_MIN_def
        type_of_code_def Let_def split: prod.splits)
  then show ?thesis by (auto simp: onTextMessageReceived_def thr_def split: prod.splits sum.splits)
qed

text \<open>
  A key request made while the client is offline is never repeated: the request is remembered
  as pending although nothing was sent, so after the connection is back another message of the
  group is buffered without any request to the server.
\<close>

lemma offline_request_sticks:
  assumes "\<not> so_connected (sock s)"
  shows "wp (bnd (requestGroupKey g) (\<lambda>_. bnd (client_turn Socket_up) (\<lambda>_. requestGroupKey g)))
     (\<lambda>_ t. so_connected (sock t) \<and> so_sent (sock t) = so_sent (sock s)) (\<lambda>_ _. False) s"
  using assms
  by (auto simp: requestGroupKey_def packet_from_me_def sendPacket_def isConnected_def show_error_def onConnected_def wp)

text \<open>An instance: the example client before it is connected.\<close>

lemma offline_request_sticks_witness:
  "wp (bnd (requestGroupKey ''7'') (\<lambda>_. bnd (client_turn Socket_up) (\<lambda>_. requestGroupKey ''7'')))
     (\<lambda>_ t. so_connected (sock t) \<and> so_sent (sock t) = []) (\<lambda>_ _. False)
     (example_client\<lparr>sock := (sock example_client)\<lparr>so_connected := False\<rparr>\<rparr>)"
  by (rule wp_mono [OF offline_request_sticks]) (simp_all add: example_client_def)

end
