(* ===== verification/Network.thy ===== *)
theory Network
  imports Dispatch ClientSystem
begin

text \<open>
  The two programs together: one server and a client at the far end of every connection.  The
  server moves by \<open>sys_step\<close>, whatever frames arrive, those of forged clients included; a client
  takes the calls of its user interface and, in order, the frames the server has sent to its
  connection.  An exception that leaves a slot of a client is recorded as a crash.
\<close>

section \<open>The system\<close>

record network =
  net_server :: system
  net_client :: "conn \<Rightarrow> client"
  net_taken :: "conn \<Rightarrow> nat"
  net_crashed :: "conn set"

text \<open>The frames for a connection, in the order in which they were sent.\<close>

definition inbox :: "conn \<Rightarrow> (conn \<times> frame) list \<Rightarrow> frame list" where
  "inbox c ob = map snd (filter (\<lambda>x. fst x = c) ob)"

text \<open>What one turn makes of a client: its successor state, and whether an exception escaped.\<close>

definition after_turn :: "client_event \<Rightarrow> client \<Rightarrow> bool \<times> client" where
  "after_turn ev s = (case client_turn ev s of (Inl e, t) \<Rightarrow> (True, t) | (Inr _, t) \<Rightarrow> (False, t))"

definition turn_client :: "conn \<Rightarrow> client_event \<Rightarrow> network \<Rightarrow> network" where
  "turn_client c ev N =
     (let (crash, t) = after_turn ev (net_client N c)
      in N\<lparr>net_client := (net_client N)(c := t),
           net_crashed := (if crash then insert c (net_crashed N) else net_crashed N)\<rparr>)"

definition take_frame :: "conn \<Rightarrow> network \<Rightarrow> network" where
  "take_frame c N = N\<lparr>net_taken := (net_taken N)(c := Suc (net_taken N c))\<rparr>"

definition is_frame :: "client_event \<Rightarrow> bool" where
  "is_frame ev = (case ev of Frame t0 m \<Rightarrow> True | _ \<Rightarrow> False)"

inductive net_step :: "network \<Rightarrow> network \<Rightarrow> bool" where
  server: "sys_step (net_server N) S \<Longrightarrow> net_step N (N\<lparr>net_server := S\<rparr>)"
| user: "\<not> is_frame ev \<Longrightarrow> net_step N (turn_client c ev N)"
| text_frame:
    "net_taken N c < length (inbox c (outbox (sys_world (net_server N)))) \<Longrightarrow>
     inbox c (outbox (sys_world (net_server N))) ! net_taken N c = Text m \<Longrightarrow>
     net_step N (take_frame c (turn_client c (Frame t0 m) N))"
| pong_frame:
    "net_taken N c < length (inbox c (outbox (sys_world (net_server N)))) \<Longrightarrow>
     inbox c (outbox (sys_world (net_server N))) ! net_taken N c = Pong b \<Longrightarrow>
     net_step N (take_frame c N)"

inductive_cases net_stepE: "net_step N N'"

text \<open>The start: the server with its tables, no connection, nothing sent; clients in any state.\<close>

definition net_start :: "world \<Rightarrow> (conn \<Rightarrow> client) \<Rightarrow> network" where
  "net_start w K =
     \<lparr>net_server = initial (w\<lparr>outbox := []\<rparr>), net_client = K, net_taken = (\<lambda>_. 0), net_crashed = {}\<rparr>"

section \<open>Only packets are sent\<close>

definition packets_only :: "world \<Rightarrow> bool" where
  "packets_only w \<longleftrightarrow> list_all (\<lambda>x. packet_frame (snd x)) (outbox w)"

lemma packets_only_grown: "packets_only s \<Longrightarrow> grown (outbox s) (outbox t) \<Longrightarrow> packets_only t"
  by (auto simp: packets_only_def grown_def)

lemma sys_step_packets:
  assumes "sys_step S S'" "packets_only (sys_world S)"
  shows "packets_only (sys_world S')"
proof -
  have "grown (outbox (sys_world S)) (outbox (sys_world S'))"
    using assms(1)
  proof (cases rule: sys_step.cases)
    case (turn c loc ev loc' w)
    then show ?thesis using wp_InrD [OF guarded_turn_wp turn(3)] by (simp add: turn_step_def)
  next
    case (disconnect c loc ev loc' w)
    have "grown (outbox (sys_world S)) (outbox w)"
      using wp_InrD [OF guarded_turn_wp disconnect(3)] by (simp add: turn_step_def)
    moreover have "grown (outbox w) (outbox (snd (cleanup c loc' w)))"
      using cleanup_wp [of c loc' w] by (auto simp: wp_def turn_step_def split: prod.splits sum.splits)
    ultimately show ?thesis using disconnect(1) by (auto intro: grown_trans)
  next
    case timer
    obtain r t where rt: "onCleanupTimer (sys_world S) = (r, t)" by force
    with timer show ?thesis using keepsD [OF cleanup_hs rt, of 0] by (simp add: handler_step_def)
  qed simp
  with assms(2) show ?thesis by (rule packets_only_grown)
qed

lemma inbox_packet:
  assumes "packets_only w" "n < length (inbox c (outbox w))" "inbox c (outbox w) ! n = Text m"
  shows "\<exists>p. m = serialize p"
proof -
  have "Text m \<in> set (inbox c (outbox w))" using assms(2,3) by (metis nth_mem)
  then have "packet_frame (Text m)" using assms(1) by (auto simp: inbox_def packets_only_def list_all_iff)
  then show ?thesis by (simp add: packet_frame_def)
qed

section \<open>No client crashes\<close>

lemma after_turn_safe:
  assumes "ev = Frame t0 (serialize p) \<or> \<not> is_frame ev" "client_ok s"
  shows "\<not> fst (after_turn ev s) \<and> client_ok (snd (after_turn ev s))"
proof -
  obtain r t where rt: "client_turn ev s = (r, t)" by force
  have "client_ok t" using keepsD [OF client_turn_ok rt] assms(2) by simp
  moreover have "\<exists>u. r = Inr u"
  proof (cases r)
    case (Inl e)
    with turn_returns [where ev = ev and s = s] rt obtain t0' m where "ev = Frame t0' m" "fst (read_packet t0' (istream_of m)) = Inl e"
      by auto
    with assms(1) read_packet_frame [of t0' p] show ?thesis by (auto simp: is_frame_def)
  qed simp
  ultimately show ?thesis by (auto simp: after_turn_def rt)
qed

definition net_ok :: "network \<Rightarrow> bool" where
  "net_ok N \<longleftrightarrow>
     sys_ok (net_server N) \<and> packets_only (sys_world (net_server N))
     \<and> (\<forall>c. client_ok (net_client N c)) \<and> net_crashed N = {}"

lemma turn_client_ok:
  assumes "net_ok N" "ev = Frame t0 (serialize p) \<or> \<not> is_frame ev"
  shows "net_ok (turn_client c ev N)"
  using assms(1) after_turn_safe [OF assms(2), of "net_client N c"]
  by (auto simp: net_ok_def turn_client_def split: prod.splits)

lemma take_frame_ok [simp]: "net_ok (take_frame c N) = net_ok N"
  by (simp add: net_ok_def take_frame_def)

lemma net_step_ok: "net_step N N' \<Longrightarrow> net_ok N \<Longrightarrow> net_ok N'"
proof (induction rule: net_step.induct)
  case (server N S)
  then show ?case using sys_step_ok sys_step_packets by (auto simp: net_ok_def)
next
  case (user ev N c)
  then show ?case by (intro turn_client_ok) auto
next
  case (text_frame N c m t0)
  then have "packets_only (sys_world (net_server N))" by (simp add: net_ok_def)
  from inbox_packet [OF this text_frame(1,2)] obtain p where "m = serialize p" by blast
  with text_frame show ?case by (auto intro: turn_client_ok)
qed simp

lemma net_start_ok: "db_ok (db w) \<Longrightarrow> (\<And>c. client_ok (K c)) \<Longrightarrow> net_ok (net_start w K)"
  using initial_ok [of "w\<lparr>outbox := []\<rparr>"] by (simp add: net_ok_def net_start_def packets_only_def initial_def)

text \<open>
  C2. No client of this server crashes.  In every reachable state of server and clients, whatever
  the users do, whatever forged frames the server is sent, whatever fails on either side: each
  text frame the server has sent is the text form of a packet, the client it reaches handles it
  without an exception, and server and clients keep their invariants.
\<close>

theorem network_type_safe:
  assumes "db_ok (db w)" "\<forall>c. client_ok (K c)" "rtranclp net_step (net_start w K) N"
  shows "net_crashed N = {}
    \<and> (\<forall>c f. (c, f) \<in> set (outbox (sys_world (net_server N))) \<longrightarrow> packet_frame f)
    \<and> db_ok (db (sys_world (net_server N)))
    \<and> (\<forall>c. storage_ok (net_client N c) \<and> waiting_ok {} (nm (net_client N c)))"
proof -
  have "net_ok N"
    using assms(3) by (induction rule: rtranclp_induct) (use assms(1,2) in \<open>auto simp: net_start_ok net_step_ok\<close>)
  then show ?thesis by (auto simp: net_ok_def sys_ok_def packets_only_def list_all_iff client_ok_def)
qed

text \<open>Witness of C2: the server of the example state; the client of connection 3 goes online.\<close>

lemma network_type_safe_witness:
  "net_crashed (turn_client 3 Socket_up (net_start example_state (\<lambda>_. example_client))) = {}"
proof -
  let ?N = "net_start example_state (\<lambda>_. example_client)"
  have s: "net_step ?N (turn_client 3 Socket_up ?N)" by (rule user) (simp add: is_frame_def)
  have c: "client_ok example_client"
    by (simp add: client_ok_def storage_ok_def waiting_ok_def example_client_def)
  show ?thesis
    using network_type_safe [OF example_state_ok _ r_into_rtranclp, OF _ s] c by blast
qed

end
