(* ===== verification/GroupProperties.thy ===== *)
theory GroupProperties
  imports GroupHandlers
begin

text \<open>
  What the group handlers guarantee whatever fails on the way: who may remove whom, who may
  change a role or hand out keys, that only the creator deletes a group, and how a group
  message spreads.
\<close>

section \<open>Parts of the tables an operation leaves alone\<close>

text \<open>Projections of the tables, and operations that keep them.\<close>

lemma repo_frame:
  assumes "\<And>e n d. f (snd (st e n d)) = f d"
  shows "frame (\<lambda>s. f (db s)) (repo ctx st)"
  using repo_pres [of "\<lambda>d. f d = v" st ctx for v] assms by (auto simp: st_keeps_def keeps_def)

lemma send_db: "frame (\<lambda>s. f (db s)) (send c p)"
  by (simp add: keeps_wp wp split: option.splits)

lemma notify_db: "frame (\<lambda>s. f (db s)) (notify u p)"
  unfolding notify_def findClient_def by (intro frm.rules send_db)

lemma send_if_online_db: "frame (\<lambda>s. f (db s)) (send_if_online u p)"
  unfolding send_if_online_def findClient_def try_send_def by (intro frm.rules send_db)

definition group_view :: "database \<Rightarrow> groups_row list \<times> members_row list \<times> keys_row list \<times> gmessages_row list \<times> receipts_row list" where
  "group_view d = (groups d, group_members d, group_keys d, group_messages d, receipts d)"

lemma notify_or_queue_view: "frame (\<lambda>s. group_view (db s)) (notify_or_queue u p ty fu bd em pk)"
  unfolding notify_or_queue_def PendingNotificationRepository_queue_def
  by (intro frm.rules notify_db repo_frame)
    (simp add: pending_insert_def insert_row_def group_view_def Let_def split: option.splits)

lemma getMemberRole_wp:
  "wp (GroupRepository_getMemberRole g u) (\<lambda>r t. untouched s t \<and> r = role_of g u (db s))
     (\<lambda>e t. untouched s t \<and> is_Db e) s"
  unfolding GroupRepository_getMemberRole_def by (rule wp_mono [OF repo_query_wp]) auto

lemma getMembers_wp:
  "wp (GroupRepository_getMembers g) (\<lambda>r t. untouched s t) (\<lambda>e t. untouched s t \<and> is_Db e) s"
  unfolding GroupRepository_getMembers_def member_select_def by (rule wp_mono [OF repo_query_wp]) auto

lemma untouched_conns: "untouched s t \<Longrightarrow> conns t = conns s" "untouched s t \<Longrightarrow> db t = db s"
  by (simp_all add: untouched_def only_db_def)

text \<open>After a computation that kept \<open>f\<close>, in both outcomes.\<close>

lemma frame_wp:
  "frame f m \<Longrightarrow> (\<And>x t. f t = f s \<Longrightarrow> Q x t) \<Longrightarrow> (\<And>e t. f t = f s \<Longrightarrow> E e t) \<Longrightarrow> wp m Q E s"
  by (drule keeps_wpD [of _ _ s]) (erule wp_mono; simp)

text \<open>The opening of the group handlers: the group id, the acting user and the role of that user.\<close>

lemma actor_wp:
  assumes "stoi tx = Inr g"
    and "\<And>t. untouched s t \<Longrightarrow> wp (k g (cs_username (conns s c)) (role_of g (cs_username (conns s c)) (db s))) Q E t"
    and "\<And>e t. untouched s t \<Longrightarrow> E e t"
  shows "wp (bnd (group_id_of err tx) (\<lambda>g. bnd (getUsername c) (\<lambda>u.
     bnd (GroupRepository_getMemberRole g u) (k g u)))) Q E s"
  unfolding group_id_of_def assms(1) sum.case wp_bnd [of "retn _"] wp_retn wp_bnd [of "getUsername _"] getUsername_wp
    wp_bnd [of "GroupRepository_getMemberRole _ _"]
  by (rule wp_mono [OF getMemberRole_wp]) (auto intro: assms(2,3))

lemma throw_if_wp: "wp (bnd (throw_if b e) k) Q E s = (if b then E e s else wp (k ()) Q E s)"
  by (simp add: wp)

section \<open>Deleting a group\<close>

text \<open>The tables without a group: everything of it is gone, everything else is left.\<close>

definition without_group :: "int \<Rightarrow> database \<Rightarrow> database \<Rightarrow> bool" where
  "without_group g d d' \<longleftrightarrow>
     groups d' = filter (\<lambda>r. g_id r \<noteq> g) (groups d)
     \<and> group_members d' = filter (\<lambda>r. mb_group_id r \<noteq> g) (group_members d)
     \<and> group_keys d' = filter (\<lambda>r. gk_group_id r \<noteq> g) (group_keys d)
     \<and> group_messages d' = filter (\<lambda>r. x_group_id r \<noteq> g) (group_messages d)
     \<and> receipts d' = filter (\<lambda>r. rc_message_id r \<notin> x_id ` set (filter (\<lambda>m. x_group_id m = g) (group_messages d))) (receipts d)"

lemma group_delete_wp:
  "group_view (db t) = group_view d \<Longrightarrow>
     wp (bnd DbManager_session (\<lambda>_. sql (group_delete g))) (\<lambda>_ u. without_group g d (db u))
       (\<lambda>_ u. group_view (db u) = group_view d) t"
  by (simp add: wp group_delete_def dml_def delete_where_def group_view_def without_group_def split: option.splits)

text \<open>
  C29. Deleting a group: the handler returns only for the creator, and then exactly the group, its
  members, keys, messages and their receipts are gone; in every other outcome, faults included,
  these tables are as before, and a request of anybody but the creator has no effect at all.
\<close>

theorem delete_group_exact:
  assumes "stoi (pto p) = Inr g"
  shows "wp (DeleteGroup_execute p c)
     (\<lambda>_ t. role_of g (cs_username (conns s c)) (db s) = ''creator'' \<and> without_group g (db s) (db t))
     (\<lambda>e t. group_view (db t) = group_view (db s)
        \<and> (untouched s t \<or> role_of g (cs_username (conns s c)) (db s) = ''creator'')) s"
  unfolding DeleteGroup_execute_def
proof (rule actor_wp [OF assms], goal_cases)
  case (1 t)
  let ?r = "role_of g (cs_username (conns s c)) (db s)"
  have told: "wp (bnd (for_each f ms) (\<lambda>_. bnd DbManager_session (\<lambda>_. sql (group_delete g))))
      (\<lambda>_ t. without_group g (db s) (db t)) (\<lambda>_ t. group_view (db t) = group_view (db s)) u"
    if "untouched t u" "\<And>m. frame (\<lambda>s. group_view (db s)) (f m)" for f u and ms :: "GroupMember list"
    unfolding wp_bnd [of "for_each _ _"]
    by (rule frame_wp [OF frm.k_for_each [OF that(2)]])
      (use untouched_conns(2) [OF that(1)] untouched_conns(2) [OF 1] in \<open>auto intro: group_delete_wp\<close>)
  show ?case
  proof (cases "?r = ''creator''")
    case True
    then show ?thesis
      unfolding throw_if_wp wp_bnd [of "GroupRepository_getMembers _"]
      by simp (rule wp_mono [OF getMembers_wp], rule wp_mono [OF told],
          auto intro: notify_or_queue_view simp: untouched_conns [OF 1] untouched_conns(2))
  qed (use 1 in \<open>auto simp: throw_if_wp wp_thr untouched_conns(2)\<close>)
qed (auto simp: untouched_conns(2))

section \<open>Leaving and being removed\<close>

text \<open>
  Nobody removes the creator; members leave by themselves; the creator removes anybody else, an
  admin plain members and outsiders.
\<close>

definition may_remove :: "string \<Rightarrow> string \<Rightarrow> bool \<Rightarrow> bool" where
  "may_remove actorRole targetRole kick \<longleftrightarrow>
     actorRole \<noteq> [] \<and> targetRole \<noteq> ''creator''
     \<and> (\<not> kick \<or> actorRole = ''creator'' \<or> actorRole = ''admin'' \<and> targetRole \<noteq> ''admin'')"

text \<open>All roles as before, except that the target is no member any more.\<close>

definition without_member :: "int \<Rightarrow> string \<Rightarrow> database \<Rightarrow> database \<Rightarrow> bool" where
  "without_member g u d d' \<longleftrightarrow> (\<forall>g' v. role_of g' v d' = (if g' = g \<and> v = u then [] else role_of g' v d))"

lemma role_of_cong: "group_members d' = group_members d \<Longrightarrow> role_of g u d' = role_of g u d"
  by (simp add: role_of_def)

lemma role_of_keys [simp]: "role_of g u (group_keys_update f d) = role_of g u d"
  by (simp add: role_of_def)

lemma removeMember_wp:
  "wp (GroupRepository_removeMember g u) (\<lambda>_ t. without_member g u (db s) (db t))
     (\<lambda>e t. group_members (db t) = group_members (db s)) s"
  by (auto simp: GroupRepository_removeMember_def wrap_db_def wp key_delete_def member_delete_def dml_def
      without_member_def role_of_delete split: option.splits)

lemma deleteReceipts_members: "frame (\<lambda>s. group_members (db s)) (GroupRepository_deleteReceiptsForMember g u)"
  unfolding GroupRepository_deleteReceiptsForMember_def by (rule repo_frame) (simp add: receipt_delete_def dml_def)

definition leave_target :: "Packet \<Rightarrow> string \<Rightarrow> string" where
  "leave_target p me = (if pbody p \<noteq> [] then pbody p else me)"

text \<open>
  C28. Leaving and removing: in every outcome the memberships are as before, or exactly the target
  has lost the membership and was allowed to: nobody removes the creator, members leave by
  themselves, only the creator removes an admin, only creator and admins remove members.  When
  the handler returns the target is out.
\<close>

theorem leave_authority:
  assumes "stoi (pto p) = Inr g" "me = cs_username (conns s c)" "target = leave_target p me"
  shows "wp (GroupLeave_execute p c)
     (\<lambda>_ t. may_remove (role_of g me (db s)) (role_of g target (db s)) (pbody p \<noteq> [])
        \<and> without_member g target (db s) (db t))
     (\<lambda>e t. group_members (db t) = group_members (db s)
        \<or> may_remove (role_of g me (db s)) (role_of g target (db s)) (pbody p \<noteq> [])
          \<and> without_member g target (db s) (db t)) s" (is "wp _ ?Q ?E s")
proof -
  let ?may = "may_remove (role_of g me (db s)) (role_of g target (db s)) (pbody p \<noteq> [])"
  have tail: "wp m ?Q ?E t" if "?may" "without_member g target (db s) (db t)"
    "frame (\<lambda>s. group_members (db s)) m" for m t
    by (rule frame_wp [OF that(3)])
      (use that(1,2) in \<open>simp_all add: without_member_def role_of_def\<close>)
  show ?thesis
    unfolding GroupLeave_execute_def Let_def
  proof (rule actor_wp [OF assms(1)], unfold throw_if_wp assms(2) [symmetric] leave_target_def [symmetric] assms(3) [symmetric], goal_cases)
    case (1 t)
    have "wp (GroupRepository_getMemberRole g target) (\<lambda>r u. untouched t u \<and> r = role_of g target (db s))
        (\<lambda>e u. untouched t u \<and> is_Db e) t"
      using getMemberRole_wp [of g target t] by (simp add: untouched_conns [OF 1])
    then show ?case
      unfolding wp_bnd [of "GroupRepository_getMemberRole _ _"]
    proof (split if_split, intro conjI impI, goal_cases)
      case 2
      from 2(1) show ?case
      proof (rule wp_mono, goal_cases)
        case (1 r u)
        then have db: "db u = db s" using \<open>untouched s t\<close> by (simp add: untouched_def)
        let ?bad1 = "r = ''creator''"
          and ?bad2 = "pbody p \<noteq> [] \<and> r = ''admin'' \<and> role_of g me (db s) \<noteq> ''creator''"
          and ?bad3 = "pbody p \<noteq> [] \<and> role_of g me (db s) \<noteq> ''creator'' \<and> role_of g me (db s) \<noteq> ''admin''"
        show ?case
        proof (cases "?bad1 \<or> ?bad2 \<or> ?bad3")
          case False
          then have n: "\<not> ?bad1" "\<not> ?bad2" "\<not> ?bad3" by blast+
          have may: "?may" using n 1 2 by (auto simp: may_remove_def)
          show ?thesis
            unfolding throw_if_wp wp_bnd [of "GroupRepository_removeMember _ _"] if_not_P [OF n(1)] if_not_P [OF n(2)] if_not_P [OF n(3)]
            by (rule wp_mono [OF removeMember_wp [of g target u, unfolded db]], rule tail [OF may])
              (auto intro!: frm.rules send_db send_if_online_db deleteReceipts_members)
        qed (auto simp: throw_if_wp wp_thr db)
      qed (use 1 in \<open>auto simp: untouched_def\<close>)
    qed (use 1 in \<open>simp add: untouched_conns(2)\<close>)
  qed (simp add: untouched_conns(2))
qed

section \<open>Roles and keys\<close>

lemma addMember_wp:
  "wp (GroupRepository_addMember g u r)
     (\<lambda>_ t. \<forall>g' v. role_of g' v (db t) = (if g' = g \<and> v = u then r else role_of g' v (db s)))
     (\<lambda>e t. group_members (db t) = group_members (db s)) s"
  unfolding GroupRepository_addMember_def
proof (rule wp_mono [OF repo_wp], goal_cases)
  case (1 x t)
  then obtain n where "member_upsert g u r (ext s) n (db s) = (Inr (), db t)" by auto
  from roles.role_add [OF this] show ?case by simp
qed (auto simp: member_upsert_def split: if_splits)

lemma updateRole_wp:
  assumes "db_ok (db s)"
  shows "wp (GroupRepository_updateRole g u r)
     (\<lambda>_ t. \<forall>g' v. role_of g' v (db t) = (if g' = g \<and> v = u \<and> role_of g u (db s) \<noteq> [] then r else role_of g' v (db s)))
     (\<lambda>e t. group_members (db t) = group_members (db s)) s"
  unfolding GroupRepository_updateRole_def
proof (rule wp_mono [OF repo_wp], goal_cases)
  case (1 x t)
  then obtain n where "role_update g u r (ext s) n (db s) = (Inr (), db t)" by auto
  from roles.role_change [OF assms this] show ?case by simp
qed (auto simp: role_update_def split: if_splits)

lemma keys_members:
  "frame (\<lambda>s. group_members (db s)) (GroupRepository_saveKey g u k)"
  "frame (\<lambda>s. group_members (db s)) (GroupRepository_replaceAllKeys g pairs)"
  "frame (\<lambda>s. group_members (db s)) (notify_key p a n b uk)"
  "frame (\<lambda>s. group_members (db s)) (GroupRepository_findGroupById g)"
proof -
  have [simp]: "group_members (snd (key_insert g u k e n d)) = group_members d" for g u k e n d
    by (simp add: key_insert_def)
  show "frame (\<lambda>s. group_members (db s)) (GroupRepository_saveKey g u k)"
    unfolding GroupRepository_saveKey_def by (rule repo_frame) (simp add: key_upsert_def)
  have "wp (GroupRepository_replaceAllKeys g pairs) (\<lambda>_ t. group_members (db t) = group_members (db s))
      (\<lambda>_ t. group_members (db t) = group_members (db s)) s" for s
    by (auto simp: GroupRepository_replaceAllKeys_def wrap_db_def wp dml_def key_delete_def
        split: option.splits intro!: for_each_poco)
  then show "frame (\<lambda>s. group_members (db s)) (GroupRepository_replaceAllKeys g pairs)" by (simp add: keeps_wp)
  show "frame (\<lambda>s. group_members (db s)) (notify_key p a n b uk)"
    unfolding notify_key_def PendingNotificationRepository_queue_def
    by (intro frm.rules notify_db repo_frame)
      (simp add: pending_insert_def insert_row_def Let_def split: option.splits)
  show "frame (\<lambda>s. group_members (db s)) (GroupRepository_findGroupById g)"
    unfolding GroupRepository_findGroupById_def by (rule repo_frame) (simp add: group_select_def query_def)
qed

text \<open>What distributing keys may do to the roles: a user without a role becomes a plain member.\<close>

definition only_joins :: "int \<Rightarrow> database \<Rightarrow> database \<Rightarrow> bool" where
  "only_joins g d d' \<longleftrightarrow>
     (\<forall>g' u. role_of g' u d' = role_of g' u d \<or> g' = g \<and> role_of g' u d = [] \<and> role_of g' u d' = ''member'')"

lemma only_joins_refl: "group_members d' = group_members d \<Longrightarrow> only_joins g d d'"
  by (simp add: only_joins_def role_of_def)

lemma only_joins_frame:
  "frame (\<lambda>s. group_members (db s)) m \<Longrightarrow> only_joins g d (db s) \<Longrightarrow>
     wp m (\<lambda>_ t. only_joins g d (db t)) (\<lambda>_ t. only_joins g d (db t)) s"
proof -
  assume m: "frame (\<lambda>s. group_members (db s)) m" and s: "only_joins g d (db s)"
  have "only_joins g d (db t)" if "group_members (db t) = group_members (db s)" for t
  proof -
    have "role_of g' u (db t) = role_of g' u (db s)" for g' u using that by (rule role_of_cong)
    then show ?thesis using s by (simp add: only_joins_def)
  qed
  then show ?thesis by (intro frame_wp [OF m])
qed

lemma add_single_joins:
  "db s = d \<Longrightarrow> wp (add_single g uk) (\<lambda>_ t. only_joins g d (db t)) (\<lambda>_ t. only_joins g d (db t)) s"
proof -
  assume d: "db s = d"
  have key: "wp (bnd (GroupRepository_saveKey g u k) (\<lambda>_. retn b)) (\<lambda>_ t. only_joins g d (db t)) (\<lambda>_ t. only_joins g d (db t)) t"
    if "only_joins g d (db t)" for u k b t
    by (rule only_joins_frame [OF _ that]) (intro frm.rules keys_members)
  show ?thesis
    unfolding add_single_def wp_bnd [of "GroupRepository_getMemberRole _ _"] wp_bnd [of "when_m _ _"] wp_when
  proof (rule wp_mono [OF getMemberRole_wp], goal_cases)
    case (1 r t)
    then have t: "db t = d" "r = role_of g (fst uk) d" using d by (auto simp: untouched_def)
    show ?case
    proof (cases "r = []")
      case True
      then show ?thesis
        by simp (rule wp_mono [OF addMember_wp], rule key, use t True in \<open>auto simp: only_joins_def role_of_def\<close>)
    next
      case False
      show ?thesis unfolding if_not_P [OF False] wp_retn by (rule key) (simp add: t(1) only_joins_refl)
    qed
  qed (use d in \<open>auto simp: untouched_def intro: only_joins_refl\<close>)
qed

text \<open>
  C30. Handing out keys: in every outcome no role is changed or lost, an outsider at most becomes a
  plain member of this group, and for anybody but the creator and the admins no table changes.
\<close>

theorem key_exchange_authority:
  assumes "stoi (pto p) = Inr g" "role = role_of g (cs_username (conns s c)) (db s)"
  shows "wp (GroupKeyExchange_execute p c)
     (\<lambda>_ t. only_joins g (db s) (db t) \<and> (db t = db s \<or> role = ''creator'' \<or> role = ''admin''))
     (\<lambda>_ t. only_joins g (db s) (db t) \<and> (db t = db s \<or> role = ''creator'' \<or> role = ''admin'')) s"
  unfolding GroupKeyExchange_execute_def
proof (rule actor_wp [OF assms(1)], unfold assms(2) [symmetric], goal_cases)
  case (1 t)
  then have t: "db t = db s" by (simp add: untouched_def)
  have same: "only_joins g (db s) (db s)" by (simp add: only_joins_refl)
  show ?case
  proof (cases "pkey p = []")
    case True
    have "frame (\<lambda>s. db s) (resend_key p c g me role)" for me
      unfolding resend_key_def GroupRepository_getKey_def GroupRepository_findGroupById_def protocol_error_def
      by (intro frm.rules send_db repo_frame) (simp_all add: key_select_def group_select_def query_def)
    then show ?thesis using True by simp (rule frame_wp, assumption, simp_all add: t same)
  next
    case False
    show ?thesis
    proof (cases "role = ''creator'' \<or> role = ''admin''")
      case True
      have joined: "wp (bnd m k) (\<lambda>_ t. only_joins g (db s) (db t)) (\<lambda>_ t. only_joins g (db s) (db t)) t"
        if "wp m (\<lambda>_ t. only_joins g (db s) (db t)) (\<lambda>_ t. only_joins g (db s) (db t)) t"
          "\<And>x. frame (\<lambda>s. group_members (db s)) (k x)" for m :: "bool W" and k :: "bool \<Rightarrow> unit W"
        unfolding wp_bnd [of m] by (rule wp_mono [OF that(1)]) (auto intro: only_joins_frame that(2))
      have "wp (bnd (if length ks = 1 then add_single g (hd ks)
            else bnd (GroupRepository_replaceAllKeys g ks) (\<lambda>_. retn False)) (\<lambda>new.
          bnd (if new then bnd (GroupRepository_findGroupById g) (\<lambda>g. retn (group_name_or_empty g)) else retn []) (\<lambda>name.
          for_each (\<lambda>uk. notify_key p me name (new \<and> fst uk = fst (hd ks)) uk) ks)))
         (\<lambda>_ t. only_joins g (db s) (db t)) (\<lambda>_ t. only_joins g (db s) (db t)) t" for ks me
        by (rule joined)
          (auto intro!: add_single_joins only_joins_frame frm.rules keys_members simp: t same)
      then show ?thesis
        using True False by (simp add: Let_def throw_if_wp t same)
    qed (use False in \<open>auto simp: throw_if_wp wp_thr t same\<close>)
  qed
qed (simp add: untouched_def only_joins_refl)

section \<open>Changing roles\<close>

text \<open>
  What a role change may do: nothing unless the creator asks; else set the role of the named
  member, to admin on a grant and back from admin to member on a revocation.
\<close>

definition role_changed :: "Packet \<Rightarrow> int \<Rightarrow> string \<Rightarrow> database \<Rightarrow> database \<Rightarrow> bool" where
  "role_changed p g me d d' \<longleftrightarrow>
     (d' = d \<or> role_of g me d = ''creator'')
     \<and> (\<forall>g' u. role_of g' u d' = role_of g' u d
        \<or> g' = g \<and> u = pkey p
          \<and> (pbody p = ''grant_admin'' \<and> role_of g u d \<noteq> [] \<and> role_of g u d' = ''admin''
             \<or> pbody p = ''revoke_admin'' \<and> role_of g u d = ''admin'' \<and> role_of g u d' = ''member''))"

text \<open>
  C31. Changing roles: in every outcome at most the named member of the named group has changed
  role, by a grant to admin or by a revocation from admin to member, and without the creator
  asking no table changes.
\<close>

theorem group_info_authority:
  assumes "stoi (pto p) = Inr g" "me = cs_username (conns s c)" "db_ok (db s)"
  shows "wp (GroupInfo_execute p c)
     (\<lambda>_ t. role_changed p g me (db s) (db t)) (\<lambda>_ t. role_changed p g me (db s) (db t)) s"
proof -
  let ?Q = "\<lambda>t. role_changed p g me (db s) (db t)"
  have same: "?Q t" if "db t = db s" for t using that by (simp add: role_changed_def)
  have kept: "?Q t" if "role_of g me (db s) = ''creator''" "group_members (db t) = group_members (db s)" for t
    using that by (simp add: role_changed_def role_of_def)
  have set: "wp (GroupRepository_updateRole g (pkey p) r) (\<lambda>_. ?Q) (\<lambda>_. ?Q) t"
    if "db t = db s" "role_of g me (db s) = ''creator''"
      "pbody p = ''grant_admin'' \<and> r = ''admin''
        \<or> pbody p = ''revoke_admin'' \<and> r = ''member'' \<and> role_of g (pkey p) (db s) = ''admin''" for t r
    by (rule wp_mono [OF updateRole_wp]) (use that assms(3) kept in \<open>auto simp: role_changed_def\<close>)
  have grant: "wp (grant_admin p g me) (\<lambda>_. ?Q) (\<lambda>_. ?Q) s" if "pbody p = ''grant_admin''"
    unfolding grant_admin_def wp_bnd [of "GroupRepository_getMemberRole _ _"] throw_if_wp
    by (rule wp_mono [OF getMemberRole_wp]) (use that in \<open>auto simp: untouched_def same intro!: set\<close>)
  have revoke: "wp (revoke_admin p g me) (\<lambda>_. ?Q) (\<lambda>_. ?Q) s" if "pbody p = ''revoke_admin''"
    unfolding revoke_admin_def wp_bnd [of "GroupRepository_getMemberRole _ _"] throw_if_wp
    by (rule wp_mono [OF getMemberRole_wp])
      (use that in \<open>auto simp: untouched_def same intro!: set wp_mono [OF getMemberRole_wp]\<close>)
  have tail: "wp m (\<lambda>_. ?Q) (\<lambda>_. ?Q) t" if "?Q t" "frame (\<lambda>s. db s) m" for m t
    by (rule frame_wp [OF that(2)]) (use that(1) in auto)
  have query: "frame (\<lambda>s. db s) (GroupRepository_findGroupById g)" "frame (\<lambda>s. db s) (GroupRepository_getMembers g)"
    unfolding GroupRepository_findGroupById_def GroupRepository_getMembers_def
    by (rule repo_frame; simp add: group_select_def member_select_def query_def)+
  have steps: "wp (bnd (when_m (pbody p = ''grant_admin'') (grant_admin p g me)) (\<lambda>_.
      bnd (when_m (pbody p = ''revoke_admin'') (revoke_admin p g me)) (\<lambda>_. k))) (\<lambda>_. ?Q) (\<lambda>_. ?Q) s"
    if k: "frame (\<lambda>s. db s) k" for k :: "unit W"
  proof -
    consider "pbody p = ''grant_admin''" | "pbody p = ''revoke_admin''" | "pbody p \<noteq> ''grant_admin''" "pbody p \<noteq> ''revoke_admin''"
      by blast
    then show ?thesis
      by cases (simp_all add: wp_bnd wp_retn, (rule wp_mono [OF grant] wp_mono [OF revoke] tail; auto intro: tail k same)+)
  qed
  show ?thesis
    unfolding GroupInfo_execute_def group_id_of_def assms(1) sum.case Let_def wp_bnd [of "retn _"] wp_retn
      wp_bnd [of "getUsername _"] getUsername_wp assms(2) [symmetric] protocol_error_def
    by (rule steps) (intro frm.rules query send_db send_if_online_db)
qed

section \<open>Group messages\<close>

definition group_recipients :: "int \<Rightarrow> string \<Rightarrow> database \<Rightarrow> string list" where
  "group_recipients g me d = filter (\<lambda>u. u \<noteq> me) (map mb_username (filter (\<lambda>r. mb_username r \<noteq> []) (members_of g d)))"

definition fresh_receipt :: "int \<Rightarrow> string \<Rightarrow> receipts_row" where
  "fresh_receipt mid u = \<lparr>rc_message_id = mid, rc_username = u, rc_delivered_at = None, rc_seen_at = None\<rparr>"

definition fan_out :: "Packet \<Rightarrow> string list \<Rightarrow> client_map \<Rightarrow> (conn \<times> frame) list" where
  "fan_out p us m = concat (map (\<lambda>u. case find_client u m of None \<Rightarrow> [] | Some x \<Rightarrow> [(x, Text (serialize p))]) us)"

definition group_ack :: "Packet \<Rightarrow> string list \<Rightarrow> Packet" where
  "group_ack p us = (new_packet ACK)\<lparr>pto := pfrom p, ptimestamp := ptimestamp p, perrorMsg := pto p, pkey := join_semi us\<rparr>"

lemma receipt_rows_quiet:
  assumes "quiet s" "mid \<in> gmessage_ids (db s)" "distinct us"
    and "\<forall>r \<in> set (receipts (db s)). rc_message_id r = mid \<longrightarrow> rc_username r \<notin> set us"
  shows "wp (for_each (\<lambda>u. sql (receipt_insert mid u)) us)
     (\<lambda>_. sent [] (s\<lparr>db := receipts_update (\<lambda>rs. rs @ map (fresh_receipt mid) us) (db s)\<rparr>)) (\<lambda>_ _. False) s"
  using assms
proof (induction us arbitrary: s)
  case Nil
  then show ?case by (cases "db s") (simp add: wp sent_def)
next
  case (Cons u us)
  let ?t = "(tick s)\<lparr>db := receipts_update (\<lambda>rs. rs @ [fresh_receipt mid u]) (db s)\<rparr>"
  have "wp (sql (receipt_insert mid u)) Q E s = Q () ?t" for Q E
    using Cons.prems by (auto simp: wp receipt_insert_def quiet_def fresh_receipt_def)
  moreover have "wp (for_each (\<lambda>u. sql (receipt_insert mid u)) us)
     (\<lambda>_. sent [] (?t\<lparr>db := receipts_update (\<lambda>rs. rs @ map (fresh_receipt mid) us) (db ?t)\<rparr>)) (\<lambda>_ _. False) ?t"
    by (rule Cons.IH) (use Cons.prems in \<open>auto simp: gmessage_ids_def fresh_receipt_def\<close>)
  ultimately show ?case
    by (simp add: wp_bnd comp_def) (erule wp_mono; simp add: sent_def)
qed

lemma insertReceiptRows_quiet:
  assumes "quiet s" "mid \<in> gmessage_ids (db s)" "distinct us"
    and "\<forall>r \<in> set (receipts (db s)). rc_message_id r = mid \<longrightarrow> rc_username r \<notin> set us"
  shows "wp (GroupRepository_insertReceiptRows mid us)
     (\<lambda>_. sent [] (s\<lparr>db := receipts_update (\<lambda>rs. rs @ map (fresh_receipt mid) us) (db s)\<rparr>)) (\<lambda>_ _. False) s"
  unfolding GroupRepository_insertReceiptRows_def wrap_db_def wp_catch_if
  using assms(1) receipt_rows_quiet [of "tick s" mid us] assms(2-4)
  by (auto simp: wp quiet_def sent_def elim!: wp_mono)

lemma fan_out_quiet:
  assumes "quiet s"
  shows "wp (for_each (\<lambda>m. when_m (gb_username m \<noteq> me) (send_if_online (gb_username m) p)) ms)
     (\<lambda>_. sent (fan_out p (filter (\<lambda>u. u \<noteq> me) (map gb_username ms)) (clients s)) s) (\<lambda>_ _. False) s"
  using assms
proof (induction ms arbitrary: s)
  case (Cons m ms)
  let ?f = "fan_out p (filter (\<lambda>u. u \<noteq> me) [gb_username m]) (clients s)"
  have one: "wp (when_m (gb_username m \<noteq> me) (send_if_online (gb_username m) p)) (\<lambda>_. sent ?f s) (\<lambda>_ _. False) s"
    using Cons.prems by (simp add: send_if_online_def try_send_def wp quiet_def sent_def fan_out_def split: option.splits)
  show ?case
    unfolding for_each.simps wp_bnd
  proof (rule wp_mono [OF one], goal_cases)
    case (1 x t)
    then have t: "quiet t" "clients t = clients s" using Cons.prems by (auto simp: sent_def quiet_def)
    show ?case
      by (rule wp_mono [OF Cons.IH [OF t(1)]])
        (use sent_trans [OF 1] t(2) in \<open>auto simp: fan_out_def\<close>)
  qed simp
qed (simp add: wp fan_out_def)

lemma actor_quiet_wp:
  assumes "quiet s" "stoi tx = Inr g"
    and "\<And>t. untouched s t \<Longrightarrow> wp (k g (cs_username (conns s c)) (role_of g (cs_username (conns s c)) (db s))) Q E t"
  shows "wp (bnd (group_id_of err tx) (\<lambda>g. bnd (getUsername c) (\<lambda>u.
     bnd (GroupRepository_getMemberRole g u) (k g u)))) Q E s"
  unfolding group_id_of_def assms(2) sum.case wp_bnd [of "retn _"] wp_retn wp_bnd [of "getUsername _"] getUsername_wp
    GroupRepository_getMemberRole_def wp_bnd [of "repo _ _"] wp_repo_quiet [OF assms(1)]
  by (simp add: query_def) (rule assms(3), simp add: untouched_def only_db_def)

lemma recipients_distinct:
  assumes "members_ok d"
  shows "distinct (group_recipients g me d)"
proof -
  have "distinct (map mb_username (filter (\<lambda>r. mb_group_id r = g) (group_members d)))"
    using assms by (auto simp: members_ok_def distinct_map inj_on_def)
  then have "distinct (map mb_username (members_of g d))"
    by (simp add: members_of_def distinct_map)
  then show ?thesis by (simp add: group_recipients_def distinct_map inj_on_def)
qed

lemma group_message_fanout_wp:
  assumes "quiet s" "db_ok (db s)" "stoi (pto p) = Inr g" "me = cs_username (conns s c)" "role_of g me (db s) \<noteq> []"
    and "varchar_fits (ext s) 64 (pfrom p)" "pfrom p \<in> usernames (db s)" "ts_parse (ext s) (ptimestamp p) = Some ts"
    and "mid = seqs (db s) T_group_messages" "us = group_recipients g me (db s)"
  shows "wp (GroupMessage_execute p c)
     (\<lambda>_ t. group_messages (db t) = group_messages (db s) @
          [\<lparr>x_id = mid, x_group_id = g, x_sender = pfrom p, x_encrypted_body = pbody p, x_timestamp = ts\<rparr>]
        \<and> receipts (db t) = receipts (db s) @ map (fresh_receipt mid) us
        \<and> outbox t = outbox s @ fan_out p us (clients s) @ [(c, Text (serialize (group_ack p us)))])
     (\<lambda>_ _. False) s"
proof -
  have gid: "g \<in> group_ids (db s)"
    using assms(5) db_okD(6) [OF assms(2)]
    by (auto simp: role_of_def members_ok_def member_at_def split: option.splits dest!: find_SomeD)
  let ?row = "\<lparr>x_id = mid, x_group_id = g, x_sender = pfrom p, x_encrypted_body = pbody p, x_timestamp = ts\<rparr>"
  let ?d = "group_messages_update (\<lambda>rs. rs @ [?row]) ((db s)\<lparr>seqs := (seqs (db s))(T_group_messages := mid + 1)\<rparr>)"
  let ?d' = "receipts_update (\<lambda>rs. rs @ map (fresh_receipt mid) us) ?d"
  let ?ms = "fetch_all mb_username (\<lambda>r. \<lparr>gb_groupId = g, gb_username = mb_username r, gb_role = mb_role r\<rparr>) (members_of g ?d)"
  have us: "filter (\<lambda>u. u \<noteq> me) (map gb_username ?ms) = us"
    by (simp add: fetch_all_def members_of_def assms(10) group_recipients_def comp_def)
  have fresh: "rc_message_id r \<noteq> mid" if "r \<in> set (receipts (db s))" for r
    using that db_okD(8,9) [OF assms(2)]
    by (force simp: gmessages_ok_def receipts_ok_def keyed_def gmessage_ids_def assms(9))
  have dist: "distinct us" unfolding assms(10) by (rule recipients_distinct [OF db_okD(6) [OF assms(2)]])
  have rows: "wp (GroupRepository_insertReceiptRows mid us) (\<lambda>_. sent [] (s\<lparr>db := ?d'\<rparr>)) (\<lambda>_ _. False) t"
    if "db t = ?d" "ext t = ext s" "pool t = pool s" "clients t = clients s" "conns t = conns s" "outbox t = outbox s" for t
    by (rule wp_mono [OF insertReceiptRows_quiet])
      (use that dist fresh assms(1) in \<open>auto simp: quiet_def gmessage_ids_def sent_def\<close>)
  have finish: "wp (bnd (for_each (\<lambda>m. when_m (gb_username m \<noteq> me) (send_if_online (gb_username m) p)) ms)
      (\<lambda>_. send c (group_ack p us))) (\<lambda>_. sent (fan_out p us (clients s) @ [(c, Text (serialize (group_ack p us)))]) (s\<lparr>db := ?d'\<rparr>)) (\<lambda>_ _. False) t"
    if "filter (\<lambda>u. u \<noteq> me) (map gb_username ms) = us" "sent [] (s\<lparr>db := ?d'\<rparr>) t" for ms t
  proof -
    have q: "quiet t" "clients t = clients s" using that(2) assms(1) by (auto simp: sent_def quiet_def)
    show ?thesis
      unfolding wp_bnd [of "for_each _ _"]
      by (intro wp_mono [OF fan_out_quiet [OF q(1)]] wp_mono [OF send_quiet_wp])
        (use that q in \<open>auto simp: sent_def quiet_def\<close>)
  qed
  have run: "wp (bnd (GroupRepository_insertReceiptRows mid us) (\<lambda>_.
      bnd (for_each (\<lambda>m. when_m (gb_username m \<noteq> me) (send_if_online (gb_username m) p)) ms) (\<lambda>_. send c (group_ack p us))))
     (\<lambda>_. sent (fan_out p us (clients s) @ [(c, Text (serialize (group_ack p us)))]) (s\<lparr>db := ?d'\<rparr>)) (\<lambda>_ _. False) t"
    if "filter (\<lambda>u. u \<noteq> me) (map gb_username ms) = us" "sent [] (s\<lparr>db := ?d\<rparr>) t" for ms t
    unfolding wp_bnd [of "GroupRepository_insertReceiptRows _ _"]
    by (rule wp_mono [OF rows]) (use that finish in \<open>auto simp: sent_def\<close>)
  have "wp (GroupMessage_execute p c)
     (\<lambda>_. sent (fan_out p us (clients s) @ [(c, Text (serialize (group_ack p us)))]) (s\<lparr>db := ?d'\<rparr>)) (\<lambda>_ _. False) s"
    unfolding GroupMessage_execute_def
  proof (rule actor_quiet_wp [OF assms(1,3)], unfold assms(4) [symmetric] throw_if_wp if_not_P [OF assms(5)], goal_cases)
    case (1 t)
    then have t: "quiet t" "ext t = ext s" "db t = db s" "sent [] s t"
      using assms(1) by (auto simp: untouched_def only_db_def quiet_def sent_def)
    have ins: "gmessage_insert g (pfrom p) (pbody p) (ptimestamp p) (ext s) n (db s) = (Inr mid, ?d)" for n
      using assms(6-9) gid by (simp add: gmessage_insert_def insert_row_def Let_def)
    let ?u = "(tick (tick t))\<lparr>db := ?d\<rparr>"
    have u: "quiet ?u" "db ?u = ?d" "sent [] (s\<lparr>db := ?d\<rparr>) ?u" using t by (simp_all add: sent_def)
    show ?case
      unfolding GroupRepository_saveMessage_def GroupRepository_getMembers_def wp_bnd [of "repo _ _"]
        wp_repo_quiet [OF t(1)] t(2,3) ins prod.case sum.case wp_repo_quiet [OF u(1)] Let_def
        group_ack_def [symmetric] member_select_def query_def u(2) us
      by (rule run [OF us]) (use u(3) in \<open>simp add: sent_def\<close>)
  qed
  then show ?thesis by (rule wp_mono) (auto simp: sent_def)
qed

text \<open>
  C27. A group message of a member, when nothing fails, is stored once; every other member gets a
  fresh receipt row, every other member online gets the packet once, and the sender gets an
  acknowledgement that names exactly these recipients.
\<close>

theorem group_message_fanout:
  assumes "quiet s" "db_ok (db s)" "stoi (pto p) = Inr g" "me = cs_username (conns s c)" "role_of g me (db s) \<noteq> []"
    and "varchar_fits (ext s) 64 (pfrom p)" "pfrom p \<in> usernames (db s)" "ts_parse (ext s) (ptimestamp p) = Some ts"
    and "mid = seqs (db s) T_group_messages" "us = group_recipients g me (db s)"
  shows "wp (GroupMessage_execute p c)
     (\<lambda>_ t. group_messages (db t) = group_messages (db s) @
          [\<lparr>x_id = mid, x_group_id = g, x_sender = pfrom p, x_encrypted_body = pbody p, x_timestamp = ts\<rparr>]
        \<and> receipts (db t) = receipts (db s) @ map (fresh_receipt mid) us
        \<and> outbox t = outbox s @ fan_out p us (clients s) @ [(c, Text (serialize (group_ack p us)))])
     (\<lambda>_ _. False) s"
  by (rule group_message_fanout_wp [OF assms])

section \<open>Witnesses\<close>

text \<open>Alice created group 1 and bob is a plain member of it.\<close>

definition acting :: "string \<Rightarrow> world" where
  "acting u = example_state\<lparr>conns := (\<lambda>_. fresh_session\<lparr>cs_username := u\<rparr>), clients := [''bob'' \<mapsto> [2]]\<rparr>"

lemma acting_simps:
  "cs_username (conns (acting u) c) = u" "db (acting u) = example_db" "quiet (acting u)" "ext (acting u) = example_ext"
  "clients (acting u) = [''bob'' \<mapsto> [2]]" "outbox (acting u) = []"
  by (simp_all add: acting_def) (simp_all add: example_state_def example_world_def)

lemma example_roles:
  "role_of 1 ''alice'' example_db = ''creator''" "role_of 1 ''bob'' example_db = ''member''"
  by (simp_all add: role_of_def example_db_def member_at_def)

definition to_group :: "PacketType \<Rightarrow> Packet" where
  "to_group ty = (new_packet ty)\<lparr>pto := int_str 1\<rparr>"

lemma to_group_simps:
  "stoi (pto (to_group ty)) = Inr 1" "pbody (to_group ty) = []" "pkey (to_group ty) = []"
  by (simp_all add: to_group_def new_packet_def in_int_def INT_MAX_def INT_MIN_def)

text \<open>Witness of C29: bob cannot delete the group.\<close>

lemma delete_group_exact_witness:
  "wp (DeleteGroup_execute (to_group DELETE_GROUP) 1) (\<lambda>_ _. False) (\<lambda>e t. db t = example_db) (acting ''bob'')"
  by (rule wp_mono [OF delete_group_exact [OF to_group_simps(1), of DELETE_GROUP 1 "acting ''bob''"]])
    (auto simp: acting_simps example_roles untouched_def)

text \<open>Witness of C28: bob leaves the group, and alice stays its creator.\<close>

lemma leave_authority_witness:
  "wp (GroupLeave_execute (to_group GROUP_LEAVE) 1)
     (\<lambda>_ t. role_of 1 ''bob'' (db t) = [] \<and> role_of 1 ''alice'' (db t) = ''creator'') (\<lambda>_ _. True) (acting ''bob'')"
  by (rule wp_mono [OF leave_authority [OF to_group_simps(1) refl refl, where s = "acting ''bob''" and c = 1]])
    (auto simp: acting_simps example_roles leave_target_def to_group_simps without_member_def)

text \<open>Witness of C30: bob sends a key pair and changes nothing.\<close>

lemma key_exchange_authority_witness:
  "wp (GroupKeyExchange_execute ((to_group GROUP_KEY_EXCHANGE)\<lparr>pkey := ''carol:k''\<rparr>) 1)
     (\<lambda>_ t. db t = example_db) (\<lambda>_ t. db t = example_db) (acting ''bob'')"
proof -
  have "stoi (pto ((to_group GROUP_KEY_EXCHANGE)\<lparr>pkey := ''carol:k''\<rparr>)) = Inr 1" by (simp add: to_group_simps)
  from key_exchange_authority [OF this refl, where s = "acting ''bob''" and c = 1] show ?thesis
    by (rule wp_mono) (auto simp: acting_simps example_roles)
qed

text \<open>Witness of C31: alice makes bob an admin.\<close>

lemma group_info_authority_witness:
  "wp (GroupInfo_execute ((to_group GROUP_INFO)\<lparr>pbody := ''grant_admin'', pkey := ''bob''\<rparr>) 1)
     (\<lambda>_ t. role_of 1 ''alice'' (db t) = ''creator'') (\<lambda>_ t. role_of 1 ''alice'' (db t) = ''creator'') (acting ''alice'')"
proof -
  have "stoi (pto ((to_group GROUP_INFO)\<lparr>pbody := ''grant_admin'', pkey := ''bob''\<rparr>)) = Inr 1" by (simp add: to_group_simps)
  moreover have "db_ok (db (acting ''alice''))" by (simp add: acting_simps example_db_ok)
  ultimately show ?thesis
    by (intro wp_mono [OF group_info_authority [OF _ refl]]) (auto simp: acting_simps example_roles role_changed_def dest!: spec [of _ 1] spec [of _ "''alice''"])
qed

text \<open>Witness of C27: alice writes to the group, bob is online.\<close>

lemma group_message_fanout_witness:
  "let p = (to_group GROUP_MESSAGE)\<lparr>pfrom := ''alice'', pbody := ''c'', ptimestamp := int_str 7\<rparr> in
   wp (GroupMessage_execute p 1)
     (\<lambda>_ t. outbox t = [(2, Text (serialize p)), (1, Text (serialize (group_ack p [''bob''])))]) (\<lambda>_ _. False) (acting ''alice'')"
proof -
  let ?p = "(to_group GROUP_MESSAGE)\<lparr>pfrom := ''alice'', pbody := ''c'', ptimestamp := int_str 7\<rparr>"
  have us: "group_recipients 1 ''alice'' example_db = [''bob'']"
    by (simp add: group_recipients_def members_of_def example_db_def)
  have "wp (GroupMessage_execute ?p 1)
     (\<lambda>_ t. group_messages (db t) = group_messages (db (acting ''alice'')) @
          [\<lparr>x_id = 10, x_group_id = 1, x_sender = pfrom ?p, x_encrypted_body = pbody ?p, x_timestamp = 7\<rparr>]
        \<and> receipts (db t) = receipts (db (acting ''alice'')) @ map (fresh_receipt 10) [''bob'']
        \<and> outbox t = outbox (acting ''alice'') @ fan_out ?p [''bob''] (clients (acting ''alice''))
            @ [(1, Text (serialize (group_ack ?p [''bob''])))]) (\<lambda>_ _. False) (acting ''alice'')"
    by (rule group_message_fanout [where me = "''alice''"])
      (simp_all add: acting_simps example_db_ok example_roles to_group_simps us,
       simp_all add: example_ext_def example_db_def usernames_def example_user_def in_int_def INT_MAX_def INT_MIN_def)
  then show ?thesis
    unfolding Let_def by (rule wp_mono) (simp_all add: acting_simps fan_out_def find_client_def)
qed

end
