(* ===== verification/Delivery.thy ===== *)
theory Delivery
  imports Dispatch GroupProperties
begin

text \<open>
  The two halves of store and forward on the server: what a login hands over from the offline queue,
  and what a message for an absent user leaves in the tables: an entry for the newest message of the user,
  which the next login delivers, and which is not the message just stored if a later one is there.
\<close>

section \<open>What a login delivers\<close>

text \<open>The message a queue entry refers to, if it can be read.\<close>

definition letter :: "external \<Rightarrow> messages_row list \<Rightarrow> OfflineMessage \<Rightarrow> Message option" where
  "letter e ms q = fetch_one m_sender (rowToMessage e) (find (\<lambda>r. m_id r = om_messageId q) ms)"

text \<open>The entries owed to a user, in the order of queueing, and the frames they lead to.\<close>

definition owed :: "external \<Rightarrow> string \<Rightarrow> database \<Rightarrow> OfflineMessage list" where
  "owed e u d = fetch_all o_recipient (rowToOfflineMessage e)
     (sort_key o_queued_at (filter (\<lambda>r. o_recipient r = u \<and> \<not> o_delivered r
        \<and> o_delivery_attempts r < MAX_DELIVERY_ATTEMPTS) (offline_queue d)))"

definition deliveries :: "conn \<Rightarrow> string \<Rightarrow> external \<Rightarrow> messages_row list \<Rightarrow> OfflineMessage list \<Rightarrow> (conn \<times> frame) list" where
  "deliveries c u e ms qs =
     concat (map (\<lambda>q. case letter e ms q of None \<Rightarrow> []
        | Some m \<Rightarrow> [(c, Text (serialize (forward_packet u m)))]) qs)"

text \<open>The queue after one entry was tried.\<close>

definition tried :: "external \<Rightarrow> messages_row list \<Rightarrow> OfflineMessage \<Rightarrow> offline_row list \<Rightarrow> offline_row list" where
  "tried e ms q = update_where (\<lambda>r. o_id r = om_id q)
     (\<lambda>r. r\<lparr>o_delivery_attempts := o_delivery_attempts r + 1, o_delivered := o_delivered r \<or> letter e ms q \<noteq> None\<rparr>)"

lemma find_owed_wp:
  "quiet s \<Longrightarrow> wp (OfflineQueueRepository_findUndeliveredByRecipient u) Q E s =
     Q (owed (ext s) u (db s)) ((tick (tick s))\<lparr>db := db s\<rparr>)"
  by (simp add: OfflineQueueRepository_findUndeliveredByRecipient_def queue_select_undelivered_def query_def wp_repo_quiet
      owed_def)

lemma tried_eq:
  "letter e ms q = None \<Longrightarrow> tried e ms q =
     update_where (\<lambda>r. o_id r = om_id q) (\<lambda>r. r\<lparr>o_delivery_attempts := o_delivery_attempts r + 1\<rparr>)"
  "letter e ms q = Some m \<Longrightarrow> tried e ms q rs =
     update_where (\<lambda>r. o_id r = om_id q) (\<lambda>r. r\<lparr>o_delivered := True\<rparr>)
       (update_where (\<lambda>r. o_id r = om_id q) (\<lambda>r. r\<lparr>o_delivery_attempts := o_delivery_attempts r + 1\<rparr>) rs)"
  by (simp_all add: tried_def bump_then_mark)

lemma Login_flush_quiet:
  assumes "quiet s"
  shows "wp (Login_flush c u q)
     (\<lambda>stop t. \<not> stop \<and> quiet t \<and> ext t = ext s \<and> messages (db t) = messages (db s)
        \<and> outbox t = outbox s @ deliveries c u (ext s) (messages (db s)) [q]
        \<and> offline_queue (db t) = tried (ext s) (messages (db s)) q (offline_queue (db s))) (\<lambda>_ _. False) s"
proof (cases "letter (ext s) (messages (db s)) q")
  case None
  then have n: "fetch_one m_sender (rowToMessage (ext s)) (find (\<lambda>r. m_id r = om_messageId q) (messages (db s))) = None"
    by (simp add: letter_def)
  show ?thesis
    using assms
    by (simp add: Login_flush_def wp OfflineQueueRepository_incrementAttempts_def queue_increment_def dml_def wp_repo_quiet
        MessageRepository_findById_def message_select_id_def query_def n deliveries_def None tried_eq(1))
next
  case (Some m)
  then have n: "fetch_one m_sender (rowToMessage (ext s)) (find (\<lambda>r. m_id r = om_messageId q) (messages (db s))) = Some m"
    by (simp add: letter_def)
  have nf: "net_fault (ext s) = (\<lambda>_ _. None)" using assms by (simp add: quiet_def)
  show ?thesis
    using assms
    by (simp add: Login_flush_def wp OfflineQueueRepository_incrementAttempts_def queue_increment_def dml_def wp_repo_quiet
        MessageRepository_findById_def message_select_id_def query_def n deliveries_def Some tried_eq(2) nf
        OfflineQueueRepository_markDelivered_def queue_mark_delivered_def)
qed

lemma flush_loop_quiet:
  assumes "quiet s"
  shows "wp (for_each_break (Login_flush c u) qs)
     (\<lambda>_ t. quiet t \<and> ext t = ext s \<and> messages (db t) = messages (db s)
        \<and> outbox t = outbox s @ deliveries c u (ext s) (messages (db s)) qs
        \<and> offline_queue (db t) = fold (tried (ext s) (messages (db s))) qs (offline_queue (db s))) (\<lambda>_ _. False) s"
  using assms
proof (induction qs arbitrary: s)
  case (Cons q qs)
  show ?case
    unfolding for_each_break.simps wp_bnd
  proof (rule wp_mono [OF Login_flush_quiet [OF Cons.prems]])
    fix stop t
    assume t: "\<not> stop \<and> quiet t \<and> ext t = ext s \<and> messages (db t) = messages (db s)
        \<and> outbox t = outbox s @ deliveries c u (ext s) (messages (db s)) [q]
        \<and> offline_queue (db t) = tried (ext s) (messages (db s)) q (offline_queue (db s))"
    then have "quiet t" by simp
    from Cons.IH [OF this] show "wp (if stop then retn () else for_each_break (Login_flush c u) qs)
     (\<lambda>_ t. quiet t \<and> ext t = ext s \<and> messages (db t) = messages (db s)
        \<and> outbox t = outbox s @ deliveries c u (ext s) (messages (db s)) (q # qs)
        \<and> offline_queue (db t) = fold (tried (ext s) (messages (db s))) (q # qs) (offline_queue (db s))) (\<lambda>_ _. False) t"
      using t by simp (erule wp_mono; auto simp: deliveries_def)
  qed simp
qed (simp add: wp deliveries_def)


text \<open>Tables and configuration a flush of receipts and notifications leaves alone.\<close>

definition mail_view :: "world \<Rightarrow> messages_row list \<times> offline_row list \<times> external" where
  "mail_view s = (messages (db s), offline_queue (db s), ext s)"

lemma repo_mail:
  assumes "\<And>e n d. messages (snd (st e n d)) = messages d" "\<And>e n d. offline_queue (snd (st e n d)) = offline_queue d"
  shows "frame mail_view (repo ctx st)"
proof -
  have "frame (\<lambda>s. (messages (db s), offline_queue (db s))) (repo ctx st)" "keeps only_db (repo ctx st)"
    by (rule repo_frame [where f = "\<lambda>d. (messages d, offline_queue d)"], simp add: assms, rule repo_only_db)
  then show ?thesis by (auto simp: keeps_def mail_view_def only_db_def)
qed

lemma sql_mail:
  assumes "\<And>e n d. messages (snd (st e n d)) = messages d" "\<And>e n d. offline_queue (snd (st e n d)) = offline_queue d"
  shows "frame mail_view (sql st)"
proof -
  have "pres (\<lambda>s. messages (db s) = v) (sql st)" "pres (\<lambda>s. offline_queue (db s) = w) (sql st)" "keeps only_db (sql st)" for v w
    using assms by (auto intro!: sql_only_db sql_pres simp: st_keeps_def)
  then show ?thesis by (auto simp: keeps_def mail_view_def only_db_def)
qed

lemma session_mail: "frame mail_view DbManager_session"
  using session_only_db session_pres [of "\<lambda>d. d = v" for v]
  by (auto simp: keeps_def mail_view_def only_db_def)

lemma send_mail: "frame mail_view (send c p)"
  by (simp add: keeps_wp wp mail_view_def split: option.splits)

lemma flushes_mail: "frame mail_view (flushOfflineReadReceipts u c)" "frame mail_view (flushPendingNotifications u c)"
  unfolding flushOfflineReadReceipts_def flushPendingNotifications_def
    PendingNotificationRepository_findAndClear_def try_send_def ignore_errors_def wrap_db_def
    repo_defs stmt_defs orr_mark_def
  by (intro frm.rules send_mail session_mail repo_mail sql_mail; simp add: query_def dml_def)+

lemma flushes_return: "returns (bnd (flushOfflineReadReceipts u c) (\<lambda>_. flushPendingNotifications u c))"
  unfolding flushOfflineReadReceipts_def flushPendingNotifications_def
    PendingNotificationRepository_findAndClear_def try_send_def repo_defs stmt_defs orr_mark_def
  by (intro ret)

lemma flushes_wp:
  assumes "quiet s"
  shows "wp (bnd (flushOfflineReadReceipts u c) (\<lambda>_. flushPendingNotifications u c))
     (\<lambda>_ t. quiet t \<and> mail_view t = mail_view s \<and> grown (outbox s) (outbox t)) (\<lambda>_ _. False) s"
proof -
  have f: "frame mail_view (bnd (flushOfflineReadReceipts u c) (\<lambda>_. flushPendingNotifications u c))"
    and h: "keeps (handler_step c) (bnd (flushOfflineReadReceipts u c) (\<lambda>_. flushPendingNotifications u c))"
    by (intro frm.rules flushes_mail, intro hs.rules flushes_hs)
  from wp_conj [OF returnsD [OF flushes_return assms] wp_conj [OF keeps_wpD [OF f] keeps_wpD [OF h]]]
  show ?thesis by (rule wp_mono) (auto simp: handler_step_def)
qed

text \<open>The state a login leaves behind in mailbox and outbox.\<close>

definition handed_over :: "string \<Rightarrow> conn \<Rightarrow> world \<Rightarrow> world \<Rightarrow> bool" where
  "handed_over u c s t \<longleftrightarrow>
     (\<exists>tok rest. outbox t = outbox s @ (c, Text (serialize (token_ack u tok)))
           # deliveries c u (ext s) (messages (db s)) (owed (ext s) u (db s)) @ rest)
     \<and> messages (db t) = messages (db s)
     \<and> offline_queue (db t) = fold (tried (ext s) (messages (db s))) (owed (ext s) u (db s)) (offline_queue (db s))"

lemma Login_rest_quiet:
  assumes "quiet s"
  shows "wp (Login_rest p c tok) (\<lambda>_. handed_over (pfrom p) c s) (\<lambda>_ _. False) s"
proof -
  have nf: "net_fault (ext s) = (\<lambda>_ _. None)" using assms by (simp add: quiet_def)
  let ?t = "(tick (tick (tick s)))\<lparr>db := users_update (update_where (\<lambda>r. u_username r = pfrom p)
      (\<lambda>r. r\<lparr>u_last_seen := db_now (ext s) (Suc (clock s))\<rparr>)) (db s),
      outbox := outbox s @ [(c, Text (serialize (token_ack (pfrom p) tok)))]\<rparr>"
  have tail: "wp (bnd (for_each_break (Login_flush c (pfrom p)) (owed (ext s) (pfrom p) (db s))) (\<lambda>_.
       bnd (flushOfflineReadReceipts (pfrom p) c) (\<lambda>_. flushPendingNotifications (pfrom p) c)))
      (\<lambda>_. handed_over (pfrom p) c s) (\<lambda>_ _. False) t"
    if "quiet t" "mail_view t = mail_view s" "outbox t = outbox s @ [(c, Text (serialize (token_ack (pfrom p) tok)))]" for t
    unfolding wp_bnd [of "for_each_break _ _"]
  proof (rule wp_mono [OF flush_loop_quiet [OF that(1)]])
    fix x v
    assume v: "quiet v \<and> ext v = ext t \<and> messages (db v) = messages (db t)
        \<and> outbox v = outbox t @ deliveries c (pfrom p) (ext t) (messages (db t)) (owed (ext s) (pfrom p) (db s))
        \<and> offline_queue (db v) = fold (tried (ext t) (messages (db t))) (owed (ext s) (pfrom p) (db s)) (offline_queue (db t))"
    then have "quiet v" by simp
    from flushes_wp [OF this] show "wp (bnd (flushOfflineReadReceipts (pfrom p) c) (\<lambda>_. flushPendingNotifications (pfrom p) c))
        (\<lambda>_. handed_over (pfrom p) c s) (\<lambda>_ _. False) v"
      by (rule wp_mono) (use v that in \<open>auto simp: handed_over_def mail_view_def grown_def\<close>)
  qed simp
  show ?thesis
    using assms
    by (simp add: Login_rest_def wp_bnd [of "ignore_errors _"] wp_bnd [of "send _ _"] wp_bnd [of "OfflineQueueRepository_findUndeliveredByRecipient _"]
        ignore_errors_wp UserRepository_updateLastSeen_def user_touch_def dml_def wp_repo_quiet send_wp nf find_owed_wp)
      (simp add: owed_def [of _ _ "users_update _ _"] owed_def [symmetric], rule tail; simp add: mail_view_def)
qed


lemma handed_over_cong:
  assumes "handed_over u c t v" "mail_view t = mail_view s" "outbox t = outbox s"
  shows "handed_over u c s v"
  using assms by (simp add: handed_over_def mail_view_def owed_def)

lemma Login_execute_quiet:
  assumes "quiet s"
  shows "wp (Login_execute p c) (\<lambda>_. handed_over (pfrom p) c s) (\<lambda>_ _. True) s"
proof (rule Login_execute_wpI, goal_cases)
  case (1 row t)
  have t: "quiet t" "mail_view t = mail_view s" "outbox t = outbox s"
    using 1(4) assms by (simp_all add: untouched_def only_db_def quiet_def mail_view_def)
  have rest: "wp (Login_rest p c tok) (\<lambda>_. handed_over (pfrom p) c s) (\<lambda>_ _. True) v"
    if "quiet v" "mail_view v = mail_view s" "outbox v = outbox s" for v tok
    by (rule wp_mono [OF Login_rest_quiet [OF that(1)]]) (auto intro: handed_over_cong that(2,3))
  have issue: "wp (bnd (SessionRepository_deactivateAllForUser i) (\<lambda>_. SessionRepository_save x))
      (\<lambda>_ v. quiet v \<and> mail_view v = mail_view s \<and> outbox v = outbox s) (\<lambda>_ _. True) v"
    if "quiet v" "mail_view v = mail_view s" "outbox v = outbox s" for v i x
  proof -
    have q: "keeps only_db (bnd (SessionRepository_deactivateAllForUser i) (\<lambda>_. SessionRepository_save x))"
      "frame mail_view (bnd (SessionRepository_deactivateAllForUser i) (\<lambda>_. SessionRepository_save x))"
      unfolding SessionRepository_deactivateAllForUser_def SessionRepository_save_def
      by (intro odb.rules repo_only_db, intro frm.rules repo_mail)
        (auto simp: session_deactivate_def dml_def session_save_st_def void_st_def session_insert_def insert_row_def Let_def
          split: option.splits prod.splits sum.splits)
    from wp_conj [OF keeps_wpD [OF q(1), of v] keeps_wpD [OF q(2), of v]] show ?thesis
      by (rule wp_mono) (use that in \<open>auto simp: only_db_def quiet_def\<close>)
  qed
  show ?case
    unfolding Login_grant_def wp_bnd [of Login_generateToken] token_wp
  proof (split option.split, intro conjI impI allI, simp)
    fix buf
    show "wp (bnd (bnd (SessionRepository_deactivateAllForUser (u_id row)) (\<lambda>_.
            SessionRepository_save \<lparr>se_id = 0, se_userId = u_id row, se_sessionToken = toHex buf, se_createdAt = [],
              se_expiresAt = [], se_isActive = True\<rparr>)) (\<lambda>_.
       bnd (setUsername c (pfrom p)) (\<lambda>_. bnd (setSessionToken c (toHex buf)) (\<lambda>_.
         bnd (setState c Authenticated) (\<lambda>_. Login_rest p c (toHex buf))))))
       (\<lambda>_. handed_over (pfrom p) c s) (\<lambda>_ _. True) (tick t)"
      unfolding wp_bnd [of "bnd (SessionRepository_deactivateAllForUser _) _"]
      by (rule wp_mono [OF issue])
        (use t in \<open>auto simp: mail_view_def wp_bnd setters_wp intro!: rest\<close>)
  qed
qed simp


definition is_owed :: "string \<Rightarrow> offline_row \<Rightarrow> bool" where
  "is_owed u r \<longleftrightarrow> o_recipient r = u \<and> \<not> o_delivered r \<and> o_delivery_attempts r < MAX_DELIVERY_ATTEMPTS"

definition owed_rows :: "string \<Rightarrow> database \<Rightarrow> offline_row list" where
  "owed_rows u d = sort_key o_queued_at (filter (is_owed u) (offline_queue d))"

definition message_with :: "int \<Rightarrow> database \<Rightarrow> messages_row" where
  "message_with i d = the (find (\<lambda>r. m_id r = i) (messages d))"

text \<open>The frame that delivers a queued message, and the queue without debts to the user.\<close>

definition letter_frame :: "conn \<Rightarrow> string \<Rightarrow> external \<Rightarrow> database \<Rightarrow> offline_row \<Rightarrow> conn \<times> frame" where
  "letter_frame c u e d r = (c, Text (serialize (forward_packet u (rowToMessage e (message_with (o_message_id r) d)))))"

definition settled_queue :: "string \<Rightarrow> offline_row list \<Rightarrow> offline_row list" where
  "settled_queue u = update_where (is_owed u) (\<lambda>r. r\<lparr>o_delivery_attempts := o_delivery_attempts r + 1, o_delivered := True\<rparr>)"

lemma owed_rows_eq: "u \<noteq> [] \<Longrightarrow> owed e u d = map (rowToOfflineMessage e) (owed_rows u d)"
  by (simp add: owed_def owed_rows_def fetch_all_def is_owed_def [abs_def] filter_id_conv)

lemma letter_owed:
  assumes "db_ok d" "[] \<notin> m_sender ` set (messages d)" "r \<in> set (offline_queue d)"
  shows "letter e (messages d) (rowToOfflineMessage e r) = Some (rowToMessage e (message_with (o_message_id r) d))"
proof -
  have "o_message_id r \<in> message_ids d" using db_okD(4) [OF assms(1)] assms(3) by (simp add: queue_ok_def)
  then obtain m where m: "m \<in> set (messages d)" "m_id m = o_message_id r" by (auto simp: message_ids_def)
  have "find (\<lambda>x. m_id x = o_message_id r) (messages d) = Some m"
    using keyed_find [of m_id "seqs d T_messages" "messages d" m] db_okD(3) [OF assms(1)] m by (simp add: messages_ok_def)
  moreover have "m_sender m \<noteq> []" using assms(2) m(1) by force
  ultimately show ?thesis by (simp add: letter_def rowToOfflineMessage_def fetch_one_def message_with_def)
qed

lemma deliveries_owed:
  assumes "db_ok d" "[] \<notin> m_sender ` set (messages d)" "set rs \<subseteq> set (offline_queue d)"
  shows "deliveries c u e (messages d) (map (rowToOfflineMessage e) rs) = map (letter_frame c u e d) rs"
  using assms(3) by (induction rs) (simp_all add: deliveries_def letter_frame_def letter_owed [OF assms(1,2)])

text \<open>Trying entries with different keys one after the other updates all of them.\<close>

lemma fold_tried:
  assumes "db_ok d" "[] \<notin> m_sender ` set (messages d)" "set rs \<subseteq> set (offline_queue d)" "distinct (map o_id rs)"
  shows "fold (tried e (messages d)) (map (rowToOfflineMessage e) rs) qs =
     update_where (\<lambda>r. o_id r \<in> o_id ` set rs)
       (\<lambda>r. r\<lparr>o_delivery_attempts := o_delivery_attempts r + 1, o_delivered := True\<rparr>) qs"
  using assms(3,4)
proof (induction rs arbitrary: qs)
  case (Cons r rs)
  have "tried e (messages d) (rowToOfflineMessage e r) qs =
      update_where (\<lambda>x. o_id x = o_id r) (\<lambda>x. x\<lparr>o_delivery_attempts := o_delivery_attempts x + 1, o_delivered := True\<rparr>) qs"
    using letter_owed [OF assms(1,2), of r e] Cons.prems(1) by (simp add: tried_def rowToOfflineMessage_def)
  then show ?case
    using Cons by (auto simp: update_where_def)
qed (simp add: update_where_def)

lemma settled_queue_eq:
  assumes "db_ok d" "[] \<notin> m_sender ` set (messages d)" "u \<noteq> []"
  shows "fold (tried e (messages d)) (owed e u d) (offline_queue d) = settled_queue u (offline_queue d)"
proof -
  have k: "keyed o_id (seqs d T_offline_queue) (offline_queue d)" using db_okD(4) [OF assms(1)] by (simp add: queue_ok_def)
  have "distinct (map o_id (filter (is_owed u) (offline_queue d)))"
    using k by (simp add: keyed_def distinct_map_filter)
  then have d: "distinct (map o_id (owed_rows u d))"
    unfolding owed_rows_def by (simp add: distinct_map)
  have "o_id r \<in> o_id ` set (owed_rows u d) \<longleftrightarrow> is_owed u r" if "r \<in> set (offline_queue d)" for r
    using keyed_inj [OF k that] that by (auto simp: owed_rows_def)
  then have "update_where (\<lambda>r. o_id r \<in> o_id ` set (owed_rows u d)) f (offline_queue d) =
      update_where (is_owed u) f (offline_queue d)" for f
    by (simp add: update_where_def)
  then show ?thesis
    using fold_tried [OF assms(1,2) _ d] by (auto simp: owed_rows_eq [OF assms(3)] settled_queue_def owed_rows_def)
qed

lemma login_delivers_wp:
  assumes "quiet s" "db_ok (db s)" "[] \<notin> m_sender ` set (messages (db s))" "pfrom p \<noteq> []"
  shows "wp (Login_execute p c)
     (\<lambda>_ t. (\<exists>tok rest. outbox t = outbox s @ (c, Text (serialize (token_ack (pfrom p) tok)))
            # map (letter_frame c (pfrom p) (ext s) (db s)) (owed_rows (pfrom p) (db s)) @ rest)
        \<and> messages (db t) = messages (db s)
        \<and> offline_queue (db t) = settled_queue (pfrom p) (offline_queue (db s))) (\<lambda>_ _. True) s"
proof (rule wp_mono [OF Login_execute_quiet [OF assms(1)]])
  fix x t
  assume "handed_over (pfrom p) c s t"
  moreover have "set (owed_rows (pfrom p) (db s)) \<subseteq> set (offline_queue (db s))" by (auto simp: owed_rows_def)
  ultimately show "(\<exists>tok rest. outbox t = outbox s @ (c, Text (serialize (token_ack (pfrom p) tok)))
            # map (letter_frame c (pfrom p) (ext s) (db s)) (owed_rows (pfrom p) (db s)) @ rest)
        \<and> messages (db t) = messages (db s)
        \<and> offline_queue (db t) = settled_queue (pfrom p) (offline_queue (db s))"
    using deliveries_owed [OF assms(2,3)] settled_queue_eq [OF assms(2-4)]
    by (simp add: handed_over_def owed_rows_eq [OF assms(4)])
qed simp

text \<open>
  C21. What a login hands over: with database and network up, a login that returns has sent its
  acknowledgement and then, in the order of queueing, the frame of every message that is queued for
  the user, undelivered and with attempts left; exactly these entries are marked delivered with one
  more attempt, and no message is changed.
\<close>

theorem login_delivers:
  assumes "quiet s" "db_ok (db s)" "[] \<notin> m_sender ` set (messages (db s))" "pfrom p \<noteq> []"
  shows "wp (Login_execute p c)
     (\<lambda>_ t. (\<exists>tok rest. outbox t = outbox s @ (c, Text (serialize (token_ack (pfrom p) tok)))
            # map (letter_frame c (pfrom p) (ext s) (db s)) (owed_rows (pfrom p) (db s)) @ rest)
        \<and> messages (db t) = messages (db s)
        \<and> offline_queue (db t) = settled_queue (pfrom p) (offline_queue (db s))) (\<lambda>_ _. True) s"
  by (rule login_delivers_wp [OF assms])

text \<open>Witness of C21: bob, who is owed one message, logs in on connection 4.\<close>

definition example_letter :: string where
  "example_letter = serialize ((new_packet MESSAGE)\<lparr>pfrom := ''alice'', pto := ''bob'', pbody := ''c1'', pkey := ''k1'',
     ptimestamp := int_str 5\<rparr>)"

lemma login_delivers_witness:
  "wp (Login_execute ((new_packet LOGIN)\<lparr>pfrom := ''bob'', pbody := ''pw''\<rparr>) 4)
     (\<lambda>_ t. \<exists>tok rest. outbox t = (4, Text (serialize (token_ack ''bob'' tok))) # (4, Text example_letter) # rest)
     (\<lambda>_ _. True) example_state"
proof -
  let ?p = "(new_packet LOGIN)\<lparr>pfrom := ''bob'', pbody := ''pw''\<rparr>"
  have rows: "owed_rows ''bob'' (db example_state) = offline_queue example_db" "outbox example_state = []"
    by (simp_all add: owed_rows_def example_state_def example_world_def example_db_def is_owed_def MAX_DELIVERY_ATTEMPTS_def)
  have letter: "map (letter_frame 4 ''bob'' (ext example_state) (db example_state)) (offline_queue example_db) = [(4, Text example_letter)]"
    by (simp add: letter_frame_def message_with_def example_state_def example_world_def example_db_def example_letter_def
        forward_packet_def rowToMessage_def example_ext_def new_packet_def)
  have "[] \<notin> m_sender ` set (messages (db example_state))" by (simp add: example_state_def example_db_def)
  from login_delivers [OF quiet_example_state example_state_ok this, of ?p 4] show ?thesis
    by (rule wp_mono) (use rows letter in auto)
qed

section \<open>Queueing for a user who is offline\<close>

lemma Message_accounts: "frame (\<lambda>s. (\<lambda>d. (users d, sessions d)) (db s)) (Message_execute p c)"
  unfolding Message_execute_def Message_route_def send_siblings_def try_send_def findClient_def getSessionsForUser_def
    OfflineQueueRepository_save_def MessageRepository_save_def MessageRepository_findByRecipient_def split_beta Let_def
  by (intro frm.rules send_db repo_frame)
    (auto simp: message_save_st_def queue_save_st_def void_st_def message_insert_def queue_insert_def insert_row_def Let_def
      query_def dml_def split: option.splits prod.splits sum.splits)

text \<open>
  The tables after a message was stored and queued.  The entry refers to the newest message of the
  recipient, which is the one just stored exactly if the recipient has no later one.
\<close>

definition queued :: "Packet \<Rightarrow> external \<Rightarrow> database \<Rightarrow> database \<Rightarrow> bool" where
  "queued p e d d' \<longleftrightarrow> users d' = users d \<and> sessions d' = sessions d
     \<and> (\<exists>ts n. ts_parse e (ptimestamp p) = Some ts
        \<and> messages d' = messages d @ [message_row p (seqs d T_messages) ts]
        \<and> offline_queue d' = offline_queue d
             @ [queue_row (seqs d T_offline_queue) (m_id (latest_for (pto p) (messages d'))) (pto p) n])"

definition newest_for :: "string \<Rightarrow> int \<Rightarrow> messages_row list \<Rightarrow> bool" where
  "newest_for u ts ms \<longleftrightarrow> (\<forall>r \<in> set ms. m_recipient r = u \<longrightarrow> m_created_at r \<le> ts)"

lemma latest_stored:
  assumes "newest_for (pto p) ts ms" "pfrom p \<noteq> []"
  shows "latest_for (pto p) (ms @ [message_row p i ts]) = message_row p i ts"
  by (rule latest_for_newest) (use assms in \<open>auto simp: newest_for_def message_row_def\<close>)

lemma latest_earlier:
  assumes "\<not> newest_for (pto p) ts ms" "[] \<notin> m_sender ` set ms"
  shows "latest_for (pto p) (ms @ [message_row p i ts]) \<in> set ms"
proof -
  let ?ms = "ms @ [message_row p i ts]"
  obtain r where r: "r \<in> set ms" "m_recipient r = pto p" "ts < m_created_at r"
    using assms(1) by (auto simp: newest_for_def)
  then have vis: "r \<in> set ?ms" "m_sender r \<noteq> []" using assms(2) by force+
  have "m_created_at r \<le> m_created_at (latest_for (pto p) ?ms)" "latest_for (pto p) ?ms \<in> set ?ms"
    using latest_for_later [OF vis(1) r(2) vis(2)] latest_for_in [OF vis(1) r(2) vis(2)] by auto
  then show ?thesis using r(3) by (auto simp: message_row_def)
qed

text \<open>A message that is stored and that no entry refers to.\<close>

definition unqueued :: "int \<Rightarrow> database \<Rightarrow> bool" where
  "unqueued i d \<longleftrightarrow> i \<in> message_ids d \<and> i \<notin> o_message_id ` set (offline_queue d)"

lemma queued_ids:
  assumes "queued p e d d'" "db_ok d" "ts_parse e (ptimestamp p) = Some ts" "\<not> newest_for (pto p) ts (messages d)"
    and "[] \<notin> m_sender ` set (messages d)"
  shows "unqueued (seqs d T_messages) d'"
proof -
  have old: "i < seqs d T_messages" if "i \<in> message_ids d" for i
    using that db_okD(3) [OF assms(2)] by (auto simp: messages_ok_def keyed_def message_ids_def)
  have "m_id (latest_for (pto p) (messages d @ [message_row p (seqs d T_messages) ts])) \<in> message_ids d"
    unfolding message_ids_def by (rule imageI, rule latest_earlier [OF assms(4,5)])
  moreover have "o_message_id r \<in> message_ids d" if "r \<in> set (offline_queue d)" for r
    using db_okD(4) [OF assms(2)] that by (simp add: queue_ok_def)
  moreover have "seqs d T_messages \<in> message_ids d'"
    using assms(1) by (auto simp: queued_def message_ids_def message_row_def)
  moreover obtain n where "offline_queue d' = offline_queue d @ [queue_row (seqs d T_offline_queue)
      (m_id (latest_for (pto p) (messages d @ [message_row p (seqs d T_messages) ts]))) (pto p) n]"
    using assms(1,3) by (auto simp: queued_def)
  ultimately show ?thesis using old by (fastforce simp: unqueued_def queue_row_def)
qed

lemma message_queued_wp:
  assumes "quiet s" "storable (ext s) p" "find_client (pto p) (clients s) = None" "pfrom p \<noteq> []" "ptimestamp p \<noteq> []"
  shows "wp (Message_execute p c) (\<lambda>_ t. queued p (ext s) (db s) (db t)) (\<lambda>_ _. False) s"
  by (rule wp_mono [OF wp_conj [OF message_offline_wp [OF assms(1-4)] keeps_wpD [OF Message_accounts]]])
    (use assms(5) in \<open>auto simp: queued_def coalesce_ts_def\<close>)

lemma message_frame_queued_wp:
  assumes "wf_packet p" "ptype p = MESSAGE" "Message_validate p = Inr ()" "quiet w" "authorised w c"
    and "storable (ext w) p" "find_client (pto p) (clients w) = None" "pfrom p \<noteq> []" "ptimestamp p \<noteq> []"
  shows "wp (guarded_turn c loc (WsFrame OP_DATA (serialize p)))
     (\<lambda>r t. queued p (ext w) (db w) (db t) \<and> turn_step c w t) (\<lambda>_ _. False) w"
proof -
  have "wp (guarded_turn c loc (WsFrame OP_DATA (serialize p)))
     (\<lambda>r t. snd r \<and> queued p (ext w) (db w) (db t)) (\<lambda>_ _. False) w"
  proof (rule gated_turn_wp [where h = MessageHandler])
    show "factory_create registerHandlers (ptype p) = Inr MessageHandler"
      by (simp add: assms(2) factory_create_def registerHandlers_def registerHandler_def)
    fix t
    assume "untouched w t"
    then have "quiet t" "storable (ext t) p" "find_client (pto p) (clients t) = None" "ext t = ext w" "db t = db w"
      using assms by (auto simp: untouched_def only_db_def quiet_def)
    then show "wp (h_execute MessageHandler p c) (\<lambda>_ u. queued p (ext w) (db w) (db u)) (\<lambda>_ _. False) t"
      using message_queued_wp [of t p c] assms by (simp add: MessageHandler_def)
  qed (use assms message_h.gated_handler_axioms in \<open>auto simp: MessageHandler_def\<close>)
  from wp_conj [OF this guarded_turn_wp [of c loc _ w]] show ?thesis by (rule wp_mono) auto
qed

text \<open>
  A user who logs in after that is owed nothing any more, and was sent the message, unless a later one
  was queued in its place.
\<close>

lemma login_after_queued_wp:
  assumes "queued p e d (db w)" "ext w = e" "quiet w" "db_ok d" "db_ok (db w)" "[] \<notin> m_sender ` set (messages d)" "pfrom p \<noteq> []"
    and "ts_parse e (ptimestamp p) = Some ts"
    and "wf_packet lp" "ptype lp = LOGIN" "pfrom lp = pto p" "pto p \<noteq> []" "pbody lp \<noteq> []"
    and "row \<in> set (users d)" "u_username row = pto p" "password_matches e (pbody lp) (u_password_hash row)"
    and "kdf_faults e = (\<lambda>_. None)"
    and "\<forall>n. \<exists>buf. rand_bytes e n 32 = Some buf \<and> varchar_fits e 256 (toHex buf)
          \<and> toHex buf \<notin> s_session_token ` set (sessions d)"
  shows "wp (guarded_turn c loc (WsFrame OP_DATA (serialize lp)))
     (\<lambda>r t. snd r \<and> filter (is_owed (pto p)) (offline_queue (db t)) = []
        \<and> (if newest_for (pto p) ts (messages d)
            then (c, Text (serialize (forward_packet (pto p) (rowToMessage e (message_row p (seqs d T_messages) ts))))) \<in> set (outbox t)
            else unqueued (seqs d T_messages) (db t))) (\<lambda>_ _. False) w"
proof (rule login_turn_wp [OF assms(9,10)])
  let ?m = "message_row p (seqs d T_messages) ts"
  obtain n where d: "users (db w) = users d" "sessions (db w) = sessions d" "messages (db w) = messages d @ [?m]"
    "offline_queue (db w) = offline_queue d
       @ [queue_row (seqs d T_offline_queue) (m_id (latest_for (pto p) (messages d @ [?m]))) (pto p) n]"
    using assms(1,8) by (auto simp: queued_def)
  let ?q = "queue_row (seqs d T_offline_queue) (m_id (latest_for (pto p) (messages d @ [?m]))) (pto p) n"
  let ?fr = "(c, Text (serialize (forward_packet (pto p) (rowToMessage e ?m))))"
  obtain buf where buf: "rand_bytes e (clock w + 3) 32 = Some buf" "varchar_fits e 256 (toHex buf)"
    "toHex buf \<notin> s_session_token ` set (sessions d)" using assms(18) by blast
  have senders: "[] \<notin> m_sender ` set (messages (db w))"
    using assms(6,7) by (auto simp: d message_row_def)
  have ok: "wp (Login_execute lp c) (\<lambda>_ _. True) (\<lambda>_ _. False) w"
    by (rule Login_execute_ok [where row = row and buf = buf]) (simp_all add: assms(2,3,5,11-17) d buf)
  have "?q \<in> set (owed_rows (pto p) (db w))"
    by (simp add: owed_rows_def d is_owed_def queue_row_def MAX_DELIVERY_ATTEMPTS_def)
  then have sent: "letter_frame c (pto p) e (db w) ?q \<in> letter_frame c (pto p) e (db w) ` set (owed_rows (pto p) (db w))"
    by (rule imageI)
  have new: "?fr \<in> letter_frame c (pto p) e (db w) ` set (owed_rows (pto p) (db w))" if "newest_for (pto p) ts (messages d)"
  proof -
    have "find (\<lambda>r. m_id r = seqs d T_messages) (messages (db w)) = Some ?m"
      using keyed_find [of m_id "seqs (db w) T_messages" "messages (db w)" ?m] db_okD(3) [OF assms(5)]
      by (simp add: messages_ok_def d) (simp add: message_row_def)
    moreover have "o_message_id ?q = seqs d T_messages"
      using latest_stored [OF that assms(7)] by (simp add: queue_row_def) (simp add: message_row_def)
    ultimately have "letter_frame c (pto p) e (db w) ?q = ?fr" by (simp only: letter_frame_def message_with_def) simp
    with sent show ?thesis by (simp only:)
  qed
  have old: "unqueued (seqs d T_messages) (db w)" if "\<not> newest_for (pto p) ts (messages d)"
    by (rule queued_ids [OF assms(1,4,8) that assms(6)])
  have from_u: "pfrom lp \<noteq> []" by (simp add: assms(11,12))
  have none: "filter (is_owed u) (settled_queue u rs) = []" "o_message_id ` set (settled_queue u rs) = o_message_id ` set rs" for u rs
    by (induction rs) (simp_all add: settled_queue_def is_owed_def)
  have kept: "unqueued i d2" if "unqueued i d1" "messages d2 = messages d1"
    "offline_queue d2 = settled_queue u (offline_queue d1)" for i u d1 d2
    using that none(2) [of u "offline_queue d1"] by (simp add: unqueued_def message_ids_def)
  show "wp (Login_execute lp c) (\<lambda>_ t. filter (is_owed (pto p)) (offline_queue (db t)) = []
        \<and> (if newest_for (pto p) ts (messages d) then ?fr \<in> set (outbox t) else unqueued (seqs d T_messages) (db t))) (\<lambda>_ _. False) w"
    by (rule wp_mono [OF wp_conj [OF ok login_delivers_wp [OF assms(3,5) senders from_u]]])
      (use new old none(1) assms(2,11) in \<open>auto dest: kept\<close>)
qed (simp_all add: assms(11-13))

section \<open>The echo for the other devices of the sender\<close>

text \<open>Whether or not the recipient is online, the server echoes a message to the other devices of its sender.\<close>

lemma message_echo_wp:
  assumes "quiet s" "storable (ext s) p" "pfrom p \<noteq> []"
  shows "wp (Message_execute p c)
     (\<lambda>_ t. set (echoes c (pfrom p) (p\<lparr>perrorMsg := ''1''\<rparr>) (clients s)) \<subseteq> set (outbox t)) (\<lambda>_ _. False) s"
proof (cases "find_client (pto p) (clients s)")
  case None
  show ?thesis by (rule wp_mono [OF message_offline_wp [OF assms(1,2) None assms(3)]]) auto
next
  case (Some x)
  show ?thesis by (rule wp_mono [OF message_online_wp [OF assms(1,2) Some]]) auto
qed

lemma message_frame_echo_wp:
  assumes "wf_packet p" "ptype p = MESSAGE" "Message_validate p = Inr ()" "quiet w" "authorised w c"
    and "storable (ext w) p" "pfrom p \<noteq> []" "y \<in> set (sessions_in (pfrom p) (clients w))" "y \<noteq> c"
  shows "wp (guarded_turn c loc (WsFrame OP_DATA (serialize p)))
     (\<lambda>r t. snd r \<and> (y, Text (serialize (p\<lparr>perrorMsg := ''1''\<rparr>))) \<in> set (outbox t)) (\<lambda>_ _. False) w"
proof (rule gated_turn_wp [where h = MessageHandler])
  show "factory_create registerHandlers (ptype p) = Inr MessageHandler"
    by (simp add: assms(2) factory_create_def registerHandlers_def registerHandler_def)
  fix t
  assume "untouched w t"
  then have t: "quiet t" "storable (ext t) p" "clients t = clients w"
    using assms by (auto simp: untouched_def only_db_def quiet_def)
  have "(y, Text (serialize (p\<lparr>perrorMsg := ''1''\<rparr>))) \<in> set (echoes c (pfrom p) (p\<lparr>perrorMsg := ''1''\<rparr>) (clients t))"
    using assms(8,9) by (simp add: echoes_def t)
  then show "wp (h_execute MessageHandler p c) (\<lambda>_ u. (y, Text (serialize (p\<lparr>perrorMsg := ''1''\<rparr>))) \<in> set (outbox u)) (\<lambda>_ _. False) t"
    by (simp add: MessageHandler_def) (rule wp_mono [OF message_echo_wp [OF t(1,2) assms(7)]], auto)
qed (use assms message_h.gated_handler_axioms in \<open>auto simp: MessageHandler_def\<close>)

section \<open>A history in one turn\<close>

text \<open>Everything the server sends for a history: direct messages, group messages, the acknowledgement.\<close>

definition history_packets :: "string \<Rightarrow> string \<Rightarrow> external \<Rightarrow> database \<Rightarrow> Packet list" where
  "history_packets u cursor e d =
     map (replay_packet u) (sort_messages (owed_messages u cursor e d))
     @ map replay_group_packet (owed_group_messages u cursor e d) @ [(new_packet ACK)\<lparr>pto := u\<rparr>]"

lemma sync_frame_wp:
  assumes "wf_packet p" "ptype p = SYNC_HISTORY" "pfrom p \<noteq> []" "quiet w" "authorised w c" "cs_username (conns w c) = me"
  shows "wp (guarded_turn c loc (WsFrame OP_DATA (serialize p)))
     (\<lambda>r t. snd r \<and> outbox t = outbox w @ frames c (history_packets me (pbody p) (ext w) (db w))) (\<lambda>_ _. False) w"
proof (rule gated_turn_wp [where h = SyncHistoryHandler])
  show "factory_create registerHandlers (ptype p) = Inr SyncHistoryHandler"
    by (simp add: assms(2) factory_create_def registerHandlers_def registerHandler_def)
  fix t
  assume "untouched w t"
  then have t: "quiet t" "ext t = ext w" "db t = db w" "conns t = conns w" "outbox t = outbox w"
    using assms(4) by (auto simp: untouched_def only_db_def quiet_def)
  have "me = cs_username (conns t c)" by (simp add: t assms(6))
  from sync_replays [OF t(1) this, of p]
  show "wp (h_execute SyncHistoryHandler p c) (\<lambda>_ u. outbox u = outbox w
        @ frames c (history_packets me (pbody p) (ext w) (db w))) (\<lambda>_ _. False) t"
    by (simp add: SyncHistoryHandler_def t) (erule wp_mono; simp add: history_packets_def frames_def)
qed (use assms sync_h.gated_handler_axioms in \<open>auto simp: SyncHistoryHandler_def SyncHistory_validate_def reject_if_def\<close>)

section \<open>A group message in one turn\<close>

text \<open>The frame of a group message reaches every other member who is online.\<close>

lemma group_frame_wp:
  assumes "wf_packet p" "ptype p = GROUP_MESSAGE" "GroupMessage_validate p = Inr ()" "quiet w" "db_ok (db w)" "authorised w c"
    and "stoi (pto p) = Inr g" "pfrom p = cs_username (conns w c)" "role_of g (pfrom p) (db w) \<noteq> []"
    and "varchar_fits (ext w) 64 (pfrom p)" "ts_parse (ext w) (ptimestamp p) \<noteq> None"
  shows "wp (guarded_turn c loc (WsFrame OP_DATA (serialize p)))
     (\<lambda>r t. snd r \<and> (\<forall>u x. u \<in> set (group_recipients g (pfrom p) (db w)) \<longrightarrow> find_client u (clients w) = Some x \<longrightarrow>
        (x, Text (serialize p)) \<in> set (outbox t))) (\<lambda>_ _. False) w"
proof -
  have user: "pfrom p \<in> usernames (db w)"
    using assms(9) db_okD(6) [OF assms(5)]
    by (auto simp: role_of_def members_ok_def member_at_def split: option.splits dest!: find_SomeD)
  obtain ts where ts: "ts_parse (ext w) (ptimestamp p) = Some ts" using assms(11) by auto
  have fan: "(x, Text (serialize p)) \<in> set (fan_out p us m)" if "u \<in> set us" "find_client u m = Some x" for u x us m
    using that by (auto simp: fan_out_def intro!: bexI [of _ u])
  have "wp (guarded_turn c loc (WsFrame OP_DATA (serialize p)))
     (\<lambda>r t. snd r \<and> (\<exists>rest. outbox t = outbox w @ fan_out p (group_recipients g (pfrom p) (db w)) (clients w) @ rest)) (\<lambda>_ _. False) w"
  proof (rule gated_turn_wp [where h = GroupMessageHandler])
    show "factory_create registerHandlers (ptype p) = Inr GroupMessageHandler"
      by (simp add: assms(2) factory_create_def registerHandlers_def registerHandler_def)
    fix t
    assume "untouched w t"
    then have t: "quiet t" "ext t = ext w" "db t = db w" "conns t = conns w" "clients t = clients w" "outbox t = outbox w"
      using assms(4) by (auto simp: untouched_def only_db_def quiet_def)
    show "wp (h_execute GroupMessageHandler p c) (\<lambda>_ u. \<exists>rest. outbox u =
        outbox w @ fan_out p (group_recipients g (pfrom p) (db w)) (clients w) @ rest) (\<lambda>_ _. False) t"
      using group_message_fanout_wp [OF t(1) _ assms(7) _ _ _ _ _ refl refl, of "pfrom p" c ts] t assms user ts
      by (simp add: GroupMessageHandler_def) (erule wp_mono; auto)
  qed (use assms group_message_h.gated_handler_axioms in \<open>auto simp: GroupMessageHandler_def\<close>)
  then show ?thesis by (rule wp_mono) (auto intro: fan)
qed

end
