(* ===== verification/TableFrame.thy ===== *)
theory TableFrame
  imports Dispatch
begin

text \<open>
  Properties of the tables that the server keeps, for any property of users, sessions and offline queue
  that the few statements which write these tables keep: every other statement and method keeps it, and
  so do the handlers that neither mark nor delete queue entries.  The locale \<open>rest_property\<close> carries
  the proofs for everything that stores no message, \<open>table_property\<close> adds the messages, and
  \<open>queue_property\<close> is the case of the queue.  The bound on the attempts, the fate of an
  entry and the identities of accounts are instances.
\<close>

definition db_inv :: "(database \<Rightarrow> bool) \<Rightarrow> world \<Rightarrow> world \<Rightarrow> bool" where
  "db_inv J s t \<longleftrightarrow> (J (db s) \<longrightarrow> J (db t))"

interpretation qi: step_preorder "db_inv J" for J
  by unfold_locales (auto simp: db_inv_def)

named_theorems q_step \<open>operations that keep the property\<close>
named_theorems st_q \<open>statements that keep the property\<close>

lemma sql_inv: "st_keeps J st \<Longrightarrow> keeps (db_inv J) (sql st)"
  using sql_pres [of J st] by (simp add: keeps_def db_inv_def)

lemma session_inv: "keeps (db_inv J) DbManager_session"
  using session_pres [of J] by (simp add: keeps_def db_inv_def)

lemma wrap_inv: "keeps (db_inv J) m \<Longrightarrow> keeps (db_inv J) (wrap_db ctx m)"
  by (rule wrap_db_keeps) unfold_locales

lemma repo_inv: "st_keeps J st \<Longrightarrow> keeps (db_inv J) (repo ctx st)"
  using repo_pres [of J st] by (simp add: keeps_def db_inv_def)

lemma transaction_inv: "keeps (db_inv J) m \<Longrightarrow> keeps (db_inv J) (transaction m)"
  using transaction_pres [of J m] by (simp add: keeps_def db_inv_def)

lemma insert_row_same:
  "(\<And>f d. g (up f d) = g d) \<Longrightarrow> g (snd (insert_row t cs up mk d)) = g d" if "\<And>f d. g (seqs_update f d) = g d"
  using that by (simp add: insert_row_def Let_def split: option.splits)

lemmas q_rules = qi.rules wrap_inv transaction_inv session_inv sql_inv

section \<open>Any property of users, sessions, messages and queue\<close>

locale rest_property =
  fixes J :: "database \<Rightarrow> bool"
  assumes same_rest:
      "users d' = users d \<Longrightarrow> sessions d' = sessions d \<Longrightarrow> messages d' = messages d \<Longrightarrow> offline_queue d' = offline_queue d
         \<Longrightarrow> J d \<Longrightarrow> J d'"
    and save_user: "st_keeps J (user_save_st us)"
    and touch_user: "st_keeps J (user_touch u)"
    and save_session: "st_keeps J (session_save_st se)"
    and deactivate_session: "st_keeps J (session_deactivate P)"
begin

lemmas own_statements [st_q] = save_user touch_user save_session deactivate_session

lemma other_q:
  "(\<And>e n d. users (snd (st e n d)) = users d \<and> sessions (snd (st e n d)) = sessions d
      \<and> messages (snd (st e n d)) = messages d \<and> offline_queue (snd (st e n d)) = offline_queue d) \<Longrightarrow> st_keeps J st"
  by (auto simp: st_keeps_def intro: same_rest)

text \<open>The statements the handlers run.\<close>

lemma statements_q [st_q]:
  "st_keeps J (query q)" "st_keeps J (query_cast q')"
  "st_keeps J (user_select_name u)" "st_keeps J (session_select_token u)"
  "st_keeps J (message_select_id i)" "st_keeps J (message_select_user u ts)"
  "st_keeps J (queue_select_undelivered u)" "st_keeps J queue_select_all"
  "st_keeps J (pending_insert u ty fu bd em pk)" "st_keeps J (pending_select u)" "st_keeps J (pending_delete u)"
  "st_keeps J (group_insert gn u)" "st_keeps J (group_select g)" "st_keeps J (member_upsert g u r)"
  "st_keeps J (member_select g)" "st_keeps J (member_delete g u)" "st_keeps J (role_update g u r)"
  "st_keeps J (key_select g u)" "st_keeps J (key_upsert g u k)" "st_keeps J (key_insert g u k)"
  "st_keeps J (key_delete Pk)" "st_keeps J (gmessage_insert g u b ts)" "st_keeps J (gmessage_select u ts)"
  "st_keeps J (sender_select g ts)" "st_keeps J (receipt_insert i u)" "st_keeps J (receipt_delete g u)"
  "st_keeps J (receipt_update g ts u f)" "st_keeps J (orr_insert fu u ts go kind)" "st_keeps J (orr_select u)"
  "st_keeps J (orr_mark i)" "st_keeps J (group_delete g)"
  by (rule other_q; simp add: stmt_defs
      message_select_user_def pending_insert_def
      group_insert_def member_upsert_def member_delete_def role_update_def key_upsert_def key_insert_def key_delete_def
      gmessage_insert_def gmessage_select_def receipt_insert_def receipt_delete_def receipt_update_def
      orr_insert_def orr_mark_def group_delete_def query_def query_cast_def insert_row_same Let_def split: sum.splits option.splits)+

text \<open>The methods and the parts of the handlers.\<close>

lemma methods_q [q_step]:
  "keeps (db_inv J) (UserRepository_save us)" "keeps (db_inv J) (UserRepository_updateLastSeen u)"
  "keeps (db_inv J) (UserRepository_findByUsername u)" "keeps (db_inv J) (SessionRepository_save se)"
  "keeps (db_inv J) (SessionRepository_findByToken u)" "keeps (db_inv J) (SessionRepository_deactivateAllForUser i)"
  "keeps (db_inv J) (SessionRepository_deactivateByToken u)" "keeps (db_inv J) SessionRepository_deactivateExpired"
  "keeps (db_inv J) (MessageRepository_findById i)"
  "keeps (db_inv J) (MessageRepository_findByRecipient u)" "keeps (db_inv J) (MessageRepository_findAllForUser u ts)"
  "keeps (db_inv J) (OfflineQueueRepository_findUndeliveredByRecipient u)"
  "keeps (db_inv J) OfflineQueueRepository_findAll"
  "keeps (db_inv J) (PendingNotificationRepository_queue u ty fu bd em pk)"
  "keeps (db_inv J) (GroupRepository_createGroup gn u)" "keeps (db_inv J) (GroupRepository_findGroupById g)"
  "keeps (db_inv J) (GroupRepository_addMember g u r)" "keeps (db_inv J) (GroupRepository_getMembers g)"
  "keeps (db_inv J) (GroupRepository_getMemberRole g u)" "keeps (db_inv J) (GroupRepository_updateRole g u r)"
  "keeps (db_inv J) (GroupRepository_saveKey g u k)" "keeps (db_inv J) (GroupRepository_getKey g u)"
  "keeps (db_inv J) (GroupRepository_saveMessage g u b ts)" "keeps (db_inv J) (GroupRepository_findMessagesForUserSince u ts)"
  "keeps (db_inv J) (GroupRepository_deleteReceiptsForMember g u)"
  unfolding repo_defs by (intro repo_inv st_keeps_void st_q)+

lemma composed_q [q_step]:
  "keeps (db_inv J) (PendingNotificationRepository_findAndClear u)"
  "keeps (db_inv J) (GroupRepository_removeMember g u)" "keeps (db_inv J) (GroupRepository_replaceAllKeys g pairs)"
  "keeps (db_inv J) (GroupRepository_insertReceiptRows mid us)" "keeps (db_inv J) (GroupRepository_markReceiptDelivered g ts u)"
  "keeps (db_inv J) (GroupRepository_markReceiptSeen g ts u)" "keeps (db_inv J) (queue_receipt ctx fu u ts go kind)"
  unfolding PendingNotificationRepository_findAndClear_def
    GroupRepository_removeMember_def GroupRepository_replaceAllKeys_def GroupRepository_insertReceiptRows_def
    GroupRepository_markReceiptDelivered_def GroupRepository_markReceiptSeen_def markReceipt_def queue_receipt_def
  by (intro q_rules repo_inv st_q)+

lemma send_q [q_step]: "keeps (db_inv J) (send c p)"
  by (simp add: keeps_wp wp db_inv_def split: option.splits)

lemma session_state_q [q_step]:
  "keeps (db_inv J) (setState c st)" "keeps (db_inv J) (setUsername c u)" "keeps (db_inv J) (setSessionToken c u)"
  "keeps (db_inv J) (getUsername c)" "keeps (db_inv J) (getSessionToken c)" "keeps (db_inv J) (isAuthenticated c)"
  "keeps (db_inv J) (findClient u)" "keeps (db_inv J) (getSessionsForUser u)"
  "keeps (db_inv J) (RAND_bytes n)" "keeps (db_inv J) (argon2_derive a b d u v)"
  unfolding setState_def setUsername_def setSessionToken_def getUsername_def getSessionToken_def isAuthenticated_def
    findClient_def getSessionsForUser_def RAND_bytes_def argon2_derive_def
  by (auto simp: keeps_def db_inv_def qi.k_gets split: option.splits kdf_fault.splits)

lemma protocol_error_q [q_step]: "keeps (db_inv J) (protocol_error u)"
  unfolding protocol_error_def by (rule qi.k_thr)

lemma helpers_q [q_step]:
  "keeps (db_inv J) m \<Longrightarrow> keeps (db_inv J) (ignore_errors m)"
  "keeps (db_inv J) (BaseAuth_authorize c)" "keeps (db_inv J) (try_send c p)" "keeps (db_inv J) (send_siblings c u p)"
  "keeps (db_inv J) (notify u p)" "keeps (db_inv J) (notify_or_queue u p ty fu bd em pk)" "keeps (db_inv J) (send_if_online u p)"
  "keeps (db_inv J) (notify_key p a gn b uk)" "keeps (db_inv J) (group_id_of em u)"
  "keeps (db_inv J) (hashPassword u)" "keeps (db_inv J) (verifyPassword u v)" "keeps (db_inv J) Register_generateToken"
  "keeps (db_inv J) Login_generateToken" "keeps (db_inv J) (flushOfflineReadReceipts u c)" "keeps (db_inv J) (flushPendingNotifications u c)"
  unfolding ignore_errors_def BaseAuth_authorize_def try_send_def send_siblings_def notify_def notify_or_queue_def send_if_online_def
    notify_key_def group_id_of_def hashPassword_def verifyPassword_def Register_generateToken_def Login_generateToken_def
    flushOfflineReadReceipts_def flushPendingNotifications_def try_send_def notify_def
  by (intro q_rules q_step repo_inv st_q; assumption?)+


lemma rest_executes_q:
  "keeps (db_inv J) (KeyExchange_execute p c)"
  "keeps (db_inv J) (executeGroupDelivered p c)" "keeps (db_inv J) (ReadReceipt_execute p c)"
  "keeps (db_inv J) (SyncHistory_execute p c)" "keeps (db_inv J) (CreateGroup_execute p c)"
  "keeps (db_inv J) (GroupMessage_execute p c)" "keeps (db_inv J) (GroupKeyExchange_execute p c)"
  "keeps (db_inv J) (GroupInfo_execute p c)" "keeps (db_inv J) (GroupLeave_execute p c)" "keeps (db_inv J) (DeleteGroup_execute p c)"
  unfolding KeyExchange_execute_def executeGroupDelivered_def
    ReadReceipt_execute_def ReadReceipt_group_def SyncHistory_execute_def with_fallback_def
    CreateGroup_execute_def check_members_def GroupMessage_execute_def GroupKeyExchange_execute_def resend_key_def add_single_def
    GroupInfo_execute_def grant_admin_def revoke_admin_def GroupLeave_execute_def DeleteGroup_execute_def
  by (intro q_rules q_step repo_inv st_q)+

end

section \<open>Any property of users, sessions and queue\<close>

locale table_property = rest_property +
  assumes any_messages:
      "users d' = users d \<Longrightarrow> sessions d' = sessions d \<Longrightarrow> offline_queue d' = offline_queue d \<Longrightarrow> J d \<Longrightarrow> J d'"
    and insert_entry [st_q]: "st_keeps J (queue_insert mid u)"
begin

lemma messages_q [st_q]: "st_keeps J (message_save_st m)" "st_keeps J (message_delete_where Pm)"
  by (auto simp: st_keeps_def message_save_st_def message_insert_def message_delete_where_def dml_def insert_row_same
      intro: any_messages split: sum.splits option.splits)

lemma save_message_q [q_step]: "keeps (db_inv J) (MessageRepository_save m)"
  unfolding repo_defs by (intro repo_inv st_keeps_void st_q)

lemma queue_new_q: "keeps (db_inv J) (OfflineQueueRepository_save \<lparr>om_id = 0, om_messageId = mid, om_recipient = u,
    om_queuedAt = qa, om_delivered = dl, om_deliveryAttempts = n\<rparr>)"
  unfolding OfflineQueueRepository_save_def queue_save_st_def
  by (rule repo_inv) (simp add: st_q st_keeps_void)

lemma Message_q: "keeps (db_inv J) (Message_execute p c)"
  unfolding Message_execute_def Message_route_def by (intro q_rules q_step queue_new_q repo_inv st_q)+

lemmas executes_q = rest_executes_q Message_q

end

section \<open>Properties of the queue\<close>

locale queue_property =
  fixes J :: "database \<Rightarrow> bool"
  assumes same_queue: "offline_queue d' = offline_queue d \<Longrightarrow> J d \<Longrightarrow> J d'"
    and new_entry: "J d \<Longrightarrow> offline_queue d' = offline_queue d @ [r] \<Longrightarrow> \<not> o_delivered r \<Longrightarrow> o_delivery_attempts r = 0 \<Longrightarrow> J d'"

sublocale queue_property \<subseteq> table_property J
proof unfold_locales
  have other: "st_keeps J st" if "\<And>e n d. offline_queue (snd (st e n d)) = offline_queue d" for st :: "unit stmt"
    using that by (auto simp: st_keeps_def intro: same_queue)
  show "st_keeps J (user_save_st us)" "st_keeps J (user_touch u)" "st_keeps J (session_save_st se)"
    "st_keeps J (session_deactivate P)" for us u se P
    by (rule other; simp add: user_save_st_def user_insert_def user_touch_def session_save_st_def session_insert_def
        session_deactivate_def dml_def insert_row_same)+
  show "st_keeps J (queue_insert mid u)" for mid u
    by (auto simp: st_keeps_def queue_insert_def insert_row_def Let_def intro: same_queue new_entry split: option.splits)
qed (auto intro: same_queue)

end
