(* ===== verification/Mailbox.thy ===== *)
theory Mailbox
  imports Delivery TableFrame "HOL-Library.Multiset"
begin

text \<open>
  Store and forward as the contract a user sees: every user has a mailbox of packets.  A message for
  a user who is online leaves all mailboxes alone, one for a user who is offline puts a packet into the
  mailbox of this user, a log-in hands the whole mailbox over, and most packets do nothing to any mailbox.
  The offline queue with its messages, flags and counters implements these mailboxes.
\<close>

section \<open>The abstract mailboxes\<close>

type_synonym mailboxes = "string \<Rightarrow> Packet multiset"

definition post :: "string \<Rightarrow> Packet \<Rightarrow> mailboxes \<Rightarrow> mailboxes" where
  "post u x M = M(u := add_mset x (M u))"

definition collect :: "string \<Rightarrow> mailboxes \<Rightarrow> mailboxes" where
  "collect u M = M(u := {#})"

text \<open>What of a message packet the recipient gets from the queue.\<close>

definition mail_of :: "external \<Rightarrow> int \<Rightarrow> Packet \<Rightarrow> Packet" where
  "mail_of e ts p = (new_packet MESSAGE)
     \<lparr>pfrom := pfrom p, pto := pto p, pbody := pbody p, pkey := fst (split_key (pkey p)), ptimestamp := ts_text e ts\<rparr>"

text \<open>The abstraction: the packets that the rows of the queue stand for.\<close>

definition mail_packet :: "external \<Rightarrow> string \<Rightarrow> database \<Rightarrow> offline_row \<Rightarrow> Packet" where
  "mail_packet e u d r = forward_packet u (rowToMessage e (message_with (o_message_id r) d))"

definition mailboxes_of :: "external \<Rightarrow> database \<Rightarrow> mailboxes" where
  "mailboxes_of e d = (\<lambda>u. mset (map (mail_packet e u d) (filter (is_owed u) (offline_queue d))))"

declare mset_map [simp del] mset_filter [simp del]

section \<open>The operations\<close>

lemma message_with_append:
  assumes "i \<in> message_ids d" "messages d' = messages d @ rs"
  shows "message_with i d' = message_with i d"
proof -
  obtain r where "r \<in> set (messages d)" "m_id r = i" using assms(1) by (auto simp: message_ids_def)
  then have "find (\<lambda>r. m_id r = i) (messages d) \<noteq> None" by (auto simp: find_None_iff)
  moreover have "find P (xs @ ys) = find P xs" if "find P xs \<noteq> None" for P and xs ys :: "messages_row list"
    using that by (induction xs) auto
  ultimately show ?thesis by (simp add: message_with_def assms(2))
qed

lemma mailboxes_append:
  assumes "db_ok d" "messages d' = messages d @ rs" "offline_queue d' = offline_queue d"
  shows "mailboxes_of e d' = mailboxes_of e d"
proof
  fix u
  have "mail_packet e u d' r = mail_packet e u d r" if "r \<in> set (offline_queue d)" for r
    using that db_okD(4) [OF assms(1)] message_with_append [OF _ assms(2)] by (simp add: mail_packet_def queue_ok_def)
  then show "mailboxes_of e d' u = mailboxes_of e d u"
    unfolding mailboxes_of_def assms(3) by (intro arg_cong [of _ _ mset] map_cong) auto
qed


text \<open>
  The packet that a message for an absent user puts into the mailbox: the code queues the newest message of
  the user, which is the message itself unless the user has a later one.
\<close>

definition newest_mail :: "external \<Rightarrow> string \<Rightarrow> messages_row list \<Rightarrow> Packet" where
  "newest_mail e u ms = forward_packet u (rowToMessage e (latest_for u ms))"

lemma newest_mail_own:
  assumes "newest_for (pto p) ts ms" "pfrom p \<noteq> []"
  shows "newest_mail e (pto p) (ms @ [message_row p i ts]) = mail_of e ts p"
  by (simp add: newest_mail_def latest_stored [OF assms] mail_of_def forward_packet_def rowToMessage_def)
    (simp add: message_row_def)

lemma mailboxes_queued:
  assumes "queued p e d d'" "db_ok d" "db_ok d'" "ts_parse e (ptimestamp p) = Some ts" "pfrom p \<noteq> []" "pto p \<noteq> []"
  shows "mailboxes_of e d' = post (pto p) (newest_mail e (pto p) (messages d @ [message_row p (seqs d T_messages) ts])) (mailboxes_of e d)"
proof
  fix u
  let ?ms = "messages d @ [message_row p (seqs d T_messages) ts]"
  obtain n where d': "messages d' = ?ms"
    "offline_queue d' = offline_queue d @ [queue_row (seqs d T_offline_queue) (m_id (latest_for (pto p) ?ms)) (pto p) n]"
    using assms(1,4) by (auto simp: queued_def)
  have old: "mail_packet e u d' r = mail_packet e u d r" if "r \<in> set (offline_queue d)" for r
    using that db_okD(4) [OF assms(2)] message_with_append [OF _ d'(1)] by (simp add: mail_packet_def queue_ok_def)
  have "latest_for (pto p) ?ms \<in> set ?ms"
    by (rule latest_for_in [of "message_row p (seqs d T_messages) ts"]) (use assms(5) in \<open>simp_all add: message_row_def\<close>)
  then have new: "message_with (m_id (latest_for (pto p) ?ms)) d' = latest_for (pto p) ?ms"
    using db_okD(3) [OF assms(3)] d'(1) by (auto simp: message_with_def messages_ok_def dest: keyed_find)
  have same: "map (mail_packet e u d') (filter (is_owed u) (offline_queue d)) =
      map (mail_packet e u d) (filter (is_owed u) (offline_queue d))"
    by (simp add: old)
  show "mailboxes_of e d' u = post (pto p) (newest_mail e (pto p) ?ms) (mailboxes_of e d) u"
    by (simp add: mailboxes_of_def d'(2) same post_def)
      (auto simp: is_owed_def queue_row_def MAX_DELIVERY_ATTEMPTS_def mail_packet_def new newest_mail_def)
qed

lemma mailboxes_settled:
  assumes "messages d' = messages d" "offline_queue d' = settled_queue u (offline_queue d)"
  shows "mailboxes_of e d' = collect u (mailboxes_of e d)"
proof
  fix v
  have "filter (is_owed v) (settled_queue u qs) = (if v = u then [] else filter (is_owed v) qs)" for qs
  proof -
    have "\<not> is_owed w (r\<lparr>o_delivery_attempts := n, o_delivered := True\<rparr>)" for w r n by (simp add: is_owed_def)
    moreover have "is_owed u r \<Longrightarrow> is_owed v r \<Longrightarrow> v = u" for r by (simp add: is_owed_def)
    ultimately show ?thesis by (induction qs) (auto simp: settled_queue_def update_where_def)
  qed
  moreover have "mail_packet e v d' = mail_packet e v d" by (simp add: mail_packet_def message_with_def assms(1) fun_eq_iff)
  ultimately show "mailboxes_of e d' v = collect u (mailboxes_of e d) v"
    by (simp add: mailboxes_of_def collect_def assms(2))
qed

section \<open>Packets that concern no mailbox\<close>

text \<open>What the packet types below do to messages and queue: nothing, whatever fails on the way.\<close>

definition no_mail_type :: "PacketType \<Rightarrow> bool" where
  "no_mail_type ty \<longleftrightarrow> ty \<in> {KEY_EXCHANGE, READ_RECEIPT, SYNC_HISTORY, CREATE_GROUP, GROUP_MESSAGE, GROUP_KEY_EXCHANGE,
     GROUP_INFO, GROUP_LEAVE, DELETE_GROUP}"

definition same_post :: "messages_row list \<Rightarrow> offline_row list \<Rightarrow> database \<Rightarrow> bool" where
  "same_post ms qs d \<longleftrightarrow> messages d = ms \<and> offline_queue d = qs"

interpretation sp: rest_property "same_post ms qs" for ms qs
proof unfold_locales
  have other: "st_keeps (same_post ms qs) st"
    if "\<And>e n d. messages (snd (st e n d)) = messages d \<and> offline_queue (snd (st e n d)) = offline_queue d" for st :: "unit stmt"
    using that by (simp add: st_keeps_def same_post_def)
  show "st_keeps (same_post ms qs) (user_save_st us)" "st_keeps (same_post ms qs) (user_touch u)"
    "st_keeps (same_post ms qs) (session_save_st se)" "st_keeps (same_post ms qs) (session_deactivate P)" for us u se P
    by (rule other; simp add: user_save_st_def user_insert_def user_touch_def session_save_st_def session_insert_def
        session_deactivate_def dml_def insert_row_same)+
qed (simp add: same_post_def)

lemma handle_same_post:
  assumes "factory_create registerHandlers ty = Inr h" "no_mail_type ty"
  shows "keeps (db_inv (same_post ms qs)) (handle h p c)"
proof -
  have "h_authorize h = BaseAuth_authorize" "keeps (db_inv (same_post ms qs)) (h_execute h p c)"
    using assms by (auto simp: no_mail_type_def factory_create_def registerHandlers_def registerHandler_def handler_defs
        sp.rest_executes_q)
  then show ?thesis
    unfolding handle_def by (cases "h_validate h p") (simp_all add: lift_sum_def q_rules sp.helpers_q)
qed

section \<open>The refinement\<close>

text \<open>
  C19. The offline queue implements mailboxes.  A message whose recipient is online changes no
  mailbox.  One whose recipient is offline adds exactly one packet, to the mailbox of the recipient:
  the newest message the recipient has, with the key meant for the recipient.  This is the packet of the
  message itself unless the recipient has a message with a later timestamp, when that one is queued
  instead.  A log-in that returns has sent the acknowledgement and
  then every packet of the mailbox of the user, each as often as it is in there, and the mailbox is
  empty; no other mailbox changes.  The packets about public keys, read receipts, the history and groups
  change no mailbox at all, whatever fails.  (An acknowledgement, the deletion of a conversation and a
  registration take entries out of the queue and are not part of this refinement.)
\<close>

theorem queue_refines_mailboxes:
  assumes "quiet s" "db_ok (db s)" "M = mailboxes_of (ext s) (db s)"
    and "storable (ext s) p" "pfrom p \<noteq> []" "pto p \<noteq> []" "ptimestamp p \<noteq> []" "ts_parse (ext s) (ptimestamp p) = Some ts"
    and "x = newest_mail (ext s) (pto p) (messages (db s) @ [message_row p (seqs (db s) T_messages) ts])"
    and "[] \<notin> m_sender ` set (messages (db s))" "pfrom lp \<noteq> []"
    and "factory_create registerHandlers ty = Inr h" "no_mail_type ty"
  shows "wp (Message_execute p c)
       (\<lambda>_ t. mailboxes_of (ext s) (db t) =
          (case find_client (pto p) (clients s) of None \<Rightarrow> post (pto p) x M | Some _ \<Rightarrow> M)) (\<lambda>_ _. False) s
    \<and> (newest_for (pto p) ts (messages (db s)) \<longrightarrow> x = mail_of (ext s) ts p)
    \<and> wp (Login_execute lp c)
       (\<lambda>_ t. mailboxes_of (ext s) (db t) = collect (pfrom lp) M
          \<and> (\<exists>tok xs rest. mset xs = M (pfrom lp) \<and> outbox t = outbox s @ (c, Text (serialize (token_ack (pfrom lp) tok)))
               # map (\<lambda>x. (c, Text (serialize x))) xs @ rest)) (\<lambda>_ _. True) s
    \<and> mailboxes_of e (db (snd (handle h q c' u))) = mailboxes_of e (db u)"
proof (intro conjI impI)
  show "wp (Message_execute p c)
       (\<lambda>_ t. mailboxes_of (ext s) (db t) =
          (case find_client (pto p) (clients s) of None \<Rightarrow> post (pto p) x M | Some _ \<Rightarrow> M)) (\<lambda>_ _. False) s"
  proof (cases "find_client (pto p) (clients s)")
    case None
    show ?thesis
      by (rule wp_mono [OF wp_conj [OF message_queued_wp [OF assms(1,4) None assms(5,7)] keeps_wpD [OF Message_execute_hs]]])
        (use assms(2,5,6,8) in \<open>auto simp: None assms(3,9) handler_step_def mailboxes_queued\<close>)
  next
    case (Some y)
    show ?thesis
      by (rule wp_mono [OF message_online_wp [OF assms(1,4) Some]])
        (auto simp: Some assms(3) intro: mailboxes_append [OF assms(2)])
  qed
  show "x = mail_of (ext s) ts p" if "newest_for (pto p) ts (messages (db s))"
    unfolding assms(9) by (rule newest_mail_own [OF that assms(5)])
  have "db_inv (same_post (messages (db u)) (offline_queue (db u))) u (snd (handle h q c' u))"
    using handle_same_post [OF assms(12,13)] by (simp add: keeps_def)
  then show "mailboxes_of e (db (snd (handle h q c' u))) = mailboxes_of e (db u)"
    by (simp add: db_inv_def same_post_def mailboxes_of_def mail_packet_def [abs_def] message_with_def)
  let ?pk = "mail_packet (ext s) (pfrom lp) (db s)"
  have frames: "map (letter_frame c (pfrom lp) (ext s) (db s)) rs = map (\<lambda>x. (c, Text (serialize x))) (map ?pk rs)" for rs
    by (simp add: letter_frame_def mail_packet_def)
  have all: "mset (map ?pk (owed_rows (pfrom lp) (db s))) = M (pfrom lp)"
    by (simp add: assms(3) mailboxes_of_def owed_rows_def mset_map mset_filter)
  show "wp (Login_execute lp c)
       (\<lambda>_ t. mailboxes_of (ext s) (db t) = collect (pfrom lp) M
          \<and> (\<exists>tok xs rest. mset xs = M (pfrom lp) \<and> outbox t = outbox s @ (c, Text (serialize (token_ack (pfrom lp) tok)))
               # map (\<lambda>x. (c, Text (serialize x))) xs @ rest)) (\<lambda>_ _. True) s"
  proof (rule wp_mono [OF login_delivers_wp [OF assms(1,2,10,11)]])
    fix y t
    assume t: "(\<exists>tok rest. outbox t = outbox s @ (c, Text (serialize (token_ack (pfrom lp) tok)))
            # map (letter_frame c (pfrom lp) (ext s) (db s)) (owed_rows (pfrom lp) (db s)) @ rest)
        \<and> messages (db t) = messages (db s)
        \<and> offline_queue (db t) = settled_queue (pfrom lp) (offline_queue (db s))"
    then obtain tok rest where o: "outbox t = outbox s @ (c, Text (serialize (token_ack (pfrom lp) tok)))
            # map (\<lambda>x. (c, Text (serialize x))) (map ?pk (owed_rows (pfrom lp) (db s))) @ rest"
      unfolding frames by blast
    have "mailboxes_of (ext s) (db t) = collect (pfrom lp) M"
      unfolding assms(3) by (rule mailboxes_settled) (use t in auto)
    then show "mailboxes_of (ext s) (db t) = collect (pfrom lp) M
          \<and> (\<exists>tok xs rest. mset xs = M (pfrom lp) \<and> outbox t = outbox s @ (c, Text (serialize (token_ack (pfrom lp) tok)))
               # map (\<lambda>x. (c, Text (serialize x))) xs @ rest)"
      using o all by blast
  qed simp
qed

text \<open>Witness of C19: alice writes to carol, whose mailbox is empty; bob empties his; a receipt changes nothing.\<close>

definition example_note :: Packet where
  "example_note = example_message\<lparr>pto := ''carol'', ptimestamp := int_str 7\<rparr>"

lemma queue_refines_mailboxes_witness:
  "wp (Message_execute example_note 1)
     (\<lambda>_ t. mailboxes_of example_ext (db t) ''carol'' = {#mail_of example_ext 7 example_note#}) (\<lambda>_ _. False) example_state
   \<and> wp (Login_execute ((new_packet LOGIN)\<lparr>pfrom := ''bob'', pbody := ''pw''\<rparr>) 4)
     (\<lambda>_ t. mailboxes_of example_ext (db t) ''bob'' = {#}) (\<lambda>_ _. True) example_state
   \<and> mailboxes_of example_ext (db (snd (handle ReadReceiptHandler example_note 1 example_state))) = mailboxes_of example_ext example_db"
proof -
  let ?lp = "(new_packet LOGIN)\<lparr>pfrom := ''bob'', pbody := ''pw''\<rparr>"
  let ?x = "newest_mail (ext example_state) (pto example_note)
     (messages (db example_state) @ [message_row example_note (seqs (db example_state) T_messages) 7])"
  have note_fields: "pfrom example_note = ''alice''" "pto example_note = ''carol''" "ptimestamp example_note = int_str 7"
    by (simp_all add: example_note_def example_message_def new_packet_def)
  have parse: "ts_parse example_ext (int_str 7) = Some 7" "varchar_fits example_ext n v = (length v \<le> n)" for n v
    by (simp_all add: example_ext_def in_int_def INT_MAX_def INT_MIN_def)
  have st: "ext example_state = example_ext" "db example_state = example_db" "clients example_state = Map.empty"
    by (simp_all add: example_state_def example_world_def)
  have empty: "mailboxes_of example_ext example_db ''carol'' = {#}"
    by (simp add: mailboxes_of_def example_db_def is_owed_def)
  have ok: "[] \<notin> m_sender ` set (messages (db example_state))" "newest_for ''carol'' 7 (messages (db example_state))"
    by (simp_all add: st newest_for_def) (simp_all add: example_db_def)
  have rr: "factory_create registerHandlers READ_RECEIPT = Inr ReadReceiptHandler" "no_mail_type READ_RECEIPT"
    by (simp_all add: factory_create_def registerHandlers_def registerHandler_def no_mail_type_def)
  have "storable (ext example_state) example_note" "pfrom example_note \<noteq> []" "pto example_note \<noteq> []" "ptimestamp example_note \<noteq> []"
    "ts_parse (ext example_state) (ptimestamp example_note) = Some 7" "pfrom ?lp \<noteq> []"
    by (simp_all add: storable_def note_fields parse st)
  from queue_refines_mailboxes [OF quiet_example_state example_state_ok refl this(1-5) refl ok(1) this(6) rr, of 1 example_ext example_note 1 example_state]
    queue_refines_mailboxes [OF quiet_example_state example_state_ok refl this(1-5) refl ok(1) this(6) rr, of 4 example_ext example_note 1 example_state]
  show ?thesis
    using ok(2) by (auto simp: st note_fields find_client_def post_def collect_def empty elim!: wp_mono)
qed

end
