(* ===== verification/QueueBounds.thy ===== *)
theory QueueBounds
  imports TableFrame
begin

text \<open>
  The number of delivery attempts of a queued message, in every state the server can reach.  Only
  the flush at log-in counts attempts; it takes the rows below the bound and counts each of them once.
\<close>

definition tries_ok :: "database \<Rightarrow> bool" where
  "tries_ok d \<longleftrightarrow> (\<forall>r \<in> set (offline_queue d). 0 \<le> o_delivery_attempts r \<and> o_delivery_attempts r \<le> MAX_DELIVERY_ATTEMPTS)"

abbreviation queue_step :: "world \<Rightarrow> world \<Rightarrow> bool" where
  "queue_step \<equiv> db_inv tries_ok"

interpretation tries: queue_property tries_ok
  by unfold_locales (auto simp: tries_ok_def MAX_DELIVERY_ATTEMPTS_def)

section \<open>Everything but the flush\<close>

lemma tries_update: "(\<And>r. o_delivery_attempts (f r) = o_delivery_attempts r) \<Longrightarrow>
    tries_ok d \<Longrightarrow> tries_ok (offline_queue_update (update_where P f) d)"
  by (auto simp: tries_ok_def ball_update_where)

lemma tries_delete: "tries_ok d \<Longrightarrow> tries_ok (offline_queue_update (delete_where P) d)"
  by (simp add: tries_ok_def)

lemma queue_statements_q [st_q]:
  "st_keeps tries_ok (queue_mark_delivered i)" "st_keeps tries_ok (queue_delete_where P)"
  "st_keeps tries_ok (queue_purge_between a b)"
  by (simp_all add: queue_mark_delivered_def queue_delete_where_def queue_purge_between_def st_keeps_def tries_update tries_delete)

lemma queue_methods_q [q_step]:
  "keeps queue_step (OfflineQueueRepository_markDelivered i)" "keeps queue_step OfflineQueueRepository_cleanupDelivered"
  "keeps queue_step OfflineQueueRepository_cleanupExhausted" "keeps queue_step (MessageRepository_deleteConversation a b)"
  unfolding repo_defs MessageRepository_deleteConversation_def by (intro q_rules repo_inv st_keeps_void st_q)+

lemma queue_executes_q [q_step]:
  "keeps queue_step (Register_execute p c)" "keeps queue_step (Ack_execute p c)" "keeps queue_step (DeleteConversation_execute p c)"
  unfolding Register_execute_def Register_flush_def Ack_execute_def DeleteConversation_execute_def
  by (intro q_rules q_step tries.executes_q)+


section \<open>The flush at log-in\<close>

text \<open>The bound holds, and the rows still to be tried are below it.\<close>

definition room :: "int set \<Rightarrow> database \<Rightarrow> bool" where
  "room ids d \<longleftrightarrow> tries_ok d \<and> (\<forall>r \<in> set (offline_queue d). o_id r \<in> ids \<longrightarrow> o_delivery_attempts r < MAX_DELIVERY_ATTEMPTS)"

lemma room_increment:
  assumes "room (insert i ids) d" "i \<notin> ids"
  shows "room ids (offline_queue_update (update_where (\<lambda>r. o_id r = i)
     (\<lambda>r. r\<lparr>o_delivery_attempts := o_delivery_attempts r + 1\<rparr>)) d)"
  using assms by (auto simp: room_def tries_ok_def ball_update_where)

definition room_step :: "int set \<Rightarrow> world \<Rightarrow> world \<Rightarrow> bool" where
  "room_step ids s t \<longleftrightarrow> (room ids (db s) \<longrightarrow> room ids (db t))"

interpretation rs: step_preorder "room_step ids" for ids
  by unfold_locales (auto simp: room_step_def)

lemma repo_room: "st_keeps (room ids) st \<Longrightarrow> keeps (room_step ids) (repo ctx st)"
  using repo_pres [of "room ids" st] by (simp add: keeps_def room_step_def)

lemma flush_one:
  assumes "room (insert (om_id q) ids) (db s)" "om_id q \<notin> ids"
  shows "wp (Login_flush c u q) (\<lambda>_ t. room ids (db t)) (\<lambda>_ _. False) s"
proof -
  have less: "room ids (db s)" using assms(1) by (auto simp: room_def)
  have rest: "keeps (room_step ids) (bnd (MessageRepository_findById mid) (\<lambda>mo. case mo of
        None \<Rightarrow> retn False
      | Some m \<Rightarrow> bnd (send c (forward_packet u m)) (\<lambda>_. bnd (OfflineQueueRepository_markDelivered i) (\<lambda>_. retn False))))" for mid i
  proof -
    have "keeps (room_step ids) (send c p)" for p
      by (simp add: keeps_wp wp room_step_def split: option.splits)
    moreover have "st_keeps (room ids) (message_select_id mid)"
      by (simp add: st_keeps_def message_select_id_def query_def)
    moreover have "st_keeps (room ids) (queue_mark_delivered i)"
      by (auto simp: st_keeps_def queue_mark_delivered_def room_def tries_ok_def ball_update_where)
    ultimately show ?thesis
      unfolding MessageRepository_findById_def OfflineQueueRepository_markDelivered_def by (intro rs.rules repo_room)
  qed
  have "wp (OfflineQueueRepository_incrementAttempts (om_id q)) (\<lambda>_ t. room ids (db t)) (\<lambda>_ t. room ids (db t)) s"
    unfolding OfflineQueueRepository_incrementAttempts_def
    by (rule wp_mono [OF repo_wp]) (use room_increment [OF assms] less in \<open>auto simp: queue_increment_def dml_eq\<close>)
  then show ?thesis
    unfolding Login_flush_def wp_catch_if wp_bnd [of "OfflineQueueRepository_incrementAttempts _"]
    by (rule wp_mono) (auto simp: wp_retn room_step_def intro!: wp_mono [OF keeps_wpD [OF rest]])
qed

lemma flush_all:
  assumes "room (om_id ` set qs) (db s)" "distinct (map om_id qs)"
  shows "wp (for_each_break (Login_flush c u) qs) (\<lambda>_ t. tries_ok (db t)) (\<lambda>_ _. False) s"
  using assms
proof (induction qs arbitrary: s)
  case Nil
  then show ?case by (simp add: wp_retn room_def)
next
  case (Cons q qs)
  have "wp (Login_flush c u q) (\<lambda>_ t. room (om_id ` set qs) (db t)) (\<lambda>_ _. False) s"
    by (rule flush_one) (use Cons.prems in auto)
  then show ?case
    unfolding for_each_break.simps wp_bnd
    by (rule wp_mono) (use Cons in \<open>auto simp: wp_if wp_retn room_def\<close>)
qed

lemma undelivered_wp:
  assumes "db_ok (db s)" "tries_ok (db s)"
  shows "wp (OfflineQueueRepository_findUndeliveredByRecipient u)
     (\<lambda>qs t. room (om_id ` set qs) (db t) \<and> distinct (map om_id qs)) (\<lambda>_ t. tries_ok (db t)) s"
proof -
  have key: "keyed o_id (seqs (db s) T_offline_queue) (offline_queue (db s))"
    using db_okD(4) [OF assms(1)] by (simp add: queue_ok_def)
  have "room (om_id ` set (fetch_all o_recipient (rowToOfflineMessage e) (sort_key o_queued_at (filter (\<lambda>r. P r \<and>
      o_delivery_attempts r < MAX_DELIVERY_ATTEMPTS) (offline_queue (db s)))))) (db s)" for e P
    using assms(2) keyed_inj [OF key] by (fastforce simp: room_def fetch_all_def rowToOfflineMessage_def)
  moreover have "distinct (map om_id (fetch_all o_recipient (rowToOfflineMessage e) (sort_key o_queued_at (filter P (offline_queue (db s))))))" for e P
    using keyed_distinct [OF key]
    by (simp add: fetch_all_def rowToOfflineMessage_def comp_def distinct_map inj_on_def)
  ultimately show ?thesis
    unfolding OfflineQueueRepository_findUndeliveredByRecipient_def queue_select_undelivered_def conj_assoc [symmetric]
    by (intro wp_mono [OF repo_query_wp]) (auto simp: untouched_def assms(2) simp del: conj_assoc)
qed


text \<open>Together with the integrity of the tables, the flush keeps the bound.\<close>

definition bounded_step :: "world \<Rightarrow> world \<Rightarrow> bool" where
  "bounded_step s t \<longleftrightarrow> (db_ok (db s) \<and> tries_ok (db s) \<longrightarrow> db_ok (db t) \<and> tries_ok (db t))"

interpretation bs: step_preorder bounded_step
  by unfold_locales (auto simp: bounded_step_def)

lemma both_bs: "keeps (handler_step c) m \<Longrightarrow> keeps queue_step m \<Longrightarrow> keeps bounded_step m"
  by (simp add: keeps_def handler_step_def db_inv_def bounded_step_def)

definition login_rest :: "conn \<Rightarrow> string \<Rightarrow> unit W" where
  "login_rest c u =
     bnd (OfflineQueueRepository_findUndeliveredByRecipient u) (\<lambda>entries.
     bnd (for_each_break (Login_flush c u) entries) (\<lambda>_.
     bnd (flushOfflineReadReceipts u c) (\<lambda>_. flushPendingNotifications u c)))"

lemma login_rest_q: "keeps bounded_step (login_rest c u)"
proof -
  have "wp (login_rest c u) (\<lambda>_ t. tries_ok (db t)) (\<lambda>_ t. tries_ok (db t)) s" if "db_ok (db s)" "tries_ok (db s)" for s
  proof -
    have rest: "keeps queue_step (bnd (flushOfflineReadReceipts u c) (\<lambda>_. flushPendingNotifications u c))"
      by (intro q_rules q_step)
    show ?thesis
      unfolding login_rest_def wp_bnd [of "OfflineQueueRepository_findUndeliveredByRecipient _"] wp_bnd [of "for_each_break _ _"]
      by (rule wp_mono [OF undelivered_wp [OF that]])
        (auto simp: db_inv_def intro!: wp_mono [OF flush_all] wp_mono [OF keeps_wpD [OF rest]])
  qed
  note tries = this
  have hs: "keeps (handler_step c) (login_rest c u)"
    unfolding login_rest_def by (intro hs.rules h_step for_each_break_hs)
  have "wp (login_rest c u) (\<lambda>_. bounded_step s) (\<lambda>_. bounded_step s) s" for s
  proof (cases "db_ok (db s) \<and> tries_ok (db s)")
    case True
    then show ?thesis
      by (intro wp_mono [OF wp_conj [OF tries keeps_wpD [OF hs]]]) (auto simp: bounded_step_def handler_step_def)
  qed (auto intro: wpI simp: bounded_step_def)
  then show ?thesis by (simp add: keeps_wp)
qed

lemma Login_execute_q: "keeps bounded_step (Login_execute p c)"
  unfolding Login_execute_def login_rest_def [symmetric]
  by (intro bs.rules login_rest_q both_bs [of c] h_step q_step)

lemma created_q:
  assumes "factory_create registerHandlers t = Inr h"
  shows "keeps bounded_step (handle h p c)"
proof (cases "h = LoginHandler")
  case True
  then show ?thesis
    by (auto simp: handle_def LoginHandler_def intro!: bs.rules Login_execute_q)
next
  case False
  have "keeps queue_step (h_authorize h c) \<and> keeps queue_step (h_execute h p c)"
    using assms False
    by (cases t) (auto simp: factory_create_def registerHandlers_def registerHandler_def handler_defs
        tries.executes_q queue_executes_q tries.helpers_q qi.k_retn)
  then have "keeps queue_step (handle h p c)" unfolding handle_def by (intro qi.rules) auto
  then show ?thesis by (rule both_bs [OF created_hs [OF assms]])
qed


section \<open>The server as a whole\<close>

lemma db_same_bs: "(\<And>s. db (snd (m s)) = db s) \<Longrightarrow> keeps bounded_step m"
  by (simp add: keeps_def bounded_step_def)

lemma registry_bs: "keeps bounded_step (addClient u c)" "keeps bounded_step (removeClient u c)"
  "keeps bounded_step (setState c st)" "keeps bounded_step (send_frame c f)"
  by (rule db_same_bs; simp add: addClient_def removeClient_def setState_def send_frame_def upd_def split: option.splits)+

lemma send_err_bs: "keeps bounded_step (send_err c e)"
  unfolding send_err_def by (intro both_bs [of c] h_step q_step)

lemma receive_turn_bs: "keeps bounded_step (receive_turn c ev)"
  unfolding receive_turn_def by (cases ev; simp only: ws_event.case; intro bs.rules registry_bs)

lemma track_client_bs: "keeps bounded_step (track_client c loc)"
  unfolding track_client_def isAuthenticated_def getUsername_def getSessionToken_def by (intro bs.rules registry_bs)

lemma process_packet_bs: "keeps bounded_step (process_packet c loc p)"
proof -
  have "keeps bounded_step (bnd (lift_sum (factory_create registerHandlers t)) (\<lambda>h. bnd (handle h p c) k))"
    if "\<And>x. keeps bounded_step (k x)" for t k
    by (cases "factory_create registerHandlers t")
      (auto simp: lift_sum_def wp_bnd_fun bs.k_thr intro!: bs.rules created_q that)
  note handled = this
  show ?thesis
    unfolding process_packet_def by (rule bs.k_catch_if, rule handled, rule track_client_bs) (intro bs.rules send_err_bs)
qed

lemma guarded_turn_bs: "keeps bounded_step (guarded_turn c loc ev)"
proof -
  have received: "keeps bounded_step (case r of Again \<Rightarrow> retn (loc, True) | Closed \<Rightarrow> retn (loc, False)
        | Received p \<Rightarrow> bnd (process_packet c loc p) (\<lambda>loc'. retn (loc', True)))" for r
    by (cases r; simp only: received.case; intro bs.rules process_packet_bs)
  show ?thesis
    unfolding guarded_turn_def connection_turn_def by (intro bs.rules receive_turn_bs send_err_bs received)
qed

lemma db_only_bs: "keeps db_step m \<Longrightarrow> keeps queue_step m \<Longrightarrow> keeps bounded_step m"
  by (simp add: keeps_def db_step_def db_inv_def bounded_step_def)

lemma ignore_bs: "keeps bounded_step m \<Longrightarrow> keeps bounded_step (ignore_errors m)"
  unfolding ignore_errors_def by (intro bs.rules)

lemma cleanup_bs: "keeps bounded_step (cleanup c loc)"
  unfolding cleanup_def by (intro bs.rules registry_bs ignore_bs db_only_bs m_ok q_step)

lemma timer_bs: "keeps bounded_step onCleanupTimer"
  unfolding onCleanupTimer_def by (intro bs.rules ignore_bs db_only_bs m_ok q_step)

lemma sys_step_bounded: "sys_step S S' \<Longrightarrow> bounded_step (sys_world S) (sys_world S')"
proof (induction rule: sys_step.induct)
  case (turn S c loc ev loc' w)
  then show ?case using keepsD [OF guarded_turn_bs] by fastforce
next
  case (disconnect S c loc ev loc' w)
  have "bounded_step (sys_world S) w" using disconnect keepsD [OF guarded_turn_bs] by fastforce
  moreover have "bounded_step w (snd (cleanup c loc' w))" using cleanup_bs by (simp add: keeps_def)
  ultimately show ?case by (simp add: bounded_step_def)
qed (use timer_bs in \<open>simp_all add: keeps_def bounded_step_def\<close>)

text \<open>
  C20. Bounded retries: in every reachable state of the server, whatever fails in the database or on
  the network on the way, every row of the offline queue has been tried between 0 and 5
  (\<open>MAX_DELIVERY_ATTEMPTS\<close>) times, although the update that counts an attempt has no guard.
\<close>

theorem queue_attempts_bounded:
  assumes "db_ok (db w)" "tries_ok (db w)" "rtranclp sys_step (initial w) S"
    and "r \<in> set (offline_queue (db (sys_world S)))"
  shows "0 \<le> o_delivery_attempts r \<and> o_delivery_attempts r \<le> 5"
proof -
  have "db_ok (db (sys_world S)) \<and> tries_ok (db (sys_world S))"
    using assms(3)
    by (induction rule: rtranclp_induct) (use assms(1,2) in \<open>auto simp: initial_def bounded_step_def dest: sys_step_bounded\<close>)
  then show ?thesis using assms(4) by (simp add: tries_ok_def MAX_DELIVERY_ATTEMPTS_def)
qed

text \<open>Witness of C20: the queue of the example, after a client has connected.\<close>

lemma queue_attempts_bounded_witness:
  "\<exists>S r. sys_step (initial example_state) S \<and> r \<in> set (offline_queue (db (sys_world S)))
     \<and> 0 \<le> o_delivery_attempts r \<and> o_delivery_attempts r \<le> 5"
proof -
  have open0: "sys_open (initial example_state) 7 = None" by (simp add: initial_def)
  note step = connect [OF open0]
  let ?q = "hd (offline_queue example_db)"
  have "tries_ok (db example_state)" "?q \<in> set (offline_queue (db (sys_world (initial example_state))))"
    by (simp_all add: example_state_def initial_def example_db_def tries_ok_def MAX_DELIVERY_ATTEMPTS_def)
  with queue_attempts_bounded [OF example_state_ok _ r_into_rtranclp [of sys_step, OF step], of ?q] step show ?thesis by fastforce
qed

end
