(* ===== verification/Retention.thy ===== *)
theory Retention
  imports Delivery TableFrame
begin

text \<open>
  What can happen to a message that waits in the offline queue: it keeps waiting, or it is sent to the
  recipient; a logged-in client can acknowledge it or delete the conversation; the timer drops it
  once its attempts are used up.  Nothing else removes it, whatever fails on the way.
\<close>

section \<open>An entry and its successors\<close>

definition same_entry :: "offline_row \<Rightarrow> offline_row \<Rightarrow> bool" where
  "same_entry r r' \<longleftrightarrow>
     o_id r' = o_id r \<and> o_message_id r' = o_message_id r \<and> o_recipient r' = o_recipient r
     \<and> o_delivery_attempts r \<le> o_delivery_attempts r'"

definition waits :: "offline_row \<Rightarrow> database \<Rightarrow> bool" where
  "waits r d \<longleftrightarrow> (\<exists>r' \<in> set (offline_queue d). same_entry r r' \<and> \<not> o_delivered r')"

text \<open>The entry is still there, and its message was sent to \<open>c\<close> since \<open>s\<close>.\<close>

definition passed_on :: "conn \<Rightarrow> offline_row \<Rightarrow> world \<Rightarrow> world \<Rightarrow> bool" where
  "passed_on c r s t \<longleftrightarrow>
     (\<exists>r' \<in> set (offline_queue (db t)). same_entry r r') \<and> handed_to c (o_recipient r) s t (o_message_id r)"

definition fate :: "conn \<Rightarrow> offline_row \<Rightarrow> world \<Rightarrow> world \<Rightarrow> bool" where
  "fate c r s t \<longleftrightarrow> waits r (db t) \<or> passed_on c r s t"

text \<open>What a client may do about an entry: acknowledge its message, or delete the conversation.\<close>

definition dismissed :: "world \<Rightarrow> conn \<Rightarrow> Packet \<Rightarrow> offline_row \<Rightarrow> bool" where
  "dismissed s c p r \<longleftrightarrow>
     authorised s c
     \<and> (ptype p = ACK \<and> perrorMsg p \<noteq> ''delivered'' \<and> stoi (pbody p) = Inr (o_message_id r)
        \<or> ptype p = DELETE_CONVERSATION
          \<and> (\<exists>m \<in> set (messages (db s)). m_id m = o_message_id r \<and> between (cs_username (conns s c)) (pto p) m))"

lemma same_entry_refl [simp]: "same_entry r r"
  by (simp add: same_entry_def)

lemma waits_self: "r \<in> set (offline_queue d) \<Longrightarrow> \<not> o_delivered r \<Longrightarrow> waits r d"
  using same_entry_refl [of r] unfolding waits_def by blast

interpretation wt: queue_property "waits r" for r
  by unfold_locales (auto simp: waits_def)

lemma fate_later:
  assumes "fate c r s t" "db v = db t" "prefix (outbox s) (outbox t)" "prefix (outbox t) (outbox v)"
  shows "fate c r s v"
  using assms fresh_frames_trans(1) [OF assms(3,4)] by (auto simp: fate_def passed_on_def handed_to_def)

lemma flushed_fate:
  assumes "flushed b c u s t" "r \<in> set (offline_queue (db s))" "\<not> o_delivered r"
  shows "fate c r s t"
proof -
  obtain r' where "r' \<in> set (offline_queue (db t))" "queue_flow b c u s t r r'"
    using assms(1,2) unfolding flushed_def by (metis list_all2_conv_all_nth in_set_conv_nth)
  then show ?thesis
    using assms(3) by (cases "o_delivered r'") (auto simp: fate_def waits_def passed_on_def queue_flow_def same_entry_def)
qed

section \<open>Handlers that leave every entry waiting\<close>

text \<open>The entry waits in tables that are intact.\<close>

abbreviation kept :: "offline_row \<Rightarrow> world \<Rightarrow> world \<Rightarrow> bool" where
  "kept r \<equiv> db_inv (\<lambda>d. db_ok d \<and> waits r d)"

lemma both_kept: "keeps (handler_step c) m \<Longrightarrow> keeps (db_inv (waits r)) m \<Longrightarrow> keeps (kept r) m"
  by (auto simp: keeps_def handler_step_def db_inv_def)

lemma mark_other:
  assumes "db_ok d" "waits r d" "q \<in> set (offline_queue d)" "o_message_id q \<noteq> o_message_id r"
  shows "waits r (offline_queue_update (update_where (\<lambda>x. o_id x = o_id q) (\<lambda>x. x\<lparr>o_delivered := True\<rparr>)) d)"
proof -
  obtain r' where r': "r' \<in> set (offline_queue d)" "same_entry r r'" "\<not> o_delivered r'"
    using assms(2) by (auto simp: waits_def)
  have "keyed o_id (seqs d T_offline_queue) (offline_queue d)"
    using db_okD(4) [OF assms(1)] by (simp add: queue_ok_def)
  then have "o_id r' \<noteq> o_id q"
    using r' assms(3,4) by (auto simp: same_entry_def dest: keyed_inj)
  then have "r' \<in> set (update_where (\<lambda>x. o_id x = o_id q) (\<lambda>x. x\<lparr>o_delivered := True\<rparr>) (offline_queue d))"
    using r'(1) by (force simp: update_where_def)
  then show ?thesis using r' by (auto simp: waits_def)
qed

lemma Ack_kept:
  assumes "perrorMsg p = ''delivered'' \<or> stoi (pbody p) \<noteq> Inr (o_message_id r)"
  shows "keeps (kept r) (Ack_execute p c)"
proof -
  have mark: "keeps (kept r) (bnd OfflineQueueRepository_findAll (\<lambda>entries.
        case find (\<lambda>e. om_messageId e = i \<and> \<not> om_delivered e) entries of
          None \<Rightarrow> retn ()
        | Some e \<Rightarrow> OfflineQueueRepository_markDelivered (om_id e)))" if "i \<noteq> o_message_id r" for i
    unfolding keeps_wp OfflineQueueRepository_findAll_def queue_select_all_def wp_bnd
  proof
    fix s
    show "wp (repo ctx (query (\<lambda>e n d. fetch_all o_recipient (rowToOfflineMessage e) (offline_queue d))))
        (\<lambda>entries. wp (case find (\<lambda>e. om_messageId e = i \<and> \<not> om_delivered e) entries of
          None \<Rightarrow> retn () | Some e \<Rightarrow> OfflineQueueRepository_markDelivered (om_id e))
        (\<lambda>_. kept r s) (\<lambda>_. kept r s)) (\<lambda>_. kept r s) s" for ctx
    proof (rule wp_mono [OF repo_query_wp], goal_cases)
      case (1 es t)
      then have t: "db t = db s" by (simp add: untouched_def)
      have "wp (OfflineQueueRepository_markDelivered (o_id q)) (\<lambda>_. kept r s) (\<lambda>_. kept r s) t"
        if q: "q \<in> set (offline_queue (db s))" "o_message_id q = i" for q
      proof -
        have "keeps db_step (OfflineQueueRepository_markDelivered (o_id q))" by (rule m_ok)
        then have ok: "wp (OfflineQueueRepository_markDelivered (o_id q)) (\<lambda>_. db_step t) (\<lambda>_. db_step t) t"
          by (rule keeps_wpD)
        have "wp (OfflineQueueRepository_markDelivered (o_id q)) (\<lambda>_ v. db_ok (db t) \<and> waits r (db t) \<longrightarrow> waits r (db v))
            (\<lambda>_ v. db_ok (db t) \<and> waits r (db t) \<longrightarrow> waits r (db v)) t"
          unfolding OfflineQueueRepository_markDelivered_def queue_mark_delivered_def
          by (rule wp_mono [OF repo_wp]) (use q that \<open>i \<noteq> o_message_id r\<close> in \<open>auto simp: st_results t intro: mark_other\<close>)
        from wp_conj [OF ok this] show ?thesis
          by (rule wp_mono) (auto simp: db_step_def db_inv_def t)
      qed
      then show ?case
        using 1 by (auto simp: wp_retn t db_inv_def fetch_all_def rowToOfflineMessage_def split: option.splits dest!: find_SomeD)
    qed (simp add: untouched_def db_inv_def)
  qed
  show ?thesis
  proof (cases "perrorMsg p = ''delivered''")
    case True
    have "keeps (handler_step c) (executeGroupDelivered p c)"
      using Ack_execute_hs [of c p] True by (simp add: Ack_execute_def)
    then show ?thesis
      using True by (simp add: Ack_execute_def both_kept wt.executes_q)
  next
    case False
    have save: "keeps (kept r) (case mo of None \<Rightarrow> retn () | Some m \<Rightarrow> MessageRepository_save (m\<lparr>ms_status := ''delivered''\<rparr>))" for mo
      by (intro both_kept [of c] qi.rules hs.rules h_step q_step)
    have find: "keeps (kept r) (MessageRepository_findById i)" for i
      by (intro both_kept [of c] h_step q_step)
    show ?thesis
    proof (cases "stoi (pbody p)")
      case (Inl x)
      then show ?thesis using False by (simp add: Ack_execute_def lift_sum_def qi.k_thr)
    next
      case (Inr i)
      then have "i \<noteq> o_message_id r" using False assms by auto
      then show ?thesis using False Inr
        by (simp add: Ack_execute_def lift_sum_def) (intro qi.k_bnd find save mark)
    qed
  qed
qed

text \<open>Deleting a conversation the message does not belong to.\<close>

definition elsewhere :: "string \<Rightarrow> string \<Rightarrow> offline_row \<Rightarrow> database \<Rightarrow> bool" where
  "elsewhere a b r d \<longleftrightarrow> waits r d \<and> (\<forall>m \<in> set (messages d). m_id m = o_message_id r \<longrightarrow> \<not> between a b m)"

lemma delete_elsewhere: "keeps (db_inv (elsewhere a b r)) (MessageRepository_deleteConversation a b)"
proof -
  have purge: "st_keeps (elsewhere a b r) (queue_purge_between a b)"
    by (auto simp: st_keeps_def queue_purge_between_def dml_eq elsewhere_def waits_def same_entry_def)
  have del: "st_keeps (elsewhere a b r) (message_delete_where (between a b))"
    by (auto simp: st_keeps_def message_delete_where_def elsewhere_def waits_def)
  show ?thesis
    unfolding MessageRepository_deleteConversation_def by (intro q_rules purge del)
qed

lemma DeleteConversation_waits:
  assumes "elsewhere (cs_username (conns s c)) (pto p) r (db s)"
  shows "wp (DeleteConversation_execute p c) (\<lambda>_ t. waits r (db t)) (\<lambda>_ t. waits r (db t)) s"
proof -
  have rest: "keeps (db_inv (waits r)) (bnd (notify v q) (\<lambda>delivered. bnd (when_m (\<not> delivered)
      (PendingNotificationRepository_queue v DELETE_CONVERSATION a [] [] [])) (\<lambda>_. send c q')))" for v q a q'
    by (intro q_rules q_step)
  show ?thesis
    unfolding DeleteConversation_execute_def wp_bnd [of "getUsername _"] getUsername_wp wp_bnd [of "MessageRepository_deleteConversation _ _"]
    by (rule wp_mono [OF keeps_wpD [OF delete_elsewhere]])
      (use assms in \<open>auto simp: db_inv_def elsewhere_def intro!: wp_mono [OF keeps_wpD [OF rest]]\<close>)
qed

section \<open>Log-in and registration\<close>

text \<open>A flush between steps that touch neither messages nor queue.\<close>

definition flushing :: "bool \<Rightarrow> conn \<Rightarrow> string \<Rightarrow> world \<Rightarrow> world \<Rightarrow> bool" where
  "flushing b c u s t \<longleftrightarrow> (db_ok (db s) \<longrightarrow> db_ok (db t) \<and> flushed b c u s t)"

interpretation fg: step_preorder "flushing b c u" for b c u
  by unfold_locales (auto simp: flushing_def intro: fl.R_refl fl.R_trans)

lemma mail_flushing:
  assumes "keeps (handler_step c) m" "frame mail_view m"
  shows "keeps (flushing b c u) m"
proof -
  have "flushing b c u s t" if "handler_step c s t" "mail_view t = mail_view s" for s t
    using that by (auto simp: flushing_def handler_step_def mail_view_def grown_def flushed_def list.rel_refl)
  then show ?thesis using assms by (simp add: keeps_def)
qed

lemma queue_flushing:
  assumes "keeps (handler_step c) m" "\<And>s. db_ok (db s) \<Longrightarrow> wp m (\<lambda>_. flushed b c u s) (\<lambda>_. flushed b c u s) s"
  shows "keeps (flushing b c u) m"
proof -
  have "flushing b c u s (snd (m s))" for s
    using assms(1) assms(2) [of s] by (auto simp: flushing_def keeps_def handler_step_def wp_def split: prod.splits sum.splits)
  then show ?thesis by (simp add: keeps_def)
qed

lemma same_mail:
  "frame mail_view (UserRepository_findByUsername v)" "frame mail_view (UserRepository_save us)"
  "frame mail_view (UserRepository_updateLastSeen v)" "frame mail_view (SessionRepository_deactivateAllForUser i)"
  "frame mail_view (SessionRepository_save se)"
  unfolding repo_defs stmt_defs
  by (rule repo_mail; simp add: query_def dml_def user_save_st_def user_insert_def session_save_st_def session_insert_def
      void_st_def insert_row_def Let_def split: option.splits)+

lemma same_mail':
  "frame mail_view (setUsername c v)" "frame mail_view (setSessionToken c v)" "frame mail_view (setState c st)"
  "frame mail_view (verifyPassword v w)" "frame mail_view (hashPassword v)" "frame mail_view Login_generateToken"
  "frame mail_view Register_generateToken" "frame mail_view (protocol_error v)"
proof -
  show "frame mail_view (setUsername c v)" "frame mail_view (setSessionToken c v)" "frame mail_view (setState c st)"
    unfolding setUsername_def setSessionToken_def setState_def by (intro frm.k_upd; simp add: mail_view_def)+
  have clock: "frame mail_view (RAND_bytes n)" "frame mail_view (argon2_derive a b d x y)" for n a b d x y
    by (auto simp: keeps_def RAND_bytes_def argon2_derive_def mail_view_def split: option.splits kdf_fault.splits)
  show "frame mail_view (verifyPassword v w)" "frame mail_view (hashPassword v)" "frame mail_view Login_generateToken"
    "frame mail_view Register_generateToken" "frame mail_view (protocol_error v)"
    unfolding verifyPassword_def hashPassword_def Login_generateToken_def Register_generateToken_def protocol_error_def
    by (intro frm.rules clock)+
qed

lemma Login_flushing: "keeps (flushing True c (pfrom p)) (Login_execute p c)"
proof -
  have flush: "keeps (flushing True c v) (bnd (OfflineQueueRepository_findUndeliveredByRecipient v) (for_each_break (Login_flush c v)))" for v
    by (rule queue_flushing) (auto intro!: hs.rules h_step for_each_break_hs login_flush_wp)
  have ign: "frame mail_view (ignore_errors (UserRepository_updateLastSeen v))" for v
    unfolding ignore_errors_def by (intro frm.rules same_mail)
  have seq: "bnd (OfflineQueueRepository_findUndeliveredByRecipient v) (\<lambda>es. bnd (for_each_break (Login_flush c v) es) k) =
      bnd (bnd (OfflineQueueRepository_findUndeliveredByRecipient v) (for_each_break (Login_flush c v))) k" for v and k :: "unit \<Rightarrow> unit W"
    by (simp add: bnd_assoc)
  show ?thesis
    unfolding Login_execute_def seq
    by (intro fg.rules flush mail_flushing h_step same_mail same_mail' ign send_mail flushes_mail)
qed

lemma Register_flushing: "keeps (flushing False c (pfrom p)) (Register_execute p c)"
proof -
  have flush: "keeps (flushing False c v) (bnd (OfflineQueueRepository_findUndeliveredByRecipient v) (for_each (Register_flush c v)))" for v
  proof (rule queue_flushing)
    show "keeps (handler_step c) (bnd (OfflineQueueRepository_findUndeliveredByRecipient v) (for_each (Register_flush c v)))"
      unfolding Register_flush_def by (intro hs.rules h_step)
  qed (rule register_flush_wp)
  have seq: "bnd (OfflineQueueRepository_findUndeliveredByRecipient v) (\<lambda>es. bnd (for_each (Register_flush c v) es) k) =
      bnd (bnd (OfflineQueueRepository_findUndeliveredByRecipient v) (for_each (Register_flush c v))) k" for v and k :: "unit \<Rightarrow> unit W"
    by (simp add: bnd_assoc)
  show ?thesis
    unfolding Register_execute_def seq Let_def
    by (intro fg.rules flush mail_flushing h_step same_mail same_mail' send_mail)
qed

section \<open>A turn\<close>

lemma untouched_waits: "untouched s t \<Longrightarrow> waits r (db s) \<Longrightarrow> fate c r s t"
  by (simp add: untouched_def fate_def)

lemma handle_fate:
  assumes "factory_create registerHandlers (ptype p) = Inr h" "db_ok (db s)" "r \<in> set (offline_queue (db s))"
    and "\<not> o_delivered r" "\<not> dismissed s c p r"
  shows "wp (handle h p c) (\<lambda>_. fate c r s) (\<lambda>_. fate c r s) s"
proof -
  have w: "waits r (db s)" using assms(3,4) by (rule waits_self)
  have flushing: "wp m (\<lambda>_. fate c r s) (\<lambda>_. fate c r s) s" if "keeps (flushing b c u) m" for m :: "unit W" and b u
    by (rule wp_mono [OF keeps_wpD [OF that]]) (use assms(2-4) in \<open>auto simp: flushing_def intro: flushed_fate\<close>)
  consider "h = LoginHandler" | "h = RegisterHandler" | "gated_handler h" "ptype p \<noteq> LOGIN" "ptype p \<noteq> REGISTER"
    using created_handler [OF assms(1)] assms(1)
    by (cases "ptype p") (auto simp: factory_create_def registerHandlers_def registerHandler_def)
  then show ?thesis
  proof cases
    case 1
    have "wp (Login_execute p c) (\<lambda>_. fate c r s) (\<lambda>_. fate c r s) s" by (rule flushing [OF Login_flushing])
    then show ?thesis using w by (auto simp: 1 handle_def LoginHandler_def wp fate_def split: sum.splits)
  next
    case 2
    have "wp (Register_execute p c) (\<lambda>_. fate c r s) (\<lambda>_. fate c r s) s" by (rule flushing [OF Register_flushing])
    then show ?thesis using w by (auto simp: 2 handle_def RegisterHandler_def wp fate_def split: sum.splits)
  next
    case 3
    have exe: "wp (h_execute h p c) (\<lambda>_. fate c r s) (\<lambda>_. fate c r s) t" if t: "untouched s t" "authorised s c" for t
    proof -
      have d: "db_ok (db t)" "waits r (db t)" "conns t = conns s" "db t = db s"
        using t(1) w assms(2) by (auto simp: untouched_def only_db_def)
      have kept: "wp m (\<lambda>_. fate c r s) (\<lambda>_. fate c r s) t" if "keeps (kept r) m" for m :: "unit W"
        by (rule wp_mono [OF keeps_wpD [OF that]]) (use d in \<open>auto simp: db_inv_def fate_def\<close>)
      have keep: "wp m (\<lambda>_. fate c r s) (\<lambda>_. fate c r s) t" if "keeps (db_inv (waits r)) m" for m :: "unit W"
        by (rule wp_mono [OF keeps_wpD [OF that]]) (use d in \<open>auto simp: db_inv_def fate_def\<close>)
      show ?thesis
      proof (cases "ptype p = DELETE_CONVERSATION")
        case True
        then have "elsewhere (cs_username (conns t c)) (pto p) r (db t)"
          using assms(5) t d by (auto simp: elsewhere_def dismissed_def)
        from DeleteConversation_waits [OF this] have "wp (DeleteConversation_execute p c) (\<lambda>_. fate c r s) (\<lambda>_. fate c r s) t"
          by (rule wp_mono) (simp_all add: fate_def)
        then show ?thesis
          using assms(1) True by (auto simp: factory_create_def registerHandlers_def registerHandler_def DeleteConversationHandler_def)
      next
        case False
        have "ptype p = ACK \<Longrightarrow> keeps (kept r) (Ack_execute p c)"
          by (rule Ack_kept) (use assms(5) t(2) in \<open>auto simp: dismissed_def\<close>)
        then show ?thesis
          using assms(1) False 3(2,3) kept keep
          by (cases "ptype p") (auto simp: factory_create_def registerHandlers_def registerHandler_def handler_defs
              wt.executes_q)
      qed
    qed
    show ?thesis
      unfolding handle_def gated_handler.gate [OF 3(1)] wp_bnd wp_lift_sum
      using w by (auto simp: fate_def split: sum.splits intro!: wp_mono [OF authorize_wp])
        (use exe in \<open>auto simp: fate_def untouched_def\<close>)
  qed
qed

text \<open>The packet a frame of the socket carries.\<close>

definition decoded :: "world \<Rightarrow> ws_event \<Rightarrow> Packet \<Rightarrow> bool" where
  "decoded s ev p \<longleftrightarrow> (\<exists>buf. ev = WsFrame OP_DATA buf \<and> buf \<noteq> [] \<and> deserialize (uninit_int (ext s)) buf = Inr p)"

lemma handle_prefix: "factory_create registerHandlers t = Inr h \<Longrightarrow>
    wp (handle h p c) (\<lambda>_ t. prefix (outbox s) (outbox t)) (\<lambda>_ t. prefix (outbox s) (outbox t)) s"
  by (rule wp_mono [OF keeps_wpD [OF created_hs]]) (auto simp: handler_step_def grown_def)

lemma same_db_later:
  assumes "fate c r s t" "prefix (outbox s) (outbox t)" "\<And>s. wp m (\<lambda>_ v. db v = db s \<and> prefix (outbox s) (outbox v)) (\<lambda>_ _. False) s"
  shows "wp m (\<lambda>_. fate c r s) (\<lambda>_ _. False) t"
  by (rule wp_mono [OF assms(3)]) (use assms(1,2) in \<open>auto intro: fate_later\<close>)

lemma registry_same:
  "wp (track_client c loc) (\<lambda>_ v. db v = db s \<and> prefix (outbox s) (outbox v)) (\<lambda>_ _. False) s"
  "wp (bnd (send_err c e) (\<lambda>_. retn x)) (\<lambda>_ v. db v = db s \<and> prefix (outbox s) (outbox v)) (\<lambda>_ _. False) s"
  by (auto simp: track_client_def addClient_def removeClient_def send_err_def wp split: option.splits)

lemma process_fate:
  assumes "db_ok (db s)" "r \<in> set (offline_queue (db s))" "\<not> o_delivered r" "\<not> dismissed s c p r"
  shows "wp (process_packet c loc p) (\<lambda>_. fate c r s) (\<lambda>_. fate c r s) s"
proof (cases "factory_create registerHandlers (ptype p)")
  case (Inl e)
  have "fate c r s s" using waits_self [OF assms(2,3)] by (simp add: fate_def)
  then show ?thesis
    by (auto simp: process_packet_def Inl lift_sum_def wp_catch_if wp_thr
        intro!: wp_mono [OF same_db_later [OF _ _ registry_same(2)]])
next
  case (Inr h)
  have "wp (handle h p c) (\<lambda>_ t. fate c r s t \<and> prefix (outbox s) (outbox t)) (\<lambda>_ t. fate c r s t \<and> prefix (outbox s) (outbox t)) s"
    by (rule wp_mono [OF wp_conj [OF handle_fate [OF Inr assms] handle_prefix [OF Inr]]]) auto
  then show ?thesis
    unfolding process_packet_def Inr lift_sum_def wp_catch_if
    by (simp add: wp_bnd [of "handle _ _ _"], elim wp_mono)
      (auto intro: wp_mono [OF same_db_later [OF _ _ registry_same(1)]] wp_mono [OF same_db_later [OF _ _ registry_same(2)]])
qed

lemma receive_same:
  "wp (receive_turn c ev) (\<lambda>x t. db t = db s \<and> (\<forall>p. x = Received p \<longrightarrow> t = s \<and> decoded s ev p)) (\<lambda>_ t. db t = db s) s"
proof (cases ev)
  case (WsFrame op buf)
  then show ?thesis
    by (cases op)
      (auto simp: receive_turn_def decoded_def wp wp_def [of "send_frame _ _"] send_frame_def split: option.splits sum.splits)
qed (simp add: receive_turn_def wp)

lemma turn_fate:
  assumes "db_ok (db s)" "r \<in> set (offline_queue (db s))" "\<not> o_delivered r" "\<And>p. decoded s ev p \<Longrightarrow> \<not> dismissed s c p r"
  shows "wp (guarded_turn c loc ev) (\<lambda>_. fate c r s) (\<lambda>_ _. False) s"
proof -
  have w: "fate c r s t" if "db t = db s" for t
    using waits_self [OF assms(2,3)] that by (simp add: fate_def)
  let ?r = "catch_if is_Protocol (receive_turn c ev) (\<lambda>e. bnd (send_err c e) (\<lambda>_. retn Again))"
  have "wp ?r (\<lambda>x t. db t = db s \<and> (\<forall>p. x = Received p \<longrightarrow> t = s \<and> decoded s ev p)) (\<lambda>_ t. db t = db s) s"
    unfolding wp_catch_if
    by (rule wp_mono [OF receive_same]) (auto simp: send_err_def wp split: option.splits)
  then have "wp (connection_turn c loc ev) (\<lambda>_. fate c r s) (\<lambda>_. fate c r s) s"
    unfolding connection_turn_def wp_bnd [of ?r]
    by (rule wp_mono)
      (auto simp: wp_retn wp_bnd [of "process_packet _ _ _"] wp_retn_fun w split: received.splits
        intro!: process_fate [OF assms(1-3)] assms(4))
  then show ?thesis
    unfolding guarded_turn_def wp_catch_if by (rule wp_mono) (auto simp: wp_retn)
qed

section \<open>The end of a connection and the timer\<close>

lemma cleanup_waits: "keeps (db_inv (waits r)) (cleanup c loc)"
proof -
  have "keeps (db_inv (waits r)) (removeClient u c)" for u
    by (simp add: removeClient_def keeps_def db_inv_def)
  then show ?thesis
    unfolding cleanup_def by (intro qi.rules q_step)
qed

lemma timer_keeps:
  assumes "\<not> o_delivered r" "o_delivery_attempts r < MAX_DELIVERY_ATTEMPTS"
  shows "keeps (db_inv (\<lambda>d. r \<in> set (offline_queue d))) onCleanupTimer"
proof -
  have "st_keeps (\<lambda>d. r \<in> set (offline_queue d)) (queue_delete_where P)" if "\<And>n. \<not> P n r" for P
    using that by (auto simp: st_keeps_def queue_delete_where_def dml_eq)
  moreover have "st_keeps (\<lambda>d. r \<in> set (offline_queue d)) (session_deactivate P)" for P
    by (simp add: st_keeps_def session_deactivate_def dml_eq)
  ultimately show ?thesis
    unfolding onCleanupTimer_def ignore_errors_def repo_defs using assms
    by (intro qi.rules repo_inv) auto
qed

text \<open>
  C5. No queued message is lost.  Whatever fails in the database or on the network, an undelivered entry
  of the offline queue survives every turn of every connection with its message and its recipient:
  it still waits, or its message was sent in this turn, addressed to the recipient.  The exceptions are
  what a logged-in client asks for: an acknowledgement of this message, or the deletion of a
  conversation of its own that the message belongs to.  The end of a connection leaves the entry
  waiting, and so does the timer while attempts are left.
\<close>

theorem queued_message_kept:
  assumes "db_ok (db s)" "r \<in> set (offline_queue (db s))" "\<not> o_delivered r"
  shows "(waits r (db (snd (guarded_turn c loc ev s)))
      \<or> passed_on c r s (snd (guarded_turn c loc ev s))
      \<or> (\<exists>p. decoded s ev p \<and> dismissed s c p r))
    \<and> waits r (db (snd (cleanup c loc s)))
    \<and> (o_delivery_attempts r < MAX_DELIVERY_ATTEMPTS \<longrightarrow> waits r (db (snd (onCleanupTimer s))))"
proof (intro conjI impI)
  show "waits r (db (snd (guarded_turn c loc ev s))) \<or> passed_on c r s (snd (guarded_turn c loc ev s))
      \<or> (\<exists>p. decoded s ev p \<and> dismissed s c p r)"
    using turn_fate [OF assms, of ev c loc]
    by (auto simp: wp_def fate_def split: prod.splits sum.splits)
  show "waits r (db (snd (cleanup c loc s)))"
    using cleanup_waits [of r c loc] waits_self [OF assms(2,3)] by (simp add: keeps_def db_inv_def)
  show "waits r (db (snd (onCleanupTimer s)))" if "o_delivery_attempts r < MAX_DELIVERY_ATTEMPTS"
    using timer_keeps [OF assms(3) that] assms(2,3) by (auto simp: keeps_def db_inv_def intro: waits_self)
qed

text \<open>Witness of C5: bob logs in while the network is down; his message waits on, or is sent.\<close>

lemma queued_message_kept_witness:
  "\<exists>r s. r \<in> set (offline_queue example_db) \<and> o_recipient r = ''bob'' \<and> db s = example_db \<and> net_fault (ext s) 0 4 = Some ''lost''
     \<and> (let t = snd (guarded_turn 4 ([], []) (WsFrame OP_DATA (serialize ((new_packet LOGIN)\<lparr>pfrom := ''bob'', pbody := ''pw''\<rparr>))) s)
        in waits r (db t) \<or> passed_on 4 r s t) \<and> waits r (db (snd (onCleanupTimer s)))"
proof -
  let ?p = "(new_packet LOGIN)\<lparr>pfrom := ''bob'', pbody := ''pw''\<rparr>"
  let ?s = "example_state\<lparr>ext := example_ext\<lparr>net_fault := (\<lambda>_ _. Some ''lost'')\<rparr>\<rparr>"
  let ?r = "hd (offline_queue example_db)"
  have "wf_packet ?p"
    by (simp add: wf_packet_def bar_free_def new_packet_def in_int_def INT_MIN_def INT_MAX_def PROTOCOL_VERSION_def)
  then have "deserialize t0 (serialize ?p) = Inr ?p" for t0
    by (simp add: deserialize_def read_packet_serialize)
  then have no: "\<not> (\<exists>p. decoded ?s (WsFrame OP_DATA (serialize ?p)) p \<and> dismissed ?s 4 p ?r)"
    by (auto simp: decoded_def dismissed_def new_packet_def)
  have r: "?r \<in> set (offline_queue example_db)" "\<not> o_delivered ?r" "o_recipient ?r = ''bob''" "o_delivery_attempts ?r = 0"
    by (simp_all add: example_db_def)
  have s: "db ?s = example_db" by (simp add: example_state_def)
  then have "db_ok (db ?s)" "?r \<in> set (offline_queue (db ?s))" using example_db_ok r(1) by simp_all
  from queued_message_kept [OF this r(2), of 4 "([], [])" "WsFrame OP_DATA (serialize ?p)"] no r s
  show ?thesis
    by (intro exI [of _ ?r] exI [of _ ?s]) (simp add: MAX_DELIVERY_ATTEMPTS_def)
qed

text \<open>
  The acknowledgement needs no relation to the message: \<open>AckHandler\<close> does not ask who the recipient is,
  so any logged-in client can mark the queued message of anybody as delivered, and nothing is sent.
\<close>

lemma ack_by_anyone:
  assumes "quiet s" "r \<in> set (offline_queue (db s))" "\<not> o_delivered r" "o_recipient r \<noteq> []"
    and "o_message_id r \<noteq> 0" "perrorMsg p \<noteq> ''delivered''" "stoi (pbody p) = Inr (o_message_id r)" "varchar_fits (ext s) 16 ''delivered''"
  shows "wp (Ack_execute p c) (\<lambda>_ t. outbox t = outbox s
     \<and> (\<exists>q \<in> set (offline_queue (db s)). o_message_id q = o_message_id r \<and> \<not> o_delivered q
          \<and> q\<lparr>o_delivered := True\<rparr> \<in> set (offline_queue (db t)))) (\<lambda>_ _. False) s"
proof -
  let ?P = "\<lambda>e. om_messageId e = o_message_id r \<and> \<not> om_delivered e"
  have ex: "\<exists>q \<in> set (offline_queue (db s)). find ?P (fetch_all o_recipient (rowToOfflineMessage e) (offline_queue (db s)))
      = Some (rowToOfflineMessage e q) \<and> o_message_id q = o_message_id r \<and> \<not> o_delivered q" for e
  proof -
    have "find ?P (fetch_all o_recipient (rowToOfflineMessage e) (offline_queue (db s))) \<noteq> None"
      using assms(2-4) by (auto simp: find_None_iff fetch_all_def rowToOfflineMessage_def)
    then obtain x where x: "find ?P (fetch_all o_recipient (rowToOfflineMessage e) (offline_queue (db s))) = Some x" by blast
    from find_SomeD [OF this] x show ?thesis by (auto simp: fetch_all_def rowToOfflineMessage_def)
  qed
  have mark: "wp (bnd OfflineQueueRepository_findAll (\<lambda>entries. case find ?P entries of
          None \<Rightarrow> retn () | Some e \<Rightarrow> OfflineQueueRepository_markDelivered (om_id e)))
      (\<lambda>_ t. outbox t = outbox s \<and> (\<exists>q \<in> set (offline_queue (db s)). o_message_id q = o_message_id r \<and> \<not> o_delivered q
          \<and> q\<lparr>o_delivered := True\<rparr> \<in> set (offline_queue (db t)))) (\<lambda>_ _. False) t"
    if "quiet t" "offline_queue (db t) = offline_queue (db s)" "outbox t = outbox s" for t
  proof -
    obtain q where q: "q \<in> set (offline_queue (db s))"
      "find ?P (fetch_all o_recipient (rowToOfflineMessage (ext t)) (offline_queue (db s))) = Some (rowToOfflineMessage (ext t) q)"
      "o_message_id q = o_message_id r" "\<not> o_delivered q" using ex by blast
    have "q\<lparr>o_delivered := True\<rparr> \<in> set (update_where (\<lambda>x. o_id x = o_id q) (\<lambda>x. x\<lparr>o_delivered := True\<rparr>) (offline_queue (db s)))"
      using q(1) by (force simp: update_where_def)
    then show ?thesis
      using that q
      by (auto simp: wp OfflineQueueRepository_findAll_def queue_select_all_def query_def wp_repo_quiet
          OfflineQueueRepository_markDelivered_def queue_mark_delivered_def dml_def) (auto simp: rowToOfflineMessage_def)
  qed
  have save: "wp (case mo of None \<Rightarrow> retn () | Some m \<Rightarrow> MessageRepository_save (m\<lparr>ms_status := ''delivered''\<rparr>))
      (\<lambda>_ t. quiet t \<and> offline_queue (db t) = offline_queue (db s) \<and> outbox t = outbox s) (\<lambda>_ _. False) t"
    if "quiet t" "ext t = ext s" "db t = db s" "outbox t = outbox s" "\<And>m. mo = Some m \<Longrightarrow> ms_id m \<noteq> 0" for mo t
    using that assms(8)
    by (auto simp: wp_retn MessageRepository_save_def message_save_st_def wp_repo_quiet split: option.splits)
  have id: "ms_id m \<noteq> 0" if "fetch_one m_sender (rowToMessage e) (find (\<lambda>x. m_id x = o_message_id r) (messages (db s))) = Some m" for e m
    using that assms(5) by (auto simp: fetch_one_def rowToMessage_def split: option.splits if_splits dest!: find_SomeD)
  show ?thesis
    using assms(1,6,7)
    by (simp add: Ack_execute_def lift_sum_def MessageRepository_findById_def message_select_id_def query_def,
        subst wp_bnd, simp add: wp_repo_quiet query_def)
      (subst wp_bnd, rule wp_mono [OF save], auto intro: mark dest: id)
qed

end
