(* ===== verification/Privacy.thy ===== *)
theory Privacy
  imports Delivery
begin

text \<open>
  To whom the server sends direct messages.  Each handler is followed along the preorder
  \<open>discreet\<close>: the MESSAGE frames it sends go to connections of the sender or of the recipient.  The
  handlers that open a session change the name of the connection before they send.
\<close>

section \<open>Frames and those whom they concern\<close>

text \<open>A packet concerns its sender and its recipient.\<close>

definition concerns :: "string \<Rightarrow> Packet \<Rightarrow> bool" where
  "concerns u q \<longleftrightarrow> u = pfrom q \<or> u = pto q"

text \<open>
  The connections that may get a packet in a turn of \<open>c\<close>, whose session is \<open>u\<close>, under the client
  map \<open>K\<close>.
\<close>

definition may_get :: "client_map \<Rightarrow> conn \<Rightarrow> ClientSession \<Rightarrow> conn \<Rightarrow> Packet \<Rightarrow> bool" where
  "may_get K c u x q \<longleftrightarrow>
     (ptype q = MESSAGE \<longrightarrow> x = c \<and> cs_state u = Authenticated \<and> concerns (cs_username u) q
        \<or> (\<exists>v. x \<in> set (sessions_in v K) \<and> concerns v q))"

definition private_frame :: "client_map \<Rightarrow> conn \<Rightarrow> ClientSession \<Rightarrow> conn \<times> frame \<Rightarrow> bool" where
  "private_frame K c u xf \<longleftrightarrow>
     (case snd xf of Text m \<Rightarrow> \<exists>q. m = serialize q \<and> may_get K c u (fst xf) q | Pong _ \<Rightarrow> True)"

definition private_sends :: "client_map \<Rightarrow> conn \<Rightarrow> ClientSession \<Rightarrow> world \<Rightarrow> world \<Rightarrow> bool" where
  "private_sends K c u s t \<longleftrightarrow>
     clients t = clients s \<and> (\<exists>fs. outbox t = outbox s @ fs \<and> list_all (private_frame K c u) fs)"

text \<open>While the session of the connection and the client map are as given.\<close>

definition discreet :: "client_map \<Rightarrow> conn \<Rightarrow> ClientSession \<Rightarrow> world \<Rightarrow> world \<Rightarrow> bool" where
  "discreet K c u s t \<longleftrightarrow>
     (clients s = K \<and> conns s c = u \<longrightarrow> private_sends K c u s t \<and> conns t c = u)"

interpretation di: step_preorder "discreet K c u" for K c u
proof unfold_locales
  show "discreet K c u s s" for K c u s by (simp add: discreet_def private_sends_def)
  show "discreet K c u s v" if "discreet K c u s t" "discreet K c u t v" for K c u s t v
    using that by (auto simp: discreet_def private_sends_def)
qed

named_theorems di_ops \<open>operations that send no direct message, or only to whom it concerns\<close>

lemma db_di: "keeps db_step m \<Longrightarrow> keeps (discreet K c u) m"
  by (erule keeps_weaken) (simp add: db_step_def only_db_def discreet_def private_sends_def)

lemmas repo_di [di_ops] = m_ok [THEN db_di]

lemma send_di: "may_get K c u x p \<Longrightarrow> keeps (discreet K c u) (send x p)"
  by (auto simp: keeps_wp wp discreet_def private_sends_def private_frame_def split: option.splits)

lemma send_other_di [di_ops]: "ptype p \<noteq> MESSAGE \<Longrightarrow> keeps (discreet K c u) (send x p)"
  by (rule send_di) (simp add: may_get_def)

lemma getters_di [di_ops]:
  "keeps (discreet K c u) (getUsername x)" "keeps (discreet K c u) (getSessionToken x)"
  "keeps (discreet K c u) (isAuthenticated x)" "keeps (discreet K c u) (findClient v)"
  "keeps (discreet K c u) (getSessionsForUser v)"
  by (simp_all add: getUsername_def getSessionToken_def isAuthenticated_def findClient_def
      getSessionsForUser_def di.k_gets)

text \<open>The results of the two look-ups in the client map, and of the name of the connection.\<close>

lemma bnd_gets_di:
  "(\<And>s. clients s = K \<Longrightarrow> conns s c = u \<Longrightarrow> keeps (discreet K c u) (k (f s))) \<Longrightarrow>
    keeps (discreet K c u) (bnd (gets f) k)"
  by (auto simp: keeps_def bnd_def discreet_def)

lemma findClient_di:
  "(\<And>x. x \<in> set (sessions_in v K) \<Longrightarrow> keeps (discreet K c u) (f (Some x))) \<Longrightarrow> keeps (discreet K c u) (f None) \<Longrightarrow>
    keeps (discreet K c u) (bnd (findClient v) f)"
  unfolding findClient_def
proof (rule bnd_gets_di)
  fix s :: world
  assume "clients s = K"
    and "\<And>x. x \<in> set (sessions_in v K) \<Longrightarrow> keeps (discreet K c u) (f (Some x))" "keeps (discreet K c u) (f None)"
  then show "keeps (discreet K c u) (f (find_client v (clients s)))"
    by (cases "find_client v K") (auto dest: clients_map.first_in)
qed

lemma for_each_di: "(\<And>x. x \<in> set xs \<Longrightarrow> keeps (discreet K c u) (f x)) \<Longrightarrow> keeps (discreet K c u) (for_each f xs)"
  by (induction xs) (auto intro: di.k_retn di.k_bnd)

lemma getSessions_di:
  "(\<And>x. x \<in> set (sessions_in v K) \<Longrightarrow> keeps (discreet K c u) (f x)) \<Longrightarrow>
    keeps (discreet K c u) (bnd (getSessionsForUser v) (for_each f))"
  unfolding getSessionsForUser_def by (rule bnd_gets_di) (simp add: for_each_di)

lemma getUsername_di: "keeps (discreet K c u) (f (cs_username u)) \<Longrightarrow> keeps (discreet K c u) (bnd (getUsername c) f)"
  unfolding getUsername_def by (rule bnd_gets_di) simp

text \<open>A computation whose result is known to satisfy \<open>P\<close>.\<close>

lemma result_di:
  assumes "keeps (discreet K c u) m" "\<And>s. wp m (\<lambda>r _. P r) (\<lambda>_ _. True) s"
    and "\<And>r. P r \<Longrightarrow> keeps (discreet K c u) (f r)"
  shows "keeps (discreet K c u) (bnd m f)"
  unfolding keeps_wp wp_bnd
proof
  fix s
  show "wp m (\<lambda>x. wp (f x) (\<lambda>_. discreet K c u s) (\<lambda>_. discreet K c u s)) (\<lambda>_. discreet K c u s) s"
    by (rule wp_mono [OF wp_conj [OF keeps_wpD [OF assms(1)] assms(2)]])
      (use assms(3) in \<open>auto intro: wp_mono [OF keeps_wpD] di.R_trans\<close>)
qed

section \<open>The handlers that send no direct message\<close>

lemma sends_di [di_ops]:
  "ptype p \<noteq> MESSAGE \<Longrightarrow> keeps (discreet K c u) (try_send x p)"
  "ptype p \<noteq> MESSAGE \<Longrightarrow> keeps (discreet K c u) (send_siblings x v p)"
  "ptype p \<noteq> MESSAGE \<Longrightarrow> keeps (discreet K c u) (notify v p)"
  "ptype p \<noteq> MESSAGE \<Longrightarrow> keeps (discreet K c u) (notify_or_queue v p ty fu bd em pk)"
  "ptype p \<noteq> MESSAGE \<Longrightarrow> keeps (discreet K c u) (send_if_online v p)"
  unfolding try_send_def send_siblings_def notify_def notify_or_queue_def send_if_online_def try_send_def
  by (intro di.rules di_ops; assumption)+

lemma sent_types [simp]:
  "ptype (delivered_packet v p) = ACK" "ptype (invite_packet fu tu nm g k) = GROUP_INVITE"
  "ptype (receipt_packet v r) \<noteq> MESSAGE" "ptype (token_ack v tok) = ACK" "ptype (err_packet e) = ERR"
  "ptype (replay_group_packet gm) = GROUP_MESSAGE" "ptype (new_packet ty) = ty"
  by (simp_all add: delivered_packet_def invite_packet_def receipt_packet_def token_ack_def err_packet_def
      replay_group_packet_def new_packet_def Let_def)

lemma helpers_di [di_ops]:
  "keeps (discreet K c u) (BaseAuth_authorize x)" "keeps (discreet K c u) (protocol_error msg)"
  "keeps (discreet K c u) (queue_receipt ctx fu tu ts go kind)" "keeps (discreet K c u) (send_err x e)"
  "keeps (discreet K c u) (group_id_of err g)" "keeps (discreet K c u) (notify_key p a gn b uk)"
  "keeps (discreet K c u) (check_members ms)"
  unfolding BaseAuth_authorize_def protocol_error_def queue_receipt_def send_err_def ignore_errors_def group_id_of_def
    notify_key_def check_members_def protocol_error_def
  by (intro di.rules di_ops repo_step [THEN db_di] stmt_ok; simp)+

lemma silent_executes_di:
  "keeps (discreet K c u) (KeyExchange_execute p c)"
  "keeps (discreet K c u) (Ack_execute p c)"
  "keeps (discreet K c u) (DeleteConversation_execute p c)"
  "keeps (discreet K c u) (CreateGroup_execute p c)"
  "keeps (discreet K c u) (GroupKeyExchange_execute p c)"
  "keeps (discreet K c u) (GroupInfo_execute p c)"
  "keeps (discreet K c u) (GroupLeave_execute p c)"
  unfolding KeyExchange_execute_def Ack_execute_def executeGroupDelivered_def DeleteConversation_execute_def
    CreateGroup_execute_def GroupKeyExchange_execute_def resend_key_def add_single_def GroupInfo_execute_def grant_admin_def
    revoke_admin_def GroupLeave_execute_def
  by (intro di.rules di_ops; simp)+

lemma DeleteGroup_di: "keeps (discreet K c u) (DeleteGroup_execute p c)"
  unfolding DeleteGroup_execute_def
  by (intro di.rules di_ops session_step [THEN db_di] sql_step [THEN db_di] stmt_ok; simp)

lemma forwards_di:
  "ptype p \<noteq> MESSAGE \<Longrightarrow> keeps (discreet K c u) (ReadReceipt_execute p c)"
  "ptype p \<noteq> MESSAGE \<Longrightarrow> keeps (discreet K c u) (GroupMessage_execute p c)"
  unfolding ReadReceipt_execute_def ReadReceipt_group_def GroupMessage_execute_def
  by (intro di.rules di_ops; simp)+

section \<open>The handlers that do\<close>

lemma try_send_di: "may_get K c u x p \<Longrightarrow> keeps (discreet K c u) (try_send x p)"
  unfolding try_send_def by (intro di.rules send_di)

lemma Message_di: "keeps (discreet K c u) (Message_execute p c)"
proof -
  have to: "may_get K c u x (p\<lparr>pkey := k\<rparr>)" if "x \<in> set (sessions_in (pto p) K)" for x k
    using that by (auto simp: may_get_def concerns_def)
  have copy: "may_get K c u x (p\<lparr>perrorMsg := e\<rparr>)" if "x \<in> set (sessions_in (pfrom p) K)" for x e
    using that by (auto simp: may_get_def concerns_def)
  have "keeps (discreet K c u) (Message_route p k)" for k
    unfolding Message_route_def by (rule findClient_di; simp add: send_di to; intro di.rules repo_di)
  moreover have "keeps (discreet K c u) (send_siblings c (pfrom p) (p\<lparr>perrorMsg := e\<rparr>))" for e
    unfolding send_siblings_def by (intro getSessions_di di.rules try_send_di copy)
  moreover have "keeps (discreet K c u) (send c ((new_packet ACK)\<lparr>pto := pfrom p, ptimestamp := ptimestamp p\<rparr>))"
    by (rule send_other_di) simp
  ultimately show ?thesis
    unfolding Message_execute_def by (intro di.rules repo_di)
qed

lemma own_messages:
  "wp (with_fallback (MessageRepository_findAllForUser u) cur)
     (\<lambda>ms _. \<forall>m \<in> set (sort_messages ms). ms_sender m = u \<or> ms_recipient m = u) (\<lambda>_ _. True) s"
proof -
  have "wp (MessageRepository_findAllForUser u cur)
      (\<lambda>ms _. \<forall>m \<in> set (sort_messages ms). ms_sender m = u \<or> ms_recipient m = u) (\<lambda>_ _. True) s" for cur s
    unfolding MessageRepository_findAllForUser_def
    by (rule wp_mono [OF repo_wp])
      (auto simp: message_select_user_def query_def query_cast_def message_select_def fetch_all_def rowToMessage_def
        sort_messages_def split: if_splits option.splits)
  then show ?thesis
    unfolding with_fallback_def wp_catch_if by (auto intro: wp_mono)
qed

lemma with_fallback_di [di_ops]: "(\<And>x. keeps (discreet K c u) (q x)) \<Longrightarrow> keeps (discreet K c u) (with_fallback q cur)"
  unfolding with_fallback_def by (intro di.rules)

lemma Sync_di:
  assumes "cs_state u = Authenticated"
  shows "keeps (discreet K c u) (SyncHistory_execute p c)"
proof -
  let ?n = "cs_username u"
  have own: "keeps (discreet K c u) (send c (replay_packet ?n m))" if "ms_sender m = ?n \<or> ms_recipient m = ?n" for m
    by (rule send_di) (use that assms in \<open>auto simp: may_get_def concerns_def replay_packet_def Let_def new_packet_def\<close>)
  have rest: "keeps (discreet K c u)
      (bnd (with_fallback (GroupRepository_findMessagesForUserSince ?n) (pbody p)) (\<lambda>gs.
       bnd (for_each (\<lambda>g. send c (replay_group_packet g)) gs) (\<lambda>_. send c ((new_packet ACK)\<lparr>pto := ?n\<rparr>))))"
    by (intro di.rules di_ops; simp)
  show ?thesis
    unfolding SyncHistory_execute_def
    by (intro getUsername_di result_di [OF with_fallback_di own_messages] repo_di)
      (intro di.k_bnd for_each_di own rest; simp)
qed

text \<open>Behind the gate the session is authenticated.\<close>

lemma gate_di:
  assumes "cs_state u = Authenticated \<Longrightarrow> keeps (discreet K c u) m"
  shows "keeps (discreet K c u) (bnd (BaseAuth_authorize c) (\<lambda>_. m))"
proof (cases "cs_state u = Authenticated")
  case True
  then show ?thesis by (intro di.rules helpers_di assms)
next
  case False
  have "discreet K c u s (snd (bnd (BaseAuth_authorize c) (\<lambda>_. m) s))" for s
  proof (cases "conns s c = u")
    case True
    then have "wp (BaseAuth_authorize c) (\<lambda>_ _. False) (\<lambda>_ t. untouched s t) s"
      using False by (intro wp_mono [OF authorize_wp]) (auto simp: authorised_def)
    then show ?thesis
      by (auto simp: wp_def bnd_def discreet_def private_sends_def untouched_def only_db_def split: prod.splits sum.splits)
  qed (simp add: discreet_def)
  then show ?thesis by (simp add: keeps_def)
qed

section \<open>The handlers that open a session\<close>

text \<open>Until the session is open nothing is sent; from then on the connection acts for the new name.\<close>

definition private_turn :: "conn \<Rightarrow> world \<Rightarrow> world \<Rightarrow> bool" where
  "private_turn c s t \<longleftrightarrow> private_sends (clients s) c (conns t c) s t"

lemma discreet_turn: "keeps (discreet (clients s) c (conns s c)) m \<Longrightarrow> wp m (\<lambda>_. private_turn c s) (\<lambda>_. private_turn c s) s"
  by (drule keeps_wpD [of _ _ s]) (erule wp_mono; simp add: discreet_def private_turn_def)

definition new_session :: "string \<Rightarrow> string \<Rightarrow> ClientSession" where
  "new_session u tok = \<lparr>cs_state = Authenticated, cs_username = u, cs_sessionToken = tok\<rparr>"

lemma named_turn:
  assumes "only_db s t" "\<And>K. keeps (discreet K c (new_session u tok)) m"
  shows "wp (bnd (setUsername c u) (\<lambda>_. bnd (setSessionToken c tok) (\<lambda>_. bnd (setState c Authenticated) (\<lambda>_. m))))
     (\<lambda>_. private_turn c s) (\<lambda>_. private_turn c s) t"
  unfolding wp_bnd setters_wp
  by (rule wp_mono [OF keeps_wpD [OF assms(2) [of "clients s"]]])
    (use assms(1) in \<open>simp_all add: discreet_def private_turn_def private_sends_def only_db_def new_session_def\<close>)

lemma only_db_turn: "only_db s t \<Longrightarrow> private_turn c s t"
  by (simp add: only_db_def private_turn_def private_sends_def)

lemma forward_di: "keeps (discreet K c (new_session u tok)) (send c (forward_packet u m))"
  by (rule send_di) (simp add: may_get_def concerns_def forward_packet_def new_packet_def new_session_def)

lemma for_each_break_di: "(\<And>x. keeps (discreet K c u) (f x)) \<Longrightarrow> keeps (discreet K c u) (for_each_break f xs)"
  by (induction xs) (auto intro!: di.rules)

lemma wrap_di: "keeps (discreet K c u) m \<Longrightarrow> keeps (discreet K c u) (wrap_db ctx m)"
  unfolding wrap_db_def by (intro di.rules)

lemma flushes_di:
  "keeps (discreet K c (new_session u tok)) (Register_flush c u entry)"
  "keeps (discreet K c (new_session u tok)) (Login_flush c u entry)"
  "keeps (discreet K c (new_session u tok)) (flushOfflineReadReceipts u c)"
  "keeps (discreet K c (new_session u tok)) (flushPendingNotifications u c)"
proof -
  let ?R = "discreet K c (new_session u tok)"
  show "keeps ?R (Register_flush c u entry)" "keeps ?R (Login_flush c u entry)"
    unfolding Register_flush_def Login_flush_def by (intro di.rules repo_di forward_di)+
  show "keeps ?R (flushOfflineReadReceipts u c)"
    unfolding flushOfflineReadReceipts_def
    by (intro wrap_di di.rules send_other_di session_step [THEN db_di] sql_step [THEN db_di] stmt_ok sent_types)
  have "may_get K c (new_session u tok) c (pending_packet u n)" for n
    by (simp add: may_get_def concerns_def pending_packet_def new_session_def)
  then show "keeps ?R (flushPendingNotifications u c)"
    unfolding flushPendingNotifications_def by (intro di.rules try_send_di repo_di)
qed

lemma Login_rest_di: "keeps (discreet K c (new_session (pfrom p) tok)) (Login_rest p c tok)"
  unfolding Login_rest_def ignore_errors_def
  by (intro di.rules for_each_break_di flushes_di repo_di send_other_di; simp)

lemma repo_od: "keeps db_step m \<Longrightarrow> keeps only_db m"
  by (erule keeps_weaken) (simp add: db_step_def)

lemma crypto_od:
  "keeps only_db Login_generateToken" "keeps only_db Register_generateToken" "keeps only_db (hashPassword pw)"
  by (auto simp: keeps_wp Register_generateToken_def hashPassword_def wp only_db_def split: option.splits kdf_fault.splits)

lemma silent_bnd:
  assumes "keeps only_db m" "only_db s t" "\<And>x t'. only_db s t' \<Longrightarrow> wp (f x) (\<lambda>_. private_turn c s) (\<lambda>_. private_turn c s) t'"
  shows "wp (bnd m f) (\<lambda>_. private_turn c s) (\<lambda>_. private_turn c s) t"
  unfolding wp_bnd
  by (rule wp_mono [OF keeps_wpD [OF assms(1)]]) (auto dest: odb.R_trans [OF assms(2)] intro: assms(3) only_db_turn)

lemma Login_turn: "wp (Login_execute p c) (\<lambda>_. private_turn c s) (\<lambda>_. private_turn c s) s"
proof (rule Login_execute_wpI)
  fix row t
  assume "untouched s t"
  then have t: "only_db s t" by (simp add: untouched_def)
  show "wp (Login_grant p c (u_id row)) (\<lambda>_. private_turn c s) (\<lambda>_. private_turn c s) t"
    unfolding Login_grant_def
    by (intro silent_bnd [OF _ t] silent_bnd named_turn Login_rest_di odb.rules crypto_od m_ok [THEN repo_od])
qed (simp add: untouched_def only_db_turn)

lemma Register_turn: "wp (Register_execute p c) (\<lambda>_. private_turn c s) (\<lambda>_. private_turn c s) s"
proof -
  have rest: "keeps (discreet K c (new_session (pfrom p) tok))
      (bnd (OfflineQueueRepository_findUndeliveredByRecipient (pfrom p)) (\<lambda>entries.
       bnd (for_each (Register_flush c (pfrom p)) entries) (\<lambda>_. send c (token_ack (pfrom p) tok))))" for K tok
    by (intro di.rules flushes_di repo_di send_other_di; simp)
  show ?thesis
    unfolding Register_execute_def Let_def
    by (intro silent_bnd [OF _ odb.R_refl] silent_bnd named_turn rest odb.rules crypto_od m_ok [THEN repo_od])
qed

section \<open>A turn of the server\<close>

lemma handle_turn:
  assumes "factory_create registerHandlers (ptype p) = Inr h"
  shows "wp (handle h p c) (\<lambda>_. private_turn c s) (\<lambda>_. private_turn c s) s"
proof (cases "ptype p = LOGIN \<or> ptype p = REGISTER")
  case True
  then show ?thesis
    using assms Login_turn Register_turn
    by (auto simp: factory_create_def registerHandlers_def registerHandler_def handler_defs handle_def wp only_db_turn odb.R_refl
        split: sum.splits)
next
  case False
  then have gate: "h_authorize h = BaseAuth_authorize" using created_handler [OF assms] by (auto simp: gated_handler_def)
  have "keeps (discreet K c u) (h_execute h p c)" if "cs_state u = Authenticated" for K u
    using assms False that
    by (cases "ptype p") (auto simp: factory_create_def registerHandlers_def registerHandler_def handler_defs
        silent_executes_di DeleteGroup_di forwards_di Message_di Sync_di)
  then show ?thesis
    unfolding handle_def gate by (intro discreet_turn di.rules gate_di)
qed

text \<open>Dispatching, answering with ERR and registering in the client map.\<close>

definition private_out :: "conn \<Rightarrow> world \<Rightarrow> world \<Rightarrow> bool" where
  "private_out c s t \<longleftrightarrow>
     (\<exists>fs. outbox t = outbox s @ fs \<and> list_all (private_frame (clients s) c (conns t c)) fs)"

lemma private_out_turn: "private_turn c s t \<Longrightarrow> private_out c s t"
  by (simp add: private_turn_def private_out_def private_sends_def)

lemma err_turn:
  assumes "private_turn c s t"
  shows "wp (send_err c e) (\<lambda>_. private_turn c s) (\<lambda>_. private_turn c s) t"
proof -
  have "keeps (discreet (clients s) c (conns t c)) (send_err c e)"
    by (rule helpers_di)
  then show ?thesis
    by (rule wp_mono [OF keeps_wpD])
      (use assms in \<open>auto simp: discreet_def private_turn_def private_sends_def\<close>)
qed

lemma track_turn: "private_turn c s t \<Longrightarrow> wp (track_client c loc) (\<lambda>_. private_out c s) (\<lambda>_ _. False) t"
  by (auto simp: track_client_def wp addClient_def removeClient_def private_out_def private_turn_def private_sends_def)

lemma process_turn: "wp (process_packet c loc p) (\<lambda>_. private_out c s) (\<lambda>_. private_out c s) s"
proof (cases "factory_create registerHandlers (ptype p)")
  case (Inl x)
  then show ?thesis
    using err_turn [OF only_db_turn [OF odb.R_refl], THEN wp_mono, OF private_out_turn private_out_turn]
    by (auto simp: process_packet_def lift_sum_def wp_catch_if wp_thr wp_bnd wp_retn_fun intro: private_out_turn only_db_turn odb.R_refl)
next
  case (Inr h)
  show ?thesis
    unfolding process_packet_def Inr lift_sum_def wp_catch_if
    by (simp add: wp_bnd [of "handle _ _ _"], rule wp_mono [OF handle_turn [OF Inr]])
      (auto simp: wp_bnd wp_retn_fun intro: wp_mono [OF track_turn] wp_mono [OF err_turn] private_out_turn)
qed

text \<open>The socket: only a ping is answered, and a turn that takes a packet has sent nothing before.\<close>

lemma receive_private:
  "wp (receive_turn c ev) (\<lambda>r t. private_turn c s t \<and> (\<forall>p. r = Received p \<longrightarrow> t = s)) (\<lambda>_. private_turn c s) s"
  by (cases ev)
    (auto simp: receive_turn_def wp wp_def [of "send_frame _ _"] send_frame_def private_turn_def private_sends_def
      private_frame_def split: option.splits sum.splits)

lemma guarded_private: "wp (guarded_turn c loc ev) (\<lambda>_. private_out c s) (\<lambda>_ _. False) s"
proof -
  let ?r = "catch_if is_Protocol (receive_turn c ev) (\<lambda>e. bnd (send_err c e) (\<lambda>_. retn Again))"
  have "wp ?r (\<lambda>r t. private_turn c s t \<and> (\<forall>p. r = Received p \<longrightarrow> t = s)) (\<lambda>_. private_turn c s) s"
    unfolding wp_catch_if
    by (rule wp_mono [OF receive_private]) (auto simp: wp_bnd wp_retn_fun intro: wp_mono [OF err_turn])
  then have "wp (connection_turn c loc ev) (\<lambda>_. private_out c s) (\<lambda>_. private_out c s) s"
    unfolding connection_turn_def wp_bnd [of ?r]
  proof (rule wp_mono, goal_cases)
    case (1 r t)
    show ?case
    proof (cases r)
      case (Received p)
      then have "t = s" using 1 by simp
      then show ?thesis unfolding Received received.case wp_bnd by (auto simp: wp intro: wp_mono [OF process_turn])
    qed (use 1 in \<open>simp_all add: wp private_out_turn\<close>)
  qed (rule private_out_turn)
  then show ?thesis
    unfolding guarded_turn_def wp_catch_if by (rule wp_mono) (auto simp: wp)
qed

lemma reachable_sys_ok:
  assumes "db_ok (db w)" "rtranclp sys_step (initial w) S"
  shows "sys_ok S"
  using assms(2) by (induction rule: rtranclp_induct) (auto simp: initial_ok assms(1) sys_step_ok)

text \<open>
  C4. Direct messages are private: in every reachable state of the server, whatever a turn does and
  however it ends, each text frame it sends is a packet, and a MESSAGE goes only to a connection that
  is registered for its sender or its recipient, or to the connection of the turn when that is logged
  in as one of the two (replayed history, queued messages).
\<close>

theorem direct_messages_private:
  assumes "db_ok (db w)" "rtranclp sys_step (initial w) S"
    and "guarded_turn c loc ev (sys_world S) = (r, t)" "outbox t = outbox (sys_world S) @ fs" "(x, Text m) \<in> set fs"
  shows "\<exists>q. m = serialize q \<and> (ptype q = MESSAGE \<longrightarrow>
     x = c \<and> cs_state (conns t c) = Authenticated \<and> cs_username (conns t c) \<in> {pfrom q, pto q}
     \<or> (\<exists>u tok. sys_open S x = Some (u, tok) \<and> u \<noteq> [] \<and> u \<in> {pfrom q, pto q}))"
proof -
  have reg: "y \<in> set (sessions_in u (clients (sys_world S))) \<Longrightarrow> u \<noteq> [] \<and> (\<exists>tok. sys_open S y = Some (u, tok))" for u y
    using reachable_sys_ok [OF assms(1,2)] by (auto simp: sys_ok_def reg_ok_def)
  have "private_out c (sys_world S) t"
    using guarded_private [of c loc ev "sys_world S"] assms(3) by (auto simp: wp_def split: sum.splits)
  then have "private_frame (clients (sys_world S)) c (conns t c) (x, Text m)"
    using assms(4,5) by (auto simp: private_out_def list_all_iff)
  then show ?thesis
    using reg by (fastforce simp: private_frame_def may_get_def concerns_def)
qed

text \<open>Witness of C4: dave connects and logs in, and is sent the message alice left for him.\<close>

definition example_left_state :: world where
  "example_left_state = example_login_state\<lparr>db := (db example_login_state)\<lparr>
     messages := [\<lparr>m_id = 1, m_sender = ''alice'', m_recipient = ''dave'', m_body = ''c1'', m_encrypted_key = ''k1'',
                   m_sender_encrypted_key = ''k2'', m_status = ''sent'', m_created_at = 5\<rparr>],
     offline_queue := [\<lparr>o_id = 1, o_message_id = 1, o_recipient = ''dave'', o_queued_at = 5,
                        o_delivered = False, o_delivery_attempts = 0\<rparr>]\<rparr>\<rparr>"

lemma example_left:
  "db_ok (db example_left_state)" "quiet example_left_state" "outbox example_left_state = []"
  by (simp_all add: example_left_state_def example_login_state_def db_ok_def ok_defs key_defs keyed_def empty_db_def
      example_world_def example_ext_def quiet_def)

definition example_left_frame :: string where
  "example_left_frame = serialize (forward_packet ''dave'' (rowToMessage example_ext (hd (messages (db example_left_state)))))"

lemma direct_messages_private_witness:
  "\<exists>S r t q. sys_step (initial example_left_state) S
     \<and> guarded_turn 7 ([], []) (WsFrame OP_DATA (serialize ((new_packet LOGIN)\<lparr>pfrom := ''dave'', pbody := ''pw''\<rparr>))) (sys_world S) = (r, t)
     \<and> (7, Text example_left_frame) \<in> set (outbox t) \<and> example_left_frame = serialize q
     \<and> (ptype q = MESSAGE \<longrightarrow> cs_state (conns t 7) = Authenticated \<and> cs_username (conns t 7) \<in> {pfrom q, pto q})"
proof -
  let ?p = "(new_packet LOGIN)\<lparr>pfrom := ''dave'', pbody := ''pw''\<rparr>"
  have "sys_open (initial example_left_state) 7 = None" by (simp add: initial_def)
  note step = connect [OF this]
  let ?w = "example_left_state\<lparr>clients := Map.empty, conns := (conns example_left_state)(7 := fresh_session)\<rparr>"
  let ?S = "\<lparr>sys_world = ?w, sys_open = [7 \<mapsto> ([], [])]\<rparr>"
  have S: "sys_step (initial example_left_state) ?S" using step by (simp add: initial_def)
  have w: "quiet ?w" "db_ok (db ?w)" "outbox ?w = []" using example_left by (simp_all add: quiet_def)
  have ok: "wp (Login_execute ?p 7) (\<lambda>_ _. True) (\<lambda>_ _. False) ?w"
  proof (rule Login_execute_ok [where row = "hd (users (db example_login_state))"
        and buf = "replicate 32 (char_of (3 :: nat))", OF w(1,2)])
    show "password_matches (ext ?w) (pbody ?p) (u_password_hash (hd (users (db example_login_state))))"
      by (simp add: example_left_state_def example_login_state_def example_world_def example_ext_def password_matches_def split_at_def)
  qed (simp_all add: example_left_state_def example_login_state_def example_world_def example_ext_def empty_db_def)
  have frame: "letter_frame 7 ''dave'' (ext ?w) (db ?w) ` set (owed_rows ''dave'' (db ?w)) = {(7, Text example_left_frame)}"
    by (simp add: letter_frame_def owed_rows_def is_owed_def MAX_DELIVERY_ATTEMPTS_def message_with_def example_left_frame_def
        example_left_state_def example_login_state_def example_world_def empty_db_def)
  have "wp (Login_execute ?p 7) (\<lambda>_ t. (7, Text example_left_frame) \<in> set (outbox t)) (\<lambda>_ _. False) ?w"
    by (rule wp_mono [OF wp_conj [OF ok login_delivers_wp [OF w(1,2)]]])
      (use frame in \<open>auto simp: example_left_state_def\<close>)
  then have "wp (guarded_turn 7 ([], []) (WsFrame OP_DATA (serialize ?p)))
      (\<lambda>r t. snd r \<and> (7, Text example_left_frame) \<in> set (outbox t)) (\<lambda>_ _. False) ?w"
    by (intro login_turn_wp) (simp_all add: new_packet_def wf_packet_def bar_free_def in_int_def INT_MIN_def INT_MAX_def PROTOCOL_VERSION_def)
  then obtain r t where t: "guarded_turn 7 ([], []) (WsFrame OP_DATA (serialize ?p)) (sys_world ?S) = (r, t)"
    and f: "(7, Text example_left_frame) \<in> set (outbox t)"
    by (auto simp: wp_def split: prod.splits sum.splits)
  have "outbox t = outbox (sys_world ?S) @ outbox t" using w(3) by simp
  from direct_messages_private [OF example_left(1) r_into_rtranclp [of sys_step, OF S] t this f]
  obtain q where q: "example_left_frame = serialize q"
    "ptype q = MESSAGE \<longrightarrow> cs_state (conns t 7) = Authenticated \<and> cs_username (conns t 7) \<in> {pfrom q, pto q} \<or> (\<exists>u tok. sys_open ?S 7 = Some (u, tok) \<and> u \<noteq> [] \<and> u \<in> {pfrom q, pto q})"
    by blast
  show ?thesis using S t f q by (intro exI [of _ ?S] exI [of _ r] exI [of _ t] exI [of _ q]) auto
qed

end
