(* ===== verification/Identity.thy ===== *)
theory Identity
  imports TableFrame
begin

text \<open>
  Whom an authenticated connection stands for.  Log-in and registration bind the name of the
  connection and its token to a row of the users; nothing unbinds them, so that the gate, which asks for
  the token only, speaks of the user the connection names.
\<close>

section \<open>Names and tokens\<close>

definition knows :: "string \<Rightarrow> string \<Rightarrow> database \<Rightarrow> bool" where
  "knows u tok d \<longleftrightarrow> (\<exists>r \<in> set (users d). \<exists>x \<in> set (sessions d).
     u_username r = u \<and> s_session_token x = tok \<and> s_user_id x = u_id r)"

lemma knows_users:
  assumes "knows u tok d" "\<And>r. u_username (f r) = u_username r" "\<And>r. u_id (f r) = u_id r"
  shows "knows u tok (users_update (update_where P f) d)"
proof -
  obtain r x where "r \<in> set (users d)" "x \<in> set (sessions d)" "u_username r = u" "s_session_token x = tok" "s_user_id x = u_id r"
    using assms(1) by (auto simp: knows_def)
  moreover have "(if P r then f r else r) \<in> set (update_where P f (users d))" if "r \<in> set (users d)" for r
    using that by (auto simp: update_where_def)
  ultimately show ?thesis
    unfolding knows_def by (intro bexI [of _ "if P r then f r else r"] bexI [of _ x]) (auto simp: assms(2,3))
qed

lemma knows_sessions:
  assumes "knows u tok d" "\<And>x. s_session_token (f x) = s_session_token x" "\<And>x. s_user_id (f x) = s_user_id x"
  shows "knows u tok (sessions_update (update_where P f) d)"
proof -
  obtain r x where "r \<in> set (users d)" "x \<in> set (sessions d)" "u_username r = u" "s_session_token x = tok" "s_user_id x = u_id r"
    using assms(1) by (auto simp: knows_def)
  moreover have "(if P x then f x else x) \<in> set (update_where P f (sessions d))" if "x \<in> set (sessions d)" for x
    using that by (auto simp: update_where_def)
  ultimately show ?thesis
    unfolding knows_def by (intro bexI [of _ r] bexI [of _ "if P x then f x else x"]) (auto simp: assms(2,3))
qed

lemma knows_more: "knows u tok d \<Longrightarrow> set (users d) \<subseteq> set (users d') \<Longrightarrow> set (sessions d) \<subseteq> set (sessions d') \<Longrightarrow> knows u tok d'"
  unfolding knows_def by blast

interpretation kn: table_property "knows u tok" for u tok
proof unfold_locales
  show "st_keeps (knows u tok) (user_save_st us)" "st_keeps (knows u tok) (session_save_st se)"
    "st_keeps (knows u tok) (queue_insert mid v)" for u tok us se mid v
    by (auto simp: st_keeps_def user_save_st_def user_insert_def session_save_st_def session_insert_def queue_insert_def
        insert_row_def Let_def dml_def void_st_def intro!: knows_users knows_sessions elim: knows_more
        split: option.splits)
  show "st_keeps (knows u tok) (user_touch v)" "st_keeps (knows u tok) (session_deactivate P)" for u tok v P
    by (auto simp: st_keeps_def user_touch_def session_deactivate_def dml_def intro: knows_users knows_sessions)
qed (simp_all add: knows_def)

lemma queue_writes_kn [st_q]:
  "st_keeps (knows u tok) (queue_mark_delivered i)" "st_keeps (knows u tok) (queue_increment i)"
  "st_keeps (knows u tok) (queue_purge_between a b)" "st_keeps (knows u tok) (queue_delete_where P)"
  by (simp_all add: st_keeps_def queue_mark_delivered_def queue_increment_def queue_purge_between_def
      queue_delete_where_def dml_def knows_def)

lemma queue_methods_kn [q_step]:
  "keeps (db_inv (knows u tok)) (OfflineQueueRepository_markDelivered i)"
  "keeps (db_inv (knows u tok)) (OfflineQueueRepository_incrementAttempts i)"
  "keeps (db_inv (knows u tok)) (MessageRepository_deleteConversation a b)"
  "keeps (db_inv (knows u tok)) OfflineQueueRepository_cleanupDelivered"
  "keeps (db_inv (knows u tok)) OfflineQueueRepository_cleanupExhausted"
  unfolding repo_defs MessageRepository_deleteConversation_def by (intro q_rules repo_inv st_q)+

lemma queue_executes_kn:
  "keeps (db_inv (knows u tok)) (Ack_execute p c)" "keeps (db_inv (knows u tok)) (DeleteConversation_execute p c)"
  unfolding Ack_execute_def DeleteConversation_execute_def by (intro q_rules q_step kn.executes_q)+

lemma flushes_kn [q_step]:
  "keeps (db_inv (knows u tok)) (Register_flush c v entry)" "keeps (db_inv (knows u tok)) (Login_flush c v entry)"
  unfolding Register_flush_def Login_flush_def by (intro q_rules q_step)+

section \<open>Steps that keep sessions and accounts\<close>

definition tame :: "world \<Rightarrow> world \<Rightarrow> bool" where
  "tame s t \<longleftrightarrow> conns t = conns s \<and> (\<forall>u tok. knows u tok (db s) \<longrightarrow> knows u tok (db t))"

interpretation tm: step_preorder tame
  by unfold_locales (auto simp: tame_def)

text \<open>A computation that is a step of every connection changes no session.\<close>

lemma tameI:
  assumes "\<And>d. keeps (handler_step d) m" "\<And>u tok. keeps (db_inv (knows u tok)) m"
  shows "keeps tame m"
proof -
  have "conns (snd (m s)) x = conns s x" for s x
    using assms(1) [of "Suc x"] by (simp add: keeps_def handler_step_def)
  then show ?thesis using assms(2) by (auto simp: keeps_def tame_def db_inv_def)
qed

lemma executes_any:
  "keeps (handler_step d) (KeyExchange_execute p c)" "keeps (handler_step d) (Message_execute p c)"
  "keeps (handler_step d) (Ack_execute p c)" "keeps (handler_step d) (ReadReceipt_execute p c)"
  "keeps (handler_step d) (SyncHistory_execute p c)" "keeps (handler_step d) (DeleteConversation_execute p c)"
  "keeps (handler_step d) (CreateGroup_execute p c)" "keeps (handler_step d) (GroupMessage_execute p c)"
  "keeps (handler_step d) (GroupKeyExchange_execute p c)" "keeps (handler_step d) (GroupInfo_execute p c)"
  "keeps (handler_step d) (GroupLeave_execute p c)"
  unfolding KeyExchange_execute_def Message_execute_def Message_route_def Ack_execute_def executeGroupDelivered_def
    ReadReceipt_execute_def ReadReceipt_group_def SyncHistory_execute_def with_fallback_def DeleteConversation_execute_def
    CreateGroup_execute_def check_members_def GroupMessage_execute_def GroupKeyExchange_execute_def resend_key_def add_single_def
    GroupInfo_execute_def grant_admin_def revoke_admin_def GroupLeave_execute_def
  by (intro hs.rules h_step)+

lemma DeleteGroup_any: "keeps (handler_step d) (DeleteGroup_execute p c)"
  unfolding DeleteGroup_execute_def
  by (intro hs.rules h_step session_step [THEN db_step_hs] sql_step [THEN db_step_hs] stmt_ok)

lemma executes_tame:
  assumes "factory_create registerHandlers t = Inr h" "t \<noteq> LOGIN" "t \<noteq> REGISTER"
  shows "keeps tame (h_execute h p c)"
  using assms
  by (cases t) (auto simp: factory_create_def registerHandlers_def registerHandler_def handler_defs
      intro!: tameI executes_any DeleteGroup_any kn.executes_q queue_executes_kn)

section \<open>Opening a session\<close>

text \<open>Every authenticated connection names a user and carries a token of this user.\<close>

definition identity_ok :: "world \<Rightarrow> bool" where
  "identity_ok s \<longleftrightarrow>
     (\<forall>c. cs_state (conns s c) = Authenticated \<longrightarrow>
        knows (cs_username (conns s c)) (cs_sessionToken (conns s c)) (db s))"

definition ident_step :: "world \<Rightarrow> world \<Rightarrow> bool" where
  "ident_step s t \<longleftrightarrow> (identity_ok s \<longrightarrow> identity_ok t)"

interpretation idn: step_preorder ident_step
  by unfold_locales (auto simp: ident_step_def)

lemma tame_ident: "tame s t \<Longrightarrow> ident_step s t"
  by (simp add: tame_def ident_step_def identity_ok_def)

lemma keeps_tame_ident: "keeps tame m \<Longrightarrow> keeps ident_step m"
  by (erule keeps_weaken) (rule tame_ident)

lemma open_ident:
  assumes "ident_step s t" "knows u tok (db t)"
    and "cs_username x = u" "cs_sessionToken x = tok"
  shows "ident_step s (t\<lparr>conns := (conns t)(c := x)\<rparr>)"
  using assms by (auto simp: ident_step_def identity_ok_def)

lemma opened_wp:
  assumes "ident_step s t" "knows u tok (db t)" "keeps tame m"
  shows "wp (bnd (setUsername c u) (\<lambda>_. bnd (setSessionToken c tok) (\<lambda>_. bnd (setState c Authenticated) (\<lambda>_. m))))
     (\<lambda>_. ident_step s) (\<lambda>_. ident_step s) t"
proof -
  let ?t = "t\<lparr>conns := (conns t)(c := (conns t c)\<lparr>cs_username := u, cs_sessionToken := tok, cs_state := Authenticated\<rparr>)\<rparr>"
  have "ident_step s ?t" by (rule open_ident [OF assms(1,2)]) simp_all
  then have "wp m (\<lambda>_. ident_step s) (\<lambda>_. ident_step s) ?t"
    by (intro wp_mono [OF keeps_wpD [OF assms(3)]]) (auto dest: tame_ident intro: idn.R_trans)
  then show ?thesis by (simp add: wp_bnd setters_wp)
qed

lemma Login_rest_tame: "keeps tame (Login_rest p c tok)"
proof -
  have loop: "keeps (db_inv (knows u tk)) (for_each_break f es)" if "\<And>x. keeps (db_inv (knows u tk)) (f x)" for u tk es
    and f :: "OfflineMessage \<Rightarrow> bool W"
    using that by (induction es) (auto intro!: qi.rules)
  show ?thesis
    unfolding Login_rest_def
    by (intro tameI hs.rules h_step for_each_break_hs) (intro q_rules q_step loop)
qed

lemma untouched_ident: "untouched s t \<Longrightarrow> ident_step s t"
  by (simp add: untouched_def only_db_def ident_step_def identity_ok_def)

lemma issue_tame:
  "keeps tame (bnd (SessionRepository_deactivateAllForUser i) (\<lambda>_. SessionRepository_save x))"
  "keeps tame (SessionRepository_save x)" "keeps tame Login_generateToken" "keeps tame Register_generateToken"
  by (intro tameI hs.rules h_step q_rules q_step)+

lemma Login_ident: "keeps ident_step (Login_execute p c)"
  unfolding keeps_wp
proof
  fix s
  show "wp (Login_execute p c) (\<lambda>_. ident_step s) (\<lambda>_. ident_step s) s"
  proof (rule Login_execute_wpI)
    fix row t
    assume row: "row \<in> set (users (db s))" "u_username row = pfrom p" and t: "untouched s t"
    have issue: "wp (bnd (SessionRepository_deactivateAllForUser (u_id row)) (\<lambda>_. SessionRepository_save
           \<lparr>se_id = 0, se_userId = u_id row, se_sessionToken = tok, se_createdAt = [], se_expiresAt = [], se_isActive = True\<rparr>))
        (\<lambda>_ v. ident_step s v \<and> knows (pfrom p) tok (db v)) (\<lambda>_. ident_step s) v" if "untouched s v" for tok v
    proof (rule wp_mono [OF wp_conj [OF issue_session_wp keeps_wpD [OF issue_tame(1)]]], goal_cases)
      case (1 _ t')
      then have "tok \<in> set (active_tokens (u_id row) (db t'))" by simp
      then have "tok \<in> s_session_token ` {x \<in> set (sessions (db t')). s_user_id x = u_id row}"
        by (auto simp: active_tokens_def)
      moreover have "users (db t') = users (db s)" using 1 that by (simp add: untouched_def)
      ultimately have "knows (pfrom p) tok (db t')" using row by (auto simp: knows_def)
      then show ?case using 1 that by (auto intro: idn.R_trans untouched_ident tame_ident)
    qed (use that in \<open>auto intro: idn.R_trans untouched_ident tame_ident\<close>)
    show "wp (Login_grant p c (u_id row)) (\<lambda>_. ident_step s) (\<lambda>_. ident_step s) t"
      unfolding Login_grant_def wp_bnd [of Login_generateToken] token_wp
      using t by (auto simp: wp_bnd [of "bnd _ _"] untouched_def only_db_def split: option.splits
          intro!: wp_mono [OF issue] opened_wp Login_rest_tame intro: untouched_ident)
  qed (rule untouched_ident)
qed

text \<open>Registration: the user has just been stored, so the session is issued to that row.\<close>

lemma issued_wp:
  "wp (SessionRepository_save \<lparr>se_id = 0, se_userId = uid, se_sessionToken = tok, se_createdAt = [], se_expiresAt = [], se_isActive = True\<rparr>)
     (\<lambda>_ t. users (db t) = users (db s) \<and> (\<exists>x \<in> set (sessions (db t)). s_session_token x = tok \<and> s_user_id x = uid)) (\<lambda>_ _. True) s"
  unfolding SessionRepository_save_def
  by (rule wp_mono [OF repo_wp]) (auto simp: session_save_st_def session_insert_def void_st_Inr insert_row_Inr)

lemma account_tame: "keeps tame (Register_account p)"
  unfolding Register_account_def
  by (intro tameI hs.rules h_step q_rules q_step)

lemma Register_ident:
  assumes "pfrom p \<noteq> []"
  shows "keeps ident_step (Register_execute p c)"
  unfolding keeps_wp
proof
  fix s
  have after: "keeps tame (bnd (OfflineQueueRepository_findUndeliveredByRecipient v) (\<lambda>es.
      bnd (for_each (Register_flush c v) es) (\<lambda>_. send c q)))" for v q
  proof (rule tameI)
    show "keeps (handler_step d) (bnd (OfflineQueueRepository_findUndeliveredByRecipient v) (\<lambda>es.
        bnd (for_each (Register_flush c v) es) (\<lambda>_. send c q)))" for d
      unfolding Register_flush_def by (intro hs.rules h_step)
  qed (intro q_rules q_step)
  have rest: "wp (Register_rest p c) (\<lambda>_. ident_step s) (\<lambda>_. ident_step s) t"
    if t: "account_added p s t" "ident_step s t" for t
  proof -
    have issue: "wp (SessionRepository_save \<lparr>se_id = 0, se_userId = u_id row, se_sessionToken = tok, se_createdAt = [],
          se_expiresAt = [], se_isActive = True\<rparr>)
        (\<lambda>_ v. ident_step s v \<and> knows (pfrom p) tok (db v)) (\<lambda>_. ident_step s) v"
      if "untouched t v" "row \<in> set (users (db t))" "u_username row = pfrom p" for tok v row
    proof -
      have "ident_step s v" using t(2) untouched_ident [OF that(1)] by (rule idn.R_trans)
      then show ?thesis
        by (intro wp_mono [OF wp_conj [OF issued_wp keeps_wpD [OF issue_tame(2)]]])
          (use that in \<open>auto simp: knows_def untouched_def dest!: tame_ident intro: idn.R_trans\<close>)
    qed
    have grant: "wp (bnd Register_generateToken (\<lambda>tok. bnd (SessionRepository_save \<lparr>se_id = 0, se_userId = u_id row,
          se_sessionToken = tok, se_createdAt = [], se_expiresAt = [], se_isActive = True\<rparr>) (\<lambda>_.
          bnd (setUsername c (pfrom p)) (\<lambda>_. bnd (setSessionToken c tok) (\<lambda>_. bnd (setState c Authenticated) (\<lambda>_.
          bnd (OfflineQueueRepository_findUndeliveredByRecipient (pfrom p)) (\<lambda>es.
          bnd (for_each (Register_flush c (pfrom p)) es) (\<lambda>_. send c (token_ack (pfrom p) tok)))))))))
        (\<lambda>_. ident_step s) (\<lambda>_. ident_step s) v"
      if v: "untouched t v" "row \<in> set (users (db t))" "u_username row = pfrom p" for v row
      unfolding Register_generateToken_def bnd_assoc wp_bnd [of "RAND_bytes _"] RAND_bytes_wp
      using v idn.R_trans [OF t(2) untouched_ident [OF ut.R_trans [OF v(1) untouched_tick(2)]]]
      by (auto simp: wp_bnd [of "SessionRepository_save _"] wp_thr split: option.splits
          intro!: wp_mono [OF issue] opened_wp after intro: ut.R_trans)
    have found: "\<exists>row \<in> set (users (db t)). u_username row = pfrom p \<and> r = Some (rowToUser e row)"
      if "r = fetch_one u_username (rowToUser e) (find (\<lambda>x. u_username x = pfrom p) (users (db t)))" for r e
    proof -
      have "find (\<lambda>x. u_username x = pfrom p) (users (db t)) \<noteq> None"
        using t(1) by (auto simp: find_None_iff account_added_def)
      then obtain x where x: "find (\<lambda>x. u_username x = pfrom p) (users (db t)) = Some x" by blast
      from find_SomeD [OF x] x that assms show ?thesis by (auto simp: fetch_one_def)
    qed
    show ?thesis
      unfolding Register_rest_def wp_bnd [of "UserRepository_findByUsername _"]
    proof (rule wp_mono [OF findByUsername_wp], goal_cases)
      case (1 r v)
      then obtain row where row: "row \<in> set (users (db t))" "u_username row = pfrom p" and r: "r = Some (rowToUser (ext t) row)"
        using found by blast
      have "untouched t v" using 1 by simp
      from grant [OF this row] show ?case unfolding r by (simp add: rowToUser_def)
    qed (use t(2) in \<open>auto intro: idn.R_trans untouched_ident\<close>)
  qed
  show "wp (Register_execute p c) (\<lambda>_. ident_step s) (\<lambda>_. ident_step s) s"
    unfolding Register_execute_eq wp_bnd
    by (rule wp_mono [OF wp_conj [OF Register_account_wp [OF assms] keeps_wpD [OF account_tame]]])
      (auto intro: rest tame_ident)
qed

section \<open>The server as a whole\<close>

lemma handle_ident:
  assumes "factory_create registerHandlers (ptype p) = Inr h"
  shows "keeps ident_step (handle h p c)"
proof -
  consider "h = LoginHandler" | "h = RegisterHandler" | "gated_handler h" "ptype p \<noteq> LOGIN" "ptype p \<noteq> REGISTER"
    using created_handler [OF assms] assms
    by (cases "ptype p") (auto simp: factory_create_def registerHandlers_def registerHandler_def)
  then show ?thesis
  proof cases
    case 1
    then show ?thesis by (auto simp: handle_def LoginHandler_def intro!: idn.rules Login_ident)
  next
    case 2
    have "keeps ident_step (bnd (lift_sum (Register_validate p)) (\<lambda>_. Register_execute p c))"
    proof (cases "pfrom p = []")
      case True
      then show ?thesis by (simp add: Register_validate_def reject_if_def first_violation_def lift_sum_def idn.k_thr)
    qed (intro idn.rules Register_ident)
    then show ?thesis by (simp add: 2 handle_def RegisterHandler_def)
  next
    case 3
    have "keeps tame (BaseAuth_authorize c)" by (intro tameI h_step q_step)
    then show ?thesis
      unfolding handle_def gated_handler.gate [OF 3(1)]
      by (intro idn.rules keeps_tame_ident executes_tame [OF assms 3(2,3)])
  qed
qed

lemma registry_ident:
  "keeps ident_step (track_client c loc)" "keeps ident_step (send_err c e)" "keeps ident_step (receive_turn c ev)"
proof -
  have reg: "keeps ident_step (addClient u x)" "keeps ident_step (removeClient u x)" "keeps ident_step (send_frame x f)"
    "keeps ident_step (setState x Disconnected)" for u x f
    by (auto simp: keeps_def addClient_def removeClient_def send_frame_def setState_def ident_step_def identity_ok_def split: option.splits)
  show "keeps ident_step (track_client c loc)"
    unfolding track_client_def isAuthenticated_def getUsername_def getSessionToken_def by (intro idn.rules reg)
  show "keeps ident_step (send_err c e)"
    unfolding send_err_def by (intro keeps_tame_ident tameI h_step q_step)
  show "keeps ident_step (receive_turn c ev)"
    unfolding receive_turn_def by (cases ev; simp only: ws_event.case; intro idn.rules reg)
qed

lemma process_ident: "keeps ident_step (process_packet c loc p)"
proof (cases "factory_create registerHandlers (ptype p)")
  case (Inl x)
  then show ?thesis unfolding process_packet_def by (auto simp: lift_sum_def intro!: idn.rules registry_ident)
next
  case (Inr h)
  then show ?thesis
    unfolding process_packet_def by (auto simp: lift_sum_def intro!: idn.rules registry_ident handle_ident)
qed

lemma guarded_ident: "keeps ident_step (guarded_turn c loc ev)"
proof -
  have "keeps ident_step (case r of Again \<Rightarrow> retn (loc, True) | Closed \<Rightarrow> retn (loc, False)
        | Received p \<Rightarrow> bnd (process_packet c loc p) (\<lambda>loc'. retn (loc', True)))" for r
    by (cases r; simp only: received.case; intro idn.rules process_ident)
  then show ?thesis
    unfolding guarded_turn_def connection_turn_def by (intro idn.rules registry_ident)
qed

lemma cleanup_ident: "keeps ident_step (cleanup c loc)" "keeps ident_step onCleanupTimer"
proof -
  have drop: "keeps ident_step (removeClient u c)" for u
    by (simp add: keeps_def removeClient_def ident_step_def identity_ok_def)
  have db: "keeps ident_step (ignore_errors (UserRepository_updateLastSeen u))"
    "keeps ident_step (ignore_errors (SessionRepository_deactivateByToken u))" for u
    by (intro keeps_tame_ident tameI h_step q_step)+
  show "keeps ident_step (cleanup c loc)"
    unfolding cleanup_def by (intro idn.rules drop db)
  show "keeps ident_step onCleanupTimer"
    unfolding onCleanupTimer_def by (intro keeps_tame_ident tameI hs.rules h_step q_rules q_step)
qed

lemma sys_step_ident: "sys_step S S' \<Longrightarrow> ident_step (sys_world S) (sys_world S')"
proof (induction rule: sys_step.induct)
  case (connect S c)
  then show ?case by (simp add: ident_step_def identity_ok_def fresh_session_def)
next
  case (turn S c loc ev loc' w)
  then show ?case using keepsD [OF guarded_ident] by fastforce
next
  case (disconnect S c loc ev loc' w)
  have "ident_step (sys_world S) w" using disconnect keepsD [OF guarded_ident] by fastforce
  then show ?case using cleanup_ident(1) [of c loc'] by (auto simp: keeps_def intro: idn.R_trans)
qed (use cleanup_ident(2) in \<open>simp add: keeps_def\<close>)

text \<open>
  C8. Authentication means identity.  In every reachable state of a server that started without open
  sessions, a connection that passes the gate stands for the user it names: this user is registered, the
  token of the connection was issued to this very user, and the session is active and not expired.
\<close>

theorem gate_identifies:
  assumes "db_ok (db w)" "\<forall>c. cs_state (conns w c) \<noteq> Authenticated" "rtranclp sys_step (initial w) S"
    and "authorised (sys_world S) c"
  shows "\<exists>row \<in> set (users (db (sys_world S))). \<exists>x \<in> set (sessions (db (sys_world S))).
      u_username row = cs_username (conns (sys_world S) c) \<and> s_session_token x = cs_sessionToken (conns (sys_world S) c)
      \<and> s_user_id x = u_id row
      \<and> session_live (db_now (ext (sys_world S)) (Suc (clock (sys_world S)))) x"
proof -
  have "identity_ok (sys_world (initial w))" using assms(2) by (simp add: identity_ok_def initial_def)
  with assms(3) have "identity_ok (sys_world S) \<and> sys_ok S"
    by (induction rule: rtranclp_induct)
      (use initial_ok [OF assms(1)] in \<open>auto simp: ident_step_def dest: sys_step_ident sys_step_ok\<close>)
  then have known: "knows (cs_username (conns (sys_world S) c)) (cs_sessionToken (conns (sys_world S) c)) (db (sys_world S))"
    and d: "distinct (map s_session_token (sessions (db (sys_world S))))"
    using assms(4) by (auto simp: identity_ok_def authorised_def sys_ok_def db_ok_def sessions_ok_def)
  obtain y where y: "y \<in> set (sessions (db (sys_world S)))" "s_session_token y = cs_sessionToken (conns (sys_world S) c)"
    "session_live (db_now (ext (sys_world S)) (Suc (clock (sys_world S)))) y"
    using assms(4) by (auto simp: authorised_def)
  have "x = y" if "x \<in> set (sessions (db (sys_world S)))" "s_session_token x = s_session_token y" for x
    using d that y(1) by (auto simp: distinct_map dest: inj_onD)
  with known y show ?thesis unfolding knows_def by metis
qed

text \<open>A log-in without faults leaves the session it opened.\<close>

lemma login_opens_wp:
  assumes "quiet s" "db_ok (db s)" "row \<in> set (users (db s))" "u_username row = pfrom p"
    "pfrom p \<noteq> []" "password_matches (ext s) (pbody p) (u_password_hash row)"
    "kdf_faults (ext s) = (\<lambda>_. None)" "rand_bytes (ext s) (clock s + 3) 32 = Some buf"
    "varchar_fits (ext s) 256 (toHex buf)" "toHex buf \<notin> s_session_token ` set (sessions (db s))"
  shows "wp (Login_execute p c)
     (\<lambda>_ t. ext t = ext s \<and> conns t c = \<lparr>cs_state = Authenticated, cs_username = pfrom p, cs_sessionToken = toHex buf\<rparr>
        \<and> (\<exists>n. \<exists>x \<in> set (sessions (db t)). s_session_token x = toHex buf \<and> s_is_active x
             \<and> s_expires_at x = db_now (ext s) n + hours24)) (\<lambda>_ _. False) s"
proof -
  have found: "find (\<lambda>r. u_username r = pfrom p) (users (db s)) = Some row"
    using assms(2-4) by (auto simp: db_ok_def users_ok_def intro: find_unique)
  have uid: "u_id row \<in> user_ids (db s)" using assms(3) by (simp add: user_ids_def)
  have rest: "wp (Login_rest p c tok) (\<lambda>_ v. sess_view v = sess_view t) (\<lambda>_ _. False) t" if "quiet t" for tok t
    by (rule wp_mono [OF wp_conj [OF returnsD [OF returns_Login_rest that] keeps_wpD [OF Login_rest_view]]]) auto
  show ?thesis
    using assms found uid
    by (simp add: Login_execute_eq wp UserRepository_findByUsername_def wp_repo_quiet user_select_name_def
        query_def fetch_one_def rowToUser_def verifyPassword_ok tick_db_update Login_grant_def
        SessionRepository_deactivateAllForUser_def SessionRepository_save_def session_deactivate_def dml_def
        session_save_st_def void_st_def session_insert_def insert_row_def Let_def image_update_where numeral_3_eq_3)
      (rule wp_mono [OF rest], auto simp: sess_view_def)
qed

text \<open>Witness of C8: dave connects and logs in.\<close>

definition example_start :: world where
  "example_start = example_login_state\<lparr>ext := example_ext\<lparr>db_now := (\<lambda>_. 0)\<rparr>\<rparr>"

lemma gate_identifies_witness:
  "\<exists>S row x. rtranclp sys_step (initial example_start) S \<and> authorised (sys_world S) 7
     \<and> row \<in> set (users (db (sys_world S))) \<and> x \<in> set (sessions (db (sys_world S)))
     \<and> u_username row = ''dave'' \<and> s_session_token x = cs_sessionToken (conns (sys_world S) 7) \<and> s_user_id x = u_id row"
proof -
  let ?p = "(new_packet LOGIN)\<lparr>pfrom := ''dave'', pbody := ''pw''\<rparr>"
  have "sys_open (initial example_start) 7 = None" by (simp add: initial_def)
  note connected = connect [OF this]
  let ?w = "example_start\<lparr>clients := Map.empty, conns := (conns example_start)(7 := fresh_session)\<rparr>"
  let ?S = "\<lparr>sys_world = ?w, sys_open = [7 \<mapsto> ([], [])]\<rparr>"
  have S: "sys_step (initial example_start) ?S" using connected by (simp add: initial_def)
  let ?dave = "hd (users (db example_login_state))" and ?buf = "replicate 32 (char_of (3 :: nat))"
  have ok: "db_ok (db example_start)"
    by (simp add: example_start_def example_login_state_def db_ok_def ok_defs key_defs keyed_def empty_db_def)
  have e: "ext ?w = example_ext\<lparr>db_now := (\<lambda>_. 0)\<rparr>" by (simp add: example_start_def)
  have "wp (Login_execute ?p 7)
      (\<lambda>_ t. ext t = ext ?w \<and> conns t 7 = \<lparr>cs_state = Authenticated, cs_username = pfrom ?p, cs_sessionToken = toHex ?buf\<rparr>
        \<and> (\<exists>n. \<exists>x \<in> set (sessions (db t)). s_session_token x = toHex ?buf \<and> s_is_active x
             \<and> s_expires_at x = db_now (ext ?w) n + hours24)) (\<lambda>_ _. False) ?w"
  proof (rule login_opens_wp [where row = ?dave])
    show "password_matches (ext ?w) (pbody ?p) (u_password_hash ?dave)"
      by (simp add: example_start_def example_login_state_def example_world_def example_ext_def password_matches_def split_at_def)
  qed (use ok in \<open>simp_all add: example_start_def example_login_state_def example_world_def example_ext_def quiet_def empty_db_def\<close>)
  then have "wp (Login_execute ?p 7) (\<lambda>_ t. authorised t 7 \<and> cs_username (conns t 7) = ''dave'') (\<lambda>_ _. False) ?w"
    by (rule wp_mono) (auto simp: authorised_def session_live_def e hours24_def toHex_def)
  then have "wp (guarded_turn 7 ([], []) (WsFrame OP_DATA (serialize ?p)))
      (\<lambda>r t. snd r \<and> authorised t 7 \<and> cs_username (conns t 7) = ''dave'') (\<lambda>_ _. False) ?w"
    by (intro handled_turn_any [where h = LoginHandler])
      (simp_all add: new_packet_def wf_packet_def bar_free_def in_int_def INT_MIN_def INT_MAX_def PROTOCOL_VERSION_def
        factory_create_def registerHandlers_def registerHandler_def handle_def LoginHandler_def
        Login_validate_def reject_if_def lift_sum_def authorised_def)
  then obtain loc t where t: "guarded_turn 7 ([], []) (WsFrame OP_DATA (serialize ?p)) ?w = (Inr (loc, True), t)"
    and a: "authorised t 7" "cs_username (conns t 7) = ''dave''"
    by (auto simp: wp_def split: prod.splits sum.splits)
  let ?T = "\<lparr>sys_world = t, sys_open = (sys_open ?S)(7 \<mapsto> loc)\<rparr>"
  have "sys_step ?S ?T" by (rule sys_step.turn [where loc = "([], [])" and ev = "WsFrame OP_DATA (serialize ?p)"]) (simp_all add: t)
  with S have T: "rtranclp sys_step (initial example_start) ?T" by (meson r_into_rtranclp rtranclp_trans)
  have fresh: "\<forall>c. cs_state (conns example_start c) \<noteq> Authenticated"
    by (simp add: example_start_def example_login_state_def example_world_def fresh_session_def)
  have "authorised (sys_world ?T) 7" using a by simp
  from gate_identifies [OF ok fresh T this] a T show ?thesis by fastforce
qed

end
