(* ===== verification/Availability.thy ===== *)
theory Availability
  imports Dispatch
begin

text \<open>
  Which events can end a connection.  The loop of \<open>ConnectionHandler::handleRequest\<close> answers every
  \<open>AppException\<close> with ERR and goes on; any other exception ends it.
\<close>

section \<open>The exceptions a computation can throw\<close>

definition throws :: "(exn \<Rightarrow> bool) \<Rightarrow> external \<Rightarrow> 'a W \<Rightarrow> bool" where
  "throws E e m \<longleftrightarrow> (\<forall>s. ext s = e \<longrightarrow> wp m (\<lambda>_ t. ext t = e) (\<lambda>x t. E x \<and> ext t = e) s)"

abbreviation app_or_poco :: "exn \<Rightarrow> bool" where
  "app_or_poco x \<equiv> is_App x \<or> is_Poco x"

named_theorems thr_rules \<open>exceptions of the combinators\<close>
named_theorems thr_ops \<open>exceptions of the operations\<close>

lemma throwsI: "(\<And>s. ext s = e \<Longrightarrow> wp m (\<lambda>_ t. ext t = e) (\<lambda>x t. E x \<and> ext t = e) s) \<Longrightarrow> throws E e m"
  by (simp add: throws_def)

lemma throwsD: "throws E e m \<Longrightarrow> ext s = e \<Longrightarrow> wp m (\<lambda>_ t. ext t = e) (\<lambda>x t. E x \<and> ext t = e) s"
  by (simp add: throws_def)

lemma throws_wp: "throws E e m \<Longrightarrow> ext s = e \<Longrightarrow> wp m (\<lambda>_ _. True) (\<lambda>x _. E x) s"
  by (rule wp_mono [OF throwsD]) auto

lemma throws_mono: "throws E e m \<Longrightarrow> (\<And>x. E x \<Longrightarrow> E' x) \<Longrightarrow> throws E' e m"
  unfolding throws_def by (auto elim!: wp_mono)

lemma throws_basic [thr_rules]: "throws E e (retn x)" "throws E e (gets f)"
  by (simp_all add: throws_def wp)

lemma throws_thr: "E x \<Longrightarrow> throws E e (thr x)"
  by (simp add: throws_def wp)

lemma throws_upd: "(\<And>s. ext (f s) = ext s) \<Longrightarrow> throws E e (upd f)"
  by (simp add: throws_def wp)

lemma throws_bnd [thr_rules]: "throws E e m \<Longrightarrow> (\<And>x. throws E e (f x)) \<Longrightarrow> throws E e (bnd m f)"
  unfolding throws_def wp_bnd by (auto elim!: wp_mono)

lemma throws_catch:
  "throws E' e m \<Longrightarrow> (\<And>x. E' x \<Longrightarrow> P x \<Longrightarrow> throws E e (h x)) \<Longrightarrow> (\<And>x. E' x \<Longrightarrow> \<not> P x \<Longrightarrow> E x) \<Longrightarrow>
   throws E e (catch_if P m h)"
  unfolding throws_def wp_catch_if by (auto elim!: wp_mono)

lemma throws_catch_same [thr_rules]:
  "throws E e m \<Longrightarrow> (\<And>x. throws E e (h x)) \<Longrightarrow> throws E e (catch_if P m h)"
  by (rule throws_catch)

lemma throws_when [thr_rules]: "(b \<Longrightarrow> throws E e m) \<Longrightarrow> throws E e (when_m b m)"
  by (cases b) (simp_all add: thr_rules)

lemma throws_if [thr_rules]: "(b \<Longrightarrow> throws E e m) \<Longrightarrow> (\<not> b \<Longrightarrow> throws E e n) \<Longrightarrow> throws E e (if b then m else n)"
  by simp

lemma throws_option [thr_rules]:
  "throws E e m \<Longrightarrow> (\<And>x. r = Some x \<Longrightarrow> throws E e (f x)) \<Longrightarrow> throws E e (case r of None \<Rightarrow> m | Some x \<Rightarrow> f x)"
  by (cases r) simp_all

lemma throws_let [thr_rules]: "(\<And>x. throws E e (f x)) \<Longrightarrow> throws E e (let x = v in f x)"
  by simp

lemma throws_split [thr_rules]: "(\<And>a b. throws E e (f a b)) \<Longrightarrow> throws E e (case p of (a, b) \<Rightarrow> f a b)"
  by (cases p) simp

lemma throws_protocol [thr_rules]: "throws is_App e (throw_if b (ProtocolException msg))" "throws is_App e (protocol_error msg)"
  "throws is_App e (thr (CryptoException msg))"
  by (simp_all add: throw_if_def protocol_error_def throws_thr thr_rules)

lemma throws_for_each [thr_rules]: "(\<And>x. throws E e (f x)) \<Longrightarrow> throws E e (for_each f xs)"
  by (induction xs) (auto intro: thr_rules)

lemma throws_for_each_break [thr_rules]: "(\<And>x. throws E e (f x)) \<Longrightarrow> throws E e (for_each_break f xs)"
  by (induction xs) (auto intro!: thr_rules)

lemma throws_ignore [thr_rules]: "throws is_App e m \<Longrightarrow> throws E e (ignore_errors m)"
  unfolding ignore_errors_def by (rule throws_catch [where E' = is_App]) (auto intro: thr_rules)

lemma throws_lift: "(\<And>x. r = Inl x \<Longrightarrow> E x) \<Longrightarrow> throws E e (lift_sum r)"
  by (cases r) (auto simp: lift_sum_def throws_thr thr_rules)


section \<open>Database, network and randomness\<close>

lemma throws_session: "throws is_App e DbManager_session"
  by (simp add: throws_def wp split: option.splits)

lemma throws_sql: "throws is_Poco e (sql st)"
  by (auto simp: throws_def wp split: option.splits prod.splits sum.splits)

lemma throws_poco [thr_ops]: "throws app_or_poco e DbManager_session" "throws app_or_poco e (sql st)"
  by (rule throws_mono [OF throws_session], simp, rule throws_mono [OF throws_sql], simp)

lemma throws_wrap [thr_rules]: "throws app_or_poco e m \<Longrightarrow> throws is_App e (wrap_db ctx m)"
  unfolding wrap_db_def by (rule throws_catch [where E' = app_or_poco]) (auto intro: throws_thr)

lemma throws_transaction [thr_rules]:
  assumes "throws app_or_poco e m"
  shows "throws app_or_poco e (transaction m)"
proof -
  let ?b = "bnd (sql (dml (\<lambda>e n d. d))) (\<lambda>_. bnd m (\<lambda>x. bnd (sql (dml (\<lambda>e n d. d))) (\<lambda>_. retn x)))"
  have b: "throws app_or_poco e ?b" by (intro throws_bnd throws_poco throws_basic assms)
  show ?thesis
  proof (rule throwsI)
    fix s :: world
    assume "ext s = e"
    from throwsD [OF b this] show "wp (transaction m) (\<lambda>_ t. ext t = e) (\<lambda>x t. app_or_poco x \<and> ext t = e) s"
      unfolding transaction_def wp_def by (cases "?b s"; cases "fst (?b s)") auto
  qed
qed

lemma throws_repo [thr_ops]: "throws is_App e (repo ctx st)"
  unfolding repo_def by (intro thr_rules thr_ops)

lemma throws_send [thr_ops]: "throws is_App e (send c p)" "throws app_or_poco e (send c p)"
  by (simp_all add: throws_def wp split: option.splits)

lemma throws_state [thr_ops]:
  "throws E e (setState c st)" "throws E e (setUsername c u)" "throws E e (setSessionToken c tk)"
  "throws E e (getUsername c)" "throws E e (getSessionToken c)" "throws E e (isAuthenticated c)"
  "throws E e (findClient u)" "throws E e (getSessionsForUser u)" "throws E e (RAND_bytes n)"
  unfolding setState_def setUsername_def setSessionToken_def getUsername_def getSessionToken_def isAuthenticated_def
    findClient_def getSessionsForUser_def
  by (simp_all add: thr_rules throws_upd) (simp add: throws_def wp_def RAND_bytes_def)

lemma throws_argon [thr_ops]: "throws is_App e (argon2_derive a b d u v)"
  by (simp add: throws_def wp_def argon2_derive_def split: option.splits kdf_fault.splits)


section \<open>The handlers\<close>

lemma methods_thr [thr_ops]:
  "throws is_App e (MessageRepository_deleteConversation a b)" "throws is_App e (PendingNotificationRepository_findAndClear u)"
  "throws is_App e (GroupRepository_removeMember g u)" "throws is_App e (GroupRepository_replaceAllKeys g pairs)"
  "throws is_App e (GroupRepository_insertReceiptRows mid us)" "throws is_App e (GroupRepository_markReceiptDelivered g ts u)"
  "throws is_App e (GroupRepository_markReceiptSeen g ts u)" "throws is_App e (queue_receipt ctx fu u ts go kind)"
  "throws is_App e (flushOfflineReadReceipts u c)"
  unfolding MessageRepository_deleteConversation_def PendingNotificationRepository_findAndClear_def
    GroupRepository_removeMember_def GroupRepository_replaceAllKeys_def GroupRepository_insertReceiptRows_def
    GroupRepository_markReceiptDelivered_def GroupRepository_markReceiptSeen_def markReceipt_def queue_receipt_def
    flushOfflineReadReceipts_def
  by (intro thr_rules thr_ops)+

lemma helpers_thr [thr_ops]:
  "throws is_App e (BaseAuth_authorize c)" "throws is_App e (try_send c p)" "throws is_App e (send_siblings c u p)"
  "throws is_App e (notify u p)" "throws is_App e (notify_or_queue u p ty fu bd em pk)" "throws is_App e (send_if_online u p)"
  "throws is_App e (notify_key p a gn b uk)"  "throws is_App e (hashPassword u)" "throws is_App e Register_generateToken"
  "throws is_App e Login_generateToken" "throws is_App e (flushPendingNotifications u c)" "throws is_App e (Register_flush c u entry)"
  "throws is_App e (Login_flush c u entry)"
  unfolding BaseAuth_authorize_def try_send_def send_siblings_def notify_def notify_or_queue_def send_if_online_def
    notify_key_def hashPassword_def Register_generateToken_def Login_generateToken_def
    flushPendingNotifications_def Register_flush_def Login_flush_def try_send_def notify_def repo_defs
  by (intro thr_rules thr_ops)+

lemma group_id_thr [thr_ops]: "throws is_App e (group_id_of err t)"
  by (auto simp: group_id_of_def thr_rules split: sum.splits)

lemma executes_thr:
  "throws is_App e (Register_execute p c)" "throws is_App e (KeyExchange_execute p c)" "throws is_App e (Message_execute p c)"
  "throws is_App e (SyncHistory_execute p c)" "throws is_App e (DeleteConversation_execute p c)" "throws is_App e (CreateGroup_execute p c)"
  "throws is_App e (GroupMessage_execute p c)" "throws is_App e (GroupKeyExchange_execute p c)"
  "throws is_App e (GroupInfo_execute p c)" "throws is_App e (GroupLeave_execute p c)"
  unfolding Register_execute_def KeyExchange_execute_def Message_execute_def Message_route_def
    SyncHistory_execute_def with_fallback_def DeleteConversation_execute_def
    CreateGroup_execute_def check_members_def GroupMessage_execute_def GroupKeyExchange_execute_def resend_key_def add_single_def
    GroupInfo_execute_def grant_admin_def revoke_admin_def GroupLeave_execute_def repo_defs
  by (intro thr_rules thr_ops)+


section \<open>The exceptions that pass the dispatcher\<close>

text \<open>A string of digits that \<open>std::stoi\<close> refuses.\<close>

definition overflows :: "string \<Rightarrow> bool" where
  "overflows x \<longleftrightarrow> isNumeric x \<and> INT_MAX < int (digits_val x)"

lemma stoi_digits:
  assumes "isNumeric x"
  shows "stoi x = (if overflows x then Inl (OutOfRange ''stoi'') else Inr (int (digits_val x)))"
proof -
  have d: "x \<noteq> []" "isdigit (hd x)" "takeWhile isdigit x = x" "list_all isdigit x"
    using assms by (cases x; simp add: isNumeric_def list_all_iff takeWhile_eq_all_conv)+
  then have "dropWhile isspace x = x" by (cases x) (auto dest: isdigit_not_special)
  then show ?thesis
    using assms by (simp add: stoi_def scan_num_def take_sign_digit d overflows_def in_int_def INT_MIN_def Let_def)
qed

text \<open>A stored hash whose salt is not hexadecimal.\<close>

definition unreadable_hash :: "string \<Rightarrow> bool" where
  "unreadable_hash h \<longleftrightarrow> (\<exists>salt rest x. split_at CHR '':'' h = Some (salt, rest) \<and> fromHex salt = Inl x)"

text \<open>The packets whose handlers can let out an exception that is no \<open>AppException\<close>.\<close>

definition lets_out :: "world \<Rightarrow> Packet \<Rightarrow> bool" where
  "lets_out s p \<longleftrightarrow>
     (case ptype p of
        ACK \<Rightarrow> overflows (if perrorMsg p = ''delivered'' then pto p else pbody p)
      | READ_RECEIPT \<Rightarrow> overflows (pto p)
      | DELETE_GROUP \<Rightarrow> \<exists>t. db_fault (ext s) t \<noteq> None
      | LOGIN \<Rightarrow> \<exists>r \<in> set (users (db s)). u_username r = pfrom p \<and> unreadable_hash (u_password_hash r)
      | _ \<Rightarrow> False)"

lemma Ack_thr:
  assumes "Ack_validate p = Inr ()" "ptype p = ACK" "\<not> lets_out s p"
  shows "throws is_App e (Ack_execute p c)"
proof -
  have "isNumeric (if perrorMsg p = ''delivered'' then pto p else pbody p)"
    using assms(1) by (auto simp: Ack_validate_def reject_if_def first_violation_def isNumeric_def split: if_splits)
  then have "\<exists>v. stoi (if perrorMsg p = ''delivered'' then pto p else pbody p) = Inr v"
    using assms(2,3) by (auto simp: stoi_digits lets_out_def)
  then have l: "throws is_App e (lift_sum (stoi (if perrorMsg p = ''delivered'' then pto p else pbody p)))"
    by (auto intro: throws_lift)
  show ?thesis
  proof (cases "perrorMsg p = ''delivered''")
    case True
    then have "throws is_App e (lift_sum (stoi (pto p)))" using l by simp
    then show ?thesis unfolding Ack_execute_def True if_True simp_thms executeGroupDelivered_def repo_defs
      by (intro thr_rules thr_ops)
  next
    case False
    then have "throws is_App e (lift_sum (stoi (pbody p)))" using l by simp
    then show ?thesis unfolding Ack_execute_def if_not_P [OF False] repo_defs by (intro thr_rules thr_ops)
  qed
qed

lemma ReadReceipt_thr:
  assumes "ptype p = READ_RECEIPT" "\<not> lets_out s p"
  shows "throws is_App e (ReadReceipt_execute p c)"
proof -
  have "throws is_App e (lift_sum (stoi (pto p)))" if "isNumeric (pto p)"
    using assms that by (auto simp: stoi_digits lets_out_def intro: throws_lift)
  then show ?thesis
    unfolding ReadReceipt_execute_def ReadReceipt_group_def repo_defs by (intro thr_rules thr_ops)
qed

lemma DeleteGroup_thr:
  assumes "ptype p = DELETE_GROUP" "\<not> lets_out s p"
  shows "throws is_App (ext s) (DeleteGroup_execute p c)"
proof -
  have "db_fault (ext s) = (\<lambda>_. None)" using assms by (auto simp: lets_out_def fun_eq_iff)
  then have "throws is_App (ext s) (sql (group_delete g))" for g
    by (simp add: throws_def wp group_delete_def dml_def)
  then show ?thesis
    unfolding DeleteGroup_execute_def repo_defs by (intro thr_rules thr_ops throws_session)
qed

lemma Login_thr:
  assumes "ptype p = LOGIN" "\<not> lets_out s p"
  shows "wp (Login_execute p c) (\<lambda>_ _. True) (\<lambda>x _. is_App x) s"
proof -
  have rest: "throws is_App e (case uo of None \<Rightarrow> protocol_error msg | Some u \<Rightarrow>
      bnd (verifyPassword (pbody p) (us_passwordHash u)) (\<lambda>good. k u good))"
    if "\<And>u good. throws is_App e (k u good)" "\<And>u. uo = Some u \<Longrightarrow> \<not> unreadable_hash (us_passwordHash u)" for e uo k msg
  proof -
    have "throws is_App e (verifyPassword w h)" if "\<not> unreadable_hash h" for w h
    proof (cases "split_at CHR '':'' h")
      case (Some sr)
      then have "throws is_App e (lift_sum (fromHex (fst sr)))"
        using that by (cases sr) (auto simp: unreadable_hash_def intro: throws_lift)
      then show ?thesis
        unfolding verifyPassword_def Some by (cases sr) (auto intro!: thr_rules thr_ops)
    qed (simp add: verifyPassword_def thr_rules)
    then show ?thesis using that by (intro thr_rules) auto
  qed
  have readable: "\<not> unreadable_hash (us_passwordHash u)"
    if "fetch_one u_username (rowToUser (ext s)) (find (\<lambda>r. u_username r = pfrom p) (users (db s))) = Some u" for u
    using that assms by (auto simp: fetch_one_def rowToUser_def lets_out_def split: option.splits if_splits dest!: find_SomeD)
  show ?thesis
    unfolding Login_execute_def wp_bnd [of "UserRepository_findByUsername _"]
  proof (rule wp_mono [OF findByUsername_wp], goal_cases)
    case (1 r t)
    then show ?case
      by (intro throws_wp [OF rest] thr_rules thr_ops) (auto dest: readable [OF sym] simp: repo_defs intro!: thr_rules thr_ops)
  next
    case (2 x t)
    then show ?case by (cases x) auto
  qed
qed


lemma handle_app:
  assumes "factory_create registerHandlers (ptype p) = Inr h" "\<not> lets_out s p"
  shows "wp (handle h p c) (\<lambda>_ _. True) (\<lambda>x _. is_App x) s"
proof -
  have app: "is_App x" if "is_Protocol x" for x using that by (cases x) auto
  have val: "is_App x" if "h_validate h p = Inl x" for x
    using created_handler [OF assms(1)] gated_handler.validate_protocol [of h p x] that
    by (auto simp: LoginHandler_def RegisterHandler_def Login_validate_def Register_validate_def intro: app)
  show ?thesis
  proof (cases "h_validate h p")
    case (Inr u)
    show ?thesis
    proof (cases "ptype p = LOGIN")
      case True
      then have "h = LoginHandler"
        using assms(1) by (simp add: factory_create_def registerHandlers_def registerHandler_def)
      then show ?thesis using Login_thr [OF True assms(2)] Inr
        by (simp add: handle_def LoginHandler_def lift_sum_def wp_bnd wp_retn)
    next
      case False
      have "throws is_App (ext s) (h_authorize h c) \<and> throws is_App (ext s) (h_execute h p c)"
        using assms Inr False
        by (cases "ptype p") (auto simp: factory_create_def registerHandlers_def registerHandler_def handler_defs
            intro: thr_rules thr_ops executes_thr Ack_thr ReadReceipt_thr DeleteGroup_thr)
      then have "throws is_App (ext s) (handle h p c)"
        unfolding handle_def Inr by (intro thr_rules throws_lift) auto
      then show ?thesis by (rule throws_wp) simp
    qed
  qed (simp add: handle_def lift_sum_def val wp)
qed

lemma process_packet_returns:
  assumes "\<not> lets_out s p"
  shows "wp (process_packet c loc p) (\<lambda>_ _. True) (\<lambda>_ _. False) s"
proof -
  have track: "wp (track_client c loc) (\<lambda>_ _. True) (\<lambda>_ _. False) t" for t
    by (simp add: track_client_def wp addClient_def removeClient_def isAuthenticated_def getUsername_def getSessionToken_def)
  have err: "wp (bnd (send_err c x) (\<lambda>_. retn loc)) (\<lambda>_ _. True) (\<lambda>_ _. False) t" for x t
    by (simp add: send_err_def ignore_errors_def wp split: option.splits)
  show ?thesis
  proof (cases "factory_create registerHandlers (ptype p)")
    case (Inl x)
    then have "is_App x" by (auto simp: factory_create_def split: option.splits)
    then show ?thesis using err by (simp add: process_packet_def Inl lift_sum_def wp_catch_if wp_bnd wp_thr)
  next
    case (Inr h)
    show ?thesis
      unfolding process_packet_def Inr lift_sum_def wp_catch_if
      by (simp add: wp_bnd [of "handle _ _ _"]) (rule wp_mono [OF handle_app [OF Inr assms]], auto intro: wp_mono [OF track] err)
  qed
qed



section \<open>A turn and the whole loop\<close>

text \<open>
  What ends the connection by itself: an exception of the socket (closed, broken, no frame in time, a frame too large
  for the buffer), a close frame, an empty data frame, a ping that cannot be answered.
\<close>

definition socket_ends :: "world \<Rightarrow> conn \<Rightarrow> ws_event \<Rightarrow> bool" where
  "socket_ends s c ev \<longleftrightarrow>
     (case ev of
        WsError _ \<Rightarrow> True
      | WsFrame op buf \<Rightarrow>
          (case op of
             OP_CLOSE \<Rightarrow> True
           | OP_PING \<Rightarrow> net_fault (ext s) (clock s) c \<noteq> None
           | OP_PONG \<Rightarrow> False
           | OP_DATA \<Rightarrow> buf = []))"

text \<open>What can end it: the socket, or a packet whose handler lets out an exception that nobody answers.\<close>

definition ends_connection :: "world \<Rightarrow> conn \<Rightarrow> ws_event \<Rightarrow> bool" where
  "ends_connection s c ev \<longleftrightarrow> socket_ends s c ev
     \<or> (\<exists>buf p. ev = WsFrame OP_DATA buf \<and> deserialize (uninit_int (ext s)) buf = Inr p \<and> lets_out s p)"

lemma socket_turn:
  assumes "socket_ends s c ev"
  shows "wp (guarded_turn c loc ev) (\<lambda>r _. r = (loc, False)) (\<lambda>_ _. False) s"
proof -
  have "wp (receive_turn c ev) (\<lambda>r _. r = Closed) (\<lambda>x _. \<not> is_Protocol x) s"
  proof (cases ev)
    case (WsFrame op buf)
    then show ?thesis
      using assms by (cases op) (auto simp: socket_ends_def receive_turn_def wp wp_def [of "send_frame _ _"] send_frame_def setState_def
          split: option.splits)
  qed (simp add: receive_turn_def wp)
  then have "wp (connection_turn c loc ev) (\<lambda>r _. r = (loc, False)) (\<lambda>_ _. True) s"
    unfolding connection_turn_def wp_bnd [of "catch_if _ _ _"] wp_catch_if
    by (rule wp_mono) (auto simp: wp_retn)
  then show ?thesis unfolding guarded_turn_def wp_catch_if by (rule wp_mono) (simp_all add: wp_retn)
qed

lemma deserialize_protocol: "deserialize t0 data = Inl x \<Longrightarrow> is_Protocol x \<and> \<not> is_Poco x"
  by (auto simp: deserialize_def split: if_splits prod.splits sum.splits)

lemma receive_survives:
  assumes "\<not> ends_connection s c ev"
  shows "wp (receive_turn c ev) (\<lambda>r t. r = Again \<or> (\<exists>p. r = Received p \<and> t = s \<and> \<not> lets_out s p))
     (\<lambda>x _. is_Protocol x) s"
proof (cases ev)
  case (WsFrame op buf)
  then show ?thesis
    using assms
    by (cases op) (auto simp: ends_connection_def socket_ends_def receive_turn_def wp wp_def [of "send_frame _ _"] send_frame_def
        dest: deserialize_protocol split: option.splits sum.splits exn.splits)
qed (use assms in \<open>simp add: ends_connection_def socket_ends_def\<close>)

lemma guarded_turn_survives:
  assumes "\<not> ends_connection s c ev"
  shows "wp (guarded_turn c loc ev) (\<lambda>r _. snd r) (\<lambda>_ _. False) s"
proof -
  have err: "wp (bnd (send_err c x) (\<lambda>_. retn Again)) (\<lambda>r _. r = Again) (\<lambda>_ _. False) t" for x t
    by (simp add: send_err_def ignore_errors_def wp split: option.splits)
  have "wp (connection_turn c loc ev) (\<lambda>r _. snd r) (\<lambda>_ _. False) s"
    unfolding connection_turn_def wp_bnd [of "catch_if _ _ _"] wp_catch_if
    by (rule wp_mono [OF receive_survives [OF assms]])
      (auto simp: wp_retn wp_bnd [of "process_packet _ _ _"] intro!: wp_mono [OF process_packet_returns] wp_mono [OF err])
  then show ?thesis unfolding guarded_turn_def wp_catch_if by (rule wp_mono) auto
qed


text \<open>The exceptions named above do end it: the handler is reached and lets \<open>std::out_of_range\<close> out.\<close>

lemma overflow_turn_wp:
  assumes "quiet s" "authorised s c" "wf_packet p" "pbody p \<noteq> []" "lets_out s p"
    and "ptype p = ACK \<or> ptype p = READ_RECEIPT \<and> pfrom p = cs_username (conns s c) \<and> pfrom p \<noteq> []"
  shows "wp (guarded_turn c loc (WsFrame OP_DATA (serialize p)))
     (\<lambda>r t. r = (loc, False) \<and> db t = db s \<and> outbox t = outbox s) (\<lambda>_ _. False) s"
proof -
  let ?h = "if ptype p = ACK then AckHandler else ReadReceiptHandler"
  have h: "factory_create registerHandlers (ptype p) = Inr ?h"
    using assms(6) by (auto simp: factory_create_def registerHandlers_def registerHandler_def)
  have num: "isNumeric (if ptype p = ACK \<and> perrorMsg p \<noteq> ''delivered'' then pbody p else pto p)"
    "stoi (if ptype p = ACK \<and> perrorMsg p \<noteq> ''delivered'' then pbody p else pto p) = Inl (OutOfRange ''stoi'')"
    using assms(5,6) by (auto simp: lets_out_def stoi_digits overflows_def split: if_splits)
  have val: "h_validate ?h p = Inr ()"
    using num(1) assms(4,6) by (auto simp: AckHandler_def ReadReceiptHandler_def Ack_validate_def ReadReceipt_validate_def
        reject_if_def first_violation_def isNumeric_def split: if_splits)
  have exe: "wp (h_execute ?h p c) (\<lambda>_ _. False) (\<lambda>x t. x = OutOfRange ''stoi'' \<and> untouched s t) t" if "untouched s t" for t
    using num assms(6) that
    by (auto simp: AckHandler_def ReadReceiptHandler_def Ack_execute_def executeGroupDelivered_def ReadReceipt_execute_def
        ReadReceipt_group_def wp getUsername_def lift_sum_def untouched_def only_db_def split: if_splits)
  have auth: "h_authorize ?h = BaseAuth_authorize" by (simp add: AckHandler_def ReadReceiptHandler_def)
  have "wp (handle ?h p c) (\<lambda>_ _. False) (\<lambda>x t. x = OutOfRange ''stoi'' \<and> untouched s t) s"
    unfolding handle_def val auth
    by (simp only: lift_sum_def sum.case bnd_retn wp_bnd) (rule wp_mono [OF authorize_accepts [OF assms(1,2)]], erule exe, simp)
  then have "wp (process_packet c loc p) (\<lambda>_ _. False) (\<lambda>x t. x = OutOfRange ''stoi'' \<and> untouched s t) s"
    unfolding process_packet_def h lift_sum_def wp_catch_if
    by (simp only: sum.case bnd_retn wp_bnd [of "handle _ _ _"]) (erule wp_mono, auto)
  then show ?thesis
    unfolding guarded_turn_def wp_catch_if connection_turn_def wp_bnd receive_data [OF assms(3)]
    by (simp add: wp_bnd) (erule wp_mono, auto simp: wp untouched_def only_db_def)
qed

text \<open>
  C15. Which events end a connection.  Whatever the database and the network do and whatever bytes a non-empty data
  frame holds, a turn ends with the connection open, except in these cases: the socket ends it (an
  exception of \<open>receiveFrame\<close>, that is, a closed or broken socket, the receive timeout or a frame above the packet
  size; a close frame; an empty data frame; a ping that cannot be answered); an ACK or a READ_RECEIPT holds a
  number above \<open>INT_MAX\<close>; a DELETE_GROUP while the database can fail; a log-in against a stored hash that cannot be
  read.  In the cases of the socket the connection does end.
\<close>

theorem connection_survives:
  "(\<not> ends_connection s c ev \<longrightarrow> (\<exists>loc' t. guarded_turn c loc ev s = (Inr (loc', True), t)))
   \<and> (socket_ends s c ev \<longrightarrow> (\<exists>t. guarded_turn c loc ev s = (Inr (loc, False), t)))"
proof (intro conjI impI)
  show "\<exists>loc' t. guarded_turn c loc ev s = (Inr (loc', True), t)" if "\<not> ends_connection s c ev"
    using guarded_turn_survives [OF that, of loc] by (auto simp: wp_def split: prod.splits sum.splits)
  show "\<exists>t. guarded_turn c loc ev s = (Inr (loc, False), t)" if "socket_ends s c ev"
    using socket_turn [OF that, of loc] by (auto simp: wp_def split: prod.splits sum.splits)
qed

text \<open>Witness of C15: an acknowledgement that meets a failing database and a dead network; an empty frame.\<close>

lemma connection_survives_witness:
  "(\<exists>loc' t. guarded_turn 1 ([], []) (WsFrame OP_DATA (serialize ((new_packet ACK)\<lparr>pbody := ''7''\<rparr>)))
     (example_state\<lparr>ext := example_ext\<lparr>db_fault := (\<lambda>_. Some ''down''), net_fault := (\<lambda>_ _. Some ''lost'')\<rparr>\<rparr>)
     = (Inr (loc', True), t))
   \<and> (\<exists>t. guarded_turn 1 ([], []) (WsFrame OP_DATA []) example_state = (Inr (([], []), False), t))"
proof
  let ?p = "(new_packet ACK)\<lparr>pbody := ''7''\<rparr>"
  let ?s = "example_state\<lparr>ext := example_ext\<lparr>db_fault := (\<lambda>_. Some ''down''), net_fault := (\<lambda>_ _. Some ''lost'')\<rparr>\<rparr>"
  have "wf_packet ?p"
    by (simp add: wf_packet_def bar_free_def new_packet_def in_int_def INT_MIN_def INT_MAX_def PROTOCOL_VERSION_def)
  then have d: "deserialize t0 (serialize ?p) = Inr ?p" for t0
    by (simp add: deserialize_def read_packet_serialize)
  then have "serialize ?p \<noteq> []" by (auto simp: deserialize_def)
  moreover have "\<not> lets_out s ?p" for s
    by (simp add: lets_out_def new_packet_def overflows_def digits_val_def INT_MAX_def)
  ultimately have "\<not> ends_connection ?s 1 (WsFrame OP_DATA (serialize ?p))"
    using d by (simp add: ends_connection_def socket_ends_def)
  with connection_survives [of ?s 1 "WsFrame OP_DATA (serialize ?p)" "([], [])"]
  show "\<exists>loc' t. guarded_turn 1 ([], []) (WsFrame OP_DATA (serialize ?p)) ?s = (Inr (loc', True), t)" by blast
  show "\<exists>t. guarded_turn 1 ([], []) (WsFrame OP_DATA []) example_state = (Inr (([], []), False), t)"
    using connection_survives [of example_state 1 "WsFrame OP_DATA []" "([], [])"] by (simp add: socket_ends_def)
qed

text \<open>
  C16. The gap is real: from a logged-in client, without any fault, an ACK or a READ_RECEIPT whose
  number exceeds \<open>INT_MAX\<close> ends the connection; it gets no ERR, and nothing is stored or sent.
\<close>

theorem overflow_ends_connection:
  assumes "quiet s" "authorised s c" "wf_packet p" "pbody p \<noteq> []" "lets_out s p"
    and "ptype p = ACK \<or> ptype p = READ_RECEIPT \<and> pfrom p = cs_username (conns s c) \<and> pfrom p \<noteq> []"
  shows "\<exists>t. guarded_turn c loc (WsFrame OP_DATA (serialize p)) s = (Inr (loc, False), t)
           \<and> db t = db s \<and> outbox t = outbox s"
  using overflow_turn_wp [OF assms, of loc] by (auto simp: wp_def split: prod.splits sum.splits)

text \<open>Witness of C16: alice acknowledges message 2147483648.\<close>

lemma overflow_ends_connection_witness:
  "\<exists>t. guarded_turn 1 (''alice'', ''ta'') (WsFrame OP_DATA (serialize ((new_packet ACK)\<lparr>pbody := ''2147483648''\<rparr>)))
     (example_state\<lparr>conns := (\<lambda>_. \<lparr>cs_state = Authenticated, cs_username = ''alice'', cs_sessionToken = ''ta''\<rparr>)\<rparr>)
     = (Inr ((''alice'', ''ta''), False), t) \<and> db t = example_db \<and> outbox t = []"
proof -
  let ?p = "(new_packet ACK)\<lparr>pbody := ''2147483648''\<rparr>"
  let ?s = "example_state\<lparr>conns := (\<lambda>_. \<lparr>cs_state = Authenticated, cs_username = ''alice'', cs_sessionToken = ''ta''\<rparr>)\<rparr>"
  have "wf_packet ?p" "lets_out ?s ?p"
    by (simp_all add: wf_packet_def bar_free_def new_packet_def in_int_def INT_MIN_def INT_MAX_def PROTOCOL_VERSION_def
        lets_out_def overflows_def isNumeric_def isdigit_def digits_val_def)
  moreover have "authorised ?s 1"
    by (simp add: authorised_def example_state_def example_db_def example_world_def example_ext_def session_live_def)
  moreover have "db ?s = example_db" "outbox ?s = []" by (simp_all add: example_state_def example_world_def)
  ultimately show ?thesis
    using overflow_ends_connection [of ?s 1 ?p "(''alice'', ''ta'')"] by (simp add: new_packet_def)
qed

end
