(* ===== verification/GroupCreation.thy ===== *)
theory GroupCreation
  imports GroupProperties
begin

text \<open>
  What CREATE_GROUP does from its gate to its invitations: who is a member of the new group and
  how many, whatever fails on the way, and that without faults every listed user is invited.
\<close>

section \<open>Creating a group\<close>

text \<open>The names of the members of a group, and what \<open>addMember\<close> does to the list.\<close>

definition member_names :: "int \<Rightarrow> database \<Rightarrow> string list" where
  "member_names g d = map mb_username (filter (\<lambda>r. mb_group_id r = g) (group_members d))"

definition join_name :: "string list \<Rightarrow> string \<Rightarrow> string list" where
  "join_name us u = (if u \<in> set us then us else us @ [u])"

lemma foldl_join_name:
  "set (foldl join_name us vs) = set us \<union> set vs \<and> length (foldl join_name us vs) \<le> length us + length vs"
proof (induction vs arbitrary: us)
  case (Cons v vs)
  have "length (join_name us v) \<le> Suc (length us)" "set (join_name us v) = insert v (set us)" by (auto simp: join_name_def)
  with Cons [of "join_name us v"] show ?case by auto
qed simp

text \<open>At most \<open>k\<close> members more in the group \<open>g\<close>, nothing else about members has changed.\<close>

definition enlarged :: "int \<Rightarrow> nat \<Rightarrow> database \<Rightarrow> database \<Rightarrow> bool" where
  "enlarged g k d d' \<longleftrightarrow>
     length (member_names g d') \<le> length (member_names g d) + k
     \<and> filter (\<lambda>r. mb_group_id r \<noteq> g) (group_members d') = filter (\<lambda>r. mb_group_id r \<noteq> g) (group_members d)"

lemma enlarged_same: "group_members d' = group_members d \<Longrightarrow> enlarged g k d d'"
  by (simp add: enlarged_def member_names_def)

lemma enlarged_trans: "enlarged g k d d' \<Longrightarrow> enlarged g j d' d'' \<Longrightarrow> enlarged g (k + j) d d''"
  by (auto simp: enlarged_def)

lemma update_where_names:
  "map mb_username (filter (\<lambda>r. mb_group_id r = g) (update_where (member_at g' u) (\<lambda>r. r\<lparr>mb_role := role\<rparr>) rs)) =
     map mb_username (filter (\<lambda>r. mb_group_id r = g) rs)"
  "filter (\<lambda>r. mb_group_id r \<noteq> g) (update_where (member_at g u) (\<lambda>r. r\<lparr>mb_role := role\<rparr>) rs) =
     filter (\<lambda>r. mb_group_id r \<noteq> g) rs"
  by (induction rs) (auto simp: update_where_def member_at_def)

lemma member_upsert_names:
  assumes "member_upsert g u r e n d = (Inr (), d')"
  shows "member_names g d' = join_name (member_names g d) u \<and> enlarged g 1 d d'"
proof -
  have old: "u \<in> set (member_names g d) \<longleftrightarrow> (\<exists>r \<in> set (group_members d). member_at g u r)"
    by (auto simp: member_names_def member_at_def)
  have names: "member_names g d' = join_name (member_names g d) u"
    using assms unfolding member_upsert_def join_name_def old
    by (auto simp: member_names_def update_where_names split: if_splits)
  have "filter (\<lambda>r. mb_group_id r \<noteq> g) (group_members d') = filter (\<lambda>r. mb_group_id r \<noteq> g) (group_members d)"
    using assms unfolding member_upsert_def by (auto simp: update_where_names split: if_splits)
  then show ?thesis by (simp add: enlarged_def names, simp add: join_name_def)
qed

lemma addMember_names_wp:
  "wp (GroupRepository_addMember g u r)
     (\<lambda>_ t. member_names g (db t) = join_name (member_names g (db s)) u \<and> enlarged g 1 (db s) (db t)
        \<and> (\<forall>g' v. role_of g' v (db t) = (if g' = g \<and> v = u then r else role_of g' v (db s))))
     (\<lambda>e t. enlarged g 1 (db s) (db t)) s"
proof -
  have "wp (GroupRepository_addMember g u r)
     (\<lambda>_ t. member_names g (db t) = join_name (member_names g (db s)) u \<and> enlarged g 1 (db s) (db t))
     (\<lambda>_ _. True) s"
    unfolding GroupRepository_addMember_def by (rule wp_mono [OF repo_wp]) (auto dest: member_upsert_names)
  from wp_conj [OF this addMember_wp] show ?thesis by (rule wp_mono) (auto intro: enlarged_same)
qed

text \<open>All listed members in a row.\<close>

lemma add_members_wp:
  "wp (for_each (\<lambda>m. GroupRepository_addMember g m r) ms)
     (\<lambda>_ t. member_names g (db t) = foldl join_name (member_names g (db s)) ms \<and> enlarged g (length ms) (db s) (db t)
        \<and> (\<forall>g' v. role_of g' v (db t) = (if g' = g \<and> v \<in> set ms then r else role_of g' v (db s))))
     (\<lambda>e t. enlarged g (length ms) (db s) (db t)) s"
proof (induction ms arbitrary: s)
  case (Cons m ms)
  have more: "enlarged g (Suc (length ms)) d d''" if "enlarged g 1 d d'" "enlarged g (length ms) d' d''" for d d' d''
    using enlarged_trans [OF that] by simp
  have less: "enlarged g (Suc k) d d'" if "enlarged g 1 d d'" for k d d'
    using that by (auto simp: enlarged_def)
  show ?case
    unfolding for_each.simps wp_bnd
  proof (rule wp_mono [OF addMember_names_wp], goal_cases)
    case (1 x t)
    then show ?case by (intro wp_mono [OF Cons.IH [of t]]) (auto intro: more)
  qed (simp add: less)
qed (simp add: wp_retn enlarged_same)

lemma createGroup_wp:
  "wp (GroupRepository_createGroup n u)
     (\<lambda>g t. g = seqs (db s) T_groups \<and> group_members (db t) = group_members (db s))
     (\<lambda>e t. group_members (db t) = group_members (db s)) s"
  unfolding GroupRepository_createGroup_def
  by (rule wp_mono [OF repo_wp]) (auto simp: group_insert_def insert_row_Inr insert_row_Inl)

lemma check_members_view: "frame (\<lambda>s. f (db s)) (check_members ms)"
  unfolding check_members_def UserRepository_findByUsername_def
  by (intro frm.rules repo_frame) (simp add: user_select_name_def query_def)

text \<open>The next id of a group: nobody is a member yet.\<close>

lemma fresh_group:
  assumes "db_ok d" "g = seqs d T_groups"
  shows "g \<notin> group_ids d" "member_names g d = []" "role_of g u d = []"
    "filter (\<lambda>r. mb_group_id r \<noteq> g) (group_members d) = group_members d"
proof -
  show g: "g \<notin> group_ids d"
    using db_okD(5) [OF assms(1)] assms(2) by (auto simp: groups_ok_def keyed_def group_ids_def)
  show "member_names g d = []" "role_of g u d = []" "filter (\<lambda>r. mb_group_id r \<noteq> g) (group_members d) = group_members d"
    using db_okD(6) [OF assms(1)] g
    by (auto simp: members_ok_def member_names_def filter_empty_conv role_of_def member_at_def split: option.splits
        intro!: filter_True dest!: find_SomeD)
qed

lemma create_group_wp:
  assumes "db_ok (db s)" "me = cs_username (conns s c)" "ms = parseMembers (pbody p)" "g = seqs (db s) T_groups"
  shows "wp (CreateGroup_execute p c)
     (\<lambda>_ t. member_names g (db t) = foldl join_name [me] ms \<and> enlarged g (Suc (length ms)) (db s) (db t)
        \<and> (\<forall>g' u. role_of g' u (db t) =
             (if g' \<noteq> g then role_of g' u (db s) else if u \<in> set ms then ''member'' else if u = me then ''creator'' else [])))
     (\<lambda>_ t. enlarged g (Suc (length ms)) (db s) (db t)) s"
    (is "wp _ ?Q ?E s")
  unfolding CreateGroup_execute_def Let_def assms(3) [symmetric] wp_bnd [of "getUsername _"] getUsername_wp
    wp_bnd [of "check_members _"]
proof (rule frame_wp [OF check_members_view [where f = "\<lambda>d. d"]], goal_cases)
  case (1 x t)
  have names: "cs_username (conns s c) = me" using assms(2) by simp
  show ?case
    unfolding names wp_bnd [of "GroupRepository_createGroup _ _"]
  proof (rule wp_mono [OF createGroup_wp], unfold 1 assms(4) [symmetric], goal_cases)
    case (1 h u)
    then have h: "h = g" by simp
    have start: "member_names g (db u) = []" "role_of g v (db u) = []" for v
      using fresh_group(2,3) [OF assms(1,4)] 1 by (simp_all add: member_names_def role_of_def)
    have sameu: "enlarged g 0 (db s) (db u)" "role_of g' v (db u) = role_of g' v (db s)" for g' v
      using 1 by (simp_all add: enlarged_same role_of_def)
    show ?case
      unfolding h wp_bnd [of "GroupRepository_addMember _ _ _"]
    proof (rule wp_mono [OF addMember_names_wp], goal_cases)
      case (1 y v)
      note added = 1
      have v: "enlarged g 1 (db s) (db v)" using enlarged_trans [OF sameu(1), of 1 "db v"] 1 by simp
      show ?case
        unfolding wp_bnd [of "for_each (\<lambda>m. GroupRepository_addMember g m _) _"]
      proof (rule wp_mono [OF add_members_wp], goal_cases)
        case (1 z w)
        have w: "enlarged g (Suc (length ms)) (db s) (db w)" using enlarged_trans [OF v] 1 by simp
        have kept: "member_names g (db x) = member_names g (db w)" "enlarged g (Suc (length ms)) (db s) (db x)"
          "role_of g' v (db x) = role_of g' v (db w)" if "group_members (db x) = group_members (db w)" for x g' v
          using that w by (simp_all add: enlarged_def member_names_def role_of_def)
        have rest: "frame (\<lambda>s. group_members (db s)) (bnd (for_each (\<lambda>uk. GroupRepository_saveKey g (fst uk) (snd uk)) ks)
            (\<lambda>_. bnd (for_each (\<lambda>m. notify_or_queue m (q m) GROUP_INVITE me b n (k m)) ms) (\<lambda>_. send c r)))" for ks q b n k r
        proof -
          have "frame (\<lambda>s. group_members (db s)) (notify_or_queue u q ty fu bd em pk)" for u q ty fu bd em pk
            using notify_or_queue_view by (auto simp: keeps_def group_view_def)
          then show ?thesis by (intro frm.rules keys_members send_db)
        qed
        have m: "member_names g (db w) = foldl join_name [me] ms"
          "role_of g' v (db w) =
             (if g' \<noteq> g then role_of g' v (db s) else if v \<in> set ms then ''member'' else if v = me then ''creator'' else [])" for g' v
          using 1 added start sameu(2) by (auto simp: join_name_def)
        show ?case by (rule frame_wp [OF rest]) (simp_all add: kept m)
      qed (use enlarged_trans [OF v] in auto)
    qed (use sameu(1) in \<open>auto simp: enlarged_def\<close>)
  qed (simp add: enlarged_same)
qed (simp add: enlarged_same)

text \<open>
  C23. The size of a new group: a CREATE_GROUP that returns has made a group, with an id no group had
  before, of at least one and at most 32 distinct members, who are exactly the creator and the users
  listed; whoever is listed is a plain member, also the creator, who else has the role of
  creator; no other group has changed.  One that fails, at the gate or half-way, leaves at most
  one new group, and it has at most 32 members.
\<close>

theorem create_group_bounds:
  assumes "db_ok (db s)" "me = cs_username (conns s c)" "ms = parseMembers (pbody p)" "g = seqs (db s) T_groups"
  shows "wp (handle CreateGroupHandler p c)
     (\<lambda>_ t. g \<notin> group_ids (db s) \<and> set (member_names g (db t)) = insert me (set ms)
        \<and> 1 \<le> length (member_names g (db t)) \<and> length (member_names g (db t)) \<le> 32
        \<and> (\<forall>g' u. role_of g' u (db t) =
             (if g' \<noteq> g then role_of g' u (db s) else if u \<in> set ms then ''member'' else if u = me then ''creator'' else [])))
     (\<lambda>_ t. length (member_names g (db t)) \<le> 32
        \<and> filter (\<lambda>r. mb_group_id r \<noteq> g) (group_members (db t)) = group_members (db s)) s"
proof -
  note fresh = fresh_group [OF assms(1,4)]
  have err: "length (member_names g (db t)) \<le> 32
        \<and> filter (\<lambda>r. mb_group_id r \<noteq> g) (group_members (db t)) = group_members (db s)"
    if "enlarged g n (db s) (db t)" "n \<le> 32" for t n
    using that fresh by (simp add: enlarged_def)
  have same: "enlarged g 0 (db s) (db t)" if "db t = db s" for t by (simp add: that enlarged_same)
  show ?thesis
  proof (cases "CreateGroup_validate p")
    case (Inl e)
    then show ?thesis using fresh by (simp add: handle_def CreateGroupHandler_def lift_sum_def wp_bnd wp_thr)
  next
    case (Inr u)
    then have n: "Suc (length ms) \<le> 32"
      by (auto simp: CreateGroup_validate_def reject_if_def assms(3) split: option.splits if_splits)
    have ms: "1 \<le> length (foldl join_name [me] ms)" "length (foldl join_name [me] ms) \<le> 32"
      "set (foldl join_name [me] ms) = insert me (set ms)"
      using foldl_join_name [of "[me]" ms] n by (cases "foldl join_name [me] ms"; auto)+
    have gate: "wp (handle CreateGroupHandler p c) Q X s =
        wp (BaseAuth_authorize c) (\<lambda>_. wp (CreateGroup_execute p c) Q X) X s" for Q X
      by (simp add: handle_def CreateGroupHandler_def Inr lift_sum_def wp_bnd wp_retn)
    show ?thesis
      unfolding gate
    proof (rule wp_mono [OF authorize_wp], goal_cases)
      case (1 x t)
      then have t: "db t = db s" "me = cs_username (conns t c)" by (auto simp: untouched_conns assms(2))
      show ?case
        by (rule wp_mono [OF create_group_wp [OF _ t(2) assms(3), unfolded t(1), OF assms(1,4)]])
          (use ms err n fresh(1) in \<open>simp_all only: simp_thms, blast\<close>)
    next
      case (2 e t)
      then have "db t = db s" by (simp add: untouched_conns)
      then show ?case using fresh by simp
    qed
  qed
qed

section \<open>Nobody is forgotten\<close>

text \<open>Without faults, the steps of the creation keep users and groups, and never lose a frame or a notification.\<close>

definition calm :: "world \<Rightarrow> world \<Rightarrow> bool" where
  "calm s t \<longleftrightarrow> quiet t \<and> ext t = ext s \<and> clients t = clients s \<and> users (db t) = users (db s)
     \<and> group_ids (db s) \<subseteq> group_ids (db t) \<and> set (outbox s) \<subseteq> set (outbox t) \<and> set (pending (db s)) \<subseteq> set (pending (db t))"

lemma calm_refl: "quiet s \<Longrightarrow> calm s s"
  by (simp add: calm_def)

lemma calm_trans: "calm s t \<Longrightarrow> calm t u \<Longrightarrow> calm s u"
  by (auto simp: calm_def)

lemma calmD:
  assumes "calm s t"
  shows "quiet t" "ext t = ext s" "clients t = clients s" "usernames (db t) = usernames (db s)"
    "h \<in> group_ids (db s) \<Longrightarrow> h \<in> group_ids (db t)" "x \<in> set (outbox s) \<Longrightarrow> x \<in> set (outbox t)"
    "y \<in> set (pending (db s)) \<Longrightarrow> y \<in> set (pending (db t))"
  using assms by (auto simp: calm_def usernames_def)

lemma calm_for_each:
  assumes "\<And>x t. x \<in> set xs \<Longrightarrow> calm s t \<Longrightarrow> wp (f x) (\<lambda>_ u. calm t u \<and> P x u) (\<lambda>_ _. False) t"
    and "\<And>x t u. P x t \<Longrightarrow> calm t u \<Longrightarrow> P x u" "quiet s"
  shows "wp (for_each f xs) (\<lambda>_ t. calm s t \<and> (\<forall>x \<in> set xs. P x t)) (\<lambda>_ _. False) s"
proof -
  have "wp (for_each f xs) (\<lambda>_ u. calm s u \<and> calm t u \<and> (\<forall>x \<in> set xs. P x u)) (\<lambda>_ _. False) t" if "calm s t" for t
    using that assms(1)
  proof (induction xs arbitrary: t)
    case Nil
    then show ?case using calmD(1) [OF Nil(1)] by (simp add: wp_retn calm_refl)
  next
    case (Cons x xs)
    have IH: "wp (for_each f xs) (\<lambda>_ u. calm s u \<and> calm t u \<and> (\<forall>x \<in> set xs. P x u)) (\<lambda>_ _. False) t" if "calm s t" for t
      by (rule Cons.IH [OF that]) (simp add: Cons.prems)
    show ?case
      unfolding for_each.simps wp_bnd
    proof (rule wp_mono [OF Cons.prems(2) [OF _ Cons.prems(1)]], goal_cases)
      case (2 y u)
      then have "calm s u" using calm_trans [OF Cons.prems(1)] by blast
      from IH [OF this] show ?case
        by (rule wp_mono) (use 2 in \<open>auto intro: calm_trans assms(2)\<close>)
    qed simp_all
  qed
  from this [OF calm_refl [OF assms(3)]] show ?thesis by (rule wp_mono) auto
qed

lemma calm_repo:
  assumes "quiet s" "\<And>n. \<exists>x d. st (ext s) n (db s) = (Inr x, d) \<and> R x d"
    and "\<And>x d. R x d \<Longrightarrow> users d = users (db s) \<and> group_ids (db s) \<subseteq> group_ids d \<and> set (pending (db s)) \<subseteq> set (pending d)"
  shows "wp (repo ctx st) (\<lambda>x t. calm s t \<and> R x (db t)) (\<lambda>_ _. False) s"
proof -
  obtain x d where st: "st (ext s) (db_now (ext s) (Suc (clock s))) (db s) = (Inr x, d)" "R x d" using assms(2) by blast
  show ?thesis
    unfolding wp_repo_quiet [OF assms(1)] st(1)
    using assms(1,3) st(2) by (simp add: calm_def)
qed

lemma calm_check:
  assumes "quiet s" "set ms \<subseteq> usernames (db s)" "[] \<notin> usernames (db s)"
  shows "wp (check_members ms) (\<lambda>_. calm s) (\<lambda>_ _. False) s"
proof -
  have one: "wp (bnd (UserRepository_findByUsername m) (\<lambda>u. throw_if (u = None) (e m))) (\<lambda>_ u. calm t u \<and> True) (\<lambda>_ _. False) t"
    if "m \<in> set ms" "calm s t" for m t e
  proof -
    have "m \<in> usernames (db t)" "[] \<notin> usernames (db t)" using assms(2,3) that calmD(4) [OF that(2)] by auto
    then have "find (\<lambda>r. u_username r = m) (users (db t)) \<noteq> None" "m \<noteq> []"
      unfolding usernames_def find_None_iff by (blast, metis)
    then obtain r where m: "find (\<lambda>r. u_username r = m) (users (db t)) = Some r" "u_username r \<noteq> []"
      by (auto dest: find_SomeD)
    have "wp (UserRepository_findByUsername m) (\<lambda>r u. calm t u \<and> r \<noteq> None \<and> True) (\<lambda>_ _. False) t"
      unfolding UserRepository_findByUsername_def
      by (rule wp_mono [OF calm_repo [where R = "\<lambda>r d. d = db t \<and> r \<noteq> None"]])
        (use m calmD(1) [OF that(2)] in \<open>auto simp: user_select_name_def query_def fetch_one_def\<close>)
    then show ?thesis unfolding wp_bnd by (rule wp_mono) (simp_all add: wp)
  qed
  show ?thesis
    unfolding check_members_def
    by (rule wp_mono [OF calm_for_each [where P = "\<lambda>_ _. True"]]) (use one assms(1) in auto)
qed

lemma calm_createGroup:
  assumes "quiet s" "varchar_fits (ext s) 128 n" "varchar_fits (ext s) 64 u" "u \<in> usernames (db s)"
  shows "wp (GroupRepository_createGroup n u) (\<lambda>g t. calm s t \<and> g = seqs (db s) T_groups \<and> g \<in> group_ids (db t)) (\<lambda>_ _. False) s"
  unfolding GroupRepository_createGroup_def
  by (rule wp_mono [OF calm_repo [where R = "\<lambda>g d. g = seqs (db s) T_groups \<and> g \<in> group_ids d \<and> users d = users (db s)
        \<and> group_ids (db s) \<subseteq> group_ids d \<and> pending d = pending (db s)"]])
    (use assms in \<open>auto simp: group_insert_def insert_row_Inr group_ids_def usernames_def\<close>)

lemma calm_addMember:
  assumes "quiet s" "varchar_fits (ext s) 64 u" "varchar_fits (ext s) 16 r" "valid_role r" "g \<in> group_ids (db s)" "u \<in> usernames (db s)"
  shows "wp (GroupRepository_addMember g u r) (\<lambda>_. calm s) (\<lambda>_ _. False) s"
  unfolding GroupRepository_addMember_def
  by (rule wp_mono [OF calm_repo [where R = "\<lambda>x d. users d = users (db s) \<and> groups d = groups (db s) \<and> pending d = pending (db s)"]])
    (use assms in \<open>auto simp: member_upsert_def group_ids_def\<close>)

lemma calm_saveKey:
  assumes "quiet s" "varchar_fits (ext s) 64 u" "g \<in> group_ids (db s)" "u \<in> usernames (db s)"
  shows "wp (GroupRepository_saveKey g u k) (\<lambda>_. calm s) (\<lambda>_ _. False) s"
  unfolding GroupRepository_saveKey_def
  by (rule wp_mono [OF calm_repo [where R = "\<lambda>x d. users d = users (db s) \<and> groups d = groups (db s) \<and> pending d = pending (db s)"]])
    (use assms in \<open>auto simp: key_upsert_def key_insert_def group_ids_def\<close>)

lemma calm_send:
  "quiet s \<Longrightarrow> wp (send c p) (\<lambda>_ t. calm s t \<and> (c, Text (serialize p)) \<in> set (outbox t)) (\<lambda>_ _. False) s"
  by (rule wp_mono [OF send_quiet_wp]) (auto simp: sent_def calm_def quiet_def)

lemma calm_bnd:
  assumes "calm s t" "wp m (\<lambda>x u. calm t u \<and> R x u) (\<lambda>_ _. False) t"
    and "\<And>x u. calm s u \<Longrightarrow> R x u \<Longrightarrow> wp (k x) Q E u"
  shows "wp (bnd m k) Q E t"
  unfolding wp_bnd [of m] by (rule wp_mono [OF assms(2)]) (auto intro: assms(3) calm_trans [OF assms(1)])

text \<open>Told: the frame is sent to a user who is online, or kept for a user who is not.\<close>

definition told :: "string \<Rightarrow> Packet \<Rightarrow> PacketType \<Rightarrow> string \<Rightarrow> string \<Rightarrow> string \<Rightarrow> string \<Rightarrow> world \<Rightarrow> bool" where
  "told u p ty fu bd em pk t \<longleftrightarrow>
     (case find_client u (clients t) of
        Some x \<Rightarrow> (x, Text (serialize p)) \<in> set (outbox t)
      | None \<Rightarrow> \<exists>i n. \<lparr>pn_id = i, pn_recipient = u, pn_packet_type = type_code ty, pn_from_user = fu, pn_body = bd,
             pn_error_msg = em, pn_packet_key = pk, pn_created_at = n\<rparr> \<in> set (pending (db t)))"

lemma told_calm: "told u p ty fu bd em pk t \<Longrightarrow> calm t v \<Longrightarrow> told u p ty fu bd em pk v"
  unfolding told_def calm_def by (cases "find_client u (clients t)") (simp_all, blast+)

lemma calm_notify:
  assumes "quiet s" "varchar_fits (ext s) 64 u" "varchar_fits (ext s) 64 fu" "varchar_fits (ext s) 255 bd" "varchar_fits (ext s) 128 em"
  shows "wp (notify_or_queue u p ty fu bd em pk) (\<lambda>_ t. calm s t \<and> told u p ty fu bd em pk t) (\<lambda>_ _. False) s"
proof (cases "find_client u (clients s)")
  case None
  have "wp (PendingNotificationRepository_queue u ty fu bd em pk)
     (\<lambda>_ t. calm s t \<and> (\<exists>i n. \<lparr>pn_id = i, pn_recipient = u, pn_packet_type = type_code ty, pn_from_user = fu, pn_body = bd,
             pn_error_msg = em, pn_packet_key = pk, pn_created_at = n\<rparr> \<in> set (pending (db t)))) (\<lambda>_ _. False) s"
    unfolding PendingNotificationRepository_queue_def
    by (rule wp_mono [OF calm_repo [where R = "\<lambda>x d. users d = users (db s) \<and> groups d = groups (db s)
          \<and> set (pending (db s)) \<subseteq> set (pending d)
          \<and> (\<exists>i n. \<lparr>pn_id = i, pn_recipient = u, pn_packet_type = type_code ty, pn_from_user = fu, pn_body = bd,
             pn_error_msg = em, pn_packet_key = pk, pn_created_at = n\<rparr> \<in> set (pending d))"]])
      (use assms in \<open>auto simp: pending_insert_def insert_row_Inr void_st_Inr group_ids_def\<close>)
  then show ?thesis
    by (simp add: notify_or_queue_def notify_def findClient_wp wp_bnd wp_retn wp_when None)
      (erule wp_mono; auto simp: told_def calm_def None)
next
  case (Some x)
  show ?thesis
    unfolding notify_or_queue_def notify_def wp_bnd findClient_wp Some option.case wp_catch_if
    by (rule wp_mono [OF calm_send [OF assms(1)]]) (auto simp: wp_retn wp_when told_def calm_def Some)
qed


text \<open>The invitation of a listed user, as \<open>CreateGroupHandler\<close> builds it.\<close>

definition key_for :: "Packet \<Rightarrow> string \<Rightarrow> string" where
  "key_for p m = (case map_of (rev (parseKeyPairs (pkey p))) m of None \<Rightarrow> [] | Some k \<Rightarrow> k)"

definition invited :: "string \<Rightarrow> Packet \<Rightarrow> int \<Rightarrow> string \<Rightarrow> world \<Rightarrow> bool" where
  "invited me p g m = told m (invite_packet me m (perrorMsg p) (int_str g) (key_for p m))
     GROUP_INVITE me (int_str g) (perrorMsg p) (key_for p m)"

lemma create_group_calm_wp:
  assumes "quiet s" "me = cs_username (conns s c)" "ms = parseMembers (pbody p)" "g = seqs (db s) T_groups"
    and "insert me (set ms) \<union> fst ` set (parseKeyPairs (pkey p)) \<subseteq> usernames (db s)" "[] \<notin> usernames (db s)"
    and "\<forall>u \<in> usernames (db s). varchar_fits (ext s) 64 u" "varchar_fits (ext s) 128 (perrorMsg p)"
    and "varchar_fits (ext s) 16 ''creator''" "varchar_fits (ext s) 16 ''member''" "varchar_fits (ext s) 255 (int_str g)"
  shows "wp (CreateGroup_execute p c) (\<lambda>_ t. \<forall>m \<in> set ms. invited me p g m t) (\<lambda>_ _. False) s"
proof -
  have name: "u \<in> usernames (db t) \<and> varchar_fits (ext t) 64 u" if "u \<in> usernames (db s)" "calm s t" for u t
    using assms(7) that calmD [OF that(2)] by auto
  have fits: "varchar_fits (ext t) 128 (perrorMsg p)" "varchar_fits (ext t) 16 ''creator''" "varchar_fits (ext t) 16 ''member''"
    "varchar_fits (ext t) 255 (int_str g)" if "calm s t" for t
    using assms(8-11) calmD(2) [OF that] by auto
  have users: "me \<in> usernames (db s)" "\<And>m. m \<in> set ms \<Longrightarrow> m \<in> usernames (db s)"
    "\<And>a b. (a, b) \<in> set (parseKeyPairs (pkey p)) \<Longrightarrow> a \<in> usernames (db s)"
    using assms(5) by force+
  note [simp] = name fits users calmD(1)
  show ?thesis
    unfolding CreateGroup_execute_def Let_def assms(3) [symmetric] wp_bnd [of "getUsername _"] getUsername_wp assms(2) [symmetric]
  proof (rule calm_bnd [OF calm_refl [OF assms(1)], where R = "\<lambda>_ u. db u = db s"], goal_cases)
    case 1
    show ?case
      by (rule wp_mono [OF wp_conj [OF calm_check [OF assms(1) _ assms(6)] keeps_wpD [OF check_members_view [where f = "\<lambda>d. d"]]]])
        (use users in auto)
  next
    case (2 x t)
    show ?case
    proof (rule calm_bnd [OF 2(1), where R = "\<lambda>h u. h = g \<and> g \<in> group_ids (db u)"], goal_cases)
      case 1
      show ?case by (rule wp_mono [OF calm_createGroup]) (use 2 assms(4) in auto)
    next
      case (2 h u)
      then have h: "h = g" and g: "g \<in> group_ids (db u)" by simp_all
      show ?case
        unfolding h
      proof (rule calm_bnd [OF 2(1), where R = "\<lambda>_ u. g \<in> group_ids (db u)"], goal_cases)
        case 1
        show ?case by (rule wp_mono [OF calm_addMember]) (use 2(1) g in \<open>auto simp: valid_role_def dest: calmD(5)\<close>)
      next
        case (2 y v)
        show ?case
        proof (rule calm_bnd [OF 2(1), where R = "\<lambda>_ u. g \<in> group_ids (db u)"], goal_cases)
          case 1
          show ?case
            by (rule wp_mono [OF calm_for_each [where P = "\<lambda>_ _. True"]])
              (use 2 in \<open>auto simp: valid_role_def dest: calmD(5) calm_trans intro!: calm_addMember\<close>)
        next
          case (2 z w)
          show ?case
          proof (rule calm_bnd [OF 2(1), where R = "\<lambda>_ _. True"], goal_cases)
            case 1
            show ?case
              by (rule wp_mono [OF calm_for_each [where P = "\<lambda>_ _. True"]])
                (use 2 in \<open>auto dest: calmD(5) calm_trans intro!: calm_saveKey\<close>)
          next
            case (2 z' w')
            show ?case
            proof (rule calm_bnd [OF 2(1), where R = "\<lambda>_ u. \<forall>m \<in> set ms. invited me p g m u"], goal_cases)
              case 1
              show ?case
                by (rule calm_for_each)
                  (use 2 in \<open>auto simp: invited_def key_for_def dest: calm_trans intro!: calm_notify intro: told_calm\<close>)
            next
              case (2 z'' w'')
              show ?case
                by (rule wp_mono [OF calm_send [OF calmD(1) [OF 2(1)]]])
                  (use 2 in \<open>auto simp: invited_def intro: told_calm\<close>)
            qed
          qed
        qed
      qed
    qed
  qed
qed


text \<open>
  C24. Nobody is forgotten: when the creator and the users listed and named in the key map are
  registered and no fault occurs, CREATE_GROUP succeeds, and every user listed is either sent an
  invitation with the new group id, its name and the key meant for this user, or, if offline, the same
  invitation is kept as a pending notification.
\<close>

theorem create_group_invites:
  assumes "quiet s" "authorised s c" "CreateGroup_validate p = Inr ()" "me = cs_username (conns s c)"
    and "ms = parseMembers (pbody p)" "g = seqs (db s) T_groups"
    and "insert me (set ms) \<union> fst ` set (parseKeyPairs (pkey p)) \<subseteq> usernames (db s)" "[] \<notin> usernames (db s)"
    and "\<forall>u \<in> usernames (db s). varchar_fits (ext s) 64 u" "varchar_fits (ext s) 128 (perrorMsg p)"
    and "varchar_fits (ext s) 16 ''creator''" "varchar_fits (ext s) 16 ''member''" "varchar_fits (ext s) 255 (int_str g)"
  shows "wp (handle CreateGroupHandler p c) (\<lambda>_ t. \<forall>m \<in> set ms. invited me p g m t) (\<lambda>_ _. False) s"
proof -
  have gate: "wp (handle CreateGroupHandler p c) Q X s =
      wp (BaseAuth_authorize c) (\<lambda>_. wp (CreateGroup_execute p c) Q X) X s" for Q X
    by (simp add: handle_def CreateGroupHandler_def assms(3) lift_sum_def wp_bnd wp_retn)
  show ?thesis
    unfolding gate
  proof (rule wp_mono [OF authorize_accepts [OF assms(1,2)]], goal_cases)
    case (1 x t)
    then have t: "quiet t" "ext t = ext s" "db t = db s" "conns t = conns s"
      using assms(1) by (auto simp: untouched_def only_db_def quiet_def)
    show ?case
      by (rule create_group_calm_wp [OF t(1)]) (use assms in \<open>simp_all add: t\<close>)
  qed simp
qed

text \<open>Alice, who is logged in, lists bob, who is connected on 2, and carol, who is offline.\<close>

definition example_creation :: Packet where
  "example_creation = (new_packet CREATE_GROUP)\<lparr>pfrom := ''alice'', pbody := ''bob,carol'', perrorMsg := ''crew'', pkey := ''bob:kb;carol:kc''\<rparr>"

definition example_creating :: world where
  "example_creating = (acting ''alice'')
     \<lparr>conns := (\<lambda>_. fresh_session\<lparr>cs_state := Authenticated, cs_username := ''alice'', cs_sessionToken := ''ta''\<rparr>)\<rparr>"

lemma example_creation_parts:
  "parseMembers (pbody example_creation) = [''bob'', ''carol'']"
  "parseKeyPairs (pkey example_creation) = [(''bob'', ''kb''), (''carol'', ''kc'')]"
  using getline_loop_field [of "CHR '',''" "''bob''" "''carol''"] getline_loop_field [of "CHR '';''" "''bob:kb''" "''carol:kc''"]
    split_at_append [of "CHR '':''" "''bob''" "''kb''"] split_at_append [of "CHR '':''" "''carol''" "''kc''"]
  by (simp_all add: example_creation_def parseMembers_def parseKeyPairs_def parse_entry_def)

lemma example_creating_facts:
  "quiet example_creating" "db example_creating = example_db" "ext example_creating = example_ext"
  "cs_username (conns example_creating c) = ''alice''" "clients example_creating = [''bob'' \<mapsto> [2]]"
  "seqs example_db T_groups = 10" "usernames example_db = {''alice'', ''bob'', ''carol''}"
  "varchar_fits example_ext n v = (length v \<le> n)" "authorised example_creating c"
  using acting_simps(2-5) [of "''alice''"]
  by (simp_all add: example_creating_def authorised_def quiet_def)
    (auto simp: example_db_def usernames_def example_user_def example_ext_def acting_def example_state_def example_world_def
      session_live_def)

text \<open>Witness of C23: the new group has these three members, and alice is its creator.\<close>

lemma create_group_bounds_witness:
  "wp (handle CreateGroupHandler example_creation 1)
     (\<lambda>_ t. set (member_names 10 (db t)) = {''alice'', ''bob'', ''carol''} \<and> role_of 10 ''alice'' (db t) = ''creator'')
     (\<lambda>_ t. length (member_names 10 (db t)) \<le> 32) example_creating"
  by (rule wp_mono [OF create_group_bounds [OF _ refl refl refl, of example_creating]])
    (auto simp: example_creating_facts example_creation_parts example_db_ok)

text \<open>Witness of C24: bob and carol are invited.\<close>

lemma create_group_invites_witness:
  "wp (handle CreateGroupHandler example_creation 1)
     (\<lambda>_ t. invited ''alice'' example_creation 10 ''bob'' t \<and> invited ''alice'' example_creation 10 ''carol'' t)
     (\<lambda>_ _. False) example_creating"
proof -
  have len: "length (int_str 10) \<le> 255" by (simp add: int_str_def nat_str.simps)
  have "CreateGroup_validate example_creation = Inr ()"
    by (simp add: CreateGroup_validate_def reject_if_def example_creation_parts) (simp add: example_creation_def)
  from create_group_invites [OF _ _ this refl refl refl, of example_creating 1] show ?thesis
    by (rule wp_mono) (auto simp: example_creating_facts example_creation_parts len, auto simp: example_creation_def)
qed

end
