(* ===== verification/ClientMessages.thy ===== *)
theory ClientMessages
  imports ClientSystem
begin

text \<open>
  The message paths of the client from end to end: a direct message from the call of the user
  interface to its frame (sendMessage), from its frame to the screen (onTextMessageReceived), and the receipts of a group
  message up to the aggregate status.

  The cache operations are first restated as single updates of an open account file, and the
  handlers as equations over them; the properties rest on those equations.
\<close>

section \<open>The cache in single steps\<close>

definition stored_message :: "string \<Rightarrow> string \<Rightarrow> string \<Rightarrow> string \<Rightarrow> bool \<Rightarrow> account \<Rightarrow> account" where
  "stored_message q u c t b a =
     a\<lparr>ac_messages := insert_or_ignore msg_key
         \<lparr>lm_peer = q, lm_sender = u, lm_content = c, lm_timestamp = t, lm_is_outgoing = b, lm_status = ''sent''\<rparr> (ac_messages a),
       ac_conversations := upsert lc_peer (\<lambda>r. r\<lparr>lc_last_message := c, lc_last_timestamp := t\<rparr>)
         \<lparr>lc_peer = q, lc_last_message = c, lc_last_timestamp = t, lc_unread_count = 0\<rparr> (ac_conversations a)\<rparr>"

definition has_message :: "account \<Rightarrow> string \<Rightarrow> string \<Rightarrow> string \<Rightarrow> bool" where
  "has_message a q u t \<longleftrightarrow> (q, u, t) \<in> set (map msg_key (ac_messages a))"

lemma isDuplicate_up:
  "ls_up s f a \<Longrightarrow> wp (isDuplicate q u t) Q E s = Q (has_message a q u t) (s\<lparr>calls := Suc (calls s)\<rparr>)"
  unfolding isDuplicate_def has_message_def by (rule ls_read_up)

lemma persistMessage_up:
  assumes "ls_up s f a"
  shows "wp (persistMessage q u c t b) Q E s =
     Q () (s\<lparr>calls := Suc (Suc (calls s)), files := (files s)(f \<mapsto> stored_message q u c t b a)\<rparr>)"
proof -
  have schema: "set (ac_schema a) = UNIV" using assms by (simp add: ls_up_def)
  let ?b = "a\<lparr>ac_messages := insert_or_ignore msg_key
         \<lparr>lm_peer = q, lm_sender = u, lm_content = c, lm_timestamp = t, lm_is_outgoing = b, lm_status = ''sent''\<rparr> (ac_messages a)\<rparr>"
  let ?u = "s\<lparr>calls := Suc (calls s), files := (files s)(f \<mapsto> ?b)\<rparr>"
  have u: "ls_up ?u f ?b" by (rule ls_up_write [OF assms]) simp
  have "wp (saveMessage q u c t b ''sent'') R E s = R () ?u" for R
    unfolding saveMessage_def ls_write_up [OF assms] by (simp add: Let_def schema)
  then show ?thesis
    unfolding persistMessage_def wp_bnd by (simp add: saveConversation_def ls_write_up [OF u] stored_message_def)
qed

lemma has_message_stored [simp]: "has_message (stored_message q u c t b a) q u t"
  by (auto simp: has_message_def stored_message_def insert_or_ignore_def msg_key_def)

lemma ls_up_stored:
  "ls_up s f a \<Longrightarrow> ls_up (s\<lparr>calls := n, files := (files s)(f \<mapsto> stored_message q u c t b a)\<rparr>) f (stored_message q u c t b a)"
  by (rule ls_up_write) (simp_all add: stored_message_def)

lemma open_message_cl: "keeps called (unwrap_key k)" "keeps called (open_message k p)"
  unfolding open_message_def unwrap_key_def getNM_def by (intro cl.rules engine_cl)+

section \<open>Messages are handled once\<close>

text \<open>Nothing is left to do for the packet: its message is stored, or it is one the client drops.\<close>

definition settled :: "Packet \<Rightarrow> string \<Rightarrow> client \<Rightarrow> account \<Rightarrow> bool" where
  "settled p ts s a \<longleftrightarrow>
     (if perrorMsg p = ''1'' then pto p = currentUsername (nm s) \<or> has_message a (pto p) (currentUsername (nm s)) ts
      else ownPrivKey (nm s) = [] \<or> pfrom p = currentUsername (nm s) \<or> has_message a (pfrom p) (pfrom p) ts)"

lemma called_Suc: "called s t \<Longrightarrow> called s (t\<lparr>calls := Suc (calls t)\<rparr>)"
  by (erule cl.R_trans) simp

lemma settled_noop:
  assumes "ls_up s f a" "ptimestamp p \<noteq> []" "settled p (canonical (lib s) (ptimestamp p)) s a"
  shows "wp (handleIncomingMessage p) (\<lambda>_. called s) (\<lambda>_ _. False) s"
proof -
  let ?ts = "canonical (lib s) (ptimestamp p)" and ?me = "currentUsername (nm s)"
  have received: "wp (handle_received p ?me ?ts) (\<lambda>_. called s) (\<lambda>_ _. False) s"
    if "pfrom p = ?me \<or> has_message a (pfrom p) (pfrom p) ?ts"
  proof -
    have 1: "wp (isDuplicate (pfrom p) (pfrom p) ?ts) (\<lambda>d. wp (if d then retn () else k d) (\<lambda>_. called s) E) E t"
      if "called s t" "has_message a (pfrom p) (pfrom p) ?ts" for k t E
      using that assms(1) by (subst isDuplicate_up [of t f a]) (auto simp: ls_up_called wp_retn intro: called_Suc)
    show ?thesis
      unfolding handle_received_def catch_all_def wp_catch_if wp_bnd
      by (rule wp_mono [OF keeps_wpD [OF open_message_cl(2)]])
        (use that in \<open>auto simp: wp_if wp_retn wp_bnd intro: 1\<close>)
  qed
  have echo: "wp (handle_echo p ?me ?ts) (\<lambda>_. called s) (\<lambda>_ _. False) s"
    if "pto p = ?me \<or> has_message a (pto p) ?me ?ts"
    using that by (auto simp: handle_echo_def wp isDuplicate_up [OF assms(1)] cl.R_refl)
  show ?thesis
    using assms(2,3) received echo
    by (auto simp: handleIncomingMessage_def packet_time_def canonicalC_def wp settled_def cl.R_refl split: if_splits)
qed

lemma settles:
  assumes "ls_up s f a" "ptimestamp p \<noteq> []"
  defines "ts \<equiv> canonical (lib s) (ptimestamp p)"
  shows "wp (handleIncomingMessage p) (\<lambda>_ t. lib t = lib s \<and> (\<exists>b. ls_up t f b \<and> settled p ts t b)) (\<lambda>_ _. False) s"
    (is "wp _ ?Q _ s")
proof -
  let ?me = "currentUsername (nm s)"
  have echoed: "wp (store_echo (pto p) ?me c ts) ?Q (\<lambda>_ _. False) t" if t: "called s t" "perrorMsg p = ''1''" for t c
  proof -
    have u: "ls_up t f a" using assms(1) t by (simp add: ls_up_called)
    show ?thesis
      using t ls_up_stored [OF u, where n = "Suc (Suc (calls t))" and q = "pto p" and u = ?me and c = c and t = ts and b = True]
      by (auto simp: store_echo_def wp_bnd persistMessage_up [OF u] wp_client settled_def called_simps)
  qed
  have stored: "wp (bnd (persistMessage (pfrom p) (pfrom p) c ts False) (\<lambda>_. k)) ?Q E t"
    if t: "called s t" "perrorMsg p \<noteq> ''1''"
      and k: "\<And>u. wp k (\<lambda>_ v. lib v = lib u \<and> db_open v = db_open u \<and> files v = files u) (\<lambda>_ _. False) u" for t c k E
  proof -
    have u: "ls_up t f a" using assms(1) t by (simp add: ls_up_called)
    let ?b = "stored_message (pfrom p) (pfrom p) c ts False a"
    let ?v = "t\<lparr>calls := Suc (Suc (calls t)), files := (files t)(f \<mapsto> ?b)\<rparr>"
    have v: "ls_up ?v f ?b" by (rule ls_up_stored [OF u])
    have fin: "?Q () w" if "lib w = lib ?v \<and> db_open w = db_open ?v \<and> files w = files ?v" for w
    proof -
      have "ls_up w f ?b" using v that by (simp add: ls_up_def)
      moreover have "settled p ts w ?b" using t(2) by (simp add: settled_def)
      ultimately show ?thesis using that t(1) by (auto simp: called_simps)
    qed
    show ?thesis unfolding wp_bnd persistMessage_up [OF u] by (rule wp_mono [OF k], erule fin, simp)
  qed
  have received: "wp (handle_received p ?me ts) ?Q (\<lambda>_ _. False) s" if "perrorMsg p \<noteq> ''1''"
  proof -
    have skip: "?Q () t" if "called s t" "pfrom p = ?me \<or> has_message a (pfrom p) (pfrom p) ts" for t
      using that \<open>perrorMsg p \<noteq> _\<close> assms(1) by (auto simp: settled_def called_simps ls_up_called)
    have dup: "wp (isDuplicate (pfrom p) (pfrom p) ts)
        (\<lambda>d. wp (if d then retn () else bnd (persistMessage (pfrom p) (pfrom p) c ts False) (\<lambda>_. k)) ?Q E) E t"
      if "called s t" "\<And>u. wp k (\<lambda>_ v. lib v = lib u \<and> db_open v = db_open u \<and> files v = files u) (\<lambda>_ _. False) u" for t c k E
    proof -
      have u: "ls_up t f a" using assms(1) that by (simp add: ls_up_called)
      have c: "called s (t\<lparr>calls := Suc (calls t)\<rparr>)" using that(1) by (rule called_Suc)
      show ?thesis
      proof (cases "has_message a (pfrom p) (pfrom p) ts")
        case True
        from skip [OF c] True show ?thesis unfolding isDuplicate_up [OF u] by (simp add: wp_retn)
      next
        case False
        from stored [OF c \<open>perrorMsg p \<noteq> _\<close> that(2)] False show ?thesis unfolding isDuplicate_up [OF u] by simp
      qed
    qed
    show ?thesis
      unfolding handle_received_def catch_all_def wp_catch_if wp_bnd [of "open_message _ _"]
      by (rule wp_mono [OF keeps_wpD [OF open_message_cl(2)]])
        (auto simp: wp_if wp_retn wp_bnd [of "isDuplicate _ _ _"] wp_bnd [of "updNM _"] wp_client intro!: dup skip)
  qed
  have echo: "wp (handle_echo p ?me ts) ?Q (\<lambda>_ _. False) s" if "perrorMsg p = ''1''"
  proof -
    have tried: "wp (catch_all (bnd (open_message k p) (\<lambda>plaintext. store_echo (pto p) ?me plaintext ts))
        (\<lambda>_. store_echo (pto p) ?me ''[Sent]'' ts)) ?Q (\<lambda>_ _. False) t" if "called s t" for k t
      unfolding catch_all_def wp_catch_if wp_bnd
      by (rule wp_mono [OF keeps_wpD [OF open_message_cl(2)]])
        (auto intro: echoed wp_mono [OF echoed] cl.R_trans [OF that] \<open>perrorMsg p = _\<close>)
    have d: "\<exists>b. ls_up s f b \<and> settled p ts s b" if "pto p = ?me"
      using that assms(1) \<open>perrorMsg p = _\<close> by (auto simp: settled_def)
    have d': "\<exists>b. ls_up s f b \<and> settled p ts (s\<lparr>calls := Suc (calls s)\<rparr>) b" if "has_message a (pto p) ?me ts"
      using that assms(1) \<open>perrorMsg p = _\<close> by (auto simp: settled_def)
    show ?thesis
      by (auto simp: handle_echo_def wp_if wp_retn wp_bnd wp_getNM isDuplicate_up [OF assms(1)] \<open>perrorMsg p = _\<close> d d'
          intro!: echoed tried)
  qed
  have dropped: "\<exists>b. ls_up s f b \<and> settled p ts s b" if "perrorMsg p \<noteq> ''1''" "ownPrivKey (nm s) = []"
    using that assms(1) by (auto simp: settled_def)
  have eq: "wp (handleIncomingMessage p) Q E s =
      wp (if perrorMsg p = ''1'' then handle_echo p ?me ts
          else if ownPrivKey (nm s) = [] then retn () else handle_received p ?me ts) Q E s" for Q E
    using assms(2) by (simp add: handleIncomingMessage_def packet_time_def canonicalC_def wp_bnd wp_gets wp_getNM ts_def)
  show ?thesis
  proof (cases "perrorMsg p = ''1''")
    case True
    with echo show ?thesis unfolding eq by simp
  next
    case received': False
    show ?thesis
    proof (cases "ownPrivKey (nm s) = []")
      case True
      show ?thesis
        unfolding eq if_not_P [OF received'] if_P [OF True] wp_retn
        by (rule conjI, rule refl, rule dropped [OF received' True])
    next
      case False
      with received' received show ?thesis unfolding eq by simp
    qed
  qed
qed

text \<open>
  C25. Receiving a message twice has no effect the second time, whatever the decryption does each
  time: no row is stored again, no signal is emitted, no unread timestamp is added; only the
  number of library calls advances.
\<close>

theorem incoming_message_once:
  assumes "ls_up s f a" "ptimestamp p \<noteq> []"
  shows "wp (handleIncomingMessage p)
     (\<lambda>_ t. wp (handleIncomingMessage p)
        (\<lambda>_ u. files u = files t \<and> signals u = signals t \<and> nm u = nm t \<and> sock u = sock t) (\<lambda>_ _. False) t)
     (\<lambda>_ _. False) s"
proof (rule wp_mono [OF settles [OF assms]])
  fix t
  assume "lib t = lib s \<and> (\<exists>b. ls_up t f b \<and> settled p (canonical (lib s) (ptimestamp p)) t b)"
  then obtain b where b: "ls_up t f b" "settled p (canonical (lib t) (ptimestamp p)) t b" by auto
  show "wp (handleIncomingMessage p)
      (\<lambda>_ u. files u = files t \<and> signals u = signals t \<and> nm u = nm t \<and> sock u = sock t) (\<lambda>_ _. False) t"
    by (rule wp_mono [OF settled_noop [OF b(1) assms(2) b(2)]]) (auto simp: called_simps)
qed

text \<open>Witness of C25: bob's client receives a message it cannot decrypt.\<close>

definition example_bob :: client where
  "example_bob = example_client
     \<lparr>db_open := Some ''f'', files := [''f'' \<mapsto> empty_account\<lparr>ac_schema := full_schema\<rparr>],
      nm := (nm example_client)\<lparr>currentUsername := ''bob'', ownPrivKey := int_str 2, ownPubKey := int_str 2\<rparr>\<rparr>"

lemma example_bob_up: "ls_up example_bob ''f'' (empty_account\<lparr>ac_schema := full_schema\<rparr>)"
  by (simp add: ls_up_def example_bob_def example_client_def example_library_def full_schema_UNIV)

lemma incoming_message_once_witness:
  "wp (handleIncomingMessage ((new_packet MESSAGE)\<lparr>pfrom := ''alice'', ptimestamp := ''t''\<rparr>))
     (\<lambda>_ t. wp (handleIncomingMessage ((new_packet MESSAGE)\<lparr>pfrom := ''alice'', ptimestamp := ''t''\<rparr>))
        (\<lambda>_ u. files u = files t \<and> signals u = signals t \<and> nm u = nm t \<and> sock u = sock t) (\<lambda>_ _. False) t)
     (\<lambda>_ _. False) example_bob"
  by (rule incoming_message_once [OF example_bob_up]) simp

section \<open>Receipts of group messages\<close>

text \<open>The status the snapshot of the recipients calls for.\<close>

definition aggregate_status :: "recipient_entry list \<Rightarrow> string option" where
  "aggregate_status rs =
     (if rs = [] then None
      else if list_all lr_seen rs then Some ''seen''
      else if list_all lr_delivered rs then Some ''delivered'' else None)"

definition with_status :: "string \<Rightarrow> string \<Rightarrow> string \<Rightarrow> account \<Rightarrow> account" where
  "with_status g ts st a = a\<lparr>ac_group_messages :=
     update_where (\<lambda>r. lx_group_id r = g \<and> lx_timestamp r = ts) (\<lambda>r. r\<lparr>lx_status := st\<rparr>) (ac_group_messages a)\<rparr>"

definition aggregate_signal :: "string \<Rightarrow> string \<Rightarrow> string \<Rightarrow> signal" where
  "aggregate_signal g ts st = (if st = ''seen'' then messageSeen g ts else groupMessageDelivered g ts)"

text \<open>The effect of \<open>recomputeGroupAggregate\<close> on the account and on the signals.\<close>

definition aggregated :: "string \<Rightarrow> string \<Rightarrow> account \<Rightarrow> signal list \<Rightarrow> string \<Rightarrow> client \<Rightarrow> bool" where
  "aggregated g ts a sg f t \<longleftrightarrow>
     (case aggregate_status (recipients_of g ts a) of
        None \<Rightarrow> ls_up t f a \<and> signals t = sg
      | Some st \<Rightarrow> ls_up t f (with_status g ts st a) \<and> signals t = sg @ [aggregate_signal g ts st])"

lemma recipientCount_up:
  "ls_up s f a \<Longrightarrow> wp (recipientCount g ts) Q E s = Q (length (recipients_of g ts a)) (s\<lparr>calls := Suc (calls s)\<rparr>)"
  unfolding recipientCount_def by (rule ls_read_up)

lemma all_recipients_up:
  assumes "ls_up s f a"
  shows "wp (all_recipients flag g ts) Q E s =
     (if list_all flag (recipients_of g ts a)
      then Q (recipients_of g ts a \<noteq> []) (s\<lparr>calls := Suc (Suc (calls s))\<rparr>)
      else Q False (s\<lparr>calls := Suc (calls s)\<rparr>))"
proof -
  have n: "filter (\<lambda>r. \<not> flag r) rs = [] \<longleftrightarrow> list_all flag rs" for rs
    by (auto simp: filter_empty_conv list_all_iff)
  have u: "ls_up (s\<lparr>calls := Suc (calls s)\<rparr>) f a" using assms by simp
  show ?thesis
    unfolding all_recipients_def wp_bnd ls_read_up [OF assms]
    by (simp add: n wp_if wp_bnd recipientCount_up [OF u] wp_retn)
qed

lemma recompute_wp:
  assumes "ls_up s f a"
  shows "wp (recomputeGroupAggregate g ts) (\<lambda>_. aggregated g ts a (signals s) f) (\<lambda>_ _. False) s"
proof -
  have upd: "wp (bnd (updateGroupMessageStatus g ts st) (\<lambda>_. emit x)) Q E (s\<lparr>calls := n\<rparr>) =
      Q () (s\<lparr>calls := Suc n, files := (files s)(f \<mapsto> with_status g ts st a), signals := signals s @ [x]\<rparr>)"
    for st x Q E n
  proof -
    have u: "ls_up (s\<lparr>calls := n\<rparr>) f a" using assms by simp
    show ?thesis unfolding updateGroupMessageStatus_def wp_bnd ls_write_up [OF u] by (simp add: wp_client with_status_def)
  qed
  have up: "ls_up (s\<lparr>calls := n, files := (files s)(f \<mapsto> with_status g ts st a), signals := sg\<rparr>) f (with_status g ts st a)"
    for n st sg
    using ls_up_write [OF assms, of "with_status g ts st a" n] by (simp add: with_status_def)
  have u1: "ls_up (s\<lparr>calls := n\<rparr>) f a" for n using assms by simp
  show ?thesis
    unfolding recomputeGroupAggregate_def wp_bnd [of "recipientCount _ _"] recipientCount_up [OF assms]
    using assms up
    by (auto simp: wp_if wp_retn wp_bnd [of "all_recipients _ _ _"]
        allRecipientsSeen_def allRecipientsDelivered_def all_recipients_up [OF u1] upd wp_when
        aggregated_def aggregate_status_def aggregate_signal_def)
qed

text \<open>The account after one recipient's receipt.\<close>

definition with_receipt :: "(recipient_entry \<Rightarrow> recipient_entry) \<Rightarrow> string \<Rightarrow> string \<Rightarrow> string \<Rightarrow> account \<Rightarrow> account" where
  "with_receipt mark g ts m a =
     a\<lparr>ac_recipients := update_where (\<lambda>r. recipient_key r = (g, ts, m)) mark (ac_recipients a)\<rparr>"

lemma receipt_wp:
  assumes "ls_up s f a"
  shows "wp (bnd (ls_write [Tab_recipients] (\<lambda>a. a\<lparr>ac_recipients :=
       update_where (\<lambda>r. recipient_key r = (g, ts, m)) mark (ac_recipients a)\<rparr>)) (\<lambda>_.
     bnd (emit (groupReceiptUpdated g ts)) (\<lambda>_. recomputeGroupAggregate g ts)))
      (\<lambda>_. aggregated g ts (with_receipt mark g ts m a) (signals s @ [groupReceiptUpdated g ts]) f) (\<lambda>_ _. False) s"
proof -
  let ?b = "with_receipt mark g ts m a"
  let ?t = "s\<lparr>calls := Suc (calls s), files := (files s)(f \<mapsto> ?b), signals := signals s @ [groupReceiptUpdated g ts]\<rparr>"
  have "ls_up ?t f ?b" using ls_up_write [OF assms, of ?b "Suc (calls s)"] by (simp add: with_receipt_def)
  from recompute_wp [OF this, of g ts] show ?thesis
    unfolding wp_bnd ls_write_up [OF assms] by (simp add: wp_client with_receipt_def)
qed

lemma handleGroupDelivered_wp:
  assumes "ls_up s f a" "ts = canonical (lib s) (pbody p)"
  shows "wp (handleGroupDelivered p)
      (\<lambda>_. aggregated (pto p) ts (with_receipt (\<lambda>r. r\<lparr>lr_delivered := True\<rparr>) (pto p) ts (pfrom p) a)
             (signals s @ [groupReceiptUpdated (pto p) ts]) f) (\<lambda>_ _. False) s"
  using receipt_wp [OF assms(1)]
  by (simp add: handleGroupDelivered_def canonicalC_def markRecipientDelivered_def wp_bnd [of "gets _"] wp_gets assms(2))

text \<open>
  C26. A group message is reported as seen or delivered exactly when all of its recipients are.  A
  read receipt marks its sender in the snapshot of the message, a delivery receipt likewise;
  then the message gets the status \<open>seen\<close> if every recipient of the snapshot has seen it,
  \<open>delivered\<close> if not all have seen it but all have got it, and keeps its status otherwise
  (also when there is no snapshot); the signals say the same.
\<close>

theorem group_receipt_aggregate:
  assumes "ls_up s f a" "numeric_text (pto p)"
  defines "ts \<equiv> canonical (lib s) (pbody p)"
  shows "wp (handleReadReceipt p)
      (\<lambda>_. aggregated (pto p) ts (with_receipt (\<lambda>r. r\<lparr>lr_delivered := True, lr_seen := True\<rparr>) (pto p) ts (pfrom p) a)
             (signals s @ [groupReceiptUpdated (pto p) ts]) f) (\<lambda>_ _. False) s
    \<and> wp (handleGroupDelivered p)
      (\<lambda>_. aggregated (pto p) ts (with_receipt (\<lambda>r. r\<lparr>lr_delivered := True\<rparr>) (pto p) ts (pfrom p) a)
             (signals s @ [groupReceiptUpdated (pto p) ts]) f) (\<lambda>_ _. False) s"
proof
  show "wp (handleReadReceipt p)
      (\<lambda>_. aggregated (pto p) ts (with_receipt (\<lambda>r. r\<lparr>lr_delivered := True, lr_seen := True\<rparr>) (pto p) ts (pfrom p) a)
             (signals s @ [groupReceiptUpdated (pto p) ts]) f) (\<lambda>_ _. False) s"
    using receipt_wp [OF assms(1)] assms(2)
    by (simp add: handleReadReceipt_def canonicalC_def markRecipientSeen_def wp_bnd [of "gets _"] wp_gets ts_def)
  show "wp (handleGroupDelivered p)
      (\<lambda>_. aggregated (pto p) ts (with_receipt (\<lambda>r. r\<lparr>lr_delivered := True\<rparr>) (pto p) ts (pfrom p) a)
             (signals s @ [groupReceiptUpdated (pto p) ts]) f) (\<lambda>_ _. False) s"
    by (rule handleGroupDelivered_wp) (simp_all add: assms(1) ts_def)
qed

text \<open>Witness of C26: the only recipient of a message in group 7 reads it.\<close>

definition example_recipient :: recipient_entry where
  "example_recipient = \<lparr>lr_group_id = ''7'', lr_timestamp = ''t'', lr_member = ''carol'', lr_delivered = True, lr_seen = False\<rparr>"

definition example_sender :: client where
  "example_sender = example_bob\<lparr>files := [''f'' \<mapsto> empty_account\<lparr>ac_schema := full_schema, ac_recipients := [example_recipient]\<rparr>]\<rparr>"

lemma example_sender_up:
  "ls_up example_sender ''f'' (empty_account\<lparr>ac_schema := full_schema, ac_recipients := [example_recipient]\<rparr>)"
  using example_bob_up by (simp add: ls_up_def example_sender_def)

lemma group_receipt_aggregate_witness:
  "wp (handleReadReceipt ((new_packet READ_RECEIPT)\<lparr>pfrom := ''carol'', pto := ''7'', pbody := ''t''\<rparr>))
     (\<lambda>_ t. signals t = [groupReceiptUpdated ''7'' ''t'', messageSeen ''7'' ''t'']) (\<lambda>_ _. False) example_sender"
proof -
  have l: "canonical (lib example_sender) ''t'' = ''t''" "signals example_sender = []"
    by (simp_all add: canonical_def example_sender_def example_bob_def example_client_def example_library_def)
  show ?thesis
    by (rule wp_mono [OF group_receipt_aggregate [THEN conjunct1, OF example_sender_up]])
      (simp_all add: l numeric_text_def isdigit_def aggregated_def aggregate_status_def recipients_of_def
        with_receipt_def recipient_key_def example_recipient_def aggregate_signal_def split: option.splits)
qed

section \<open>Sealing and opening\<close>

text \<open>
  The packet carries \<open>m\<close> for the key pair \<open>q\<close> in the first segment of its key field and for
  the sender's own pair \<open>q'\<close> in the second.
\<close>

definition carries :: "library \<Rightarrow> int \<Rightarrow> int \<Rightarrow> string \<Rightarrow> Packet \<Rightarrow> bool" where
  "carries l q q' m p \<longleftrightarrow>
     (\<exists>aes k1 k2. length aes = KEY_SIZE \<and> seals l aes (pbody p) m
        \<and> oaep_decrypt l q k1 = Some aes \<and> oaep_decrypt l q' k2 = Some aes
        \<and> pkey p = toBase64 l k1 @ '';'' @ toBase64 l k2)"

lemma sendPacket_up:
  "so_connected (sock s) \<Longrightarrow>
     wp (sendPacket p) Q E s = Q () (s\<lparr>sock := (sock s)\<lparr>so_sent := so_sent (sock s) @ [serialize p]\<rparr>\<rparr>)"
  by (simp add: sendPacket_def isConnected_def wp)

text \<open>Chaining library calls: each advances the counter only.\<close>

lemma called_bnd:
  assumes "called s t" "wp m (\<lambda>x u. called t u \<and> R x) (\<lambda>_ _. False) t"
    and "\<And>x u. called s u \<Longrightarrow> R x \<Longrightarrow> wp (k x) Q E u"
  shows "wp (bnd m k) Q E t"
  unfolding wp_bnd by (rule wp_mono [OF assms(2)]) (auto intro: assms(3) cl.R_trans [OF assms(1)])

lemma encryptAndSend_wp:
  assumes "library_laws (lib s)" "crypto_up (lib s)" "so_connected (sock s)" "to \<noteq> currentUsername (nm s)"
    and "peerKeys (nm s) to = Some pk" "read_pub_pem (lib s) pk = Some q"
    and "read_pub_pem (lib s) (ownPubKey (nm s)) = Some q'" "ts \<noteq> []"
  shows "wp (encryptAndSend to m ts)
     (\<lambda>_ t. (\<forall>f a. ls_up s f a \<longrightarrow> ls_up t f (stored_message to (currentUsername (nm s)) m ts True a))
        \<and> (\<exists>p. so_sent (sock t) = so_sent (sock s) @ [serialize p] \<and> carries (lib s) q q' m p
        \<and> p = (new_packet MESSAGE)\<lparr>pfrom := currentUsername (nm s), pto := to, pbody := pbody p, pkey := pkey p, ptimestamp := ts\<rparr>))
     (\<lambda>_ _. False) s" (is "wp _ ?Q _ _")
proof -
  let ?me = "currentUsername (nm s)"
  let ?E = "\<lambda>e t. wp (show_error (''Encrypt failed: '' @ what e)) ?Q (\<lambda>_ _. False) t"
  note lw = assms(1) and up = assms(2)
  have same: "(nm s)\<lparr>peerKeys := (peerKeys (nm s))(to \<mapsto> pk)\<rparr> = nm s"
    using assms(5) by (simp add: fun_upd_idem)
  have nm_id: "u\<lparr>nm := (nm u)\<lparr>peerKeys := (peerKeys (nm u))(to \<mapsto> pk)\<rparr>\<rparr> = u" if "called s u" for u
    using same called_simps(6) [OF that] by (metis client.surjective client.update_convs(7))
  have persist: "wp (persistMessage to ?me m ts True) Q E t"
    if "\<And>u. ls_step t u \<Longrightarrow> (\<And>f a. ls_up t f a \<Longrightarrow> ls_up u f (stored_message to ?me m ts True a)) \<Longrightarrow> Q () u" for Q E t
  proof -
    have k: "keeps ls_step (persistMessage to ?me m ts True)"
      unfolding persistMessage_def by (intro lss.rules storage_step)
    have up: "wp (persistMessage to ?me m ts True) (\<lambda>_ u. \<forall>f a. ls_up t f a \<longrightarrow> ls_up u f (stored_message to ?me m ts True a)) (\<lambda>_ _. True) t"
    proof (cases "\<exists>f a. ls_up t f a")
      case True
      then obtain f a where f: "ls_up t f a" by blast
      have "f' = f \<and> a' = a" if "ls_up t f' a'" for f' a' using that f by (auto simp: ls_up_def)
      then show ?thesis unfolding persistMessage_up [OF f] using ls_up_stored [OF f] by blast
    qed (auto intro: wpI)
    show ?thesis
      by (rule wp_mono [OF wp_conj [OF nothrow_wp [OF nothrow_send(9) keeps_wpD [OF k]] up]]) (auto intro: that)
  qed
  show ?thesis
    unfolding encryptAndSend_def wp_bnd [of "getNM currentUsername"] wp_getNM if_not_P [OF assms(4)] catch_all_def wp_catch_if
  proof (rule called_bnd [OF cl.R_refl generateAESKey_wp [OF lw up]], goal_cases)
    case (1 aes u) note u = called_simps [OF 1(1)]
    show ?case
    proof (rule called_bnd [OF 1(1) Crypto_encrypt_wp], goal_cases)
      case (4 c v) note v = called_simps [OF 4(1)]
      show ?case
        unfolding wp_bnd [of "getNM _"] wp_getNM wp_bnd [of "updNM _"] wp_client
      proof (simp add: v qvalue_def assms(5) nm_id [OF 4(1), unfolded v],
          rule called_bnd [OF 4(1) encryptRSA_wp [where q = q]], goal_cases)
        case (5 k1 x) note x = called_simps [OF 5(1)] and k1 = 5(2)
        show ?case
          unfolding wp_bnd [of "getNM _"] wp_getNM x
        proof (rule called_bnd [OF 5(1) encryptRSA_wp [where q = q']], goal_cases)
          case (5 k2 y) note y = called_simps [OF 5(1)]
          let ?p = "(new_packet MESSAGE)\<lparr>pfrom := ?me, pto := to, pbody := c,
              pkey := toBase64 (lib s) k1 @ '';'' @ toBase64 (lib s) k2, ptimestamp := ts\<rparr>"
          have p: "carries (lib s) q q' m ?p"
            using 1(2) 4(2) 5(2) k1 u v x y
            by (auto simp: carries_def)
          show ?case
            using assms(3,8)
            by (simp add: timestamp_or_now_def y wp_bnd wp_gets wp_retn sendPacket_up)
              (rule persist, use p in \<open>auto simp: ls_step_simps y ls_up_def intro!: exI [of _ ?p]\<close>)
        qed (use 1(2) lw up assms(7) x in \<open>simp_all\<close>)
      qed (use 1(2) lw up assms(6) v in \<open>simp_all\<close>)
    qed (use 1(2) lw up u in simp_all)
  qed
qed

lemma sendMessage_stores_wp:
  assumes "library_laws (lib s)" "crypto_up (lib s)" "so_connected (sock s)" "to \<noteq> currentUsername (nm s)"
    and "peerKeys (nm s) to = Some pk" "read_pub_pem (lib s) pk = Some q"
    and "read_pub_pem (lib s) (ownPubKey (nm s)) = Some q'" "ts \<noteq> []"
  shows "wp (sendMessage to m ts)
     (\<lambda>_ t. (\<forall>f a. ls_up s f a \<longrightarrow> ls_up t f (stored_message to (currentUsername (nm s)) m ts True a))
        \<and> (\<exists>p. so_sent (sock t) = so_sent (sock s) @ [serialize p] \<and> carries (lib s) q q' m p
        \<and> p = (new_packet MESSAGE)\<lparr>pfrom := currentUsername (nm s), pto := to, pbody := pbody p, pkey := pkey p, ptimestamp := ts\<rparr>))
     (\<lambda>_ _. False) s"
  unfolding sendMessage_def wp_bnd [of "getNM peerKeys"] wp_getNM
  using encryptAndSend_wp [OF assms] by (simp add: assms(5))

lemma sendMessage_wp:
  assumes "library_laws (lib s)" "crypto_up (lib s)" "so_connected (sock s)" "to \<noteq> currentUsername (nm s)"
    and "peerKeys (nm s) to = Some pk" "read_pub_pem (lib s) pk = Some q"
    and "read_pub_pem (lib s) (ownPubKey (nm s)) = Some q'" "ts \<noteq> []"
  shows "wp (sendMessage to m ts)
     (\<lambda>_ t. \<exists>p. so_sent (sock t) = so_sent (sock s) @ [serialize p] \<and> carries (lib s) q q' m p
        \<and> p = (new_packet MESSAGE)\<lparr>pfrom := currentUsername (nm s), pto := to, pbody := pbody p, pkey := pkey p, ptimestamp := ts\<rparr>)
     (\<lambda>_ _. False) s"
  by (rule wp_mono [OF sendMessage_stores_wp [OF assms]]) auto

lemma open_message_wp:
  assumes "library_laws (lib s)" "crypto_up (lib s)" "read_priv_pem (lib s) (ownPrivKey (nm s)) = Some q"
    and "length aes = KEY_SIZE" "seals (lib s) aes (pbody p) m" "oaep_decrypt (lib s) q k = Some aes"
  shows "wp (open_message (toBase64 (lib s) k) p) (\<lambda>r t. called s t \<and> r = fromUtf8 (lib s) m) (\<lambda>_ _. False) s"
proof -
  note l = library_lawsD [OF assms(1)]
  have d: "wp (Crypto_decrypt (pbody p) aes) (\<lambda>r u. called s u \<and> r = fromUtf8 (lib s) m) (\<lambda>_ _. False) t"
    if t: "called s t" for t
    using Crypto_decrypt_wp [of t aes "pbody p" m] assms called_simps(1) [OF t]
    by (auto elim!: wp_mono intro: cl.R_trans [OF t])
  show ?thesis
    unfolding open_message_def unwrap_key_def wp_bnd wp_gets wp_getNM l(7,8)
    by (rule wp_mono [OF decryptRSA_wp [OF assms(2,3,6)]]) (auto intro: d)
qed

lemma onText_wp:
  assumes "wf_packet p"
  shows "wp (onTextMessageReceived t0 (serialize p)) Q E s =
     wp (bnd (handlePacket p) (\<lambda>_. emit (messageReceived (serialize p)))) Q E s"
  using read_packet_serialize [OF assms] by (simp add: onTextMessageReceived_def)

text \<open>A frame with the recipient's segment only is opened, stored and shown.\<close>

lemma receive_wp:
  assumes "library_laws (lib s)" "crypto_up (lib s)" "ls_up s f a"
    and "read_priv_pem (lib s) (ownPrivKey (nm s)) = Some q" "ownPrivKey (nm s) \<noteq> []"
    and "length aes = KEY_SIZE" "seals (lib s) aes (pbody p) m" "oaep_decrypt (lib s) q k = Some aes"
    and "pkey p = toBase64 (lib s) k" "fromUtf8 (lib s) m = m" "wf_packet p" "ptype p = MESSAGE"
    and "perrorMsg p \<noteq> ''1''" "ptimestamp p \<noteq> []" "pfrom p \<noteq> currentUsername (nm s)"
    and "\<not> has_message a (pfrom p) (pfrom p) (canonical (lib s) (ptimestamp p))"
  shows "wp (onTextMessageReceived t0 (serialize p))
     (\<lambda>_ t. signals t = signals s @ [messageDecrypted (pfrom p) m (canonical (lib s) (ptimestamp p)), messageReceived (serialize p)]
        \<and> ls_up t f (stored_message (pfrom p) (pfrom p) m (canonical (lib s) (ptimestamp p)) False a))
     (\<lambda>_ _. False) s"
proof -
  let ?ts = "canonical (lib s) (ptimestamp p)"
  have seg: "recipient_segment (pkey p) = toBase64 (lib s) k"
    using base64_no_sep(2) [OF library_lawsD(9) [OF assms(1)]] assms(9) by (simp add: recipient_segment_def)
  have opened: "wp (bnd (isDuplicate (pfrom p) (pfrom p) ?ts) (\<lambda>dup.
          if dup then retn ()
          else
            bnd (persistMessage (pfrom p) (pfrom p) m ?ts False) (\<lambda>_.
            bnd (updNM (\<lambda>x. x\<lparr>unreadTimestamps := qappend (pfrom p) ?ts (unreadTimestamps x)\<rparr>)) (\<lambda>_.
            emit (messageDecrypted (pfrom p) m ?ts)))))
       (\<lambda>_ t. signals t = signals s @ [messageDecrypted (pfrom p) m ?ts]
          \<and> ls_up t f (stored_message (pfrom p) (pfrom p) m ?ts False a)) E t" if t: "called s t" for t E
  proof -
    have u: "ls_up t f a" using assms(3) t by (simp add: ls_up_called)
    have v: "ls_up (t\<lparr>calls := Suc (calls t)\<rparr>) f a" using u by simp
    show ?thesis
      unfolding wp_bnd [of "isDuplicate _ _ _"] isDuplicate_up [OF u]
      using assms(16) ls_up_stored [OF v, where n = "Suc (Suc (Suc (calls t)))" and q = "pfrom p" and u = "pfrom p" and c = m and t = ?ts and b = False]
      by (simp add: wp_bnd persistMessage_up [OF v] wp_client called_simps [OF t])
  qed
  have "wp (handle_received p (currentUsername (nm s)) ?ts)
      (\<lambda>_ t. signals t = signals s @ [messageDecrypted (pfrom p) m ?ts]
          \<and> ls_up t f (stored_message (pfrom p) (pfrom p) m ?ts False a)) (\<lambda>_ _. False) s"
    unfolding handle_received_def catch_all_def wp_catch_if seg wp_bnd [of "open_message _ _"]
    by (rule wp_mono [OF open_message_wp [OF assms(1,2,4,6,7,8)]])
      (auto simp: assms(10,15) intro: opened)
  then have "wp (handleIncomingMessage p)
      (\<lambda>_ t. signals t = signals s @ [messageDecrypted (pfrom p) m ?ts]
          \<and> ls_up t f (stored_message (pfrom p) (pfrom p) m ?ts False a)) (\<lambda>_ _. False) s"
    using assms(5,13,14)
    by (simp add: handleIncomingMessage_def packet_time_def canonicalC_def wp_bnd wp_gets wp_getNM)
  then show ?thesis
    unfolding onText_wp [OF assms(11)] wp_bnd [of "handlePacket _"]
    by (simp add: handlePacket_def assms(12)) (erule wp_mono; simp add: wp_client)
qed

text \<open>The echo of an own message, sent from another device, is opened and stored like the original.\<close>

lemma receive_echo_wp:
  assumes "library_laws (lib s)" "crypto_up (lib s)" "ls_up s f a"
    and "read_priv_pem (lib s) (ownPrivKey (nm s)) = Some q" "ownPrivKey (nm s) \<noteq> []"
    and "length aes = KEY_SIZE" "seals (lib s) aes (pbody p) m" "oaep_decrypt (lib s) q k = Some aes"
    and "\<And>x. oaep_decrypt (lib s) q [] = Some x \<Longrightarrow> length x \<noteq> KEY_SIZE"
    and "sender_segment (pkey p) = toBase64 (lib s) k" "fromUtf8 (lib s) m = m" "wf_packet p" "ptype p = MESSAGE"
    and "perrorMsg p = ''1''" "ptimestamp p \<noteq> []" "currentUsername (nm s) = me" "pto p \<noteq> me"
    and "canonical (lib s) (ptimestamp p) = ts" "\<not> has_message a (pto p) me ts"
  shows "wp (onTextMessageReceived t0 (serialize p))
     (\<lambda>_ t. signals t = signals s @ [historySyncMessage (pto p) me m ts True ''sent'', messageReceived (serialize p)]
        \<and> ls_up t f (stored_message (pto p) me m ts True a)) (\<lambda>_ _. False) s"
proof -
  have k: "toBase64 (lib s) k \<noteq> []"
  proof
    assume "toBase64 (lib s) k = []"
    then have "toBase64 (lib s) k = toBase64 (lib s) []" by (simp add: library_lawsD(11) [OF assms(1)])
    then have "k = []" using library_lawsD(7) [OF assms(1)] by metis
    with assms(6,8,9) show False by auto
  qed
  have echo: "wp (store_echo (pto p) me m ts)
      (\<lambda>_ t. signals t = signals s @ [historySyncMessage (pto p) me m ts True ''sent'']
          \<and> ls_up t f (stored_message (pto p) me m ts True a)) E t" if t: "called s t" for t E
  proof -
    have u: "ls_up t f a" using assms(3) t by (simp add: ls_up_called)
    show ?thesis
      using ls_up_stored [OF u] unfolding store_echo_def wp_bnd persistMessage_up [OF u]
      by (simp add: wp_client called_simps [OF t] ls_up_def)
  qed
  have u: "called s (s\<lparr>calls := Suc (calls s)\<rparr>)" by (rule called_Suc [OF cl.R_refl])
  let ?u = "s\<lparr>calls := Suc (calls s)\<rparr>"
  have opened: "wp (open_message (toBase64 (lib s) k) p) (\<lambda>r t. called s t \<and> r = m) (\<lambda>_ _. False) ?u"
    using open_message_wp [of ?u q aes p m k] assms(1,2,4,6-8,11)
    by simp (erule wp_mono, auto intro: cl.R_trans [OF u])
  have "wp (handle_echo p me ts)
      (\<lambda>_ t. signals t = signals s @ [historySyncMessage (pto p) me m ts True ''sent'']
          \<and> ls_up t f (stored_message (pto p) me m ts True a)) (\<lambda>_ _. False) s"
    unfolding handle_echo_def if_not_P [OF assms(17)] wp_bnd [of "isDuplicate _ _ _"] isDuplicate_up [OF assms(3)]
      if_not_P [OF assms(19)] wp_bnd [of "getNM _"] wp_getNM assms(10) catch_all_def
    using k assms(5)
    by (simp add: wp_catch_if wp_bnd [of "open_message _ _"]) (rule wp_mono [OF opened], auto intro: echo)
  then have "wp (handleIncomingMessage p)
      (\<lambda>_ t. signals t = signals s @ [historySyncMessage (pto p) me m ts True ''sent'']
          \<and> ls_up t f (stored_message (pto p) me m ts True a)) (\<lambda>_ _. False) s"
    using assms(14-16,18)
    by (simp add: handleIncomingMessage_def packet_time_def canonicalC_def wp_bnd wp_gets wp_getNM)
  then show ?thesis
    unfolding onText_wp [OF assms(12)] wp_bnd [of "handlePacket _"]
    by (simp add: handlePacket_def assms(13)) (erule wp_mono; simp add: wp_client ls_up_def)
qed

section \<open>The snapshot of the recipients\<close>

text \<open>A recipient nothing is known of yet, and the rows of a snapshot that are new.\<close>

definition unread_recipient :: "string \<Rightarrow> string \<Rightarrow> string \<Rightarrow> recipient_entry" where
  "unread_recipient g ts m = \<lparr>lr_group_id = g, lr_timestamp = ts, lr_member = m, lr_delivered = False, lr_seen = False\<rparr>"

definition with_snapshot :: "string \<Rightarrow> string \<Rightarrow> string list \<Rightarrow> account \<Rightarrow> account" where
  "with_snapshot g ts us a = a\<lparr>ac_recipients :=
     foldl (\<lambda>rs m. insert_or_ignore recipient_key (unread_recipient g ts m) rs) (ac_recipients a) us\<rparr>"

lemma saveRecipientSnapshot_up:
  assumes "ls_up s f a"
  shows "wp (saveRecipientSnapshot g ts us)
     (\<lambda>_ t. ls_up t f (with_snapshot g ts us a) \<and> nm t = nm s \<and> signals t = signals s \<and> lib t = lib s) (\<lambda>_ _. False) s"
  unfolding saveRecipientSnapshot_def unread_recipient_def [symmetric]
  using assms
proof (induction us arbitrary: s a)
  case (Cons u us)
  let ?b = "a\<lparr>ac_recipients := insert_or_ignore recipient_key (unread_recipient g ts u) (ac_recipients a)\<rparr>"
  have "ls_up (s\<lparr>calls := Suc (calls s), files := (files s)(f \<mapsto> ?b)\<rparr>) f ?b"
    by (rule ls_up_write [OF Cons.prems]) simp
  from Cons.IH [OF this] show ?case
    unfolding for_each.simps wp_bnd ls_write_up [OF Cons.prems]
    by (rule wp_mono) (simp_all add: with_snapshot_def)
qed (simp add: wp with_snapshot_def)

lemma recipients_with_snapshot:
  assumes "recipients_of g ts a = []" "distinct us"
  shows "recipients_of g ts (with_snapshot g ts us a) = map (unread_recipient g ts) us"
proof -
  have "filter (\<lambda>r. lr_group_id r = g \<and> lr_timestamp r = ts)
      (foldl (\<lambda>rs m. insert_or_ignore recipient_key (unread_recipient g ts m) rs) rs us) =
    filter (\<lambda>r. lr_group_id r = g \<and> lr_timestamp r = ts) rs @ map (unread_recipient g ts) us"
    if "\<forall>r \<in> set rs. lr_group_id r = g \<and> lr_timestamp r = ts \<longrightarrow> lr_member r \<notin> set us" for rs
    using that assms(2)
  proof (induction us arbitrary: rs)
    case (Cons u us)
    have "insert_or_ignore recipient_key (unread_recipient g ts u) rs = rs @ [unread_recipient g ts u]"
      using Cons.prems(1) by (auto simp: insert_or_ignore_def recipient_key_def unread_recipient_def)
    then show ?case
      using Cons.IH [of "rs @ [unread_recipient g ts u]"] Cons.prems by (simp add: unread_recipient_def)
  qed simp
  note step = this [of "ac_recipients a"]
  have none: "filter (\<lambda>r. lr_group_id r = g \<and> lr_timestamp r = ts) (ac_recipients a) = []"
    using assms(1) by (simp add: recipients_of_def)
  then have "\<forall>r \<in> set (ac_recipients a). lr_group_id r = g \<and> lr_timestamp r = ts \<longrightarrow> lr_member r \<notin> set us"
    by (auto simp: filter_empty_conv)
  from step [OF this] none show ?thesis by (simp add: recipients_of_def with_snapshot_def)
qed

end
