(* ===== verification/ClientGroups.thy ===== *)
theory ClientGroups
  imports ClientMessages
begin

text \<open>
  The message paths of groups in the client: sending with the key of the group, receiving with it, and
  receiving before it, when the packet waits and the key is asked for, until an invitation brings the
  key and the packets that waited are handled.
\<close>

section \<open>The cache of groups in single steps\<close>

definition stored_group_message :: "string \<Rightarrow> string \<Rightarrow> string \<Rightarrow> string \<Rightarrow> bool \<Rightarrow> account \<Rightarrow> account" where
  "stored_group_message g u c t b a =
     a\<lparr>ac_group_messages := insert_or_ignore gm_key
         \<lparr>lx_group_id = g, lx_sender = u, lx_content = c, lx_timestamp = t, lx_is_outgoing = b, lx_status = ''sent''\<rparr>
         (ac_group_messages a),
       ac_groups := update_where (\<lambda>r. lg_group_id r = g)
         (\<lambda>r. r\<lparr>lg_last_message := Some c, lg_last_timestamp := Some t\<rparr>) (ac_groups a)\<rparr>"

definition has_group_message :: "account \<Rightarrow> string \<Rightarrow> string \<Rightarrow> string \<Rightarrow> bool" where
  "has_group_message a g u t \<longleftrightarrow> (g, u, t) \<in> set (map gm_key (ac_group_messages a))"

definition stored_group :: "string \<Rightarrow> string \<Rightarrow> string \<Rightarrow> string \<Rightarrow> account \<Rightarrow> account" where
  "stored_group g name role key a =
     a\<lparr>ac_groups := upsert lg_group_id (\<lambda>r. r\<lparr>lg_name := name, lg_role := role\<rparr>)
         \<lparr>lg_group_id = g, lg_name = name, lg_role = role, lg_last_message = None, lg_last_timestamp = None,
          lg_unread_count = 0\<rparr> (ac_groups a),
       ac_group_keys := upsert lk_group_id (\<lambda>r. r\<lparr>lk_aes_key_base64 := key\<rparr>)
         \<lparr>lk_group_id = g, lk_aes_key_base64 = key\<rparr> (ac_group_keys a)\<rparr>"

lemma saveGroupMessage_up:
  assumes "ls_up s f a"
  shows "wp (saveGroupMessage g u c t b) Q E s =
     Q () (s\<lparr>calls := Suc (Suc (calls s)), files := (files s)(f \<mapsto> stored_group_message g u c t b a)\<rparr>)"
proof -
  have schema: "set (ac_schema a) = UNIV" using assms by (simp add: ls_up_def)
  let ?b = "a\<lparr>ac_group_messages := insert_or_ignore gm_key
         \<lparr>lx_group_id = g, lx_sender = u, lx_content = c, lx_timestamp = t, lx_is_outgoing = b, lx_status = ''sent''\<rparr>
         (ac_group_messages a)\<rparr>"
  let ?u = "s\<lparr>calls := Suc (calls s), files := (files s)(f \<mapsto> ?b)\<rparr>"
  have u: "ls_up ?u f ?b" by (rule ls_up_write [OF assms]) simp
  show ?thesis
    unfolding saveGroupMessage_def wp_bnd ls_write_up [OF assms] Let_def
    by (simp add: schema ls_write_up [OF u] stored_group_message_def)
qed

lemma ls_up_stored_group:
  "ls_up s f a \<Longrightarrow> ls_up (s\<lparr>calls := n, files := (files s)(f \<mapsto> stored_group_message g u c t b a)\<rparr>) f (stored_group_message g u c t b a)"
  by (rule ls_up_write) (simp_all add: stored_group_message_def)

lemma isGroupMessageDuplicate_up:
  "ls_up s f a \<Longrightarrow> wp (isGroupMessageDuplicate g u t) Q E s = Q (has_group_message a g u t) (s\<lparr>calls := Suc (calls s)\<rparr>)"
  unfolding isGroupMessageDuplicate_def has_group_message_def by (rule ls_read_up)

section \<open>Sending\<close>

text \<open>The packet of a group message, and what sending it does to the own cache.\<close>

definition group_packet :: "string \<Rightarrow> string \<Rightarrow> string \<Rightarrow> string \<Rightarrow> Packet" where
  "group_packet me g c ts = (new_packet GROUP_MESSAGE)\<lparr>pfrom := me, pto := g, pbody := c, ptimestamp := ts\<rparr>"

lemma sendGroupMessage_wp:
  assumes "library_laws (lib s)" "crypto_up (lib s)" "so_connected (sock s)" "groupKeys (nm s) g = Some aes"
    and "length aes = KEY_SIZE" "ts \<noteq> []" "ls_up s f a" "me = currentUsername (nm s)"
  shows "wp (sendGroupMessage g m ts)
     (\<lambda>_ t. \<exists>c. seals (lib s) aes c m \<and> so_sent (sock t) = so_sent (sock s) @ [serialize (group_packet me g c ts)]
        \<and> ls_up t f (stored_group_message g me m ts True a) \<and> nm t = nm s \<and> signals t = signals s)
     (\<lambda>_ _. False) s"
  unfolding sendGroupMessage_def wp_bnd [of "getNM _"] wp_getNM assms(4) option.case send_with_key_def catch_all_def wp_catch_if
proof (rule called_bnd [OF cl.R_refl Crypto_encrypt_wp [OF assms(1,2,5)]], goal_cases)
  case (1 c u)
  note u = called_simps [OF 1(1)]
  let ?v = "u\<lparr>sock := (sock u)\<lparr>so_sent := so_sent (sock u) @ [serialize ((new_packet GROUP_MESSAGE)\<lparr>
      pfrom := me, pto := g, pbody := c, ptimestamp := ts\<rparr>)]\<rparr>\<rparr>"
  have up: "ls_up ?v f a" using assms(7) u by (simp add: ls_up_def)
  have "wp (saveGroupMessage g me m ts True) Q E ?v =
      Q () (?v\<lparr>calls := Suc (Suc (calls ?v)), files := (files ?v)(f \<mapsto> stored_group_message g me m ts True a)\<rparr>)" for Q E
    by (rule saveGroupMessage_up [OF up])
  moreover have "ls_up (?v\<lparr>calls := n, files := (files ?v)(f \<mapsto> stored_group_message g me m ts True a)\<rparr>) f
      (stored_group_message g me m ts True a)" for n
    by (rule ls_up_stored_group [OF up])
  ultimately show ?case
    using assms(3,6,8) u 1(2)
    by (simp add: timestamp_or_now_def packet_from_me_def wp_bnd wp_retn wp_getNM sendPacket_up group_packet_def)
      blast
qed


section \<open>Receiving\<close>

text \<open>A group message has been shown: stored, counted as unread, signalled and acknowledged.\<close>

definition group_shown :: "Packet \<Rightarrow> string \<Rightarrow> string \<Rightarrow> string \<Rightarrow> account \<Rightarrow> client \<Rightarrow> client \<Rightarrow> bool" where
  "group_shown p m ts f a s t \<longleftrightarrow>
     lib t = lib s \<and> db_open t = db_open s
     \<and> files t = (files s)(f \<mapsto> stored_group_message (pto p) (pfrom p) m ts False a)
     \<and> nm t = (nm s)\<lparr>unreadTimestamps := qappend (pto p) ts (unreadTimestamps (nm s))\<rparr>
     \<and> signals t = signals s @ [groupMessageDecrypted (pto p) (pfrom p) m ts False]
     \<and> so_connected (sock t)
     \<and> so_sent (sock t) = so_sent (sock s) @ [serialize ((new_packet ACK)\<lparr>pfrom := currentUsername (nm s), pto := pto p,
          pbody := ts, perrorMsg := ''delivered''\<rparr>)]"

lemma receive_with_key_wp:
  assumes "library_laws (lib s)" "crypto_up (lib s)" "ls_up s f a" "so_connected (sock s)"
    and "length aes = KEY_SIZE" "seals (lib s) aes (pbody p) m" "fromUtf8 (lib s) m = m"
    and "pfrom p \<noteq> currentUsername (nm s)" "\<not> has_group_message a (pto p) (pfrom p) ts"
  shows "wp (receive_with_key p ts (Some aes)) (\<lambda>_. group_shown p m ts f a s) (\<lambda>_ _. False) s"
proof -
  let ?ack = "(new_packet ACK)\<lparr>pfrom := currentUsername (nm s), pto := pto p, pbody := ts, perrorMsg := ''delivered''\<rparr>"
  let ?u = "s\<lparr>sock := (sock s)\<lparr>so_sent := so_sent (sock s) @ [serialize ?ack]\<rparr>\<rparr>"
  have u: "ls_up ?u f a" using assms(3) by (simp add: ls_up_def)
  let ?v = "?u\<lparr>calls := Suc (calls ?u)\<rparr>"
  have store: "wp (bnd (saveGroupMessage (pto p) (pfrom p) m ts False) (\<lambda>_.
      bnd (when_m (pfrom p \<noteq> currentUsername (nm s))
         (updNM (\<lambda>x. x\<lparr>unreadTimestamps := qappend (pto p) ts (unreadTimestamps x)\<rparr>))) (\<lambda>_.
      emit (groupMessageDecrypted (pto p) (pfrom p) m ts False)))) (\<lambda>_. group_shown p m ts f a s) (\<lambda>_ _. False) x"
    if "called ?v x" for x
  proof -
    have x: "ls_up x f a" using u that by (simp add: ls_up_called)
    show ?thesis
      unfolding wp_bnd [of "saveGroupMessage _ _ _ _ _"] saveGroupMessage_up [OF x]
      using assms(4,8) by (simp add: wp_bnd wp_when wp_client called_simps [OF that] group_shown_def)
  qed
  have "wp (bnd (Crypto_decrypt (pbody p) aes) (\<lambda>plaintext.
      bnd (saveGroupMessage (pto p) (pfrom p) plaintext ts (pfrom p = currentUsername (nm s))) (\<lambda>_.
      bnd (when_m (pfrom p \<noteq> currentUsername (nm s))
         (updNM (\<lambda>x. x\<lparr>unreadTimestamps := qappend (pto p) ts (unreadTimestamps x)\<rparr>))) (\<lambda>_.
      emit (groupMessageDecrypted (pto p) (pfrom p) plaintext ts (pfrom p = currentUsername (nm s)))))))
      (\<lambda>_. group_shown p m ts f a s) (\<lambda>_ _. False) ?v"
    unfolding wp_bnd [of "Crypto_decrypt _ _"]
    by (rule wp_mono [OF Crypto_decrypt_wp [of ?v aes "pbody p" m]])
      (use assms store in \<open>auto simp: Let_def\<close>)
  then show ?thesis
    using assms(4,8,9)
    by (simp add: receive_with_key_def wp_bnd [of "getNM _"] wp_getNM wp_bnd [of "sendPacket _"] sendPacket_up
        wp_bnd [of "isGroupMessageDuplicate _ _ _"] isGroupMessageDuplicate_up [OF u])
qed

lemma handleGroupMessage_wp:
  assumes "library_laws (lib s)" "crypto_up (lib s)" "ls_up s f a" "so_connected (sock s)" "ptimestamp p \<noteq> []"
    and "groupKeys (nm s) (pto p) = Some aes" "length aes = KEY_SIZE" "seals (lib s) aes (pbody p) m" "fromUtf8 (lib s) m = m"
    and "pfrom p \<noteq> currentUsername (nm s)" "ts = canonical (lib s) (ptimestamp p)" "\<not> has_group_message a (pto p) (pfrom p) ts"
  shows "wp (handleGroupMessage p) (\<lambda>_. group_shown p m ts f a s) (\<lambda>_ _. False) s"
  using receive_with_key_wp [OF assms(1-4,7-10,12)] assms(5,6,11)
  by (simp add: handleGroupMessage_def packet_time_def canonicalC_def wp_bnd [of "gets _"] wp_gets catch_all_def wp_catch_if
      group_key_or_buffer_def bnd_assoc wp_bnd [of "getNM _"] wp_getNM) (erule wp_mono; simp)


section \<open>The key and the messages in either order\<close>

text \<open>An invitation has been accepted, up to what was waiting for it.\<close>

definition group_joined :: "Packet \<Rightarrow> string \<Rightarrow> string \<Rightarrow> account \<Rightarrow> client \<Rightarrow> client \<Rightarrow> bool" where
  "group_joined q aes f a s t \<longleftrightarrow>
     lib t = lib s \<and> db_open t = db_open s \<and> sock t = sock s
     \<and> files t = (files s)(f \<mapsto> stored_group (pbody q) (perrorMsg q) ''member'' (toBase64 (lib s) aes) a)
     \<and> nm t = (nm s)\<lparr>groupKeys := (groupKeys (nm s))(pbody q \<mapsto> aes), groupNames := (groupNames (nm s))(pbody q \<mapsto> perrorMsg q),
          pendingGroupKeyRequests := removeAll (pbody q) (pendingGroupKeyRequests (nm s))\<rparr>
     \<and> signals t = signals s @ [groupInviteReceived (pbody q) (perrorMsg q), groupKeyUpdated (pbody q)]"

lemma unwrap_key_wp:
  assumes "library_laws (lib s)" "crypto_up (lib s)" "read_priv_pem (lib s) (ownPrivKey (nm s)) = Some v"
    and "oaep_decrypt (lib s) v k = Some aes"
  shows "wp (unwrap_key (toBase64 (lib s) k)) (\<lambda>r t. called s t \<and> r = aes) (\<lambda>_ _. False) s"
  unfolding unwrap_key_def wp_bnd wp_gets wp_getNM library_lawsD(7,8) [OF assms(1)]
  by (rule decryptRSA_wp [OF assms(2-4)])

lemma handleGroupInvite_wp:
  assumes "library_laws (lib s)" "crypto_up (lib s)" "ls_up s f a" "read_priv_pem (lib s) (ownPrivKey (nm s)) = Some v"
    and "oaep_decrypt (lib s) v k = Some aes" "pkey q = toBase64 (lib s) k"
    and drain: "\<And>t. group_joined q aes f a s t \<Longrightarrow> wp (drain_group (pbody q)) Q (\<lambda>_ _. False) t"
  shows "wp (handleGroupInvite q) Q (\<lambda>_ _. False) s"
proof -
  let ?a = "a\<lparr>ac_groups := upsert lg_group_id (\<lambda>r. r\<lparr>lg_name := perrorMsg q, lg_role := ''member''\<rparr>)
         \<lparr>lg_group_id = pbody q, lg_name = perrorMsg q, lg_role = ''member'', lg_last_message = None, lg_last_timestamp = None,
          lg_unread_count = 0\<rparr> (ac_groups a)\<rparr>"
  have rest: "wp (bnd (updNM (\<lambda>x. x\<lparr>groupKeys := (groupKeys x)(pbody q \<mapsto> aes), groupNames := (groupNames x)(pbody q \<mapsto> perrorMsg q)\<rparr>)) (\<lambda>_.
        bnd (saveGroup (pbody q) (perrorMsg q) ''member'') (\<lambda>_.
        bnd (remember_group_key (pbody q) aes) (\<lambda>_.
        bnd (emit (groupInviteReceived (pbody q) (perrorMsg q))) (\<lambda>_.
        bnd (forget_key_request (pbody q)) (\<lambda>_.
        bnd (emit (groupKeyUpdated (pbody q))) (\<lambda>_. drain_group (pbody q)))))))) Q (\<lambda>_ _. False) t"
    if t: "called s t" for t
  proof -
    note c = called_simps [OF t]
    let ?t = "t\<lparr>nm := (nm t)\<lparr>groupKeys := (groupKeys (nm t))(pbody q \<mapsto> aes), groupNames := (groupNames (nm t))(pbody q \<mapsto> perrorMsg q)\<rparr>\<rparr>"
    have t1: "ls_up ?t f a" using assms(3) by (simp add: ls_up_def c)
    let ?u = "?t\<lparr>calls := Suc (calls ?t), files := (files ?t)(f \<mapsto> ?a)\<rparr>"
    have u: "ls_up ?u f ?a" by (rule ls_up_write [OF t1]) simp
    show ?thesis
      unfolding saveGroup_def remember_group_key_def saveGroupKey_def forget_key_request_def bnd_assoc
      unfolding wp_bnd [of "updNM _"] wp_client wp_bnd [of "ls_write _ _"] ls_write_up [OF t1] ls_write_up [OF u]
        wp_bnd [of "gets _"] wp_gets wp_bnd [of "emit _"]
      by (rule drain) (simp add: group_joined_def c stored_group_def)
  qed
  show ?thesis
    unfolding handleGroupInvite_def Let_def catch_all_def wp_catch_if assms(6) wp_bnd [of "unwrap_key _"]
    by (rule wp_mono [OF unwrap_key_wp [OF assms(1,2,4,5)]]) (auto intro: wp_mono [OF rest])
qed

text \<open>What is buffered when a message comes before the key of its group.\<close>

lemma handleGroupMessage_early_wp:
  assumes "ls_up s f a" "so_connected (sock s)" "ptimestamp p \<noteq> []" "groupKeys (nm s) (pto p) = None"
    and "find (\<lambda>r. lk_group_id r = pto p) (ac_group_keys a) = None" "pto p \<notin> set (pendingGroupKeyRequests (nm s))"
    and "pendingGroupPackets (nm s) (pto p) = None"
  shows "wp (handleGroupMessage p)
     (\<lambda>_ t. lib t = lib s \<and> db_open t = db_open s \<and> files t = files s \<and> signals t = signals s \<and> so_connected (sock t)
        \<and> nm t = (nm s)\<lparr>pendingGroupPackets := (pendingGroupPackets (nm s))(pto p \<mapsto> [p]),
             pendingGroupKeyRequests := pto p # pendingGroupKeyRequests (nm s)\<rparr>)
     (\<lambda>_ _. False) s"
  using assms(2-7)
  by (simp add: handleGroupMessage_def packet_time_def canonicalC_def catch_all_def group_key_or_buffer_def loadGroupKey_def
      ls_read_up [OF assms(1)] buffer_group_packet_def requestGroupKey_def packet_from_me_def wp_bnd wp_gets wp_getNM wp_client
      wp_catch_if sendPacket_up wp_retn receive_with_key_def qappend_def qvalue_def)

text \<open>The message of the packet \<open>p\<close> has been read with the key of the invitation \<open>q\<close>.\<close>

definition group_read :: "Packet \<Rightarrow> Packet \<Rightarrow> string \<Rightarrow> string \<Rightarrow> string \<Rightarrow> string \<Rightarrow> account \<Rightarrow> client \<Rightarrow> client \<Rightarrow> bool" where
  "group_read p q m aes ts f a s t \<longleftrightarrow>
     files t = (files s)(f \<mapsto> stored_group_message (pto p) (pfrom p) m ts False
        (stored_group (pto p) (perrorMsg q) ''member'' (toBase64 (lib s) aes) a))
     \<and> nm t = (nm s)\<lparr>groupKeys := (groupKeys (nm s))(pto p \<mapsto> aes), groupNames := (groupNames (nm s))(pto p \<mapsto> perrorMsg q),
          unreadTimestamps := qappend (pto p) ts (unreadTimestamps (nm s))\<rparr>
     \<and> signals t = signals s @ [groupInviteReceived (pto p) (perrorMsg q), groupKeyUpdated (pto p),
          groupMessageDecrypted (pto p) (pfrom p) m ts False]"

lemma group_joined_up: "group_joined q aes f a s t \<Longrightarrow> ls_up s f a \<Longrightarrow>
    ls_up t f (stored_group (pbody q) (perrorMsg q) ''member'' (toBase64 (lib s) aes) a)"
  by (simp add: group_joined_def ls_up_def stored_group_def)

lemma has_group_message_stored [simp]: "has_group_message (stored_group g n r k a) = has_group_message a"
  by (simp add: fun_eq_iff has_group_message_def stored_group_def)


text \<open>
  C22. The key of a group and the messages of the group may arrive in either order.  A message that
  comes first is held back and read once the invitation with the key arrives; the cache, the
  state of the client and the signals are then exactly those of the other order: the
  message is decrypted to the text that was sealed, stored, counted as unread and shown.
\<close>

theorem group_key_order:
  assumes "library_laws (lib s)" "crypto_up (lib s)" "ls_up s f a" "so_connected (sock s)"
    and "ptype p = GROUP_MESSAGE" "ptype q = GROUP_INVITE" "pbody q = pto p" "ptimestamp p \<noteq> []"
    and "read_priv_pem (lib s) (ownPrivKey (nm s)) = Some v" "oaep_decrypt (lib s) v k = Some aes" "pkey q = toBase64 (lib s) k"
    and "length aes = KEY_SIZE" "seals (lib s) aes (pbody p) m" "fromUtf8 (lib s) m = m" "pfrom p \<noteq> currentUsername (nm s)"
    and "ts = canonical (lib s) (ptimestamp p)" "\<not> has_group_message a (pto p) (pfrom p) ts"
    and "groupKeys (nm s) (pto p) = None" "find (\<lambda>r. lk_group_id r = pto p) (ac_group_keys a) = None"
    and "pendingGroupPackets (nm s) (pto p) = None" "pendingGroupSends (nm s) (pto p) = None"
    and "pto p \<notin> set (pendingGroupKeyRequests (nm s))"
  shows "wp (bnd (handlePacket p) (\<lambda>_. handlePacket q)) (\<lambda>_. group_read p q m aes ts f a s) (\<lambda>_ _. False) s
    \<and> wp (bnd (handlePacket q) (\<lambda>_. handlePacket p)) (\<lambda>_. group_read p q m aes ts f a s) (\<lambda>_ _. False) s"
proof
  let ?b = "stored_group (pto p) (perrorMsg q) ''member'' (toBase64 (lib s) aes) a"
  have fresh: "removeAll (pto p) (pendingGroupKeyRequests (nm s)) = pendingGroupKeyRequests (nm s)"
    using assms(22) by simp
  have drop: "(pendingGroupPackets (nm s))(pto p := None) = pendingGroupPackets (nm s)"
    using assms(20) by (simp add: fun_upd_idem)
  have drops: "(pendingGroupSends (nm s))(pto p := None) = pendingGroupSends (nm s)"
    using assms(21) by (simp add: fun_upd_idem)
  have read: "wp (handleGroupMessage p) (\<lambda>_. group_shown p m ts f ?b t) (\<lambda>_ _. False) t"
    if "lib t = lib s" "ls_up t f ?b" "so_connected (sock t)" "groupKeys (nm t) (pto p) = Some aes"
      "currentUsername (nm t) = currentUsername (nm s)" for t
    by (rule handleGroupMessage_wp) (use that assms in auto)
  show "wp (bnd (handlePacket q) (\<lambda>_. handlePacket p)) (\<lambda>_. group_read p q m aes ts f a s) (\<lambda>_ _. False) s"
    unfolding handlePacket_def assms(5,6) PacketType.case wp_bnd [of "handleGroupInvite q"]
  proof (rule handleGroupInvite_wp [OF assms(1-3,9-11)], unfold assms(7))
    fix t
    assume j: "group_joined q aes f a s t"
    have t: "ls_up t f ?b" using group_joined_up [OF j assms(3)] by (simp add: assms(7))
    have "wp (handleGroupMessage p) (\<lambda>_. group_read p q m aes ts f a s) (\<lambda>_ _. False) t"
      by (rule wp_mono [OF read])
        (use j t assms(4,7) fresh in \<open>auto simp: group_joined_def group_shown_def group_read_def\<close>)
    then show "wp (drain_group (pto p)) (\<lambda>_. wp (handleGroupMessage p) (\<lambda>_. group_read p q m aes ts f a s) (\<lambda>_ _. False))
        (\<lambda>_ _. False) t"
      using j assms(20,21) by (simp add: drain_group_def wp_bnd wp_getNM wp_retn group_joined_def assms(7))
  qed
  show "wp (bnd (handlePacket p) (\<lambda>_. handlePacket q)) (\<lambda>_. group_read p q m aes ts f a s) (\<lambda>_ _. False) s"
    unfolding handlePacket_def assms(5,6) PacketType.case wp_bnd [of "handleGroupMessage p"]
  proof (rule wp_mono [OF handleGroupMessage_early_wp [OF assms(3,4,8,18,19,22,20)]])
    fix x and t :: client
    assume t: "lib t = lib s \<and> db_open t = db_open s \<and> files t = files s \<and> signals t = signals s \<and> so_connected (sock t)
        \<and> nm t = (nm s)\<lparr>pendingGroupPackets := (pendingGroupPackets (nm s))(pto p \<mapsto> [p]),
             pendingGroupKeyRequests := pto p # pendingGroupKeyRequests (nm s)\<rparr>"
    then have up: "ls_up t f a" using assms(3) by (simp add: ls_up_def)
    show "wp (handleGroupInvite q) (\<lambda>_. group_read p q m aes ts f a s) (\<lambda>_ _. False) t"
    proof (rule handleGroupInvite_wp [OF _ _ up], unfold assms(7))
      fix u
      assume j: "group_joined q aes f a t u"
      have u: "ls_up u f ?b" using group_joined_up [OF j up] t by (simp add: assms(7))
      let ?u = "u\<lparr>nm := (nm u)\<lparr>pendingGroupPackets := (pendingGroupPackets (nm u))(pto p := None)\<rparr>\<rparr>"
      have "wp (handleGroupMessage p) (\<lambda>_ z. group_read p q m aes ts f a s z \<and> pendingGroupSends (nm z) (pto p) = None)
          (\<lambda>_ _. False) ?u"
        by (rule wp_mono [OF read])
          (use j u t assms(7,21) fresh drop in \<open>auto simp: ls_up_def group_joined_def group_shown_def group_read_def\<close>)
      then show "wp (drain_group (pto p)) (\<lambda>_. group_read p q m aes ts f a s) (\<lambda>_ _. False) u"
        using j t by (simp add: drain_group_def wp_bnd wp_getNM wp_retn wp_client group_joined_def assms(7))
          (erule wp_mono; simp add: wp_bnd wp_getNM wp_retn)
    qed (use t assms in auto)
  qed simp
qed

text \<open>Witness of C22: bob gets a message of group 1 before the invitation that carries its key.\<close>

definition example_group_key :: string where
  "example_group_key = replicate KEY_SIZE CHR ''k''"

definition example_group_body :: string where
  "example_group_body = toBase64 example_library (replicate IV_SIZE CHR ''v'' @ ''hi'' @ replicate TAG_SIZE CHR ''t'')"

lemma example_group_facts:
  "length example_group_key = KEY_SIZE" "seals example_library example_group_key example_group_body ''hi''"
  "oaep_decrypt example_library v c = Some c"
  by (auto simp: example_group_key_def example_group_body_def seals_def example_library_def
      intro!: exI [of _ "replicate IV_SIZE CHR ''v''"])

definition example_early :: Packet where
  "example_early = (new_packet GROUP_MESSAGE)\<lparr>pfrom := ''alice'', pto := int_str 1, pbody := example_group_body, ptimestamp := int_str 7\<rparr>"

definition example_invite :: Packet where
  "example_invite = (new_packet GROUP_INVITE)\<lparr>pfrom := ''alice'', pto := ''bob'', perrorMsg := ''team'', pbody := int_str 1,
     pkey := toBase64 example_library example_group_key\<rparr>"

lemma group_key_order_witness:
  "wp (bnd (handlePacket example_early) (\<lambda>_. handlePacket example_invite))
     (\<lambda>_ t. signals t = [groupInviteReceived (int_str 1) ''team'', groupKeyUpdated (int_str 1),
        groupMessageDecrypted (int_str 1) ''alice'' ''hi'' (int_str 7) False]) (\<lambda>_ _. False) example_bob"
proof -
  have l: "lib example_bob = example_library" "canonical example_library t = t" "fromUtf8 example_library t = t" for t
    by (simp_all add: example_bob_def example_client_def canonical_def example_library_def Let_def)
  have priv: "read_priv_pem example_library (int_str 2) = Some 2"
    using scan_num_int_str [of "[]" 2] by (simp add: example_library_def)
  have "wp (bnd (handlePacket example_early) (\<lambda>_. handlePacket example_invite))
      (\<lambda>_. group_read example_early example_invite ''hi'' example_group_key (int_str 7) ''f''
         (empty_account\<lparr>ac_schema := full_schema\<rparr>) example_bob) (\<lambda>_ _. False) example_bob"
    by (rule group_key_order [where v = 2 and k = example_group_key, THEN conjunct1, OF _ _ example_bob_up])
      (simp_all add: l example_library_laws example_library_up example_early_def example_invite_def new_packet_def
        example_group_facts, simp_all add: example_bob_def example_client_def priv has_group_message_def empty_account_def)
  then show ?thesis
    by (rule wp_mono) (auto simp: group_read_def example_early_def example_invite_def example_bob_def example_client_def)
qed

end
