(* ===== verification/Confinement.thy ===== *)
theory Confinement
  imports ClientMessages
begin

text \<open>
  What of the user's texts reaches the network.  Two clients are indistinguishable when they differ
  only in texts: those in the cache, those shown, and those still to be sent, where the latter agree
  under the cipher.  Every event keeps them indistinguishable, so they send the same frames.
\<close>

section \<open>Indistinguishable clients\<close>

text \<open>
  The libraries of the two clients: the second may use another cipher, under which the same
  ciphertexts open.  Two texts are alike when the first cipher makes of the first text what the second
  makes of the second.
\<close>

type_synonym libraries = "library \<times> library"

definition twins :: "libraries \<Rightarrow> bool" where
  "twins l \<longleftrightarrow>
     (\<exists>seal opn. snd l = (fst l)\<lparr>gcm_seal := seal, gcm_open := opn\<rparr>
        \<and> (\<forall>key iv c tag. opn key iv c tag = None \<longleftrightarrow> gcm_open (fst l) key iv c tag = None))"

definition alike :: "libraries \<Rightarrow> string \<Rightarrow> string \<Rightarrow> bool" where
  "alike l x y \<longleftrightarrow> (\<forall>key iv. gcm_seal (fst l) key iv x = gcm_seal (snd l) key iv y)"

text \<open>Texts that wait, with their timestamps.\<close>

definition waiting_alike :: "libraries \<Rightarrow> (string \<rightharpoonup> (string \<times> string) list) \<Rightarrow> (string \<rightharpoonup> (string \<times> string) list) \<Rightarrow> bool" where
  "waiting_alike l m n \<longleftrightarrow>
     (\<forall>k. rel_option (list_all2 (\<lambda>a b. alike l (fst a) (fst b) \<and> snd a = snd b)) (m k) (n k))"

definition nm_alike :: "libraries \<Rightarrow> NetworkManager \<Rightarrow> NetworkManager \<Rightarrow> bool" where
  "nm_alike l x y \<longleftrightarrow>
     (\<exists>pm ps. y = x\<lparr>pendingMessages := pm, pendingGroupSends := ps\<rparr>
        \<and> waiting_alike l (pendingMessages x) pm \<and> waiting_alike l (pendingGroupSends x) ps)"

text \<open>The rows of the cache without their texts, and the cache without them.\<close>

definition blank_message :: "message_entry \<Rightarrow> message_entry" where "blank_message r = r\<lparr>lm_content := []\<rparr>"
definition blank_conversation :: "conversation_entry \<Rightarrow> conversation_entry" where "blank_conversation r = r\<lparr>lc_last_message := []\<rparr>"
definition blank_gmessage :: "group_message_entry \<Rightarrow> group_message_entry" where "blank_gmessage r = r\<lparr>lx_content := []\<rparr>"
definition blank_group :: "group_entry \<Rightarrow> group_entry" where "blank_group r = r\<lparr>lg_last_message := None\<rparr>"

definition blank :: "account \<Rightarrow> account" where
  "blank a = a\<lparr>ac_messages := map blank_message (ac_messages a),
     ac_conversations := map blank_conversation (ac_conversations a),
     ac_group_messages := map blank_gmessage (ac_group_messages a), ac_groups := map blank_group (ac_groups a)\<rparr>"

definition indist :: "libraries \<Rightarrow> client \<Rightarrow> client \<Rightarrow> bool" where
  "indist l s t \<longleftrightarrow>
     twins l \<and> lib s = fst l \<and> lib t = snd l \<and> calls t = calls s \<and> settings t = settings s \<and> db_open t = db_open s \<and> sock t = sock s
     \<and> (\<forall>p. map_option blank (files t p) = map_option blank (files s p)) \<and> nm_alike l (nm s) (nm t)"

text \<open>Two computations that keep clients indistinguishable and have related results.\<close>

definition match :: "libraries \<Rightarrow> ('a \<Rightarrow> 'b \<Rightarrow> bool) \<Rightarrow> 'a C \<Rightarrow> 'b C \<Rightarrow> bool" where
  "match l V m n \<longleftrightarrow>
     (\<forall>s t. indist l s t \<longrightarrow> rel_sum (=) V (fst (m s)) (fst (n t)) \<and> indist l (snd (m s)) (snd (n t)))"

abbreviation secret :: "libraries \<Rightarrow> 'a C \<Rightarrow> bool" where
  "secret l m \<equiv> match l (=) m m"

section \<open>Rules\<close>

named_theorems mt \<open>rules of \<open>match\<close>\<close>

lemma matchI: "(\<And>s t. indist l s t \<Longrightarrow> rel_sum (=) V (fst (m s)) (fst (n t)) \<and> indist l (snd (m s)) (snd (n t))) \<Longrightarrow> match l V m n"
  by (simp add: match_def)

lemma match_retn: "V x y \<Longrightarrow> match l V (retn x) (retn y)"
  by (simp add: match_def retn_def)

lemma match_retn_eq [mt]: "match l (=) (retn x) (retn x)"
  by (simp add: match_retn)

lemma match_thr [mt]: "match l V (thr e) (thr e)"
  by (simp add: match_def thr_def)

lemma match_gets: "(\<And>s t. indist l s t \<Longrightarrow> V (f s) (g t)) \<Longrightarrow> match l V (gets f) (gets g)"
  by (simp add: match_def)

lemma match_upd: "(\<And>s t. indist l s t \<Longrightarrow> indist l (f s) (g t)) \<Longrightarrow> match l (=) (upd f) (upd g)"
  by (simp add: match_def)

lemma match_bnd: 
  assumes "match l V m n" "\<And>x y. V x y \<Longrightarrow> match l W (f x) (g y)"
  shows "match l W (bnd m f) (bnd n g)"
proof (rule matchI)
  fix s t
  assume "indist l s t"
  then have 1: "rel_sum (=) V (fst (m s)) (fst (n t))" "indist l (snd (m s)) (snd (n t))"
    using assms(1) by (auto simp: match_def)
  show "rel_sum (=) W (fst (bnd m f s)) (fst (bnd n g t)) \<and> indist l (snd (bnd m f s)) (snd (bnd n g t))"
    using 1 assms(2) by (cases "m s"; cases "fst (m s)"; cases "n t"; cases "fst (n t)") (auto simp: bnd_def match_def)
qed

lemma match_bnd_eq [mt]: "match l (=) m n \<Longrightarrow> (\<And>x. match l W (f x) (g x)) \<Longrightarrow> match l W (bnd m f) (bnd n g)"
  by (rule match_bnd [where V = "(=)"]) auto

lemma match_catch [mt]:
  assumes "match l V m n" "\<And>e. match l V (h e) (k e)"
  shows "match l V (catch_all m h) (catch_all n k)"
proof (rule matchI)
  fix s t
  assume "indist l s t"
  then have 1: "rel_sum (=) V (fst (m s)) (fst (n t))" "indist l (snd (m s)) (snd (n t))"
    using assms(1) by (auto simp: match_def)
  show "rel_sum (=) V (fst (catch_all m h s)) (fst (catch_all n k t)) \<and> indist l (snd (catch_all m h s)) (snd (catch_all n k t))"
    using 1 assms(2) by (cases "m s"; cases "fst (m s)"; cases "n t"; cases "fst (n t)")
      (auto simp: catch_all_def catch_if_def match_def)
qed

lemma match_cases [mt]:
  "(b \<Longrightarrow> match l V m n) \<Longrightarrow> (\<not> b \<Longrightarrow> match l V m' n') \<Longrightarrow> match l V (if b then m else m') (if b then n else n')"
  "match l V m n \<Longrightarrow> (\<And>x. match l V (f x) (g x)) \<Longrightarrow>
   match l V (case r of None \<Rightarrow> m | Some x \<Rightarrow> f x) (case r of None \<Rightarrow> n | Some x \<Rightarrow> g x)"
  "(\<And>a b. match l V (h a b) (k a b)) \<Longrightarrow> match l V (case pr of (a, b) \<Rightarrow> h a b) (case pr of (a, b) \<Rightarrow> k a b)"
  "match l V m n \<Longrightarrow> (\<And>x xs. match l V (p x xs) (q x xs)) \<Longrightarrow>
   match l V (case zs of [] \<Rightarrow> m | x # xs \<Rightarrow> p x xs) (case zs of [] \<Rightarrow> n | x # xs \<Rightarrow> q x xs)"
  by (auto split: option.split prod.split list.split)

lemma match_when [mt]: "(b \<Longrightarrow> match l (=) m n) \<Longrightarrow> match l (=) (when_m b m) (when_m b n)"
  by (cases b) (simp_all add: mt)

lemma match_throw_if [mt]: "match l (=) (throw_if b e) (throw_if b e)"
  by (cases b) (simp_all add: mt)

lemma match_for_each_rel:
  "list_all2 R xs ys \<Longrightarrow> (\<And>x y. R x y \<Longrightarrow> match l (=) (f x) (g y)) \<Longrightarrow> match l (=) (for_each f xs) (for_each g ys)"
  by (induction rule: list_all2_induct) (auto intro: mt)

lemma match_for_each [mt]: "(\<And>x. match l (=) (f x) (g x)) \<Longrightarrow> match l (=) (for_each f xs) (for_each g xs)"
  by (induction xs) (auto intro: mt)

lemma match_lists [mt]:
  "(\<And>x. secret l (f x)) \<Longrightarrow> secret l (filter_m f xs)" "(\<And>x. secret l (h x)) \<Longrightarrow> secret l (map_m h ys)"
  by (induction xs, simp_all add: mt) (induction ys, simp_all add: mt)

section \<open>The state and the libraries\<close>

lemma indistD:
  assumes "indist l s t"
  shows "twins l" "lib s = fst l" "lib t = snd l" "calls t = calls s" "settings t = settings s" "db_open t = db_open s" "sock t = sock s"
    "nm_alike l (nm s) (nm t)"
  using assms by (simp_all add: indist_def)

text \<open>Signals, the list models and nothing else of the client may differ freely.\<close>

lemma match_emit [mt]: "match l (=) (emit x) (emit y)"
  unfolding emit_def by (rule match_upd) (simp add: indist_def)

lemma for_each_emit: "for_each (\<lambda>x. emit (f x)) xs = upd (\<lambda>s. s\<lparr>signals := signals s @ map f xs\<rparr>)"
  by (induction xs) (auto simp: emit_def fun_eq_iff bnd_def retn_def)

lemma match_emit_all: "match l (=) (for_each (\<lambda>x. emit (f x)) xs) (for_each (\<lambda>y. emit (g y)) ys)"
  unfolding for_each_emit by (rule match_upd) (simp add: indist_def)

lemma match_getNM_rel: "(\<And>x y. nm_alike l x y \<Longrightarrow> V (f x) (g y)) \<Longrightarrow> match l V (getNM f) (getNM g)"
  unfolding getNM_def by (rule match_gets) (simp add: indist_def)

lemma match_getNM [mt]: "(\<And>x pm ps. f (x\<lparr>pendingMessages := pm, pendingGroupSends := ps\<rparr>) = f x) \<Longrightarrow> match l (=) (getNM f) (getNM f)"
  by (rule match_getNM_rel) (auto simp: nm_alike_def)

lemma match_updNM_rel: "(\<And>x y. nm_alike l x y \<Longrightarrow> nm_alike l (f x) (g y)) \<Longrightarrow> match l (=) (updNM f) (updNM g)"
  unfolding updNM_def by (rule match_upd) (simp add: indist_def)

lemma match_updNM:
  assumes "\<And>x pm ps. f (x\<lparr>pendingMessages := pm, pendingGroupSends := ps\<rparr>) = (f x)\<lparr>pendingMessages := pm, pendingGroupSends := ps\<rparr>"
    and "\<And>x. pendingMessages (f x) = pendingMessages x \<and> pendingGroupSends (f x) = pendingGroupSends x"
  shows "match l (=) (updNM f) (updNM f)"
proof (rule match_updNM_rel)
  fix x y
  assume "nm_alike l x y"
  then obtain pm ps where y: "y = x\<lparr>pendingMessages := pm, pendingGroupSends := ps\<rparr>"
    "waiting_alike l (pendingMessages x) pm" "waiting_alike l (pendingGroupSends x) ps" by (auto simp: nm_alike_def)
  show "nm_alike l (f x) (f y)"
    unfolding nm_alike_def y(1) assms(1) by (intro exI conjI, rule refl) (use assms(2) [of x] y(2,3) in simp_all)
qed

lemma match_next_call [mt]: "match l (=) next_call next_call"
  by (rule matchI) (simp add: next_call_def indist_def)

lemma match_updSock [mt]: "match l (=) (updSock f) (updSock f)"
  unfolding updSock_def by (rule match_upd) (simp add: indist_def)

text \<open>Everything of the library but the cipher is the same.\<close>

lemma match_lib [mt]:
  assumes "\<And>x seal opn. f (x\<lparr>gcm_seal := seal, gcm_open := opn\<rparr>) = f x"
  shows "secret l (gets (\<lambda>s. f (lib s)))"
  by (rule match_gets) (auto simp: indist_def twins_def assms)

lemma match_evp [mt]: "match l (=) (evp msg) (evp msg)" "match l (=) (rand_bytes_or n msg) (rand_bytes_or n msg)"
  "match l (=) (or_crypto msg r) (or_crypto msg r)"
  unfolding evp_def rand_bytes_or_def or_crypto_def by (intro mt; simp)+

lemma match_crypto [mt]:
  "secret l generateAESKey" "secret l generateRSAKeypair" "secret l (encryptRSA d pk)"
  "secret l (decryptRSA d sk)" "secret l utcNow" "secret l (canonicalC x)"
  unfolding generateAESKey_def aes_generateKey_def generateRSAKeypair_def
    rsa_generateKeypair_def publicKeyToPem_def privateKeyToPem_def encryptRSA_def encryptWithPublic_def pemToPublicKey_def
    decryptRSA_def decryptWithPrivate_def pemToPrivateKey_def utcNow_def canonicalC_def canonical_def
  by (intro mt; simp add: Let_def cong: option.case_cong)+

text \<open>The places where texts may differ: under the cipher, and what an opened frame yields.\<close>

lemma match_encrypt: "alike l x y \<Longrightarrow> match l (=) (Crypto_encrypt x k) (Crypto_encrypt y k)"
proof -
  assume a: "alike l x y"
  have "match l (=) (gets (\<lambda>s. gcm_seal (lib s) k iv x)) (gets (\<lambda>s. gcm_seal (lib s) k iv y))" for iv
    by (rule match_gets) (use a in \<open>simp add: alike_def indist_def\<close>)
  then show ?thesis unfolding Crypto_encrypt_def aes_encrypt_def by (intro mt; simp)
qed

lemma match_decrypt: "match l (\<lambda>_ _. True) (Crypto_decrypt c k) (Crypto_decrypt c k)"
proof -
  have opened: "match l (rel_option (\<lambda>_ _. True)) (gets (\<lambda>s. gcm_open (lib s) k iv d tag)) (gets (\<lambda>s. gcm_open (lib s) k iv d tag))"
    for iv d tag
    by (rule match_gets) (auto simp: indist_def twins_def option.rel_sel)
  have out: "match l (\<lambda>_ _. True) (or_crypto msg x) (or_crypto msg y)" if "rel_option (\<lambda>_ _. True) x y"
    for msg and x y :: "string option"
    using that by (cases x; cases y) (auto simp: or_crypto_def match_retn mt)
  have "match l (\<lambda>_ _. True) (aes_decrypt d k) (aes_decrypt d k)" for d
    unfolding aes_decrypt_def Let_def by (intro mt match_bnd [OF opened] out)
  then show ?thesis
    unfolding Crypto_decrypt_def by (intro match_bnd_eq [OF match_lib] match_bnd match_gets; simp)
qed

section \<open>Tables that differ in texts\<close>

definition same :: "('r \<Rightarrow> 'v) \<Rightarrow> 'r list \<Rightarrow> 'r list \<Rightarrow> bool" where
  "same h xs ys \<longleftrightarrow> list_all2 (\<lambda>x y. h x = h y) xs ys"

lemma same_map: "same h xs ys \<longleftrightarrow> map h xs = map h ys"
  by (auto simp: same_def list_all2_conv_all_nth list_eq_iff_nth_eq)

lemma same_rules:
  assumes "same h xs ys"
  shows "(\<And>x y. h x = h y \<Longrightarrow> P x = Q y \<and> h (f x) = h (g y)) \<Longrightarrow> same h (update_where P f xs) (update_where Q g ys)"
    and "(\<And>x y. h x = h y \<Longrightarrow> P x = Q y) \<Longrightarrow> same h (filter P xs) (filter Q ys)"
    and "(\<And>x y. h x = h y \<Longrightarrow> P x = Q y) \<Longrightarrow> same h (delete_where P xs) (delete_where Q ys)"
    and "h a = h b \<Longrightarrow> same h (xs @ [a]) (ys @ [b])"
    and "(\<And>x y. h x = h y \<Longrightarrow> k x = k' y) \<Longrightarrow> map k xs = map k' ys"
  using assms unfolding same_def delete_where_def
  by (induction rule: list_all2_induct) (auto intro: list_all2_appendI)

lemma same_insort:
  assumes "same h xs ys" "h a = h b" "\<And>x y. h x = h y \<Longrightarrow> k x = k y"
  shows "same h (insort_key k a xs) (insort_key k b ys)"
  using assms(1) unfolding same_def
proof (induction rule: list_all2_induct)
  case (Cons x xs y ys)
  have "k a = k b" "k x = k y" using assms(2,3) Cons(1) by blast+
  then show ?case using Cons assms(2) by simp
qed (simp add: assms(2))

lemma same_sort:
  assumes "same h xs ys" "\<And>x y. h x = h y \<Longrightarrow> k x = k y"
  shows "same h (sort_key k xs) (sort_key k ys)"
  using assms(1) unfolding same_def [of h xs ys]
proof (induction rule: list_all2_induct)
  case (Cons x xs y ys)
  then show ?case using same_insort [OF _ _ assms(2)] by simp
qed (simp add: same_def)

lemma same_rev: "same h xs ys \<Longrightarrow> same h (rev xs) (rev ys)"
  by (simp add: same_map rev_map [symmetric])

lemma same_insert:
  assumes "same h xs ys" "h a = h b" "\<And>x y. h x = h y \<Longrightarrow> key x = key y"
  shows "same h (insert_or_ignore key a xs) (insert_or_ignore key b ys)"
proof -
  have "map key xs = map key ys" by (rule same_rules(5) [OF assms(1)]) (rule assms(3))
  moreover have "key a = key b" by (rule assms(3)) (rule assms(2))
  ultimately show ?thesis using same_rules(4) [OF assms(1,2)] assms(1) by (simp add: insert_or_ignore_def)
qed

lemma same_upsert:
  assumes "same h xs ys" "h a = h b" "\<And>x y. h x = h y \<Longrightarrow> key x = key y" "\<And>x y. h x = h y \<Longrightarrow> h (f x) = h (g y)"
  shows "same h (upsert key f a xs) (upsert key g b ys)"
proof -
  have ks: "map key xs = map key ys" by (rule same_rules(5) [OF assms(1)]) (rule assms(3))
  have k: "key a = key b" by (rule assms(3)) (rule assms(2))
  have "same h (update_where (\<lambda>x. key x = key a) f xs) (update_where (\<lambda>x. key x = key b) g ys)"
  proof (rule same_rules(1) [OF assms(1)])
    fix x y
    assume h: "h x = h y"
    show "(key x = key a) = (key y = key b) \<and> h (f x) = h (g y)"
      unfolding assms(3) [OF h] k by (simp add: assms(4) [OF h])
  qed
  then show ?thesis using ks k same_rules(4) [OF assms(1,2)] by (simp add: upsert_def)
qed


lemma blank_message_eq [simp]: "blank_message x = blank_message y \<longleftrightarrow> lm_peer x = lm_peer y \<and> lm_sender x = lm_sender y
    \<and> lm_timestamp x = lm_timestamp y \<and> lm_is_outgoing x = lm_is_outgoing y \<and> lm_status x = lm_status y"
  by (cases x; cases y) (auto simp: blank_message_def)

lemma blank_conversation_eq [simp]: "blank_conversation x = blank_conversation y \<longleftrightarrow> lc_peer x = lc_peer y
    \<and> lc_last_timestamp x = lc_last_timestamp y \<and> lc_unread_count x = lc_unread_count y"
  by (cases x; cases y) (auto simp: blank_conversation_def)

lemma blank_gmessage_eq [simp]: "blank_gmessage x = blank_gmessage y \<longleftrightarrow> lx_group_id x = lx_group_id y \<and> lx_sender x = lx_sender y
    \<and> lx_timestamp x = lx_timestamp y \<and> lx_is_outgoing x = lx_is_outgoing y \<and> lx_status x = lx_status y"
  by (cases x; cases y) (auto simp: blank_gmessage_def)

lemma blank_group_eq [simp]: "blank_group x = blank_group y \<longleftrightarrow> lg_group_id x = lg_group_id y \<and> lg_name x = lg_name y
    \<and> lg_role x = lg_role y \<and> lg_last_timestamp x = lg_last_timestamp y \<and> lg_unread_count x = lg_unread_count y"
  by (cases x; cases y) (auto simp: blank_group_def)

lemma blank_eq:
  "blank a = blank b \<longleftrightarrow> ac_schema a = ac_schema b \<and> same blank_message (ac_messages a) (ac_messages b)
     \<and> same blank_conversation (ac_conversations a) (ac_conversations b)
     \<and> same blank_gmessage (ac_group_messages a) (ac_group_messages b) \<and> ac_group_keys a = ac_group_keys b
     \<and> same blank_group (ac_groups a) (ac_groups b) \<and> ac_recipients a = ac_recipients b"
  by (cases a; cases b) (auto simp: blank_def same_map)

section \<open>The cache\<close>

lemma match_ls_exec:
  assumes "\<And>a b. blank a = blank b \<Longrightarrow> rel_option (\<lambda>p q. V (fst p) (fst q) \<and> blank (snd p) = blank (snd q)) (f a) (g b)"
  shows "match l (rel_option V) (ls_exec need f) (ls_exec need g)"
proof -
  have run: "match l (rel_option V)
    (\<lambda>s. case Option.bind (db_open s) (\<lambda>p. Option.bind (files s p) (\<lambda>a.
              if sqlite_fails (lib s) n \<or> \<not> set need \<subseteq> set (ac_schema a) then None
              else map_option (\<lambda>(x, a'). (p, x, a')) (f a))) of
         None \<Rightarrow> (Inr None, s)
       | Some (p, x, a') \<Rightarrow> (Inr (Some x), s\<lparr>files := (files s)(p \<mapsto> a')\<rparr>))
    (\<lambda>s. case Option.bind (db_open s) (\<lambda>p. Option.bind (files s p) (\<lambda>a.
              if sqlite_fails (lib s) n \<or> \<not> set need \<subseteq> set (ac_schema a) then None
              else map_option (\<lambda>(x, a'). (p, x, a')) (g a))) of
         None \<Rightarrow> (Inr None, s)
       | Some (p, x, a') \<Rightarrow> (Inr (Some x), s\<lparr>files := (files s)(p \<mapsto> a')\<rparr>))" for n
  proof (rule matchI, goal_cases)
    case (1 s t)
    note i = indistD [OF 1]
    show ?case
    proof (cases "db_open s")
      case None
      then show ?thesis using 1 i by simp
    next
      case (Some p)
      have fp: "map_option blank (files t p) = map_option blank (files s p)" using 1 by (simp add: indist_def)
      show ?thesis
      proof (cases "files s p")
        case None
        then show ?thesis using 1 i Some fp by simp
      next
        case (Some a)
        then obtain b where b: "files t p = Some b" "blank a = blank b" using fp by auto
        have "ac_schema b = ac_schema a" "sqlite_fails (snd l) = sqlite_fails (fst l)"
          using b(2) i(1) by (auto simp: blank_eq twins_def)
        then show ?thesis
          using 1 i Some b(1) assms [OF b(2)] \<open>db_open s = Some p\<close>
          by (auto simp: option_rel_Some1 option_rel_Some2 rel_option_iff indist_def split: option.splits)
      qed
    qed
  qed
  show ?thesis unfolding ls_exec_def by (rule match_bnd_eq [OF match_next_call run])
qed

lemma match_write:
  "(\<And>a b. blank a = blank b \<Longrightarrow> blank (f a) = blank (g b)) \<Longrightarrow> match l (=) (ls_write need f) (ls_write need g)"
  unfolding ls_write_def by (rule match_bnd [OF match_ls_exec [where V = "(=)"]]) (auto simp: match_retn)

lemma match_read:
  "V d d' \<Longrightarrow> (\<And>a b. blank a = blank b \<Longrightarrow> V (f a) (g b)) \<Longrightarrow> match l V (ls_read need d f) (ls_read need d' g)"
  unfolding ls_read_def by (rule match_bnd [OF match_ls_exec [where V = V]]) (auto simp: match_retn split: option.splits)


named_theorems sto \<open>rules for tables\<close>

lemmas [sto] = same_rules(1-4) same_sort same_rev same_insert same_upsert

lemma sort_desc_same: "same h xs ys \<Longrightarrow> (\<And>x y. h x = h y \<Longrightarrow> k x = k y) \<Longrightarrow> same h (sort_desc k xs) (sort_desc k ys)"
  unfolding sort_desc_def by (intro same_rev same_sort)

lemma blank_keys:
  assumes "blank a = blank b"
  shows "map msg_key (ac_messages a) = map msg_key (ac_messages b)" "map gm_key (ac_group_messages a) = map gm_key (ac_group_messages b)"
    "map lm_timestamp (ac_messages a) = map lm_timestamp (ac_messages b)"
    "map lx_timestamp (ac_group_messages a) = map lx_timestamp (ac_group_messages b)"
  using assms unfolding blank_eq
  by (auto intro!: same_rules(5) [of blank_message] same_rules(5) [of blank_gmessage] simp: msg_key_def gm_key_def)

lemma same_map_rows [sto]: "same h xs ys \<Longrightarrow> (\<And>x y. h x = h y \<Longrightarrow> h (f x) = h (g y)) \<Longrightarrow> same h (map f xs) (map g ys)"
  unfolding same_def by (induction rule: list_all2_induct) auto

lemma match_texts:
  "match l (=) (saveMessage p u c t b st) (saveMessage p u c' t b st)"
  "match l (=) (saveConversation p c t) (saveConversation p c' t)"
  "match l (=) (saveGroupMessage g u c t b) (saveGroupMessage g u c' t b)"
  unfolding saveMessage_def saveConversation_def saveGroupMessage_def Let_def
  by (intro match_write mt; simp add: blank_eq; intro conjI impI sto; simp add: msg_key_def gm_key_def)+

lemma match_storage [mt]:
  "secret l (saveMessage p u c t b st)" "secret l (saveConversation p c t)" "secret l (saveGroupMessage g u c t b)"
  by (rule match_texts)+

lemma match_updates [mt]:
  "secret l (updateGroupMessageStatus g t st)" "secret l (saveGroupKey g k)" "secret l (saveGroup g n r)"
  "secret l (LS_deleteConversation p)" "secret l (removeGroup g)" "secret l (saveRecipientSnapshot g t ms)"
  "secret l (markRecipientDelivered g t u)" "secret l (markRecipientSeen g t u)"
  unfolding updateGroupMessageStatus_def saveGroupKey_def saveGroup_def LS_deleteConversation_def removeGroup_def
    saveRecipientSnapshot_def markRecipientDelivered_def markRecipientSeen_def
  by (intro match_write mt; simp add: blank_eq; intro conjI impI sto; simp)+

lemma match_read_eq:
  assumes "\<And>a b. blank a = blank b \<Longrightarrow> f a = f b"
  shows "secret l (ls_read need d f)"
  by (rule match_read, rule refl, rule assms)

lemma match_read_keys:
  assumes "\<And>a b. map msg_key (ac_messages a) = map msg_key (ac_messages b) \<Longrightarrow>
      map gm_key (ac_group_messages a) = map gm_key (ac_group_messages b) \<Longrightarrow>
      map lm_timestamp (ac_messages a) = map lm_timestamp (ac_messages b) \<Longrightarrow>
      map lx_timestamp (ac_group_messages a) = map lx_timestamp (ac_group_messages b) \<Longrightarrow> f a = f b"
  shows "secret l (ls_read need d f)"
  by (rule match_read_eq, rule assms) (rule blank_keys, assumption)+

lemma match_reads [mt]:
  "secret l newestTimestamp" "secret l (isDuplicate p u t)" "secret l (loadGroupKey g)" "secret l (isGroupMessageDuplicate g u t)"
  "secret l (recipientCount g t)" "secret l (allRecipientsDelivered g t)" "secret l (allRecipientsSeen g t)"
proof -
  show 1: "secret l (recipientCount g t)" unfolding recipientCount_def recipients_of_def
    by (rule match_read_eq) (simp add: blank_eq)
  have 2: "secret l (all_recipients flag g t)" for flag unfolding all_recipients_def recipients_of_def
    by (intro mt 1 match_read_eq) (simp add: blank_eq)
  then show "secret l (allRecipientsDelivered g t)" "secret l (allRecipientsSeen g t)"
    by (simp_all add: allRecipientsDelivered_def allRecipientsSeen_def)
  show "secret l newestTimestamp" "secret l (isDuplicate p u t)" "secret l (isGroupMessageDuplicate g u t)"
    unfolding newestTimestamp_def isDuplicate_def isGroupMessageDuplicate_def
    by (rule match_read_keys; simp only:)+
  show "secret l (loadGroupKey g)" unfolding loadGroupKey_def by (rule match_read_eq) (simp add: blank_eq)
qed

lemma match_removeRecipients [mt]: "secret l (removeRecipientsNotIn g ms)"
  unfolding removeRecipientsNotIn_def Let_def
  by (intro mt match_read_eq match_write) (simp_all add: blank_eq)

text \<open>Loading: the texts differ, what the client computes with does not.\<close>

lemma match_loads:
  "match l (\<lambda>_ _. True) (loadMessages p) (loadMessages p)" "match l (\<lambda>_ _. True) (loadGroupMessages g) (loadGroupMessages g)"
  "match l (list_all2 (\<lambda>x y. lc_peer x = lc_peer y)) loadConversations loadConversations"
  "match l (list_all2 (\<lambda>x y. gc_groupId x = gc_groupId y \<and> gc_name x = gc_name y)) loadGroups loadGroups"
proof -
  show "match l (\<lambda>_ _. True) (loadMessages p) (loadMessages p)" "match l (\<lambda>_ _. True) (loadGroupMessages g) (loadGroupMessages g)"
    unfolding loadMessages_def loadGroupMessages_def by (rule match_read; simp)+
  have "same blank_conversation (sort_desc lc_last_timestamp (ac_conversations a)) (sort_desc lc_last_timestamp (ac_conversations b))"
    "same blank_group (sort_desc lg_last_timestamp (ac_groups a)) (sort_desc lg_last_timestamp (ac_groups b))"
    if "blank a = blank b" for a b
    using that by (auto simp: blank_eq intro: sort_desc_same)
  note sorted = this [unfolded same_def]
  show "match l (list_all2 (\<lambda>x y. lc_peer x = lc_peer y)) loadConversations loadConversations"
    unfolding loadConversations_def
    by (rule match_read, simp, rule list_all2_mono [OF sorted(1)]) simp_all
  show "match l (list_all2 (\<lambda>x y. gc_groupId x = gc_groupId y \<and> gc_name x = gc_name y)) loadGroups loadGroups"
    unfolding loadGroups_def
    by (rule match_read, simp, unfold list_all2_map1 list_all2_map2, rule list_all2_mono [OF sorted(2)]) simp_all
qed


text \<open>Opening an account: the schema does not depend on the texts.\<close>

lemma match_exec:
  fixes f :: "account \<Rightarrow> (unit \<times> account) option"
  assumes "\<And>a b. blank a = blank b \<Longrightarrow> rel_option (\<lambda>p q. blank (snd p) = blank (snd q)) (f a) (f b)"
  shows "secret l (ls_exec need f)"
  using match_ls_exec [of "(=)" f f l need] assms by (simp add: option.rel_eq)

lemma match_create_table: "secret l (create_table tb cols)"
  unfolding create_table_def by (intro mt match_exec) (simp add: blank_eq)

lemma match_create_index:
  assumes "\<And>a b. blank a = blank b \<Longrightarrow> uniq a = uniq b"
  shows "secret l (create_unique_index tb i uniq)"
  unfolding create_unique_index_def
proof (intro mt match_exec)
  fix a b
  assume ab: "blank a = blank b"
  show "rel_option (\<lambda>p q. blank (snd p) = blank (snd q))
      (if i \<in> set (ac_schema a) then Some ((), a) else if uniq a then Some ((), a\<lparr>ac_schema := i # ac_schema a\<rparr>) else None)
      (if i \<in> set (ac_schema b) then Some ((), b) else if uniq b then Some ((), b\<lparr>ac_schema := i # ac_schema b\<rparr>) else None)"
    using ab assms [OF ab] by (simp add: blank_eq)
qed

lemma match_add_column:
  assumes "\<And>a b. blank a = blank b \<Longrightarrow> blank (df a) = blank (df b)"
  shows "secret l (add_column tb col df)"
  unfolding add_column_def
proof (intro mt match_exec)
  fix a b
  assume ab: "blank a = blank b"
  then have "blank (a\<lparr>ac_schema := col # ac_schema a\<rparr>) = blank (b\<lparr>ac_schema := col # ac_schema b\<rparr>)" by (simp add: blank_eq)
  from assms [OF this] show "rel_option (\<lambda>p q. blank (snd p) = blank (snd q))
      (if col \<in> set (ac_schema a) then None else Some ((), df (a\<lparr>ac_schema := col # ac_schema a\<rparr>)))
      (if col \<in> set (ac_schema b) then None else Some ((), df (b\<lparr>ac_schema := col # ac_schema b\<rparr>)))"
    using ab by (simp add: blank_eq)
qed

lemma match_schema: "secret l createSchema"
proof -
  have u: "distinct (map msg_key (ac_messages a)) = distinct (map msg_key (ac_messages b))"
    "distinct (map gm_key (ac_group_messages a)) = distinct (map gm_key (ac_group_messages b))" if "blank a = blank b" for a b
    unfolding blank_keys [OF that] by (rule refl)+
  have d: "blank (a\<lparr>ac_conversations := map (\<lambda>r. r\<lparr>lc_unread_count := 0\<rparr>) (ac_conversations a)\<rparr>) =
      blank (b\<lparr>ac_conversations := map (\<lambda>r. r\<lparr>lc_unread_count := 0\<rparr>) (ac_conversations b)\<rparr>)"
    "blank (a\<lparr>ac_group_messages := map (\<lambda>r. r\<lparr>lx_status := ''sent''\<rparr>) (ac_group_messages a)\<rparr>) =
      blank (b\<lparr>ac_group_messages := map (\<lambda>r. r\<lparr>lx_status := ''sent''\<rparr>) (ac_group_messages b)\<rparr>)"
    "blank (a\<lparr>ac_groups := map (\<lambda>r. r\<lparr>lg_unread_count := 0\<rparr>) (ac_groups a)\<rparr>) =
      blank (b\<lparr>ac_groups := map (\<lambda>r. r\<lparr>lg_unread_count := 0\<rparr>) (ac_groups b)\<rparr>)" if "blank a = blank b" for a b
    using that unfolding blank_eq by (simp, intro sto; simp)+
  show ?thesis
    unfolding createSchema_def require_def
    by (intro mt match_create_table match_create_index match_add_column u d)
qed

lemma match_close [mt]: "secret l LocalStorage_close"
  unfolding LocalStorage_close_def by (rule match_upd) (simp add: indist_def)

lemma match_open [mt]: "secret l (openForUser u)"
proof -
  have "match l (=) (gets db_open) (gets db_open)" by (rule match_gets) (simp add: indistD)
  moreover have "secret l (gets (\<lambda>s. account_path (lib s) u))" "secret l (gets (\<lambda>s. sqlite_fails (lib s) n))" for n
    by (rule match_lib; simp add: account_path_def)+
  moreover have "secret l (upd (\<lambda>s. s\<lparr>files := (if files s p = None then (files s)(p \<mapsto> empty_account) else files s),
      db_open := Some p\<rparr>))" for p
  proof (rule match_upd)
    fix s t
    assume i: "indist l s t"
    then have "\<And>q. map_option blank (files t q) = map_option blank (files s q)" by (simp add: indist_def)
    then have "files t p = None \<longleftrightarrow> files s p = None" by (metis map_option_is_None)
    then show "indist l (s\<lparr>files := (if files s p = None then (files s)(p \<mapsto> empty_account) else files s), db_open := Some p\<rparr>)
        (t\<lparr>files := (if files t p = None then (files t)(p \<mapsto> empty_account) else files t), db_open := Some p\<rparr>)"
      using i by (simp add: indist_def)
  qed
  ultimately show ?thesis
    unfolding openForUser_def by (intro mt match_schema match_write; simp add: account_path_def)
qed


section \<open>The client\<close>

text \<open>The members the texts wait in are touched only by sending and queueing.\<close>

lemma match_send [mt]: "secret l (sendPacket p)" "secret l (show_error m)" "secret l isConnected" "secret l (packet_from_me t)"
proof -
  show c: "secret l isConnected" unfolding isConnected_def by (rule match_gets) (simp add: indistD)
  show e: "secret l (show_error m)" for m unfolding show_error_def by (intro mt match_updNM) simp_all
  show "secret l (sendPacket p)" unfolding sendPacket_def by (intro mt c e)
  show "secret l (packet_from_me t)" unfolding packet_from_me_def by (intro mt) simp
qed

lemma match_persist: "match l (=) (persistMessage p u c t b) (persistMessage p u c' t b)"
  unfolding persistMessage_def by (intro mt match_texts)

lemma match_simple [mt]:
  "secret l (connectToServer url)" "secret l (sendRegister u pw)" "secret l (sendLogin u pw)" "secret l (fetchPeerKey u)"
  "secret l sendSyncHistory" "secret l (markConversationRead q)" "secret l (kickMember g u)" "secret l (grantAdmin g u)"
  "secret l (revokeAdmin g u)" "secret l (leaveGroup g)" "secret l (deleteGroup g)" "secret l (fetchGroupInfo g)"
  "secret l (deleteConversation q)" "secret l (deleteConversationForEveryone q)" "secret l onConnected"
  "secret l onDisconnected" "secret l onReconnectTimer" "secret l (onSslErrors es)" "secret l (onReachabilityChanged on)"
  "secret l (timestamp_or_now t)" "secret l (packet_time p)" "secret l (requestGroupKey g)"
  "secret l (remember_group_key g k)" "secret l (forget_key_request g)"
  unfolding connectToServer_def sendRegister_def sendLogin_def fetchPeerKey_def
    sendSyncHistory_def markConversationRead_def kickMember_def grantAdmin_def revokeAdmin_def
    leaveGroup_def deleteGroup_def fetchGroupInfo_def deleteConversation_def deleteConversationForEveryone_def
    onConnected_def onDisconnected_def onReconnectTimer_def onSslErrors_def onReachabilityChanged_def
    timestamp_or_now_def packet_time_def requestGroupKey_def remember_group_key_def forget_key_request_def fetchPeerKey_def
    fetchGroupInfo_def
  by (intro mt match_updNM; simp)+

lemma match_encryptAndSend:
  assumes "alike l x y"
  shows "match l (=) (encryptAndSend to x ts) (encryptAndSend to y ts)"
  unfolding encryptAndSend_def by (intro mt match_encrypt [OF assms] match_persist match_updNM; simp)


lemma waiting_rules:
  assumes "waiting_alike l m n"
  shows "alike l x y \<Longrightarrow> waiting_alike l (qappend k (x, ts) m) (qappend k (y, ts) n)"
    and "waiting_alike l (m(k := None)) (n(k := None))"
    and "rel_option (list_all2 (\<lambda>a b. alike l (fst a) (fst b) \<and> snd a = snd b)) (m k) (n k)"
proof -
  have r: "rel_option (list_all2 (\<lambda>a b. alike l (fst a) (fst b) \<and> snd a = snd b)) (m j) (n j)" for j
    using assms by (simp add: waiting_alike_def)
  then show "rel_option (list_all2 (\<lambda>a b. alike l (fst a) (fst b) \<and> snd a = snd b)) (m k) (n k)" .
  show "waiting_alike l (m(k := None)) (n(k := None))" using r by (simp add: waiting_alike_def)
  show "waiting_alike l (qappend k (x, ts) m) (qappend k (y, ts) n)" if "alike l x y"
    using r [of k] r that
    by (cases "m k"; cases "n k") (auto simp: waiting_alike_def qappend_def qvalue_def intro!: list_all2_appendI)
qed

lemma match_option_rel:
  assumes "rel_option R r r'" "match l V m n" "\<And>x y. R x y \<Longrightarrow> match l V (f x) (g y)"
  shows "match l V (case r of None \<Rightarrow> m | Some x \<Rightarrow> f x) (case r' of None \<Rightarrow> n | Some y \<Rightarrow> g y)"
  using assms by (cases r; cases r') auto

lemma nm_alikeE:
  assumes "nm_alike l x y"
  obtains pm ps where "y = x\<lparr>pendingMessages := pm, pendingGroupSends := ps\<rparr>"
    "waiting_alike l (pendingMessages x) pm" "waiting_alike l (pendingGroupSends x) ps"
  using assms by (auto simp: nm_alike_def)

lemma nm_alikeI: "y = x\<lparr>pendingMessages := pm, pendingGroupSends := ps\<rparr> \<Longrightarrow>
    waiting_alike l (pendingMessages x) pm \<Longrightarrow> waiting_alike l (pendingGroupSends x) ps \<Longrightarrow> nm_alike l x y"
  by (auto simp: nm_alike_def)

lemma nm_alike_waiting: "nm_alike l x y \<Longrightarrow> waiting_alike l (pendingMessages x) (pendingMessages y)"
  "nm_alike l x y \<Longrightarrow> waiting_alike l (pendingGroupSends x) (pendingGroupSends y)"
  by (auto elim!: nm_alikeE)

lemma nm_alike_update:
  assumes "nm_alike l x y"
  shows "waiting_alike l m n \<Longrightarrow> nm_alike l (x\<lparr>pendingMessages := m\<rparr>) (y\<lparr>pendingMessages := n\<rparr>)"
    and "waiting_alike l m n \<Longrightarrow> nm_alike l (x\<lparr>pendingGroupSends := m\<rparr>) (y\<lparr>pendingGroupSends := n\<rparr>)"
  using assms by (cases x, cases y, auto simp: nm_alike_def)+

text \<open>Filing a text, and clearing what waited under a key.\<close>

lemma match_file:
  assumes "alike l x y"
  shows "match l (=) (updNM (\<lambda>z. z\<lparr>pendingMessages := qappend k (x, ts) (pendingMessages z)\<rparr>))
      (updNM (\<lambda>z. z\<lparr>pendingMessages := qappend k (y, ts) (pendingMessages z)\<rparr>))"
    and "match l (=) (updNM (\<lambda>z. z\<lparr>pendingGroupSends := qappend k (x, ts) (pendingGroupSends z)\<rparr>))
      (updNM (\<lambda>z. z\<lparr>pendingGroupSends := qappend k (y, ts) (pendingGroupSends z)\<rparr>))"
  by (intro match_updNM_rel nm_alike_update waiting_rules(1) nm_alike_waiting assms; assumption)+

lemma match_clear:
  "secret l (updNM (\<lambda>z. z\<lparr>pendingMessages := (pendingMessages z)(k := None)\<rparr>))"
  "secret l (updNM (\<lambda>z. z\<lparr>pendingGroupSends := (pendingGroupSends z)(k := None)\<rparr>))"
  by (intro match_updNM_rel nm_alike_update waiting_rules(2) nm_alike_waiting; assumption)+

lemma match_waiting:
  "match l (rel_option (list_all2 (\<lambda>a b. alike l (fst a) (fst b) \<and> snd a = snd b)))
     (getNM (\<lambda>x. pendingMessages x k)) (getNM (\<lambda>x. pendingMessages x k))"
  "match l (rel_option (list_all2 (\<lambda>a b. alike l (fst a) (fst b) \<and> snd a = snd b)))
     (getNM (\<lambda>x. pendingGroupSends x k)) (getNM (\<lambda>x. pendingGroupSends x k))"
  by (rule match_getNM_rel, erule nm_alikeE, simp add: waiting_rules(3))+

lemma match_sendMessage: "alike l x y \<Longrightarrow> match l (=) (sendMessage to x ts) (sendMessage to y ts)"
  unfolding sendMessage_def by (intro mt match_file match_encryptAndSend; simp)

lemma match_sendGroup:
  assumes "alike l x y"
  shows "match l (=) (sendGroupMessage g x ts) (sendGroupMessage g y ts)"
  unfolding sendGroupMessage_def queue_group_send_def send_with_key_def
  by (intro mt match_file match_encrypt match_texts assms; simp)

lemma match_settings [mt]: "secret l (settings_bytes k)" "secret l (settings_set k v)" "secret l (settings_remove k)"
  unfolding settings_bytes_def settings_set_def settings_remove_def
  by (rule match_gets, simp add: indist_def) (rule match_upd, simp add: indist_def fun_eq_iff)+

lemma match_history [mt]: "secret l loadLocalHistory"
proof -
  have c: "match l (=) (load_conversation x) (load_conversation y)" if "lc_peer x = lc_peer y" for x y
    unfolding load_conversation_def that
    by (intro mt match_bnd [OF match_loads(1)] match_bnd_eq [OF match_emit_all]) simp
  have g: "match l (=) (load_group x) (load_group y)" if "gc_groupId x = gc_groupId y \<and> gc_name x = gc_name y" for x y
    unfolding load_group_def that [THEN conjunct1] that [THEN conjunct2]
    by (intro mt match_updNM match_bnd [OF match_loads(2)] match_bnd_eq [OF match_emit_all]) simp_all
  show ?thesis
    unfolding loadLocalHistory_def
    by (intro match_bnd [OF match_loads(3)] match_bnd [OF match_loads(4)] match_bnd_eq [OF match_for_each_rel] match_for_each_rel)
      (assumption | rule c g)+
qed

lemma match_login [mt]: "secret l loadOrGenerateKeypair" "secret l (handleLoginAck p)" "secret l logout"
proof -
  show k: "secret l loadOrGenerateKeypair" unfolding loadOrGenerateKeypair_def by (intro mt match_updNM; simp)
  show "secret l (handleLoginAck p)" unfolding handleLoginAck_def by (intro mt k match_updNM; simp)
  have "secret l (updNM (\<lambda>x. x\<lparr>currentUsername := [], ownPrivKey := [], ownPubKey := [], peerKeys := Map.empty,
            pendingMessages := Map.empty, unreadTimestamps := Map.empty, groupKeys := Map.empty\<rparr>))"
    by (rule match_updNM_rel, erule nm_alikeE, rule nm_alikeI [where pm = Map.empty]) (simp_all add: waiting_alike_def)
  then show "secret l logout" unfolding logout_def by (intro mt)
qed


lemma match_kept [mt]: "secret l (persistMessage p u c t b)" "secret l (store_echo p u c t)"
  unfolding store_echo_def by (intro mt match_persist)+

text \<open>What an opened frame yields goes to the cache and to the screen.\<close>

lemma match_open_message: "match l (\<lambda>_ _. True) (open_message k p) (open_message k p)"
  unfolding open_message_def unwrap_key_def by (intro mt match_decrypt; simp)

lemma match_store_echo: "match l (=) (store_echo q u x t) (store_echo q u y t)"
  unfolding store_echo_def by (intro mt match_persist)

lemma match_incoming [mt]:
  "secret l (unwrap_key k)" "secret l (handleIncomingMessage p)" "secret l (recomputeGroupAggregate g t)"
  "secret l (handleReadReceipt p)" "secret l (handleGroupSendAck p)" "secret l (handleGroupDelivered p)"
  "secret l (handleGroupMessage p)" "secret l (handleGroupInfo p)" "secret l (handleGroupLeave p)"
  "secret l (handleDeleteConversation p)"
proof -
  show u: "secret l (unwrap_key k)" for k unfolding unwrap_key_def by (intro mt; simp)
  show "secret l (handleIncomingMessage p)"
    unfolding handleIncomingMessage_def handle_echo_def handle_received_def
    by (intro match_bnd [OF match_open_message] match_store_echo match_bnd_eq [OF match_persist] mt match_updNM; simp)
  show r: "secret l (recomputeGroupAggregate g t)" for g t unfolding recomputeGroupAggregate_def by (intro mt)
  show "secret l (handleReadReceipt p)" "secret l (handleGroupSendAck p)" "secret l (handleGroupDelivered p)"
    unfolding handleReadReceipt_def handleGroupSendAck_def handleGroupDelivered_def Let_def by (intro mt r)+
  show "secret l (handleGroupMessage p)"
    unfolding handleGroupMessage_def group_key_or_buffer_def receive_with_key_def buffer_group_packet_def
    by (intro match_bnd [OF match_decrypt] match_bnd_eq [OF match_texts(3)] mt match_updNM; simp)
  show "secret l (handleGroupInfo p)" unfolding handleGroupInfo_def Let_def by (intro mt r match_updNM; simp)
  show "secret l (handleGroupLeave p)" unfolding handleGroupLeave_def rotateGroupKey_def by (intro mt match_updNM; simp)
  show "secret l (handleDeleteConversation p)" unfolding handleDeleteConversation_def by (intro mt)
qed

text \<open>When a key arrives, what waited for it goes out, equally encrypted.\<close>

lemma match_drain [mt]: "secret l (drain_group g)"
proof -
  have each: "match l (=) (for_each (\<lambda>(msg, ts). sendGroupMessage g msg ts) xs) (for_each (\<lambda>(msg, ts). sendGroupMessage g msg ts) ys)"
    if "list_all2 (\<lambda>a b. alike l (fst a) (fst b) \<and> snd a = snd b) xs ys" for xs ys
    by (rule match_for_each_rel [OF that]) (auto simp: split_beta intro: match_sendGroup)
  have sends: "match l (=) (case ms of None \<Rightarrow> retn () | Some ms \<Rightarrow>
        bnd (updNM (\<lambda>x. x\<lparr>pendingGroupSends := (pendingGroupSends x)(g := None)\<rparr>)) (\<lambda>_.
        for_each (\<lambda>(msg, ts). sendGroupMessage g msg ts) ms))
      (case ns of None \<Rightarrow> retn () | Some ms \<Rightarrow>
        bnd (updNM (\<lambda>x. x\<lparr>pendingGroupSends := (pendingGroupSends x)(g := None)\<rparr>)) (\<lambda>_.
        for_each (\<lambda>(msg, ts). sendGroupMessage g msg ts) ms))"
    if "rel_option (list_all2 (\<lambda>a b. alike l (fst a) (fst b) \<and> snd a = snd b)) ms ns" for ms ns
    by (rule match_option_rel [OF that match_retn_eq]) (rule match_bnd_eq [OF match_clear(2) each])
  show ?thesis
    unfolding drain_group_def
    by (intro match_bnd [OF match_waiting(2)] sends mt match_updNM; (assumption | simp))
qed

lemma match_keys [mt]:
  "secret l (handleGroupInvite p)" "secret l (handleGroupKeyExchange p)" "secret l (sendCreateGroupPacket pg)"
  "secret l (createGroup n ms)" "secret l (addGroupMember g u)" "secret l (handleKeyExchangeResponse p)"
proof -
  show "secret l (handleGroupInvite p)" "secret l (handleGroupKeyExchange p)"
    unfolding handleGroupInvite_def handleGroupKeyExchange_def Let_def by (intro mt match_updNM; simp)+
  show s: "secret l (sendCreateGroupPacket pg)" for pg unfolding sendCreateGroupPacket_def
    by (intro mt; simp add: key_part_def [abs_def])
  have "secret l (collect_keys ms pg)" for ms pg
  proof (induction ms arbitrary: pg)
    case (Cons m ms)
    show ?case unfolding collect_keys.simps by (intro mt Cons; simp)
  qed (simp add: mt)
  then show "secret l (createGroup n ms)"
    unfolding createGroup_def finish_creation_def by (intro mt s match_updNM; simp)
  show a: "secret l (addGroupMember g u)" for g u unfolding addGroupMember_def
    by (intro mt match_updNM; simp add: key_part_def)
  have each: "match l (=) (for_each (\<lambda>(msg, ts). encryptAndSend u msg ts) xs) (for_each (\<lambda>(msg, ts). encryptAndSend u msg ts) ys)"
    if "list_all2 (\<lambda>a b. alike l (fst a) (fst b) \<and> snd a = snd b) xs ys" for xs ys u
    by (rule match_for_each_rel [OF that]) (auto simp: split_beta intro: match_encryptAndSend)
  have waiting: "match l (=) (case ms of None \<Rightarrow> retn () | Some ms \<Rightarrow>
        bnd (updNM (\<lambda>x. x\<lparr>pendingMessages := (pendingMessages x)(u := None)\<rparr>)) (\<lambda>_.
        for_each (\<lambda>(msg, ts). encryptAndSend u msg ts) ms))
      (case ns of None \<Rightarrow> retn () | Some ms \<Rightarrow>
        bnd (updNM (\<lambda>x. x\<lparr>pendingMessages := (pendingMessages x)(u := None)\<rparr>)) (\<lambda>_.
        for_each (\<lambda>(msg, ts). encryptAndSend u msg ts) ms))"
    if "rel_option (list_all2 (\<lambda>a b. alike l (fst a) (fst b) \<and> snd a = snd b)) ms ns" for ms ns u
    by (rule match_option_rel [OF that match_retn_eq]) (rule match_bnd_eq [OF match_clear(1) each])
  show "secret l (handleKeyExchangeResponse p)"
    unfolding handleKeyExchangeResponse_def supply_key_def Let_def
    by (intro match_bnd [OF match_waiting(1)] waiting mt s a match_updNM; (assumption | simp))
qed

lemma match_frame [mt]: "secret l (onTextMessageReceived t0 m)"
proof -
  have a: "secret l (handleAck p)" for p unfolding handleAck_def by (intro mt match_updNM; simp)
  have "secret l (handlePacket p)" for p
    unfolding handlePacket_def by (cases "ptype p"; simp only: PacketType.case; intro mt a)
  then show ?thesis
    unfolding onTextMessageReceived_def
    by (cases "read_packet t0 (istream_of m)"; cases "fst (read_packet t0 (istream_of m))")
      (auto intro!: mt match_updNM)
qed


section \<open>Events\<close>

text \<open>Two users do the same, but may type different texts.\<close>

definition event_alike :: "libraries \<Rightarrow> client_event \<Rightarrow> client_event \<Rightarrow> bool" where
  "event_alike l e f \<longleftrightarrow>
     (case e of
        Send to x ts \<Rightarrow> \<exists>y. f = Send to y ts \<and> alike l x y
      | Send_group g x ts \<Rightarrow> \<exists>y. f = Send_group g y ts \<and> alike l x y
      | _ \<Rightarrow> f = e)"

primrec client_run :: "client_event list \<Rightarrow> client \<Rightarrow> client" where
  "client_run [] s = s"
| "client_run (e # es) s = client_run es (snd (client_turn e s))"

lemma match_turn: "event_alike l e f \<Longrightarrow> match l (=) (client_turn e) (client_turn f)"
  by (cases e) (auto simp: event_alike_def intro!: mt match_sendMessage match_sendGroup)

lemma indist_run:
  "list_all2 (event_alike l) es fs \<Longrightarrow> indist l s t \<Longrightarrow> indist l (client_run es s) (client_run fs t)"
proof (induction arbitrary: s t rule: list_all2_induct)
  case (Cons e es f fs)
  have "indist l (snd (client_turn e s)) (snd (client_turn f t))"
    using match_turn [OF Cons(1)] Cons(4) by (auto simp: match_def)
  then show ?case using Cons(3) by simp
qed simp

text \<open>
  C3. Texts leave the client only under the cipher.  Take two clients whose caches, screens and
  waiting messages differ in nothing but the texts, with ciphers that open the same frames, and let
  their users do the same but type different texts which the two ciphers turn into the same
  ciphertexts.  Whatever arrives from the network, both hand exactly the same frames to their sockets,
  ask the same of them and leave the same settings on the disk.
\<close>

theorem texts_confined:
  assumes "indist l s t" "list_all2 (event_alike l) es fs"
  shows "sock (client_run es s) = sock (client_run fs t) \<and> settings (client_run es s) = settings (client_run fs t)"
  using indist_run [OF assms(2,1)] by (simp add: indist_def)

text \<open>
  Witness of C3: the second client uses a cipher that reverses the texts, its cache holds another
  text and its user types the reverse.
\<close>

definition reversing_library :: library where
  "reversing_library = example_library
     \<lparr>gcm_seal := (\<lambda>k iv d. (rev d, replicate TAG_SIZE (CHR ''t''))), gcm_open := (\<lambda>k iv c t. Some (rev c))\<rparr>"

definition example_pair :: "library \<Rightarrow> string \<Rightarrow> client" where
  "example_pair l c = example_bob
     \<lparr>lib := l, files := [''f'' \<mapsto> empty_account\<lparr>ac_schema := full_schema, ac_messages :=
        [\<lparr>lm_peer = ''alice'', lm_sender = ''alice'', lm_content = c, lm_timestamp = ''t'', lm_is_outgoing = False, lm_status = ''sent''\<rparr>]\<rparr>],
      nm := (nm example_bob)\<lparr>peerKeys := [''alice'' \<mapsto> int_str 1]\<rparr>\<rparr>"

lemma texts_confined_witness:
  "sock (client_run [Send ''alice'' ''abc'' ''t'', Sync] (example_pair example_library ''yes''))
     = sock (client_run [Send ''alice'' ''cba'' ''t'', Sync] (example_pair reversing_library ''never''))"
proof -
  let ?l = "(example_library, reversing_library)"
  have "twins ?l" by (simp add: twins_def reversing_library_def example_library_def)
  moreover have "nm_alike ?l (nm (example_pair a c)) (nm (example_pair b d))" for a b c d
    by (rule nm_alikeI [where pm = Map.empty and ps = Map.empty])
      (simp_all add: example_pair_def example_bob_def example_client_def waiting_alike_def)
  ultimately have "indist ?l (example_pair example_library ''yes'') (example_pair reversing_library ''never'')"
    by (simp add: indist_def) (simp add: example_pair_def blank_def blank_message_def)
  moreover have "list_all2 (event_alike ?l) [Send ''alice'' ''abc'' ''t'', Sync] [Send ''alice'' ''cba'' ''t'', Sync]"
    by (simp add: event_alike_def alike_def reversing_library_def example_library_def)
  ultimately show ?thesis by (rule texts_confined [THEN conjunct1])
qed

end
