(* ===== verification/Replay.thy ===== *)
theory Replay
  imports ClientMessages
begin

text \<open>
  A device that catches up: the packets the server replays are taken one after the other, and the
  cache ends up with every message among them but notes to oneself, whichever of them it had before.
\<close>

section \<open>What stays while messages come in\<close>

definition same_user :: "client \<Rightarrow> client \<Rightarrow> bool" where
  "same_user s t \<longleftrightarrow> lib t = lib s \<and> sock t = sock s \<and> currentUsername (nm t) = currentUsername (nm s)
     \<and> ownPrivKey (nm t) = ownPrivKey (nm s) \<and> groupKeys (nm t) = groupKeys (nm s)
     \<and> pendingGroupPackets (nm t) = pendingGroupPackets (nm s) \<and> prefix (signals s) (signals t)"

interpretation su: step_preorder same_user
  by unfold_locales (auto simp: same_user_def intro: prefix_order.trans)

lemma called_su: "keeps called m \<Longrightarrow> keeps same_user m"
  by (erule keeps_weaken) (simp add: same_user_def called_simps)

lemma storage_su: "keeps ls_step m \<Longrightarrow> keeps same_user m"
  by (erule keeps_weaken) (simp add: same_user_def ls_step_simps)

lemma emit_su: "keeps same_user (emit x)"
  by (simp add: keeps_wp wp_client same_user_def)

lemma persist_su: "keeps same_user (persistMessage q u c t b)"
  unfolding persistMessage_def by (intro storage_su lss.rules storage_step)

lemma unread_su: "keeps same_user (updNM (\<lambda>x. x\<lparr>unreadTimestamps := g x\<rparr>))"
  by (simp add: keeps_wp wp_client same_user_def)

lemma utcNow_su: "keeps same_user utcNow"
  by (simp add: keeps_wp utcNow_def next_call_def wp same_user_def)

lemma incoming_su: "keeps same_user (handleIncomingMessage p)"
  unfolding handleIncomingMessage_def handle_echo_def handle_received_def store_echo_def packet_time_def canonicalC_def getNM_def
    catch_all_def
  by (intro su.rules called_su [OF open_message_cl(2)] persist_su emit_su unread_su storage_su [OF messages_step(9)] utcNow_su)


section \<open>One packet\<close>

text \<open>The packet carries the text \<open>x\<close> for the key pair \<open>q\<close> in a key field without separator.\<close>

definition readable :: "library \<Rightarrow> int \<Rightarrow> Packet \<Rightarrow> string \<Rightarrow> bool" where
  "readable l q p x \<longleftrightarrow> fromUtf8 l x = x
     \<and> (\<exists>aes k. length aes = KEY_SIZE \<and> seals l aes (pbody p) x \<and> oaep_decrypt l q k = Some aes \<and> pkey p = toBase64 l k)"

definition replayed :: "Packet \<Rightarrow> bool" where
  "replayed p \<longleftrightarrow> wf_packet p \<and> ptype p = MESSAGE \<and> ptimestamp p \<noteq> []"

text \<open>What the account is after the packet with that text.\<close>

definition absorb :: "library \<Rightarrow> string \<Rightarrow> Packet \<times> string \<Rightarrow> account \<Rightarrow> account" where
  "absorb l me px a =
     (let p = fst px; ts = canonical l (ptimestamp p) in
      if perrorMsg p = ''1'' then
        (if pto p = me \<or> has_message a (pto p) me ts then a else stored_message (pto p) me (snd px) ts True a)
      else
        (if pfrom p = me \<or> has_message a (pfrom p) (pfrom p) ts then a else stored_message (pfrom p) (pfrom p) (snd px) ts False a))"

definition device :: "library \<Rightarrow> string \<Rightarrow> int \<Rightarrow> client \<Rightarrow> bool" where
  "device l me q s \<longleftrightarrow> lib s = l \<and> currentUsername (nm s) = me \<and> ownPrivKey (nm s) \<noteq> [] \<and> read_priv_pem l (ownPrivKey (nm s)) = Some q"

lemma absorb_wp:
  assumes "library_laws l" "crypto_up l" "\<And>x. oaep_decrypt l q [] = Some x \<Longrightarrow> length x \<noteq> KEY_SIZE"
    and "device l me q s" "ls_up s f a" "replayed p" "readable l q p x"
  shows "wp (onTextMessageReceived t0 (serialize p)) (\<lambda>_ t. same_user s t \<and> ls_up t f (absorb l me (p, x) a)) (\<lambda>_ _. False) s"
proof -
  let ?ts = "canonical l (ptimestamp p)"
  obtain aes k where k: "length aes = KEY_SIZE" "seals l aes (pbody p) x" "oaep_decrypt l q k = Some aes" "pkey p = toBase64 l k"
    "fromUtf8 l x = x"
    using assms(7) by (auto simp: readable_def)
  have seg: "sender_segment (pkey p) = toBase64 l k"
    using base64_no_sep(2) [OF library_lawsD(9) [OF assms(1)]] by (simp add: sender_segment_def k(4))
  have p: "wf_packet p" "ptype p = MESSAGE" "ptimestamp p \<noteq> []" using assms(6) by (simp_all add: replayed_def)
  have dev: "lib s = l" "currentUsername (nm s) = me" "ownPrivKey (nm s) \<noteq> []" "read_priv_pem l (ownPrivKey (nm s)) = Some q"
    using assms(4) by (simp_all add: device_def)
  have stays: "keeps same_user (onTextMessageReceived t0 (serialize p))"
  proof -
    have "keeps same_user (bnd (handleIncomingMessage p) (\<lambda>_. emit y))" for y by (intro su.rules incoming_su emit_su)
    then show ?thesis using onText_wp [OF p(1), of t0] by (simp add: keeps_wp handlePacket_def p(2))
  qed
  have "wp (onTextMessageReceived t0 (serialize p)) (\<lambda>_ t. ls_up t f (absorb l me (p, x) a)) (\<lambda>_ _. False) s"
  proof (cases "settled p ?ts s a")
    case True
    then have same: "absorb l me (p, x) a = a" using dev by (auto simp: absorb_def settled_def Let_def split: if_splits)
    show ?thesis
      unfolding onText_wp [OF p(1)] same handlePacket_def p(2) PacketType.case wp_bnd [of "handleIncomingMessage _"]
      using settled_noop [OF assms(5) p(3)] True dev(1)
      by simp (erule wp_mono; use assms(5) in \<open>simp add: wp_client ls_up_def called_simps\<close>)
  next
    case False
    show ?thesis
    proof (cases "perrorMsg p = ''1''")
      case True
      with False show ?thesis
        using receive_echo_wp [of s f a q aes p x k me ?ts t0] assms(1-3,5) dev k seg p
        by (auto simp: settled_def absorb_def elim!: wp_mono)
    next
      case in': False
      with False show ?thesis
        using receive_wp [of s f a q aes p x k t0] assms(1,2,5) dev k p
        by (auto simp: settled_def absorb_def elim!: wp_mono)
    qed
  qed
  from wp_conj [OF keeps_wpD [OF stays] this] show ?thesis
    by (rule wp_mono) auto
qed

lemma device_same: "device l me q s \<Longrightarrow> same_user s t \<Longrightarrow> device l me q t"
  by (simp add: device_def same_user_def)

section \<open>All packets\<close>

lemma absorb_all_wp:
  assumes "library_laws l" "crypto_up l" "\<And>x. oaep_decrypt l q [] = Some x \<Longrightarrow> length x \<noteq> KEY_SIZE"
    and "device l me q s" "ls_up s f a" "\<forall>px \<in> set pxs. replayed (fst px) \<and> readable l q (fst px) (snd px)"
  shows "wp (for_each (onTextMessageReceived t0) (map (\<lambda>px. serialize (fst px)) pxs))
     (\<lambda>_ t. same_user s t \<and> ls_up t f (fold (absorb l me) pxs a)) (\<lambda>_ _. False) s"
  using assms(4-6)
proof (induction pxs arbitrary: s a)
  case (Cons px pxs)
  have "wp (for_each (onTextMessageReceived t0) (map (\<lambda>px. serialize (fst px)) pxs))
      (\<lambda>_ u. same_user s u \<and> ls_up u f (fold (absorb l me) (px # pxs) a)) (\<lambda>_ _. False) t"
    if "same_user s t" "ls_up t f (absorb l me (fst px, snd px) a)" for t
    by (rule wp_mono [OF Cons.IH [OF device_same [OF Cons.prems(1) that(1)] that(2)]])
      (use Cons.prems that su.R_trans [OF that(1)] in auto)
  then show ?case
    unfolding list.map for_each.simps wp_bnd
    by (intro wp_mono [OF absorb_wp [OF assms(1-3) Cons.prems(1,2), of "fst px" "snd px"]])
      (use Cons.prems(3) in auto)
qed (simp add: wp_retn su.R_refl)

text \<open>Nothing of the conversation is missing afterwards.\<close>

definition recorded :: "library \<Rightarrow> string \<Rightarrow> Packet \<Rightarrow> account \<Rightarrow> bool" where
  "recorded l me p a \<longleftrightarrow>
     has_message a (if perrorMsg p = ''1'' then pto p else pfrom p) (if perrorMsg p = ''1'' then me else pfrom p)
       (canonical l (ptimestamp p))"

lemma has_message_kept: "has_message a q u t \<Longrightarrow> has_message (stored_message q' u' c t' b a) q u t"
  by (auto simp: has_message_def stored_message_def insert_or_ignore_def)

lemma absorb_cases: "P a \<Longrightarrow> (\<And>q u c t b. P (stored_message q u c t b a)) \<Longrightarrow> P (absorb l me px a)"
  by (simp add: absorb_def Let_def)

lemma recorded_absorb: "recorded l me p a \<Longrightarrow> recorded l me p (absorb l me px a)"
  by (rule absorb_cases) (simp_all add: recorded_def has_message_kept)

lemma recorded_self:
  "(if perrorMsg p = ''1'' then pto p else pfrom p) \<noteq> me \<Longrightarrow> recorded l me p (absorb l me (p, x) a)"
  by (auto simp: recorded_def absorb_def Let_def split: if_splits)

lemma recorded_all:
  "(p, x) \<in> set pxs \<Longrightarrow> (if perrorMsg p = ''1'' then pto p else pfrom p) \<noteq> me \<Longrightarrow> recorded l me p (fold (absorb l me) pxs a)"
proof (induction pxs arbitrary: a)
  case (Cons px pxs)
  have "recorded l me p b \<Longrightarrow> recorded l me p (fold (absorb l me) ys b)" for b ys
    by (induction ys arbitrary: b) (simp_all add: recorded_absorb)
  with Cons show ?case using recorded_self [OF Cons.prems(2)] by auto
qed simp

section \<open>The request\<close>

text \<open>The request of a device: its cursor is the newest timestamp it has, if that is a timestamp.\<close>

definition cursor_of :: "library \<Rightarrow> account \<Rightarrow> string" where
  "cursor_of l a =
     (let ts = (case max (sql_max (map lm_timestamp (ac_messages a))) (sql_max (map lx_timestamp (ac_group_messages a))) of
          None \<Rightarrow> [] | Some t \<Rightarrow> t)
      in if parse_iso_ms l ts \<noteq> None \<or> parse_iso l ts \<noteq> None then ts else [])"

definition sync_packet :: "string \<Rightarrow> string \<Rightarrow> Packet" where
  "sync_packet me cursor = (new_packet SYNC_HISTORY)\<lparr>pfrom := me, pbody := cursor\<rparr>"

lemma sendSyncHistory_wp:
  assumes "ls_up s f a" "so_connected (sock s)" "currentUsername (nm s) = me"
  shows "wp sendSyncHistory (\<lambda>_ t. so_sent (sock t) = so_sent (sock s) @ [serialize (sync_packet me (cursor_of (lib s) a))]
     \<and> so_connected (sock t) \<and> ls_up t f a \<and> lib t = lib s \<and> nm t = nm s) (\<lambda>_ _. False) s"
proof -
  have same: "(new_packet SYNC_HISTORY)\<lparr>pfrom := me\<rparr> = sync_packet me []" by (simp add: sync_packet_def new_packet_def)
  have body: "(sync_packet me [])\<lparr>pbody := ts\<rparr> = sync_packet me ts" for ts by (simp add: sync_packet_def)
  show ?thesis
    unfolding sendSyncHistory_def packet_from_me_def newestTimestamp_def wp_bnd [of "getNM _"] wp_getNM
      wp_bnd [of "ls_read _ _ _"] ls_read_up [OF assms(1)] wp_bnd [of "gets _"] wp_gets assms(3) same body
    using assms(1,2) by (simp add: sendPacket_up cursor_of_def Let_def ls_up_def)
qed

end
