(* ===== verification/GroupReplay.thy ===== *)
theory GroupReplay
  imports Replay ClientGroups
begin

text \<open>
  The second half of a replayed history: group messages and the acknowledgement at the end.  A message of
  a group whose key the device holds ends up in the cache, one of another group is kept back until the
  key comes; the direct messages taken before are not affected.
\<close>

section \<open>The key of a group\<close>

text \<open>The key a device has for a group: in memory, or in the cache.\<close>

definition held_key :: "library \<Rightarrow> account \<Rightarrow> NetworkManager \<Rightarrow> string \<Rightarrow> string option" where
  "held_key l a x g =
     (case groupKeys x g of
        Some k \<Rightarrow> Some k
      | None \<Rightarrow>
          (let stored = (case find (\<lambda>r. lk_group_id r = g) (ac_group_keys a) of None \<Rightarrow> [] | Some r \<Rightarrow> lk_aes_key_base64 r)
           in if stored = [] then None else Some (fromBase64 l (toLatin1 l stored))))"

lemma held_key_memory: "held_key l a x g = Some k \<Longrightarrow> held_key l a (x\<lparr>groupKeys := (groupKeys x)(g \<mapsto> k)\<rparr>) = held_key l a x"
  by (auto simp: held_key_def fun_eq_iff)

lemma held_key_cong:
  "ac_group_keys b = ac_group_keys a \<Longrightarrow> groupKeys y = groupKeys x \<Longrightarrow> held_key l b y = held_key l a x"
  by (rule ext) (simp add: held_key_def option.case_eq_if)

section \<open>One group message\<close>

text \<open>Steps of a device that stays connected, logged in and complete.\<close>

definition goes_on :: "client \<Rightarrow> client \<Rightarrow> bool" where
  "goes_on s t \<longleftrightarrow> lib t = lib s \<and> (so_connected (sock s) \<longrightarrow> so_connected (sock t))
     \<and> currentUsername (nm t) = currentUsername (nm s) \<and> ownPrivKey (nm t) = ownPrivKey (nm s) \<and> prefix (signals s) (signals t)"

lemma goes_on_refl [simp]: "goes_on s s"
  by (simp add: goes_on_def)

lemma goes_on_trans [trans]: "goes_on s t \<Longrightarrow> goes_on t u \<Longrightarrow> goes_on s u"
  by (auto simp: goes_on_def intro: prefix_order.trans)

lemma same_goes_on: "same_user s t \<Longrightarrow> goes_on s t"
  by (simp add: same_user_def goes_on_def)

text \<open>What the account and the packets kept back are after the packet \<open>p\<close> with the text \<open>x\<close>.\<close>

definition absorb_group :: "library \<Rightarrow> string \<Rightarrow> (string \<Rightarrow> string option) \<Rightarrow> Packet \<times> string \<Rightarrow> account \<Rightarrow> account" where
  "absorb_group l me K px a =
     (let p = fst px; ts = canonical l (ptimestamp p) in
      if K (pto p) = None \<or> has_group_message a (pto p) (pfrom p) ts then a
      else stored_group_message (pto p) (pfrom p) (snd px) ts (pfrom p = me) a)"

definition keep_back :: "(string \<Rightarrow> string option) \<Rightarrow> Packet \<Rightarrow> (string \<rightharpoonup> Packet list) \<Rightarrow> (string \<rightharpoonup> Packet list)" where
  "keep_back K p m = (if K (pto p) = None then qappend (pto p) p m else m)"

definition group_readable :: "library \<Rightarrow> (string \<Rightarrow> string option) \<Rightarrow> Packet \<Rightarrow> string \<Rightarrow> bool" where
  "group_readable l K p x \<longleftrightarrow> wf_packet p \<and> ptype p = GROUP_MESSAGE \<and> ptimestamp p \<noteq> [] \<and> fromUtf8 l x = x
     \<and> (case K (pto p) of None \<Rightarrow> True | Some k \<Rightarrow> length k = KEY_SIZE \<and> seals l k (pbody p) x)"

text \<open>The message has been taken with the key at hand.\<close>

definition taken :: "string \<Rightarrow> account \<Rightarrow> client \<Rightarrow> client \<Rightarrow> bool" where
  "taken f b s t \<longleftrightarrow> goes_on s t \<and> ls_up t f b \<and> groupKeys (nm t) = groupKeys (nm s)
     \<and> pendingGroupPackets (nm t) = pendingGroupPackets (nm s)"

lemma receive_any_wp:
  assumes "library_laws (lib s)" "crypto_up (lib s)" "ls_up s f a" "so_connected (sock s)"
    and "length aes = KEY_SIZE" "seals (lib s) aes (pbody p) m" "fromUtf8 (lib s) m = m"
  shows "wp (receive_with_key p ts (Some aes))
     (\<lambda>_. taken f (if has_group_message a (pto p) (pfrom p) ts then a
         else stored_group_message (pto p) (pfrom p) m ts (pfrom p = currentUsername (nm s)) a) s) (\<lambda>_ _. False) s"
proof -
  let ?own = "pfrom p = currentUsername (nm s)"
  let ?b = "stored_group_message (pto p) (pfrom p) m ts ?own a"
  let ?ack = "(new_packet ACK)\<lparr>pfrom := currentUsername (nm s), pto := pto p, pbody := ts, perrorMsg := ''delivered''\<rparr>"
  have store: "wp (bnd (saveGroupMessage (pto p) (pfrom p) m ts ?own) (\<lambda>_.
      bnd (when_m (\<not> ?own) (updNM (\<lambda>x. x\<lparr>unreadTimestamps := qappend (pto p) ts (unreadTimestamps x)\<rparr>))) (\<lambda>_.
      emit (groupMessageDecrypted (pto p) (pfrom p) m ts ?own)))) (\<lambda>_. taken f ?b s) (\<lambda>_ _. False) x"
    if "taken f a s x" for x
  proof -
    have x: "ls_up x f a" using that by (simp add: taken_def)
    have "ls_up (x\<lparr>calls := n, files := (files x)(f \<mapsto> ?b)\<rparr>) f ?b" for n by (rule ls_up_stored_group [OF x])
    then show ?thesis
      unfolding wp_bnd [of "saveGroupMessage _ _ _ _ _"] saveGroupMessage_up [OF x]
      using that by (auto simp: wp_bnd wp_when wp_client taken_def goes_on_def ls_up_def)
  qed
  have rest: "wp (bnd (isGroupMessageDuplicate (pto p) (pfrom p) ts) (\<lambda>dup.
          if dup then retn ()
          else
            bnd (Crypto_decrypt (pbody p) aes) (\<lambda>plaintext.
            bnd (saveGroupMessage (pto p) (pfrom p) plaintext ts ?own) (\<lambda>_.
            bnd (when_m (\<not> ?own)
              (updNM (\<lambda>x. x\<lparr>unreadTimestamps := qappend (pto p) ts (unreadTimestamps x)\<rparr>))) (\<lambda>_.
            emit (groupMessageDecrypted (pto p) (pfrom p) plaintext ts ?own))))))
      (\<lambda>_. taken f (if has_group_message a (pto p) (pfrom p) ts then a else ?b) s) (\<lambda>_ _. False) u"
    if u: "taken f a s u" for u
  proof -
    have up: "ls_up u f a" and l: "lib u = lib s" using u by (simp_all add: taken_def goes_on_def)
    let ?v = "u\<lparr>calls := Suc (calls u)\<rparr>"
    have v: "taken f a s ?v" using u by (simp add: taken_def goes_on_def)
    have "taken f a s x" if "called ?v x" for x
      using v that by (simp add: taken_def goes_on_def called_simps ls_up_called)
    then have "wp (bnd (Crypto_decrypt (pbody p) aes) (\<lambda>plaintext.
            bnd (saveGroupMessage (pto p) (pfrom p) plaintext ts ?own) (\<lambda>_.
            bnd (when_m (\<not> ?own)
              (updNM (\<lambda>x. x\<lparr>unreadTimestamps := qappend (pto p) ts (unreadTimestamps x)\<rparr>))) (\<lambda>_.
            emit (groupMessageDecrypted (pto p) (pfrom p) plaintext ts ?own))))) (\<lambda>_. taken f ?b s) (\<lambda>_ _. False) ?v"
      unfolding wp_bnd [of "Crypto_decrypt _ _"]
      by (intro wp_mono [OF Crypto_decrypt_wp [of ?v aes "pbody p" m]])
        (use assms store l in \<open>auto simp: Let_def\<close>)
    with v show ?thesis
      by (simp add: wp_bnd [of "isGroupMessageDuplicate _ _ _"] isGroupMessageDuplicate_up [OF up] wp_retn)
  qed
  have "wp (when_m (\<not> ?own) (sendPacket ?ack)) (\<lambda>_. taken f a s) (\<lambda>_ _. False) s"
    using assms(3,4) by (auto simp: wp_when sendPacket_up taken_def goes_on_def)
  then show ?thesis
    unfolding receive_with_key_def option.case wp_bnd [of "getNM _"] wp_getNM wp_bnd [of "when_m _ _"]
    by (rule wp_mono) (use rest in auto)
qed

text \<open>The device after some packets: its account, the keys it holds, and the packets it keeps back.\<close>

definition absorbed :: "string \<Rightarrow> (string \<Rightarrow> string option) \<Rightarrow> account \<Rightarrow> (string \<rightharpoonup> Packet list) \<Rightarrow> client \<Rightarrow> client \<Rightarrow> bool" where
  "absorbed f K b m s t \<longleftrightarrow> goes_on s t \<and> ls_up t f b \<and> held_key (lib s) b (nm t) = K \<and> pendingGroupPackets (nm t) = m"

lemma absorb_group_keys: "ac_group_keys (absorb_group l me K px a) = ac_group_keys a"
  by (simp add: absorb_group_def stored_group_message_def Let_def)

lemma handleGroupMessage_absorbs:
  assumes "library_laws (lib s)" "crypto_up (lib s)" "ls_up s f a" "so_connected (sock s)" "held_key (lib s) a (nm s) = K"
    and "group_readable (lib s) K p x"
  shows "wp (handleGroupMessage p)
     (\<lambda>_. absorbed f K (absorb_group (lib s) (currentUsername (nm s)) K (p, x) a) (keep_back K p (pendingGroupPackets (nm s))) s)
     (\<lambda>_ _. False) s"
proof -
  let ?ts = "canonical (lib s) (ptimestamp p)"
  let ?b = "absorb_group (lib s) (currentUsername (nm s)) K (p, x) a"
  let ?Q = "absorbed f K ?b (keep_back K p (pendingGroupPackets (nm s))) s"
  have r: "ptimestamp p \<noteq> []" "fromUtf8 (lib s) x = x"
    "\<And>k. K (pto p) = Some k \<Longrightarrow> length k = KEY_SIZE \<and> seals (lib s) k (pbody p) x"
    using assms(6) by (simp_all add: group_readable_def)
  have start: "wp (handleGroupMessage p) (\<lambda>_. ?Q) (\<lambda>_ _. False) s"
    if "wp (bnd (group_key_or_buffer p) (receive_with_key p ?ts)) (\<lambda>_. ?Q) (\<lambda>_ _. False) s"
    using r(1) that by (simp add: handleGroupMessage_def packet_time_def canonicalC_def wp_bnd [of "gets _"] wp_gets
        catch_all_def wp_catch_if) (erule wp_mono; simp)
  have with_key: "wp (receive_with_key p ?ts (Some k)) (\<lambda>_. ?Q) (\<lambda>_ _. False) t"
    if k: "K (pto p) = Some k" and t: "goes_on s t" "ls_up t f a" "held_key (lib s) a (nm t) = K"
      "pendingGroupPackets (nm t) = pendingGroupPackets (nm s)" for k t
  proof -
    have l: "lib t = lib s" "currentUsername (nm t) = currentUsername (nm s)" "so_connected (sock t)"
      using t(1) assms(4) by (simp_all add: goes_on_def)
    have b: "(if has_group_message a (pto p) (pfrom p) ?ts then a
        else stored_group_message (pto p) (pfrom p) x ?ts (pfrom p = currentUsername (nm t)) a) = ?b"
      by (simp add: absorb_group_def k l)
    have "held_key (lib s) ?b (nm u) = K" if "groupKeys (nm u) = groupKeys (nm t)" for u
      unfolding t(3) [symmetric] by (rule held_key_cong [OF absorb_group_keys that])
    moreover have "wp (receive_with_key p ?ts (Some k)) (\<lambda>_. taken f ?b t) (\<lambda>_ _. False) t"
      using receive_any_wp [of t f a k p x ?ts] assms(1,2) t(2) r(2) r(3) [OF k] l unfolding b by simp
    ultimately show ?thesis
      using t(4) by (elim wp_mono) (auto simp: taken_def absorbed_def keep_back_def k intro: goes_on_trans [OF t(1)])
  qed
  show ?thesis
  proof (rule start, cases "groupKeys (nm s) (pto p)")
    case (Some k)
    then have "K (pto p) = Some k" using assms(5) by (auto simp: held_key_def)
    from with_key [OF this goes_on_refl assms(3,5) refl] Some
    show "wp (bnd (group_key_or_buffer p) (receive_with_key p ?ts)) (\<lambda>_. ?Q) (\<lambda>_ _. False) s"
      by (simp add: group_key_or_buffer_def wp_bnd wp_getNM wp_retn)
  next
    case None
    let ?stored = "case find (\<lambda>r. lk_group_id r = pto p) (ac_group_keys a) of None \<Rightarrow> [] | Some r \<Rightarrow> lk_aes_key_base64 r"
    let ?s = "s\<lparr>calls := Suc (calls s)\<rparr>"
    show "wp (bnd (group_key_or_buffer p) (receive_with_key p ?ts)) (\<lambda>_. ?Q) (\<lambda>_ _. False) s"
    proof (cases "?stored = []")
      case True
      have K: "K (pto p) = None" using None True assms(5) by (auto simp: held_key_def Let_def)
      have "held_key (lib s) a ((nm s)\<lparr>pendingGroupPackets := m, pendingGroupKeyRequests := rs\<rparr>) = K"
        "held_key (lib s) a ((nm s)\<lparr>pendingGroupPackets := m\<rparr>) = K" for m rs
        unfolding assms(5) [symmetric] by (rule held_key_cong; simp)+
      then show ?thesis
        using None True assms(3,4) K
        by (simp add: group_key_or_buffer_def bnd_assoc wp_bnd wp_getNM loadGroupKey_def ls_read_up [OF assms(3)] wp_gets
            buffer_group_packet_def requestGroupKey_def packet_from_me_def wp_client sendPacket_up wp_retn receive_with_key_def
            absorbed_def goes_on_def keep_back_def absorb_group_def)
    next
      case False
      let ?k = "fromBase64 (lib s) (toLatin1 (lib s) ?stored)"
      have k: "K (pto p) = Some ?k" using None False assms(5) by (auto simp: held_key_def Let_def)
      let ?t = "?s\<lparr>nm := (nm s)\<lparr>groupKeys := (groupKeys (nm s))(pto p \<mapsto> ?k)\<rparr>\<rparr>"
      have "held_key (lib s) a (nm ?t) = K"
        using held_key_memory [of "lib s" a "nm s" "pto p" ?k] k assms(5) by simp
      with with_key [OF k, of ?t] show ?thesis
        using None False assms(3)
        by (simp add: group_key_or_buffer_def bnd_assoc wp_bnd wp_getNM loadGroupKey_def ls_read_up [OF assms(3)] wp_gets
            wp_client wp_retn goes_on_def)
    qed
  qed
qed

section \<open>All of them, and the acknowledgement\<close>

lemma absorb_group_wp:
  assumes "library_laws (lib s)" "crypto_up (lib s)" "ls_up s f a" "so_connected (sock s)" "held_key (lib s) a (nm s) = K"
    and "group_readable (lib s) K p x"
  shows "wp (onTextMessageReceived t0 (serialize p))
     (\<lambda>_. absorbed f K (absorb_group (lib s) (currentUsername (nm s)) K (p, x) a) (keep_back K p (pendingGroupPackets (nm s))) s)
     (\<lambda>_ _. False) s"
proof -
  have p: "wf_packet p" "ptype p = GROUP_MESSAGE" using assms(6) by (simp_all add: group_readable_def)
  show ?thesis
    unfolding onText_wp [OF p(1)] handlePacket_def p(2) PacketType.case wp_bnd
    by (rule wp_mono [OF handleGroupMessage_absorbs [OF assms]])
      (auto simp: wp_client absorbed_def goes_on_def prefix_def)
qed

lemma absorb_groups_wp:
  assumes "library_laws l" "crypto_up l" "\<forall>px \<in> set pxs. group_readable l K (fst px) (snd px)"
    and "lib s = l" "currentUsername (nm s) = me" "ls_up s f a" "so_connected (sock s)" "held_key l a (nm s) = K"
  shows "wp (for_each (onTextMessageReceived t0) (map (\<lambda>px. serialize (fst px)) pxs))
     (\<lambda>_. absorbed f K (fold (absorb_group l me K) pxs a) (fold (\<lambda>px. keep_back K (fst px)) pxs (pendingGroupPackets (nm s))) s)
     (\<lambda>_ _. False) s"
  using assms(3-8)
proof (induction pxs arbitrary: s a)
  case (Cons px pxs)
  let ?m = "keep_back K (fst px) (pendingGroupPackets (nm s))"
  have "wp (for_each (onTextMessageReceived t0) (map (\<lambda>px. serialize (fst px)) pxs))
     (\<lambda>_. absorbed f K (fold (absorb_group l me K) (px # pxs) a)
        (fold (\<lambda>px. keep_back K (fst px)) (px # pxs) (pendingGroupPackets (nm s))) s) (\<lambda>_ _. False) t"
    if t: "absorbed f K (absorb_group l me K px a) ?m s t" for t
  proof -
    have t': "goes_on s t" "ls_up t f (absorb_group l me K px a)" "held_key l (absorb_group l me K px a) (nm t) = K"
      "pendingGroupPackets (nm t) = ?m" using t Cons.prems(2) by (simp_all add: absorbed_def)
    then have "lib t = l" "currentUsername (nm t) = me" "so_connected (sock t)"
      using Cons.prems(2,3,5) by (simp_all add: goes_on_def)
    moreover have "\<forall>px \<in> set pxs. group_readable l K (fst px) (snd px)" using Cons.prems(1) by simp
    ultimately have "wp (for_each (onTextMessageReceived t0) (map (\<lambda>px. serialize (fst px)) pxs))
        (\<lambda>_. absorbed f K (fold (absorb_group l me K) pxs (absorb_group l me K px a))
           (fold (\<lambda>px. keep_back K (fst px)) pxs (pendingGroupPackets (nm t))) t) (\<lambda>_ _. False) t"
      using Cons.IH t'(2,3) by blast
    then show ?thesis
      using Cons.prems(2) t' by (elim wp_mono) (auto simp: absorbed_def goes_on_def intro: prefix_order.trans)
  qed
  then show ?case
    unfolding list.map for_each.simps wp_bnd
    by (intro wp_mono [OF absorb_group_wp [of s f a K "fst px" "snd px"]])
      (use Cons.prems assms(1,2) in auto)
qed (simp add: wp_retn absorbed_def)

text \<open>The acknowledgement to the own name ends the synchronisation.\<close>

lemma sync_ack_wp:
  assumes "CHR ''|'' \<notin> set me" "currentUsername (nm s) = me"
  shows "wp (onTextMessageReceived t0 (serialize ((new_packet ACK)\<lparr>pto := me\<rparr>)))
     (\<lambda>_ t. t = s\<lparr>nm := (nm s)\<lparr>hasError := False\<rparr>,
        signals := signals s @ [syncComplete, lastMessageChanged, messageReceived (serialize ((new_packet ACK)\<lparr>pto := me\<rparr>))]\<rparr>)
     (\<lambda>_ _. False) s"
proof -
  have "wf_packet ((new_packet ACK)\<lparr>pto := me\<rparr>)"
    using assms(1) by (simp add: wf_packet_def bar_free_def new_packet_def PROTOCOL_VERSION_def in_int_def INT_MAX_def INT_MIN_def)
  from onText_wp [OF this] show ?thesis
    using assms(2) by (simp add: handlePacket_def handleAck_def new_packet_def wp_bnd wp_getNM wp_client wp_when)
qed

text \<open>The list of packets that the server sent, one frame after the other.\<close>

lemma for_each_append: "for_each g (xs @ ys) = bnd (for_each g xs) (\<lambda>_. for_each g ys)"
  by (induction xs) (simp_all add: bnd_assoc)

definition group_recorded :: "library \<Rightarrow> (string \<Rightarrow> string option) \<Rightarrow> account \<Rightarrow> (string \<rightharpoonup> Packet list) \<Rightarrow> Packet \<Rightarrow> bool" where
  "group_recorded l K b m p \<longleftrightarrow>
     (if K (pto p) = None then p \<in> set (qvalue m (pto p)) else has_group_message b (pto p) (pfrom p) (canonical l (ptimestamp p)))"

lemma group_recorded_all:
  assumes "p \<in> fst ` set pxs"
  shows "group_recorded l K (fold (absorb_group l me K) pxs a) (fold (\<lambda>px. keep_back K (fst px)) pxs m) p"
  using assms
proof (induction pxs arbitrary: a m)
  case (Cons px pxs)
  have has: "has_group_message b g u t \<Longrightarrow> has_group_message (absorb_group l me K y b) g u t" for b g u t y
    by (auto simp: absorb_group_def Let_def has_group_message_def stored_group_message_def insert_or_ignore_def)
  have keep: "p \<in> set (qvalue m' g) \<Longrightarrow> p \<in> set (qvalue (keep_back K y m') g)" for m' g y
    by (auto simp: keep_back_def)
  have stay: "group_recorded l K b m' p \<Longrightarrow>
      group_recorded l K (fold (absorb_group l me K) ys b) (fold (\<lambda>px. keep_back K (fst px)) ys m') p" for b m' ys
    by (induction ys arbitrary: b m') (auto simp: group_recorded_def has keep split: if_splits)
  have now: "group_recorded l K (absorb_group l me K px a) (keep_back K (fst px) m) (fst px)"
    by (auto simp: group_recorded_def absorb_group_def keep_back_def Let_def has_group_message_def stored_group_message_def
        insert_or_ignore_def gm_key_def)
  show ?case
  proof (cases "p = fst px")
    case True
    with now have "group_recorded l K (absorb_group l me K px a) (keep_back K (fst px) m) p" by simp
    then show ?thesis using stay by simp
  qed (use Cons in auto)
qed simp

section \<open>A whole history\<close>

lemma absorb_keeps: "ac_group_keys (fold (absorb l me) xs a) = ac_group_keys a" "has_message (fold (absorb_group l me K) ys b) = has_message b"
proof -
  show "ac_group_keys (fold (absorb l me) xs a) = ac_group_keys a"
    by (induction xs arbitrary: a) (simp_all add: absorb_def stored_message_def Let_def)
  show "has_message (fold (absorb_group l me K) ys b) = has_message b"
    by (induction ys arbitrary: b) (simp_all add: absorb_group_def stored_group_message_def Let_def has_message_def fun_eq_iff)
qed

text \<open>What the account is after a history of direct packets \<open>xs\<close> and group packets \<open>ys\<close>, each with its text.\<close>

definition caught_up :: "library \<Rightarrow> string \<Rightarrow> (string \<Rightarrow> string option) \<Rightarrow> (Packet \<times> string) list \<Rightarrow> (Packet \<times> string) list \<Rightarrow> account \<Rightarrow> account" where
  "caught_up l me K xs ys a = fold (absorb_group l me K) ys (fold (absorb l me) xs a)"

lemma history_absorbed_wp:
  assumes "library_laws l" "crypto_up l" "\<And>x. oaep_decrypt l q [] = Some x \<Longrightarrow> length x \<noteq> KEY_SIZE"
    and "device l me q s" "ls_up s f a" "so_connected (sock s)" "CHR ''|'' \<notin> set me" "K = held_key l a (nm s)"
    and "\<forall>px \<in> set xs. replayed (fst px) \<and> readable l q (fst px) (snd px)" "\<forall>px \<in> set ys. group_readable l K (fst px) (snd px)"
    and "ack = serialize ((new_packet ACK)\<lparr>pto := me\<rparr>)"
  shows "wp (for_each (onTextMessageReceived t0) (map (\<lambda>px. serialize (fst px)) xs @ map (\<lambda>px. serialize (fst px)) ys @ [ack]))
     (\<lambda>_ t. ls_up t f (caught_up l me K xs ys a)
        \<and> (\<forall>p \<in> fst ` set ys. group_recorded l K (caught_up l me K xs ys a) (pendingGroupPackets (nm t)) p)
        \<and> (\<exists>sg. signals t = signals s @ sg @ [syncComplete, lastMessageChanged, messageReceived ack])) (\<lambda>_ _. False) s"
proof -
  let ?d = "fold (absorb l me) xs a" and ?b = "caught_up l me K xs ys a"
  let ?Q = "\<lambda>t. ls_up t f ?b \<and> (\<forall>p \<in> fst ` set ys. group_recorded l K ?b (pendingGroupPackets (nm t)) p)
      \<and> (\<exists>sg. signals t = signals s @ sg @ [syncComplete, lastMessageChanged, messageReceived ack])"
  have rest: "wp (for_each (onTextMessageReceived t0) (map (\<lambda>px. serialize (fst px)) ys @ [ack])) (\<lambda>_. ?Q) (\<lambda>_ _. False) u"
    if u: "same_user s u" "ls_up u f ?d" for u
  proof -
    have u': "lib u = l" "currentUsername (nm u) = me" "so_connected (sock u)" "held_key l ?d (nm u) = K"
      using u(1) assms(4,6) held_key_cong [OF absorb_keeps(1), of "nm u" "nm s" l l me xs a] assms(8)
      by (simp_all add: same_user_def device_def)
    have last: "wp (for_each (onTextMessageReceived t0) [ack]) (\<lambda>_. ?Q) (\<lambda>_ _. False) v"
      if v: "absorbed f K ?b (fold (\<lambda>px. keep_back K (fst px)) ys (pendingGroupPackets (nm u))) u v" for v
    proof -
      have me: "currentUsername (nm v) = me" using v u'(2) by (simp add: absorbed_def goes_on_def)
      obtain sg where "signals v = signals s @ sg"
        using v u(1) by (auto simp: absorbed_def goes_on_def same_user_def prefix_def)
      then show ?thesis
        using v by (simp add: wp_bnd assms(11))
          (rule wp_mono [OF sync_ack_wp [OF assms(7) me]],
           auto simp: wp_retn absorbed_def caught_up_def intro: group_recorded_all)
    qed
    show ?thesis
      unfolding for_each_append wp_bnd [of "for_each _ (map _ ys)"]
      by (rule wp_mono [OF absorb_groups_wp [OF assms(1,2,10) u'(1,2) u(2) u'(3,4)]])
        (use last in \<open>auto simp: caught_up_def\<close>)
  qed
  show ?thesis
    unfolding for_each_append [of _ "map _ xs"] wp_bnd [of "for_each _ (map _ xs)"]
    by (rule wp_mono [OF absorb_all_wp [OF assms(1-5,9)]]) (use rest in auto)
qed

end
