(* ===== verification/Acks.thy ===== *)
theory Acks
  imports GroupReplay GroupProperties
begin

text \<open>
  The acknowledgements of the server and what the client takes them for.  The server builds five kinds of ACK:
  with a token (log-in, registration), with a timestamp (direct message), with a group and its recipients
  (group message), the relayed receipt of a member, and the bare one to the own name, which ends a
  history but also answers an uploaded key and a deleted conversation.
\<close>

section \<open>The list of recipients\<close>

text \<open>The server joins the names of the recipients and the client splits them again.\<close>

lemma join_semi_qjoin: "list_all (\<lambda>x. x \<noteq> []) xs \<Longrightarrow> join_semi xs = qjoin '';'' xs"
proof (induction xs rule: rev_induct)
  case (snoc x xs)
  then show ?case by (cases xs) (simp_all add: join_semi_def qjoin_def)
qed (simp add: join_semi_def qjoin_def)

lemma qsplit_join_semi:
  assumes "list_all (\<lambda>x. CHR '';'' \<notin> set x \<and> x \<noteq> []) xs"
  shows "qsplit CHR '';'' (join_semi xs) = xs"
  using assms qsplit_qjoin [OF assms] join_semi_qjoin [of xs] by (simp add: list_all_iff)

lemma join_semi_set: "set (join_semi xs) \<subseteq> insert CHR '';'' (\<Union>x \<in> set xs. set x)"
  by (induction xs rule: rev_induct) (auto simp: join_semi_def)

section \<open>The token\<close>

text \<open>Once the name is set, nothing in the acknowledgement of a log-in changes it, and no signal is lost.\<close>

definition as_user :: "client \<Rightarrow> client \<Rightarrow> bool" where
  "as_user s t \<longleftrightarrow> currentUsername (nm t) = currentUsername (nm s) \<and> prefix (signals s) (signals t)"

interpretation au: step_preorder as_user
  by unfold_locales (auto simp: as_user_def intro: prefix_order.trans)

lemma storage_au: "keeps ls_step m \<Longrightarrow> keeps as_user m"
  by (erule keeps_weaken) (simp add: as_user_def ls_step_simps)

lemma called_au: "keeps called m \<Longrightarrow> keeps as_user m"
  by (erule keeps_weaken) (simp add: as_user_def called_simps)

lemma updNM_au: "(\<And>x. currentUsername (f x) = currentUsername x) \<Longrightarrow> keeps as_user (updNM f)"
  by (simp add: keeps_wp wp_client as_user_def)

lemma basic_au:
  "keeps as_user (emit x)" "keeps as_user (updSock k)" "keeps as_user (getNM g)" "keeps as_user isConnected"
  "keeps as_user (settings_bytes a)" "keeps as_user (settings_set a b)" "keeps as_user (settings_remove a)"
  "keeps as_user (packet_from_me t)" "keeps as_user LocalStorage_close"
  by (auto simp: keeps_def as_user_def emit_def updSock_def getNM_def isConnected_def settings_bytes_def
      settings_set_def settings_remove_def packet_from_me_def LocalStorage_close_def)

lemma catch_all_au: "keeps as_user m \<Longrightarrow> (\<And>e. keeps as_user (h e)) \<Longrightarrow> keeps as_user (catch_all m h)"
  unfolding catch_all_def by (rule au.k_catch_if)

lemmas au_rules = au.rules basic_au catch_all_au called_au [OF engine_cl(1)] called_au [OF engine_cl(2)]
  called_au [OF engine_cl(3)] called_au [OF engine_cl(4)] called_au [OF engine_cl(5)] called_au [OF engine_cl(6)]

lemmas au_storage = messages_step [THEN storage_au] groups_step [THEN storage_au]

lemma login_parts_au:
  "keeps as_user (openForUser u)" "keeps as_user loadOrGenerateKeypair" "keeps as_user loadLocalHistory"
  "keeps as_user (sendPacket p)" "keeps as_user (show_error m)" "keeps as_user sendSyncHistory"
proof -
  have "keeps as_user (ls_write [] (\<lambda>a. a))" by (intro storage_au ls_write_step)
  then show "keeps as_user (openForUser u)"
    unfolding openForUser_def
    by (intro au_rules storage_au [OF createSchema_step] called_au [OF next_call_cl] au.k_upd) (simp_all add: as_user_def)
  show "keeps as_user loadOrGenerateKeypair"
    unfolding loadOrGenerateKeypair_def by (intro au_rules updNM_au) simp_all
  show "keeps as_user loadLocalHistory"
    unfolding loadLocalHistory_def load_conversation_def load_group_def by (intro au_rules au_storage updNM_au) simp_all
  show 4: "keeps as_user (sendPacket p)" "keeps as_user (show_error m)" for p m
    unfolding sendPacket_def show_error_def by (intro au_rules updNM_au; simp)+
  show "keeps as_user sendSyncHistory"
    unfolding sendSyncHistory_def by (intro au_rules au_storage 4)
qed

lemma handleLoginAck_wp:
  "wp (handleLoginAck p) (\<lambda>_ t. currentUsername (nm t) = pto p \<and> prefix (signals s @ [currentUsernameChanged]) (signals t)) (\<lambda>_ _. False) s"
proof -
  have rest: "keeps as_user (bnd (when_m b LocalStorage_close) (\<lambda>_.
     bnd (openForUser (pto p)) (\<lambda>_.
     bnd (getNM pendingRegister) (\<lambda>reg.
     bnd (when_m reg (bnd (settings_remove (''history/'' @ pto p)) (\<lambda>_.
            updNM (\<lambda>x. x\<lparr>pendingRegister := False\<rparr>)))) (\<lambda>_.
     bnd (catch_all
        (bnd loadOrGenerateKeypair (\<lambda>_.
         bnd (getNM ownPubKey) (\<lambda>pub.
         bnd (gets (\<lambda>s. toBase64 (lib s) pub)) (\<lambda>k.
         bnd (sendPacket ((new_packet KEY_EXCHANGE)\<lparr>pfrom := pto p, pkey := k\<rparr>)) (\<lambda>_. retn True)))))
        (\<lambda>e. bnd (show_error (''Key setup failed: '' @ what e)) (\<lambda>_. retn False))) (\<lambda>ok.
     if ok then bnd loadLocalHistory (\<lambda>_. sendSyncHistory) else retn ()))))))" for b
    by (intro au_rules login_parts_au updNM_au) simp_all
  have "wp (handleLoginAck p) (\<lambda>_ t. currentUsername (nm t) = pto p \<and> prefix (signals s @ [currentUsernameChanged]) (signals t)) (\<lambda>_ _. True) s"
    unfolding handleLoginAck_def wp_bnd [of "updNM _"] wp_bnd [of "getNM _"] wp_bnd [of "emit _"] wp_getNM wp_client
    by (rule wp_mono [OF keeps_wpD [OF rest]]) (auto simp: as_user_def)
  with nothrow_client(3) show ?thesis by (rule nothrow_wp)
qed

section \<open>All acknowledgements\<close>

text \<open>
  C32. What the client takes the acknowledgements of the server for.  The one for a direct
  message marks exactly that message, by its canonical timestamp, as delivered.  The one for a
  group message stores exactly the recipients the server counted, all of them not yet reached.  The relayed
  receipt of a member marks this member in the snapshot of the message and reports the aggregate.  The one with
  a token makes the user it is addressed to the current one.  The bare one to the own name always counts as
  the end of a history: the server sends this packet after a history, but the same packet for an
  uploaded key and a deleted conversation, so there the client is told of an end that did not happen.
\<close>

theorem acks_understood:
  assumes "ls_up s f a" "ptimestamp p \<noteq> []" "pto p \<noteq> []" "pto p \<noteq> ''delivered''"
    and "list_all (\<lambda>x. CHR ''|'' \<notin> set x) [pfrom p, pto p, ptimestamp p]" "CHR 0x0A \<notin> set (pto p)"
    and "us \<noteq> []" "distinct us" "list_all (\<lambda>x. x \<noteq> [] \<and> CHR '';'' \<notin> set x \<and> CHR ''|'' \<notin> set x) us"
    and "ts = canonical (lib s) (ptimestamp p)" "recipients_of (pto p) ts a = []"
    and "list_all (\<lambda>x. CHR ''|'' \<notin> set x) [u, pto d, pbody d, tok, me]" "tok \<noteq> []" "rt = canonical (lib s) (pbody d)"
    and "me = currentUsername (nm s)"
  shows "wp (onTextMessageReceived t0 (serialize (message_ack p)))
       (\<lambda>_ t. ls_up t f a \<and> signals t = signals s @ [messageDelivered ts, lastMessageChanged, messageReceived (serialize (message_ack p))])
       (\<lambda>_ _. False) s
     \<and> wp (onTextMessageReceived t0 (serialize (group_ack p us)))
       (\<lambda>_ t. \<exists>b. ls_up t f b \<and> recipients_of (pto p) ts b = map (unread_recipient (pto p) ts) us)
       (\<lambda>_ _. False) s
     \<and> wp (onTextMessageReceived t0 (serialize (delivered_packet u d)))
       (\<lambda>_ t. \<exists>v. aggregated (pto d) rt (with_receipt (\<lambda>r. r\<lparr>lr_delivered := True\<rparr>) (pto d) rt u a)
            (signals s @ [groupReceiptUpdated (pto d) rt]) f v
          \<and> t = v\<lparr>signals := signals v @ [lastMessageChanged, messageReceived (serialize (delivered_packet u d))]\<rparr>)
       (\<lambda>_ _. False) s
     \<and> wp (onTextMessageReceived t0 (serialize (token_ack u tok)))
       (\<lambda>_ t. currentUsername (nm t) = u \<and> currentUsernameChanged \<in> set (signals t)) (\<lambda>_ _. False) s
     \<and> wp (onTextMessageReceived t0 (serialize ((new_packet ACK)\<lparr>pto := me\<rparr>)))
       (\<lambda>_ t. ls_up t f a
          \<and> signals t = signals s @ [syncComplete, lastMessageChanged, messageReceived (serialize ((new_packet ACK)\<lparr>pto := me\<rparr>))])
       (\<lambda>_ _. False) s"
proof (intro conjI)
  note int = PROTOCOL_VERSION_def in_int_def INT_MAX_def INT_MIN_def
  let ?s = "s\<lparr>nm := (nm s)\<lparr>hasError := False\<rparr>\<rparr>"
  have up: "ls_up ?s f a" using assms(1) by simp
  have "wf_packet (message_ack p)"
    using assms(5) by (simp add: wf_packet_def bar_free_def message_ack_def new_packet_def int)
  from onText_wp [OF this] show "wp (onTextMessageReceived t0 (serialize (message_ack p)))
       (\<lambda>_ t. ls_up t f a \<and> signals t = signals s @ [messageDelivered ts, lastMessageChanged, messageReceived (serialize (message_ack p))])
       (\<lambda>_ _. False) s"
    using assms(1,2)
    by (simp add: handlePacket_def handleAck_def message_ack_def new_packet_def canonicalC_def wp_bnd wp_gets wp_getNM wp_client assms(10))
  have bar: "CHR ''|'' \<notin> set (join_semi us)"
    using assms(9) join_semi_set [of us] by (auto simp: list_all_iff)
  have wf: "wf_packet (group_ack p us)"
    using assms(5,6) bar by (simp add: wf_packet_def bar_free_def group_ack_def new_packet_def int)
  have split: "qsplit CHR '';'' (join_semi us) = us"
    using assms(9) by (intro qsplit_join_semi) (simp add: list_all_iff)
  show "wp (onTextMessageReceived t0 (serialize (group_ack p us)))
       (\<lambda>_ t. \<exists>b. ls_up t f b \<and> recipients_of (pto p) ts b = map (unread_recipient (pto p) ts) us)
       (\<lambda>_ _. False) s"
    unfolding onText_wp [OF wf] wp_bnd [of "handlePacket _"]
    using assms(2-4,7) saveRecipientSnapshot_up [OF up, of "pto p" ts us] recipients_with_snapshot [OF assms(11,8)] assms(1)
    by (simp add: handlePacket_def handleAck_def group_ack_def new_packet_def canonicalC_def handleGroupSendAck_def
        wp_bnd wp_gets wp_getNM wp_client split assms(10) [symmetric])
      (erule wp_mono; auto simp: wp_client)
  have d: "ptype (delivered_packet u d) = ACK" "perrorMsg (delivered_packet u d) = ''delivered''" "pto (delivered_packet u d) = pto d"
    "pbody (delivered_packet u d) = pbody d" "pfrom (delivered_packet u d) = u"
    by (simp_all add: delivered_packet_def new_packet_def)
  have wf: "wf_packet (delivered_packet u d)"
    using assms(12) by (simp add: wf_packet_def bar_free_def delivered_packet_def new_packet_def int)
  have "wp (handleGroupDelivered (delivered_packet u d))
      (\<lambda>_. aggregated (pto d) rt (with_receipt (\<lambda>r. r\<lparr>lr_delivered := True\<rparr>) (pto d) rt u a)
             (signals s @ [groupReceiptUpdated (pto d) rt]) f) (\<lambda>_ _. False) ?s"
    using handleGroupDelivered_wp [OF up, of rt "delivered_packet u d"] assms(14) by (simp add: d)
  then show "wp (onTextMessageReceived t0 (serialize (delivered_packet u d)))
       (\<lambda>_ t. \<exists>v. aggregated (pto d) rt (with_receipt (\<lambda>r. r\<lparr>lr_delivered := True\<rparr>) (pto d) rt u a)
            (signals s @ [groupReceiptUpdated (pto d) rt]) f v
          \<and> t = v\<lparr>signals := signals v @ [lastMessageChanged, messageReceived (serialize (delivered_packet u d))]\<rparr>)
       (\<lambda>_ _. False) s"
    unfolding onText_wp [OF wf]
    by (simp add: handlePacket_def handleAck_def d wp_bnd wp_getNM wp_client) (erule wp_mono; auto simp: wp_client)
  have t: "ptype (token_ack u tok) = ACK" "perrorMsg (token_ack u tok) = []" "pbody (token_ack u tok) = tok" "pto (token_ack u tok) = u"
    by (simp_all add: token_ack_def new_packet_def)
  have wf: "wf_packet (token_ack u tok)"
    using assms(12) by (simp add: wf_packet_def bar_free_def token_ack_def new_packet_def int)
  show "wp (onTextMessageReceived t0 (serialize (token_ack u tok)))
       (\<lambda>_ t. currentUsername (nm t) = u \<and> currentUsernameChanged \<in> set (signals t)) (\<lambda>_ _. False) s"
    unfolding onText_wp [OF wf]
    using handleLoginAck_wp [of "token_ack u tok" ?s] assms(13)
    by (simp add: handlePacket_def handleAck_def t wp_bnd wp_getNM wp_client)
      (erule wp_mono; auto simp: wp_client prefix_def)
  show "wp (onTextMessageReceived t0 (serialize ((new_packet ACK)\<lparr>pto := me\<rparr>)))
       (\<lambda>_ t. ls_up t f a
          \<and> signals t = signals s @ [syncComplete, lastMessageChanged, messageReceived (serialize ((new_packet ACK)\<lparr>pto := me\<rparr>))])
       (\<lambda>_ _. False) s"
    by (rule wp_mono [OF sync_ack_wp]) (use assms(1,12,15) in simp_all)
qed

text \<open>Witness of C32: bob's client is told that alice is the only recipient; then, after uploading a key, that a history ended.\<close>

lemma acks_understood_witness:
  "let p = (new_packet GROUP_MESSAGE)\<lparr>pfrom := ''bob'', pto := int_str 1, ptimestamp := int_str 7\<rparr> in
   wp (onTextMessageReceived 0 (serialize (group_ack p [''alice''])))
     (\<lambda>_ t. \<exists>b. ls_up t ''f'' b \<and> length (recipients_of (int_str 1) (int_str 7) b) = 1) (\<lambda>_ _. False) example_bob
   \<and> wp (onTextMessageReceived 0 (serialize ((new_packet ACK)\<lparr>pto := ''bob''\<rparr>)))
     (\<lambda>_ t. syncComplete \<in> set (signals t)) (\<lambda>_ _. False) example_bob"
proof -
  let ?p = "(new_packet GROUP_MESSAGE)\<lparr>pfrom := ''bob'', pto := int_str 1, ptimestamp := int_str 7\<rparr>"
  let ?d = "(new_packet ACK)\<lparr>pto := int_str 1, pbody := int_str 7\<rparr>"
  have can: "canonical (lib example_bob) ts = ts" for ts
    by (simp add: canonical_def example_library_def example_bob_def example_client_def Let_def)
  have me: "currentUsername (nm example_bob) = ''bob''" by (simp add: example_bob_def example_client_def)
  have "isdigit ch" if "ch \<in> set (int_str 1)" for ch using that by (simp add: int_str_def)
  moreover have "\<not> isdigit CHR 0x0A" "\<not> isdigit CHR ''d''" by (simp_all add: isdigit_def)
  ultimately have "CHR 0x0A \<notin> set (int_str 1)" "CHR ''d'' \<notin> set (int_str 1)" by blast+
  then have digits: "CHR 0x0A \<notin> set (int_str 1)" "int_str 1 \<noteq> ''delivered''" by auto
  have none: "recipients_of (int_str 1) (int_str 7) (empty_account\<lparr>ac_schema := full_schema\<rparr>) = []"
    by (simp add: recipients_of_def empty_account_def)
  note ack = acks_understood [of example_bob "''f''" "empty_account\<lparr>ac_schema := full_schema\<rparr>" ?p "[''alice'']" "int_str 7"
        "''alice''" ?d "''t''" "''bob''" "int_str 7" 0, OF example_bob_up]
  have f: "pfrom ?p = ''bob''" "pto ?p = int_str 1" "ptimestamp ?p = int_str 7" "pto ?d = int_str 1" "pbody ?d = int_str 7"
    by (simp_all add: new_packet_def)
  have "wp (onTextMessageReceived 0 (serialize (group_ack ?p [''alice''])))
       (\<lambda>_ t. \<exists>b. ls_up t ''f'' b \<and> length (recipients_of (int_str 1) (int_str 7) b) = 1) (\<lambda>_ _. False) example_bob"
    by (rule wp_mono [OF ack [THEN conjunct2, THEN conjunct1]]) (auto simp: f int_str_no_bar digits can none me)
  moreover have "wp (onTextMessageReceived 0 (serialize ((new_packet ACK)\<lparr>pto := ''bob''\<rparr>)))
       (\<lambda>_ t. syncComplete \<in> set (signals t)) (\<lambda>_ _. False) example_bob"
    by (rule wp_mono [OF ack [THEN conjunct2, THEN conjunct2, THEN conjunct2, THEN conjunct2]])
      (auto simp: f int_str_no_bar digits can none me)
  ultimately show ?thesis by (simp add: Let_def)
qed

end
