(* ===== verification/Spec2Isabelle.thy ===== *)
theory Spec2Isabelle
  imports Network Mailbox QueueBounds Retention Privacy Identity Availability GroupCreation ClientGroups Confinement GroupReplay Acks
begin

text \<open>
  BitATM is a chat program with end-to-end encryption: a C++ server (\<^verbatim>\<open>backend/src\<close>, Poco and
  PostgreSQL) that relays and stores packets, a Qt client (\<^verbatim>\<open>frontend/src\<close>), and the wire format
  they share (\<^verbatim>\<open>common\<close>).  This development models both programs and proves what makes them
  correct, separately and together.

  \<^bold>\<open>Parts and theories.\<close>

  \<^item> \<open>Prelude\<close>: exceptions (\<^verbatim>\<open>common/AppException.h\<close>), the state-exception monad that stands
    for C++ control flow (\<open>bnd\<close>, \<open>catch_if\<close>, \<open>for_each\<close>), its weakest preconditions (\<open>wp\<close>), and
    computations that move along a preorder (\<open>keeps\<close>, the locale \<open>step_preorder\<close>): invariants,
    frame conditions and growth of a log are instances.
  \<^item> \<open>Streams\<close>: \<open>std::istringstream\<close>, \<open>std::getline\<close>, \<open>std::stoi\<close>, decimal and hexadecimal
    printing, as far as the sources use them.
  \<^item> \<open>Protocol\<close>: \<^verbatim>\<open>common/protocol.h\<close> and \<open>ProtocolParser\<close>, the packet and its two operators.
  \<^item> \<open>Entities\<close>: users, sessions, messages, queue entries, group messages and histories with their
    text forms; the locale \<open>entity_codec\<close> is \<open>IEntity\<close>.
  \<^item> \<open>World\<close>: the state of the server: tables (\<^verbatim>\<open>db/migrations\<close>), connections, client map, outbox
    and clock; \<open>DbManager\<close>, statements and transactions.
  \<^item> \<open>Integrity\<close>: the constraints of the schema as the invariant \<open>db_ok\<close>.
  \<^item> \<open>Repositories\<close> and \<open>GroupRepository\<close>: every method of the six repositories; the locales
    \<open>repository\<close> (\<open>IRepository\<close>) and \<open>role_store\<close> state what their clients rely on.
  \<^item> \<open>Server\<close>: \<open>ClientSession\<close>, the client map (locale \<open>client_registry\<close>), the handler skeleton
    and the factory.
  \<^item> \<open>AuthHandlers\<close>, \<open>MessageHandlers\<close>, \<open>GroupHandlers\<close>: the fourteen handlers; the locale
    \<open>gated_handler\<close> is \<open>BaseAuthHandler\<close>.  \<open>GroupProperties\<close>: what the group handlers guarantee.
  \<^item> \<open>Dispatch\<close>: handler registration, the loop of a connection, and the server as the transition
    system \<open>sys_step\<close>.
  \<^item> \<open>Delivery\<close>: what a log-in hands over from the offline queue and what a message for an absent
    user leaves in it; the server's turn for a group message and for the echo to other devices.
    The handler of messages queues the newest message of the recipient, which is not the one just stored
    when the sender's timestamp is older than one already there: \<open>queued\<close> and \<open>unqueued\<close> tell the two outcomes apart.
    \<open>Mailbox\<close>: the offline queue as an implementation of mailboxes, with both outcomes.
    \<open>GroupCreation\<close>: the members of a new group and their invitations.
  \<^item> Properties of all turns of the server, each by a calculus with one rule per combinator and
    operation.  \<open>TableFrame\<close>: what keeps a property of the tables (locales \<open>rest_property\<close> for one that only
    the messages and the queue can break, \<open>table_property\<close>, \<open>queue_property\<close>);
    \<open>QueueBounds\<close>: the bound on delivery attempts; \<open>Retention\<close>: what can happen to a queued
    message; \<open>Privacy\<close>: to whom direct messages are sent; \<open>Identity\<close>: whom an
    authenticated connection stands for; \<open>Availability\<close>: which exceptions pass the
    dispatcher and end a connection.
  \<^item> \<open>Client\<close>: the state of the client: members of \<open>NetworkManager\<close> and the models, the cache files,
    the socket, the signals emitted.
  \<^item> \<open>Crypto\<close>: \<open>OpensslAdapter\<close>, \<open>AesGcmStrategy\<close>, \<open>RsaOaepStrategy\<close>, \<open>CryptoEngine\<close>,
    \<open>TimestampUtil\<close>, \<open>PacketBuilder\<close>.
  \<^item> \<open>LocalStorage\<close>: the SQLite cache of an account.  \<open>ChatModels\<close>: \<open>ChatModel\<close> and
    \<open>ConversationListModel\<close>.
  \<^item> \<open>ClientNetwork\<close>: every method and slot of \<open>NetworkManager\<close>.
  \<^item> \<open>ClientSystem\<close>: the client as the transition system \<open>client_step\<close> over the calls of the user
    interface and the events of the socket.  \<open>ClientMessages\<close> and \<open>ClientGroups\<close>: the paths of
    direct and of group messages in the client.  \<open>Confinement\<close>: what the user types never
    reaches the network but under the cipher, as noninterference of two runs.  \<open>Replay\<close>: a client
    that takes the direct messages of a replayed history; \<open>GroupReplay\<close>: one that takes the whole of it, group messages
    and the closing ACK included.  \<open>Acks\<close>: how the client reads the acknowledgements that the server builds.
  \<^item> \<open>Network\<close>: one server and the clients at its connections as the transition system
    \<open>net_step\<close>.  This theory: the properties that run through both programs.

  \<^bold>\<open>Interaction.\<close>  A client hands frames to its socket (\<open>so_sent\<close>); the server takes a frame as an
  event of a connection (\<open>WsFrame\<close>), dispatches it through the gate to a handler, and appends
  frames to \<open>outbox\<close>; a frame of the outbox is what the client of that connection receives
  (\<open>onTextMessageReceived\<close>).  \<open>end_to_end\<close> below composes the three steps for a direct
  message, \<open>offline_end_to_end\<close> by way of the queue and the next log-in, \<open>group_end_to_end\<close> for a
  group, \<open>devices_agree\<close> for the echo to a second device of the sender, \<open>sync_catches_up\<close> for the
  history a device asks for.

  \<^bold>\<open>Parameters.\<close>  What PostgreSQL, Poco, OpenSSL, Qt and SQLite do is not defined here: the clock,
  faults of the database and the network, random bytes, Argon2id, the ciphers, PEM and Base64,
  timestamp conversions and widths of text columns are fields of \<open>external\<close> (server) and
  \<open>library\<close> (client).  Properties that need their documented behaviour assume it by name
  (\<open>library_laws\<close>, \<open>crypto_up\<close>, \<open>quiet\<close>: no fault occurs, \<open>ls_up\<close>: the cache is open and SQLite
  reports no error); the witnesses instantiate it.  The indeterminate local of the packet
  extraction is the argument \<open>t0\<close>.

  \<^bold>\<open>What the lemmas show.\<close>  Round trips of packets, entities, passwords and ciphers; the schema
  constraints and the client map in every reachable state of the server; what each repository
  method and handler does on every branch, failures included; that nothing happens before the
  gate is passed, and that who passes it is the user the connection names; that a connection survives whatever its client sends, and where it does not; that a
  direct message goes to nobody but its two users; that no queued message is lost; that texts leave
  the client only encrypted; who may change a group; the invariant of the client and that none of its
  turns throws, but for frames of an unknown type; that a received message is stored and shown
  once; the receipts of group messages; that a group message and the key of its group may arrive in
  either order; the sizes of new groups and the number of delivery attempts; that no client crashes
  on a frame of this server; delivery from one user to the other, at once or from the queue, to the
  members of a group, to the other devices of the sender and to a device that catches up.

  \<^bold>\<open>Recursion.\<close>  All loops of the sources run over lists or consume their input: every function is
  total and no fuel is used.  The two endless loops, of a connection and of the Qt event loop,
  are step relations.

  \<^bold>\<open>Not modelled.\<close>  The HTTP server, TLS and the WebSocket handshake; interleavings inside a turn of
  a connection (turns are atomic, the client map is behind a mutex in the sources); what QML does
  in response to a signal, which happens here between two events; change notifications of the
  models; logging; the difference between null and empty \<open>QString\<close>; row ids of the cache, which
  nothing reads; QML files, \<^verbatim>\<open>main.cpp\<close> of both programs apart from what \<open>server_start\<close> shows, tests
  and deployment.  Text is a list of bytes on both sides (UTF-8), and counters of the
  user interface are unbounded.
\<close>

section \<open>Example\<close>

text \<open>
  Alice's client, which knows bob's public key, and a server on which she is logged in and bob is
  connected on 2.
\<close>

definition example_alice :: client where
  "example_alice = example_client
     \<lparr>nm := (nm example_client)\<lparr>currentUsername := ''alice'', ownPrivKey := int_str 1, ownPubKey := int_str 1,
        peerKeys := [''bob'' \<mapsto> int_str 2]\<rparr>\<rparr>"

definition example_relay :: world where
  "example_relay = example_state
     \<lparr>conns := (\<lambda>_. fresh_session\<lparr>cs_state := Authenticated, cs_username := ''alice'', cs_sessionToken := ''ta''\<rparr>),
      clients := [''bob'' \<mapsto> [2]]\<rparr>"

lemma example_relay_facts:
  "quiet example_relay" "authorised example_relay c" "find_client ''bob'' (clients example_relay) = Some 2"
  "varchar_fits (ext example_relay) n v = (length v \<le> n)" "ts_parse (ext example_relay) (int_str 7) = Some 7"
  by (simp_all add: example_relay_def example_state_def example_world_def example_ext_def example_db_def quiet_def
      authorised_def find_client_def session_live_def fresh_session_def in_int_def INT_MAX_def INT_MIN_def)

lemma example_pem: "read_pub_pem example_library (int_str v) = Some v" "read_priv_pem example_library (int_str v) = Some v"
  using scan_num_int_str [of "[]" v] by (simp_all add: example_library_def)

lemma example_client_facts:
  "lib example_alice = example_library" "lib example_bob = example_library" "so_connected (sock example_alice)"
  "peerKeys (nm example_alice) ''bob'' = Some (int_str 2)" "ownPubKey (nm example_alice) = int_str 1"
  "currentUsername (nm example_alice) = ''alice''" "currentUsername (nm example_bob) = ''bob''"
  "ownPrivKey (nm example_bob) = int_str 2" "fromUtf8 example_library v = v"
  "\<not> has_message (empty_account\<lparr>ac_schema := full_schema\<rparr>) u u t"
  by (simp_all add: example_alice_def example_bob_def example_client_def has_message_def empty_account_def)
    (simp add: example_library_def)

section \<open>From one user to the other\<close>

text \<open>What the sender's packet looks like to the server and to the recipient.\<close>

lemma message_packet_wf:
  assumes "library_laws l" "carries l q q' m p"
    and "p = (new_packet MESSAGE)\<lparr>pfrom := u, pto := v, pbody := pbody p, pkey := pkey p, ptimestamp := ts\<rparr>"
    and "CHR ''|'' \<notin> set u" "CHR ''|'' \<notin> set v" "CHR ''|'' \<notin> set ts"
  obtains aes k1 where "wf_packet p" "length aes = KEY_SIZE" "seals l aes (pbody p) m" "oaep_decrypt l q k1 = Some aes"
    "fst (split_key (pkey p)) = toBase64 l k1" "pbody p \<noteq> []" "pkey p \<noteq> []"
    "wf_packet (p\<lparr>pkey := toBase64 l k1\<rparr>)"
proof -
  obtain aes k1 k2 where c: "length aes = KEY_SIZE" "seals l aes (pbody p) m" "oaep_decrypt l q k1 = Some aes"
    "pkey p = toBase64 l k1 @ '';'' @ toBase64 l k2"
    using assms(2) by (auto simp: carries_def)
  have clean: "CHR ''|'' \<notin> set (toBase64 l x)" "CHR '';'' \<notin> set (toBase64 l x)" for x
    using base64_no_sep library_lawsD(9) [OF assms(1)] by blast+
  have body: "CHR ''|'' \<notin> set (pbody p)" using c(2) clean(1) by (auto simp: seals_def)
  have f: "pfrom p = u" "pto p = v" "ptimestamp p = ts" "perrorMsg p = []" "pversion p = PROTOCOL_VERSION"
    by (subst assms(3), simp add: new_packet_def)+
  show ?thesis
  proof (rule that)
    show "wf_packet p" "wf_packet (p\<lparr>pkey := toBase64 l k1\<rparr>)"
      using clean body assms(4-6) c(4)
      by (simp_all add: wf_packet_def bar_free_def f PROTOCOL_VERSION_def in_int_def INT_MAX_def INT_MIN_def)
    show "fst (split_key (pkey p)) = toBase64 l k1"
      unfolding c(4) using clean(2) by (simp add: split_key_def)
    show "pkey p \<noteq> []" using c(4) by simp
    show "pbody p \<noteq> []" by (rule sealed_nonempty [OF assms(1) c(2)])
  qed (use c in auto)
qed

text \<open>
  C1. End to end: when alice sends a message to bob, whose key she has, her client hands one
  frame to its socket; the server, on whose client map bob is, takes that frame through the
  gate and the handler, keeps the connection, and as its first reaction sends a frame to bob's
  connection; bob's client decrypts this frame to exactly the text alice typed, stores it in the
  cache and shows it with her name and the canonical timestamp.
\<close>

theorem end_to_end:
  assumes "library_laws l" "crypto_up l" "lib s = l" "lib r = l" "fromUtf8 l m = m"
    and "so_connected (sock s)" "peerKeys (nm s) to = Some pk" "read_pub_pem l pk = Some q"
    and "read_pub_pem l (ownPubKey (nm s)) = Some q'" "currentUsername (nm s) = me" "to \<noteq> me"
    and "me \<noteq> []" "to \<noteq> []" "ts \<noteq> []" "CHR ''|'' \<notin> set me" "CHR ''|'' \<notin> set to" "CHR ''|'' \<notin> set ts"
    and "quiet w" "authorised w c" "find_client to (clients w) = Some x" "varchar_fits (ext w) 64 me"
    and "varchar_fits (ext w) 64 to" "varchar_fits (ext w) 16 ''sent''" "ts_parse (ext w) ts \<noteq> None"
    and "ls_up r f a" "read_priv_pem l (ownPrivKey (nm r)) = Some q" "ownPrivKey (nm r) \<noteq> []"
    and "currentUsername (nm r) = to" "\<not> has_message a me me (canonical l ts)"
  shows "wp (sendMessage to m ts)
     (\<lambda>_ s'. \<exists>fr. so_sent (sock s') = so_sent (sock s) @ [fr] \<and>
        wp (guarded_turn c loc (WsFrame OP_DATA fr))
          (\<lambda>g w'. snd g \<and> (\<exists>fr' rest. outbox w' = outbox w @ (x, Text fr') # rest \<and>
             wp (onTextMessageReceived t0 fr')
               (\<lambda>_ r'. signals r' = signals r @ [messageDecrypted me m (canonical l ts), messageReceived fr']
                  \<and> ls_up r' f (stored_message me me m (canonical l ts) False a)) (\<lambda>_ _. False) r))
          (\<lambda>_ _. False) w)
     (\<lambda>_ _. False) s"
proof -
  have sent: "wp (sendMessage to m ts)
     (\<lambda>_ t. \<exists>p. so_sent (sock t) = so_sent (sock s) @ [serialize p] \<and> carries l q q' m p
        \<and> p = (new_packet MESSAGE)\<lparr>pfrom := me, pto := to, pbody := pbody p, pkey := pkey p, ptimestamp := ts\<rparr>)
     (\<lambda>_ _. False) s"
    using sendMessage_wp [of s to pk q q' ts m] assms(1-14) by simp
  show ?thesis
  proof (rule wp_mono [OF sent])
    fix t
    assume "\<exists>p. so_sent (sock t) = so_sent (sock s) @ [serialize p] \<and> carries l q q' m p
        \<and> p = (new_packet MESSAGE)\<lparr>pfrom := me, pto := to, pbody := pbody p, pkey := pkey p, ptimestamp := ts\<rparr>"
    then obtain p where sent: "so_sent (sock t) = so_sent (sock s) @ [serialize p]" and car: "carries l q q' m p"
      and p: "p = (new_packet MESSAGE)\<lparr>pfrom := me, pto := to, pbody := pbody p, pkey := pkey p, ptimestamp := ts\<rparr>" by blast
    have f: "ptype p = MESSAGE" "pfrom p = me" "pto p = to" "ptimestamp p = ts" "perrorMsg p = []"
      by (subst p, simp add: new_packet_def)+
    obtain aes k1 where k: "wf_packet p" "length aes = KEY_SIZE" "seals l aes (pbody p) m" "oaep_decrypt l q k1 = Some aes"
      "fst (split_key (pkey p)) = toBase64 l k1" "pbody p \<noteq> []" "pkey p \<noteq> []" "wf_packet (p\<lparr>pkey := toBase64 l k1\<rparr>)"
      by (rule message_packet_wf [OF assms(1) car p assms(15-17)])
    have srv: "wp (guarded_turn c loc (WsFrame OP_DATA (serialize p)))
       (\<lambda>g w'. snd g \<and> (\<exists>rest. outbox w' = outbox w @ (x, Text (serialize (p\<lparr>pkey := fst (split_key (pkey p))\<rparr>))) # rest))
       (\<lambda>_ _. False) w"
      by (rule message_frame_wp)
        (use assms(12,13,18-24) k f in \<open>simp_all add: Message_validate_def storable_def reject_if_def\<close>)
    have rcv: "wp (onTextMessageReceived t0 (serialize (p\<lparr>pkey := toBase64 l k1\<rparr>)))
       (\<lambda>_ r'. signals r' = signals r @ [messageDecrypted me m (canonical l ts), messageReceived (serialize (p\<lparr>pkey := toBase64 l k1\<rparr>))]
          \<and> ls_up r' f (stored_message me me m (canonical l ts) False a)) (\<lambda>_ _. False) r"
      using receive_wp [of r f a q aes "p\<lparr>pkey := toBase64 l k1\<rparr>" m k1 t0] assms k f by simp
    show "\<exists>fr. so_sent (sock t) = so_sent (sock s) @ [fr] \<and>
        wp (guarded_turn c loc (WsFrame OP_DATA fr))
          (\<lambda>g w'. snd g \<and> (\<exists>fr' rest. outbox w' = outbox w @ (x, Text fr') # rest \<and>
             wp (onTextMessageReceived t0 fr')
               (\<lambda>_ r'. signals r' = signals r @ [messageDecrypted me m (canonical l ts), messageReceived fr']
                  \<and> ls_up r' f (stored_message me me m (canonical l ts) False a)) (\<lambda>_ _. False) r))
          (\<lambda>_ _. False) w"
      by (intro exI [of _ "serialize p"] conjI sent, rule wp_mono [OF srv [unfolded k(5)]]) (use rcv in auto)
  qed simp
qed

text \<open>Witness of C1: alice, connected on 1, writes to bob.\<close>

lemma end_to_end_witness:
  "wp (sendMessage ''bob'' ''hi'' (int_str 7))
     (\<lambda>_ s'. \<exists>fr. so_sent (sock s') = [fr] \<and>
        wp (guarded_turn 1 (''alice'', ''ta'') (WsFrame OP_DATA fr))
          (\<lambda>g w'. snd g \<and> (\<exists>fr' rest. outbox w' = (2, Text fr') # rest \<and>
             wp (onTextMessageReceived 0 fr')
               (\<lambda>_ r'. signals r' = [messageDecrypted ''alice'' ''hi'' (int_str 7), messageReceived fr']) (\<lambda>_ _. False) example_bob))
          (\<lambda>_ _. False) example_relay)
     (\<lambda>_ _. False) example_alice"
proof -
  have can: "canonical example_library ts = ts" for ts by (simp add: canonical_def example_library_def Let_def)
  have start: "so_sent (sock example_alice) = []" "outbox example_relay = []" "signals example_bob = []"
    by (simp_all add: example_alice_def example_client_def example_relay_def example_state_def example_world_def example_bob_def)
  have "wp (sendMessage ''bob'' ''hi'' (int_str 7))
     (\<lambda>_ s'. \<exists>fr. so_sent (sock s') = so_sent (sock example_alice) @ [fr] \<and>
        wp (guarded_turn 1 (''alice'', ''ta'') (WsFrame OP_DATA fr))
          (\<lambda>g w'. snd g \<and> (\<exists>fr' rest. outbox w' = outbox example_relay @ (2, Text fr') # rest \<and>
             wp (onTextMessageReceived 0 fr')
               (\<lambda>_ r'. signals r' = signals example_bob @ [messageDecrypted ''alice'' ''hi'' (canonical example_library (int_str 7)), messageReceived fr']
                  \<and> ls_up r' ''f'' (stored_message ''alice'' ''alice'' ''hi'' (canonical example_library (int_str 7)) False (empty_account\<lparr>ac_schema := full_schema\<rparr>)))
               (\<lambda>_ _. False) example_bob))
          (\<lambda>_ _. False) example_relay)
     (\<lambda>_ _. False) example_alice"
    by (rule end_to_end [where pk = "int_str 2" and q = 2 and q' = 1, OF example_library_laws example_library_up])
      (simp_all add: example_client_facts example_bob_up example_relay_facts example_pem int_str_no_bar)
  then show ?thesis unfolding start can
    by (elim wp_mono) (auto elim!: wp_mono)
qed

section \<open>Store and forward\<close>

text \<open>
  C6. Store and forward: when alice writes to bob, who is offline, her
  client hands one frame to its socket; after the server has taken this frame and then bob's
  log-in on any connection, bob is owed nothing any more.  If the server keeps no message to bob with a
  later timestamp, then among the frames sent to that
  connection is one that bob's client decrypts to exactly the text alice typed, stores in the
  cache and shows with her name and the timestamp the database kept.  If it does keep a later one, the
  code queues that one instead: alice's message is stored, but no entry of the queue refers to it,
  neither before nor after the log-in.
\<close>

theorem offline_end_to_end:
  assumes "library_laws l" "crypto_up l" "lib s = l" "lib r = l" "fromUtf8 l m = m"
    and "so_connected (sock s)" "peerKeys (nm s) to = Some pk" "read_pub_pem l pk = Some q"
    and "read_pub_pem l (ownPubKey (nm s)) = Some q'" "currentUsername (nm s) = me" "to \<noteq> me"
    and "me \<noteq> []" "to \<noteq> []" "ts \<noteq> []" "CHR ''|'' \<notin> set me" "CHR ''|'' \<notin> set to" "CHR ''|'' \<notin> set ts"
    and "quiet w" "db_ok (db w)" "authorised w c" "find_client to (clients w) = None" "varchar_fits (ext w) 64 me"
    and "varchar_fits (ext w) 64 to" "varchar_fits (ext w) 16 ''sent''" "ts_parse (ext w) ts = Some tt"
    and "[] \<notin> m_sender ` set (messages (db w))" "ts_text (ext w) tt = tx" "tx \<noteq> []" "CHR ''|'' \<notin> set tx"
    and "wf_packet lp" "ptype lp = LOGIN" "pfrom lp = to" "pbody lp \<noteq> []"
    and "row \<in> set (users (db w))" "u_username row = to" "password_matches (ext w) (pbody lp) (u_password_hash row)"
    and "kdf_faults (ext w) = (\<lambda>_. None)"
    and "\<forall>n. \<exists>buf. rand_bytes (ext w) n 32 = Some buf \<and> varchar_fits (ext w) 256 (toHex buf)
          \<and> toHex buf \<notin> s_session_token ` set (sessions (db w))"
    and "ls_up r f a" "read_priv_pem l (ownPrivKey (nm r)) = Some q" "ownPrivKey (nm r) \<noteq> []"
    and "currentUsername (nm r) = to" "\<not> has_message a me me (canonical l tx)"
  shows "wp (sendMessage to m ts)
     (\<lambda>_ s'. \<exists>fr. so_sent (sock s') = so_sent (sock s) @ [fr] \<and>
        wp (bnd (guarded_turn c loc (WsFrame OP_DATA fr)) (\<lambda>_. guarded_turn c' loc' (WsFrame OP_DATA (serialize lp))))
          (\<lambda>g w'. snd g \<and> filter (is_owed to) (offline_queue (db w')) = [] \<and>
             (if newest_for to tt (messages (db w))
              then \<exists>fr'. (c', Text fr') \<in> set (outbox w') \<and>
                wp (onTextMessageReceived t0 fr')
                  (\<lambda>_ r'. signals r' = signals r @ [messageDecrypted me m (canonical l tx), messageReceived fr']
                     \<and> ls_up r' f (stored_message me me m (canonical l tx) False a)) (\<lambda>_ _. False) r
              else unqueued (seqs (db w) T_messages) (db w')))
          (\<lambda>_ _. False) w)
     (\<lambda>_ _. False) s"
proof -
  have sent: "wp (sendMessage to m ts)
     (\<lambda>_ t. \<exists>p. so_sent (sock t) = so_sent (sock s) @ [serialize p] \<and> carries l q q' m p
        \<and> p = (new_packet MESSAGE)\<lparr>pfrom := me, pto := to, pbody := pbody p, pkey := pkey p, ptimestamp := ts\<rparr>)
     (\<lambda>_ _. False) s"
    using sendMessage_wp [of s to pk q q' ts m] assms(1-14) by simp
  show ?thesis
  proof (rule wp_mono [OF sent])
    fix t
    assume "\<exists>p. so_sent (sock t) = so_sent (sock s) @ [serialize p] \<and> carries l q q' m p
        \<and> p = (new_packet MESSAGE)\<lparr>pfrom := me, pto := to, pbody := pbody p, pkey := pkey p, ptimestamp := ts\<rparr>"
    then obtain p where sent: "so_sent (sock t) = so_sent (sock s) @ [serialize p]" and car: "carries l q q' m p"
      and p: "p = (new_packet MESSAGE)\<lparr>pfrom := me, pto := to, pbody := pbody p, pkey := pkey p, ptimestamp := ts\<rparr>" by blast
    have f: "ptype p = MESSAGE" "pfrom p = me" "pto p = to" "ptimestamp p = ts"
      by (subst p, simp add: new_packet_def)+
    obtain aes k1 where k: "wf_packet p" "length aes = KEY_SIZE" "seals l aes (pbody p) m" "oaep_decrypt l q k1 = Some aes"
      "fst (split_key (pkey p)) = toBase64 l k1" "pbody p \<noteq> []" "pkey p \<noteq> []" "wf_packet (p\<lparr>pkey := toBase64 l k1\<rparr>)"
      by (rule message_packet_wf [OF assms(1) car p assms(15-17)])
    let ?fwd = "forward_packet to (rowToMessage (ext w) (message_row p (seqs (db w) T_messages) tt))"
    have fwd: "ptype ?fwd = MESSAGE" "pfrom ?fwd = me" "pbody ?fwd = pbody p" "pkey ?fwd = toBase64 l k1"
      "ptimestamp ?fwd = tx" "perrorMsg ?fwd = []" "pto ?fwd = to" "pversion ?fwd = PROTOCOL_VERSION"
      using k(5) by (simp_all add: forward_packet_def rowToMessage_def message_row_def new_packet_def f assms(27))
    have wf: "wf_packet ?fwd"
      using k(8) assms(29) by (simp add: wf_packet_def bar_free_def fwd f PROTOCOL_VERSION_def in_int_def INT_MAX_def INT_MIN_def)
    have rcv: "wp (onTextMessageReceived t0 (serialize ?fwd))
       (\<lambda>_ r'. signals r' = signals r @ [messageDecrypted me m (canonical l tx), messageReceived (serialize ?fwd)]
          \<and> ls_up r' f (stored_message me me m (canonical l tx) False a)) (\<lambda>_ _. False) r"
      using receive_wp [of r f a q aes ?fwd m k1 t0] wf k assms(1,2,4,5,11,28,39-43) by (simp add: fwd)
    have take: "wp (guarded_turn c loc (WsFrame OP_DATA (serialize p)))
       (\<lambda>r t. queued p (ext w) (db w) (db t) \<and> turn_step c w t) (\<lambda>_ _. False) w"
      by (rule message_frame_queued_wp)
        (use assms(12-14,18,20-25) k f in \<open>simp_all add: Message_validate_def storable_def reject_if_def\<close>)
    have deliver: "wp (guarded_turn c' loc' (WsFrame OP_DATA (serialize lp)))
       (\<lambda>g w'. snd g \<and> filter (is_owed to) (offline_queue (db w')) = []
          \<and> (if newest_for to tt (messages (db w)) then (c', Text (serialize ?fwd)) \<in> set (outbox w')
             else unqueued (seqs (db w) T_messages) (db w')))
       (\<lambda>_ _. False) v" if v: "queued p (ext w) (db w) (db v) \<and> turn_step c w v" for v
    proof -
      have "quiet v" "db_ok (db v)" "ext v = ext w" using v assms(18,19) by (auto simp: turn_step_def quiet_def)
      then show ?thesis
        using login_after_queued_wp [of p "ext w" "db w" v tt lp row c' loc'] v assms(12,13,19,25,26,30-38) by (simp add: f cong: if_cong split del: if_split)
    qed
    show "\<exists>fr. so_sent (sock t) = so_sent (sock s) @ [fr] \<and>
        wp (bnd (guarded_turn c loc (WsFrame OP_DATA fr)) (\<lambda>_. guarded_turn c' loc' (WsFrame OP_DATA (serialize lp))))
          (\<lambda>g w'. snd g \<and> filter (is_owed to) (offline_queue (db w')) = [] \<and>
             (if newest_for to tt (messages (db w))
              then \<exists>fr'. (c', Text fr') \<in> set (outbox w') \<and>
                wp (onTextMessageReceived t0 fr')
                  (\<lambda>_ r'. signals r' = signals r @ [messageDecrypted me m (canonical l tx), messageReceived fr']
                     \<and> ls_up r' f (stored_message me me m (canonical l tx) False a)) (\<lambda>_ _. False) r
              else unqueued (seqs (db w) T_messages) (db w')))
          (\<lambda>_ _. False) w"
      by (intro exI [of _ "serialize p"] conjI sent, unfold wp_bnd [of "guarded_turn c _ _"], rule wp_mono [OF take],
          rule wp_mono [OF deliver], assumption) (use rcv in \<open>auto split: if_splits\<close>)
  qed simp
qed

text \<open>The server of the example with bob offline and a password of his own.\<close>

definition example_post :: world where
  "example_post = example_relay\<lparr>clients := Map.empty, db := example_db\<lparr>users := [example_user 1 ''alice'',
     (example_user 2 ''bob'')\<lparr>u_password_hash := '':'' @ toHex ''pw''\<rparr>, example_user 3 ''carol'']\<rparr>\<rparr>"

definition example_login :: Packet where
  "example_login = (new_packet LOGIN)\<lparr>pfrom := ''bob'', pbody := ''pw''\<rparr>"

lemma example_post_facts:
  "quiet example_post" "db_ok (db example_post)" "authorised example_post c" "find_client u (clients example_post) = None"
  "varchar_fits (ext example_post) n v = (length v \<le> n)" "ts_parse (ext example_post) (int_str 7) = Some 7"
  "ts_text (ext example_post) = int_str" "kdf_faults (ext example_post) = (\<lambda>_. None)" "outbox example_post = []"
  "[] \<notin> m_sender ` set (messages (db example_post))"
  "newest_for u 7 (messages (db example_post))"
  using rangeI [of type_code GROUP_INVITE]
  by (simp_all add: example_post_def example_relay_def example_state_def example_world_def example_ext_def example_db_def quiet_def
      authorised_def find_client_def session_live_def fresh_session_def in_int_def INT_MAX_def INT_MIN_def
      newest_for_def db_ok_def ok_defs key_defs keyed_def example_user_def valid_role_def)

lemma long_token: "toHex (replicate 32 ch) \<noteq> ''ta''"
proof
  assume "toHex (replicate 32 ch) = ''ta''"
  then have "length (toHex (replicate 32 ch)) = length ''ta''" by (rule arg_cong)
  then show False by simp
qed

lemma example_post_login:
  "wf_packet example_login" "ptype example_login = LOGIN" "pfrom example_login = ''bob''" "pbody example_login \<noteq> []"
  "nth (users (db example_post)) 1 \<in> set (users (db example_post))" "u_username (nth (users (db example_post)) 1) = ''bob''"
  "password_matches (ext example_post) (pbody example_login) (u_password_hash (nth (users (db example_post)) 1))"
  "\<forall>n. \<exists>buf. rand_bytes (ext example_post) n 32 = Some buf \<and> varchar_fits (ext example_post) 256 (toHex buf)
      \<and> toHex buf \<notin> s_session_token ` set (sessions (db example_post))"
  by (simp_all add: example_post_def example_relay_def example_state_def example_world_def example_ext_def example_db_def
      example_login_def new_packet_def wf_packet_def bar_free_def PROTOCOL_VERSION_def in_int_def INT_MAX_def INT_MIN_def
      example_user_def password_matches_def split_at_def long_token)

text \<open>Witness of C6: alice, connected on 1, writes to bob, who then logs in on 2.\<close>

lemma offline_end_to_end_witness:
  "wp (sendMessage ''bob'' ''hi'' (int_str 7))
     (\<lambda>_ s'. \<exists>fr. so_sent (sock s') = [fr] \<and>
        wp (bnd (guarded_turn 1 (''alice'', ''ta'') (WsFrame OP_DATA fr))
              (\<lambda>_. guarded_turn 2 ([], []) (WsFrame OP_DATA (serialize example_login))))
          (\<lambda>g w'. \<exists>fr'. (2, Text fr') \<in> set (outbox w') \<and>
             wp (onTextMessageReceived 0 fr')
               (\<lambda>_ r'. signals r' = [messageDecrypted ''alice'' ''hi'' (int_str 7), messageReceived fr']) (\<lambda>_ _. False) example_bob)
          (\<lambda>_ _. False) example_post)
     (\<lambda>_ _. False) example_alice"
proof -
  have can: "canonical example_library ts = ts" for ts by (simp add: canonical_def example_library_def Let_def)
  have start: "so_sent (sock example_alice) = []" "signals example_bob = []"
    by (simp_all add: example_alice_def example_client_def example_bob_def)
  have "wp (sendMessage ''bob'' ''hi'' (int_str 7))
     (\<lambda>_ s'. \<exists>fr. so_sent (sock s') = so_sent (sock example_alice) @ [fr] \<and>
        wp (bnd (guarded_turn 1 (''alice'', ''ta'') (WsFrame OP_DATA fr))
              (\<lambda>_. guarded_turn 2 ([], []) (WsFrame OP_DATA (serialize example_login))))
          (\<lambda>g w'. snd g \<and> filter (is_owed ''bob'') (offline_queue (db w')) = [] \<and>
             (if newest_for ''bob'' 7 (messages (db example_post))
              then \<exists>fr'. (2, Text fr') \<in> set (outbox w') \<and>
                wp (onTextMessageReceived 0 fr')
                  (\<lambda>_ r'. signals r' = signals example_bob @ [messageDecrypted ''alice'' ''hi'' (canonical example_library (int_str 7)), messageReceived fr']
                     \<and> ls_up r' ''f'' (stored_message ''alice'' ''alice'' ''hi'' (canonical example_library (int_str 7)) False (empty_account\<lparr>ac_schema := full_schema\<rparr>)))
                  (\<lambda>_ _. False) example_bob
              else unqueued (seqs (db example_post) T_messages) (db w')))
          (\<lambda>_ _. False) example_post)
     (\<lambda>_ _. False) example_alice"
    by (rule offline_end_to_end [where pk = "int_str 2" and q = 2 and q' = 1 and tt = 7, OF example_library_laws example_library_up
          _ _ _ _ _ _ _ _ _ _ _ _ _ _ _ _ _ _ _ _ _ _ _ _ _ _ _ example_post_login(1-7) _ example_post_login(8)])
      (simp_all add: example_client_facts example_bob_up example_post_facts example_pem int_str_no_bar)
  then show ?thesis unfolding start can if_P [OF example_post_facts(11)]
    by (elim wp_mono) (auto elim!: wp_mono)
qed

section \<open>From one member to the others\<close>

text \<open>
  C9. End to end in a group: when alice, who is a member and has the key of the group, sends a
  message, her client stores it and hands one frame to its socket; the server takes this frame and
  forwards it to every other member who is online; the client of any member with the same key
  decrypts it to exactly the text alice typed, stores it and shows it as hers.
\<close>

theorem group_end_to_end:
  assumes "library_laws l" "crypto_up l" "lib s = l" "lib r = l" "fromUtf8 l m = m"
    and "so_connected (sock s)" "groupKeys (nm s) gt = Some aes" "length aes = KEY_SIZE" "currentUsername (nm s) = me" "ls_up s h d"
    and "me \<noteq> []" "gt \<noteq> []" "ts \<noteq> []" "CHR ''|'' \<notin> set me" "CHR ''|'' \<notin> set gt" "CHR ''|'' \<notin> set ts" "stoi gt = Inr g"
    and "quiet w" "db_ok (db w)" "authorised w c" "cs_username (conns w c) = me" "role_of g me (db w) \<noteq> []"
    and "varchar_fits (ext w) 64 me" "ts_parse (ext w) ts \<noteq> None"
    and "ls_up r f a" "so_connected (sock r)" "groupKeys (nm r) gt = Some aes" "currentUsername (nm r) \<noteq> me"
    and "\<not> has_group_message a gt me (canonical l ts)"
  shows "wp (sendGroupMessage gt m ts)
     (\<lambda>_ s'. ls_up s' h (stored_group_message gt me m ts True d) \<and> (\<exists>fr. so_sent (sock s') = so_sent (sock s) @ [fr] \<and>
        wp (guarded_turn c loc (WsFrame OP_DATA fr))
          (\<lambda>b w'. snd b \<and> (\<forall>u x. u \<in> set (group_recipients g me (db w)) \<longrightarrow> find_client u (clients w) = Some x \<longrightarrow>
             (x, Text fr) \<in> set (outbox w'))) (\<lambda>_ _. False) w \<and>
        wp (onTextMessageReceived t0 fr)
          (\<lambda>_ r'. signals r' = signals r @ [groupMessageDecrypted gt me m (canonical l ts) False, messageReceived fr]
             \<and> ls_up r' f (stored_group_message gt me m (canonical l ts) False a)) (\<lambda>_ _. False) r))
     (\<lambda>_ _. False) s"
proof -
  have sent: "wp (sendGroupMessage gt m ts)
     (\<lambda>_ t. \<exists>c. seals l aes c m \<and> so_sent (sock t) = so_sent (sock s) @ [serialize (group_packet me gt c ts)]
        \<and> ls_up t h (stored_group_message gt me m ts True d) \<and> nm t = nm s \<and> signals t = signals s)
     (\<lambda>_ _. False) s"
    using sendGroupMessage_wp [of s gt aes ts h d me m] assms(1-3,6-10,13) by simp
  show ?thesis
  proof (rule wp_mono [OF sent])
    fix x and t :: client
    assume "\<exists>c. seals l aes c m \<and> so_sent (sock t) = so_sent (sock s) @ [serialize (group_packet me gt c ts)]
        \<and> ls_up t h (stored_group_message gt me m ts True d) \<and> nm t = nm s \<and> signals t = signals s"
    then obtain b where b: "seals l aes b m" "so_sent (sock t) = so_sent (sock s) @ [serialize (group_packet me gt b ts)]"
      "ls_up t h (stored_group_message gt me m ts True d)" by blast
    let ?p = "group_packet me gt b ts"
    have p: "ptype ?p = GROUP_MESSAGE" "pfrom ?p = me" "pto ?p = gt" "pbody ?p = b" "ptimestamp ?p = ts"
      by (simp_all add: group_packet_def new_packet_def)
    have "CHR ''|'' \<notin> set b" using b(1) base64_no_sep(1) library_lawsD(9) [OF assms(1)] by (auto simp: seals_def)
    then have wf: "wf_packet ?p"
      using assms(14-16) by (simp add: group_packet_def new_packet_def wf_packet_def bar_free_def PROTOCOL_VERSION_def
          in_int_def INT_MAX_def INT_MIN_def)
    have nonempty: "b \<noteq> []" by (rule sealed_nonempty [OF assms(1) b(1)])
    have srv: "wp (guarded_turn c loc (WsFrame OP_DATA (serialize ?p)))
       (\<lambda>b w'. snd b \<and> (\<forall>u x. u \<in> set (group_recipients g me (db w)) \<longrightarrow> find_client u (clients w) = Some x \<longrightarrow>
             (x, Text (serialize ?p)) \<in> set (outbox w'))) (\<lambda>_ _. False) w"
      using group_frame_wp [OF wf p(1) _ assms(18-20), of g loc] assms(11,12,17,21-24) nonempty
      by (simp add: p GroupMessage_validate_def reject_if_def)
    have "wp (handleGroupMessage ?p) (\<lambda>_. group_shown ?p m (canonical l ts) f a r) (\<lambda>_ _. False) r"
      by (rule handleGroupMessage_wp [where aes = aes]) (use assms b(1) in \<open>simp_all add: p\<close>)
    then have rcv: "wp (onTextMessageReceived t0 (serialize ?p))
       (\<lambda>_ r'. signals r' = signals r @ [groupMessageDecrypted gt me m (canonical l ts) False, messageReceived (serialize ?p)]
          \<and> ls_up r' f (stored_group_message gt me m (canonical l ts) False a)) (\<lambda>_ _. False) r"
      unfolding onText_wp [OF wf] handlePacket_def p(1) PacketType.case wp_bnd [of "handleGroupMessage _"]
      by (rule wp_mono) (use assms(25) in \<open>auto simp: group_shown_def wp_client p ls_up_def stored_group_message_def\<close>)
    from b srv rcv show "ls_up t h (stored_group_message gt me m ts True d) \<and> (\<exists>fr. so_sent (sock t) = so_sent (sock s) @ [fr] \<and>
        wp (guarded_turn c loc (WsFrame OP_DATA fr))
          (\<lambda>b w'. snd b \<and> (\<forall>u x. u \<in> set (group_recipients g me (db w)) \<longrightarrow> find_client u (clients w) = Some x \<longrightarrow>
             (x, Text fr) \<in> set (outbox w'))) (\<lambda>_ _. False) w \<and>
        wp (onTextMessageReceived t0 fr)
          (\<lambda>_ r'. signals r' = signals r @ [groupMessageDecrypted gt me m (canonical l ts) False, messageReceived fr]
             \<and> ls_up r' f (stored_group_message gt me m (canonical l ts) False a)) (\<lambda>_ _. False) r)"
      by blast
  qed simp
qed

text \<open>Witness of C9: alice writes to group 1, of which bob is a member, who is online.\<close>

definition example_group_alice :: client where
  "example_group_alice = example_alice
     \<lparr>db_open := Some ''f'', files := [''f'' \<mapsto> empty_account\<lparr>ac_schema := full_schema\<rparr>],
      nm := (nm example_alice)\<lparr>groupKeys := [int_str 1 \<mapsto> example_group_key]\<rparr>\<rparr>"

definition example_group_bob :: client where
  "example_group_bob = example_bob\<lparr>nm := (nm example_bob)\<lparr>groupKeys := [int_str 1 \<mapsto> example_group_key]\<rparr>\<rparr>"

lemma group_end_to_end_witness:
  "wp (sendGroupMessage (int_str 1) ''hi'' (int_str 7))
     (\<lambda>_ s'. \<exists>fr. so_sent (sock s') = [fr] \<and>
        wp (guarded_turn 1 (''alice'', ''ta'') (WsFrame OP_DATA fr)) (\<lambda>b w'. (2, Text fr) \<in> set (outbox w')) (\<lambda>_ _. False) example_relay \<and>
        wp (onTextMessageReceived 0 fr)
          (\<lambda>_ r'. signals r' = [groupMessageDecrypted (int_str 1) ''alice'' ''hi'' (int_str 7) False, messageReceived fr])
          (\<lambda>_ _. False) example_group_bob)
     (\<lambda>_ _. False) example_group_alice"
proof -
  let ?a = "empty_account\<lparr>ac_schema := full_schema\<rparr>"
  have can: "canonical example_library ts = ts" for ts by (simp add: canonical_def example_library_def Let_def)
  have up: "ls_up example_group_alice ''f'' ?a" "ls_up example_group_bob ''f'' ?a"
    by (simp_all add: ls_up_def example_group_alice_def example_group_bob_def example_alice_def example_bob_def example_client_def
        example_library_def full_schema_UNIV)
  have cl: "lib example_group_alice = example_library" "lib example_group_bob = example_library"
    "so_connected (sock example_group_alice)" "so_connected (sock example_group_bob)"
    "groupKeys (nm example_group_alice) (int_str 1) = Some example_group_key"
    "groupKeys (nm example_group_bob) (int_str 1) = Some example_group_key"
    "currentUsername (nm example_group_alice) = ''alice''" "currentUsername (nm example_group_bob) = ''bob''"
    "so_sent (sock example_group_alice) = []" "signals example_group_bob = []"
    by (simp_all add: example_group_alice_def example_group_bob_def example_alice_def example_bob_def example_client_def)
  have srv: "db_ok (db example_relay)" "cs_username (conns example_relay c) = ''alice''"
    "role_of 1 ''alice'' (db example_relay) \<noteq> []" "''bob'' \<in> set (group_recipients 1 ''alice'' (db example_relay))" for c
    using example_state_ok example_roles
    by (simp_all add: example_relay_def example_state_def group_recipients_def members_of_def example_db_def)
  have "wp (sendGroupMessage (int_str 1) ''hi'' (int_str 7))
     (\<lambda>_ s'. ls_up s' ''f'' (stored_group_message (int_str 1) ''alice'' ''hi'' (int_str 7) True ?a)
      \<and> (\<exists>fr. so_sent (sock s') = so_sent (sock example_group_alice) @ [fr] \<and>
        wp (guarded_turn 1 (''alice'', ''ta'') (WsFrame OP_DATA fr))
          (\<lambda>b w'. snd b \<and> (\<forall>u x. u \<in> set (group_recipients 1 ''alice'' (db example_relay)) \<longrightarrow>
             find_client u (clients example_relay) = Some x \<longrightarrow> (x, Text fr) \<in> set (outbox w'))) (\<lambda>_ _. False) example_relay \<and>
        wp (onTextMessageReceived 0 fr)
          (\<lambda>_ r'. signals r' = signals example_group_bob
               @ [groupMessageDecrypted (int_str 1) ''alice'' ''hi'' (canonical example_library (int_str 7)) False, messageReceived fr]
             \<and> ls_up r' ''f'' (stored_group_message (int_str 1) ''alice'' ''hi'' (canonical example_library (int_str 7)) False ?a))
          (\<lambda>_ _. False) example_group_bob))
     (\<lambda>_ _. False) example_group_alice"
    by (rule group_end_to_end [where aes = example_group_key, OF example_library_laws example_library_up])
      (simp_all add: cl up srv example_relay_facts example_group_facts int_str_no_bar in_int_def INT_MAX_def INT_MIN_def,
        simp_all add: example_library_def has_group_message_def empty_account_def)
  then show ?thesis unfolding cl can
    by (elim wp_mono) (use srv(4) example_relay_facts(3) in \<open>auto elim!: wp_mono\<close>)
qed

section \<open>Two devices of one user\<close>

text \<open>
  C10. The devices of a user agree: when alice sends a message from one of two devices whose caches
  hold the same account, the server, whether or not bob is online, echoes the message to the
  other device, which opens it with alice's own key, stores it without an entry of its own in
  between and shows it as hers; afterwards both caches hold the same account again, with the
  text as alice typed it.
\<close>

theorem devices_agree:
  assumes "library_laws l" "crypto_up l" "lib s = l" "lib r = l" "fromUtf8 l m = m" "canonical l ts = ts"
    and "so_connected (sock s)" "peerKeys (nm s) to = Some pk" "read_pub_pem l pk = Some q"
    and "read_pub_pem l (ownPubKey (nm s)) = Some q'" "currentUsername (nm s) = me" "to \<noteq> me"
    and "me \<noteq> []" "to \<noteq> []" "ts \<noteq> []" "CHR ''|'' \<notin> set me" "CHR ''|'' \<notin> set to" "CHR ''|'' \<notin> set ts"
    and "quiet w" "authorised w c" "y \<in> set (sessions_in me (clients w))" "y \<noteq> c"
    and "varchar_fits (ext w) 64 me" "varchar_fits (ext w) 64 to" "varchar_fits (ext w) 16 ''sent''" "ts_parse (ext w) ts \<noteq> None"
    and "currentUsername (nm r) = me" "read_priv_pem l (ownPrivKey (nm r)) = Some q'" "ownPrivKey (nm r) \<noteq> []"
    and "\<And>x. oaep_decrypt l q' [] = Some x \<Longrightarrow> length x \<noteq> KEY_SIZE"
    and "ls_up s f a" "ls_up r g a" "\<not> has_message a to me ts"
  shows "wp (sendMessage to m ts)
     (\<lambda>_ s'. \<exists>fr. so_sent (sock s') = so_sent (sock s) @ [fr] \<and>
        wp (guarded_turn c loc (WsFrame OP_DATA fr))
          (\<lambda>b w'. snd b \<and> (\<exists>fr'. (y, Text fr') \<in> set (outbox w') \<and>
             wp (onTextMessageReceived t0 fr')
               (\<lambda>_ r'. (\<exists>b. ls_up s' f b \<and> ls_up r' g b \<and> b = stored_message to me m ts True a)
                  \<and> signals r' = signals r @ [historySyncMessage to me m ts True ''sent'', messageReceived fr'])
               (\<lambda>_ _. False) r))
          (\<lambda>_ _. False) w)
     (\<lambda>_ _. False) s"
proof -
  let ?b = "stored_message to me m ts True a"
  have sent: "wp (sendMessage to m ts)
     (\<lambda>_ t. ls_up t f ?b \<and> (\<exists>p. so_sent (sock t) = so_sent (sock s) @ [serialize p] \<and> carries l q q' m p
        \<and> p = (new_packet MESSAGE)\<lparr>pfrom := me, pto := to, pbody := pbody p, pkey := pkey p, ptimestamp := ts\<rparr>))
     (\<lambda>_ _. False) s"
    using sendMessage_stores_wp [of s to pk q q' ts m] assms(1-15,31) by simp (erule wp_mono, auto)
  show ?thesis
  proof (rule wp_mono [OF sent])
    fix x and t :: client
    assume t: "ls_up t f ?b \<and> (\<exists>p. so_sent (sock t) = so_sent (sock s) @ [serialize p] \<and> carries l q q' m p
        \<and> p = (new_packet MESSAGE)\<lparr>pfrom := me, pto := to, pbody := pbody p, pkey := pkey p, ptimestamp := ts\<rparr>)"
    then obtain p where sent: "so_sent (sock t) = so_sent (sock s) @ [serialize p]" and car: "carries l q q' m p"
      and p: "p = (new_packet MESSAGE)\<lparr>pfrom := me, pto := to, pbody := pbody p, pkey := pkey p, ptimestamp := ts\<rparr>" by blast
    have f: "ptype p = MESSAGE" "pfrom p = me" "pto p = to" "ptimestamp p = ts"
      by (subst p, simp add: new_packet_def)+
    obtain aes k1 where k: "wf_packet p" "pbody p \<noteq> []" "pkey p \<noteq> []"
      by (rule message_packet_wf [OF assms(1) car p assms(16-18)])
    obtain aes k1 k2 where c: "length aes = KEY_SIZE" "seals l aes (pbody p) m" "oaep_decrypt l q' k2 = Some aes"
      "pkey p = toBase64 l k1 @ '';'' @ toBase64 l k2"
      using car by (auto simp: carries_def)
    have seg: "sender_segment (pkey p) = toBase64 l k2"
      unfolding c(4) using base64_no_sep(2) [OF library_lawsD(9) [OF assms(1)]] by (simp add: sender_segment_def)
    let ?e = "p\<lparr>perrorMsg := ''1''\<rparr>"
    have wf: "wf_packet ?e" using k(1) by (simp add: wf_packet_def bar_free_def)
    have srv: "wp (guarded_turn c loc (WsFrame OP_DATA (serialize p)))
       (\<lambda>r t. snd r \<and> (y, Text (serialize ?e)) \<in> set (outbox t)) (\<lambda>_ _. False) w"
      by (rule message_frame_echo_wp)
        (use assms(13,14,19-26) k f in \<open>simp_all add: Message_validate_def storable_def reject_if_def\<close>)
    have rcv: "wp (onTextMessageReceived t0 (serialize ?e))
       (\<lambda>_ r'. signals r' = signals r @ [historySyncMessage to me m ts True ''sent'', messageReceived (serialize ?e)]
          \<and> ls_up r' g ?b) (\<lambda>_ _. False) r"
      using receive_echo_wp [of r g a q' aes ?e m k2 me ts t0] assms c seg wf f by simp
    show "\<exists>fr. so_sent (sock t) = so_sent (sock s) @ [fr] \<and>
        wp (guarded_turn c loc (WsFrame OP_DATA fr))
          (\<lambda>b w'. snd b \<and> (\<exists>fr'. (y, Text fr') \<in> set (outbox w') \<and>
             wp (onTextMessageReceived t0 fr')
               (\<lambda>_ r'. (\<exists>b. ls_up t f b \<and> ls_up r' g b \<and> b = stored_message to me m ts True a)
                  \<and> signals r' = signals r @ [historySyncMessage to me m ts True ''sent'', messageReceived fr'])
               (\<lambda>_ _. False) r))
          (\<lambda>_ _. False) w"
      by (intro exI [of _ "serialize p"] conjI sent, rule wp_mono [OF srv])
        (use t in \<open>auto intro!: exI [of _ "serialize ?e"] wp_mono [OF rcv]\<close>)
  qed simp
qed

text \<open>Witness of C10: alice writes to bob from connection 1; her other device is on 3.\<close>

definition example_device :: client where
  "example_device = example_alice
     \<lparr>db_open := Some ''f'', files := [''f'' \<mapsto> empty_account\<lparr>ac_schema := full_schema\<rparr>]\<rparr>"

definition example_devices :: world where
  "example_devices = example_relay\<lparr>clients := [''bob'' \<mapsto> [2], ''alice'' \<mapsto> [1, 3]]\<rparr>"

lemma devices_agree_witness:
  "wp (sendMessage ''bob'' ''hi'' (int_str 7))
     (\<lambda>_ s'. \<exists>fr. so_sent (sock s') = [fr] \<and>
        wp (guarded_turn 1 (''alice'', ''ta'') (WsFrame OP_DATA fr))
          (\<lambda>b w'. \<exists>fr'. (3, Text fr') \<in> set (outbox w') \<and>
             wp (onTextMessageReceived 0 fr') (\<lambda>_ r'. files r' ''f'' = files s' ''f'') (\<lambda>_ _. False) example_device)
          (\<lambda>_ _. False) example_devices)
     (\<lambda>_ _. False) example_device"
proof -
  let ?a = "empty_account\<lparr>ac_schema := full_schema\<rparr>"
  have can: "canonical example_library ts = ts" for ts by (simp add: canonical_def example_library_def Let_def)
  have up: "ls_up example_device ''f'' ?a"
    by (simp add: ls_up_def example_device_def example_alice_def example_client_def example_library_def full_schema_UNIV)
  have cl: "lib example_device = example_library" "so_connected (sock example_device)"
    "peerKeys (nm example_device) ''bob'' = Some (int_str 2)" "ownPubKey (nm example_device) = int_str 1"
    "ownPrivKey (nm example_device) = int_str 1" "currentUsername (nm example_device) = ''alice''"
    "so_sent (sock example_device) = []" "oaep_decrypt example_library v x = Some x" "fromUtf8 example_library x = x" for v x
    by (simp_all add: example_device_def example_alice_def example_client_def example_library_def)
  have rel: "quiet example_devices" "authorised example_devices c" "ext example_devices = ext example_relay"
    "3 \<in> set (sessions_in ''alice'' (clients example_devices))" for c
    using example_relay_facts(1,2) by (simp_all add: example_devices_def quiet_def authorised_def sessions_in_def)
  have "wp (sendMessage ''bob'' ''hi'' (int_str 7))
     (\<lambda>_ s'. \<exists>fr. so_sent (sock s') = so_sent (sock example_device) @ [fr] \<and>
        wp (guarded_turn 1 (''alice'', ''ta'') (WsFrame OP_DATA fr))
          (\<lambda>b w'. snd b \<and> (\<exists>fr'. (3, Text fr') \<in> set (outbox w') \<and>
             wp (onTextMessageReceived 0 fr')
               (\<lambda>_ r'. (\<exists>b. ls_up s' ''f'' b \<and> ls_up r' ''f'' b \<and> b = stored_message ''bob'' ''alice'' ''hi'' (int_str 7) True ?a)
                  \<and> signals r' = signals example_device
                     @ [historySyncMessage ''bob'' ''alice'' ''hi'' (int_str 7) True ''sent'', messageReceived fr'])
               (\<lambda>_ _. False) example_device))
          (\<lambda>_ _. False) example_devices)
     (\<lambda>_ _. False) example_device"
    by (rule devices_agree [where pk = "int_str 2" and q = 2 and q' = 1, OF example_library_laws example_library_up])
      (simp_all add: cl up can rel example_relay_facts example_pem example_client_facts int_str_no_bar KEY_SIZE_def,
        simp add: has_message_def empty_account_def)
  then show ?thesis unfolding cl(7) append_Nil
    by (elim wp_mono) ((elim exE conjE, intro exI conjI, assumption, erule wp_mono, elim exE conjE, intro exI conjI, assumption,
        erule wp_mono, auto simp: ls_up_def) | simp)
qed

section \<open>A device that catches up\<close>

text \<open>
  C11. Catching up: a device asks for its history with the newest timestamp in its cache as the cursor.  The
  server's turn answers this device alone, with the direct messages its user sent or received after the
  cursor in order of time, the messages of the groups of the user after the cursor, and the acknowledgement.  The
  device takes all these frames without an error.  Its cache is then what it was, with each of the direct
  messages, except notes to oneself, in plain text, own ones as outgoing, and each group message whose key it
  holds in plain text, none of them twice; a message of a group whose key it lacks is kept back for the
  key.  The end is signalled.  What is not newer than the cursor the server does not send.  The hypotheses \<open>readable\<close> and
  \<open>group_readable\<close> say that the stored messages were encrypted for the key pair of the device and under the group keys it
  holds, so an own message stored without a copy of the key for its sender is outside.
\<close>

theorem sync_catches_up:
  assumes "library_laws l" "crypto_up l" "\<And>x. oaep_decrypt l q [] = Some x \<Longrightarrow> length x \<noteq> KEY_SIZE"
    and "device l me q s" "ls_up s f a" "so_connected (sock s)" "me \<noteq> []" "CHR ''|'' \<notin> set me" "CHR ''|'' \<notin> set (cursor_of l a)"
    and "quiet w" "authorised w c" "cs_username (conns w c) = me"
    and "ms = sort_messages (owed_messages me (cursor_of l a) (ext w) (db w))"
    and "gs = owed_group_messages me (cursor_of l a) (ext w) (db w)" "K = held_key l a (nm s)"
    and "\<forall>m \<in> set ms. replayed (replay_packet me m) \<and> readable l q (replay_packet me m) (txt m)"
    and "\<forall>g \<in> set gs. group_readable l K (replay_group_packet g) (gtxt g)"
    and "b = caught_up l me K (map (\<lambda>m. (replay_packet me m, txt m)) ms) (map (\<lambda>g. (replay_group_packet g, gtxt g)) gs) a"
    and "ack = (new_packet ACK)\<lparr>pto := me\<rparr>"
  shows "wp sendSyncHistory
     (\<lambda>_ s'. \<exists>fr. so_sent (sock s') = so_sent (sock s) @ [fr] \<and>
        wp (guarded_turn c loc (WsFrame OP_DATA fr))
          (\<lambda>g w'. snd g
             \<and> outbox w' = outbox w @ frames c (map (replay_packet me) ms @ map replay_group_packet gs @ [ack]) \<and>
             wp (for_each (onTextMessageReceived t0) (map serialize (map (replay_packet me) ms @ map replay_group_packet gs @ [ack])))
               (\<lambda>_ t. ls_up t f b
                  \<and> (\<forall>m \<in> set ms. ms_sender m \<noteq> ms_recipient m \<longrightarrow>
                       has_message b (if ms_sender m = me then ms_recipient m else ms_sender m) (ms_sender m) (canonical l (ms_createdAt m)))
                  \<and> (\<forall>g \<in> set gs. group_recorded l K b (pendingGroupPackets (nm t)) (replay_group_packet g))
                  \<and> (\<exists>sg. signals t = signals s' @ sg @ [syncComplete, lastMessageChanged, messageReceived (serialize ack)]))
               (\<lambda>_ _. False) s')
          (\<lambda>_ _. False) w)
     (\<lambda>_ _. False) s"
proof -
  let ?p = "sync_packet me (cursor_of l a)"
  let ?xs = "map (\<lambda>m. (replay_packet me m, txt m)) ms" and ?ys = "map (\<lambda>g. (replay_group_packet g, gtxt g)) gs"
  let ?ps = "map (replay_packet me) ms @ map replay_group_packet gs @ [ack]"
  have wf: "wf_packet ?p"
    using assms(8,9) by (simp add: sync_packet_def new_packet_def wf_packet_def bar_free_def PROTOCOL_VERSION_def in_int_def INT_MAX_def INT_MIN_def)
  have p: "ptype ?p = SYNC_HISTORY" "pfrom ?p = me" "pbody ?p = cursor_of l a" by (simp_all add: sync_packet_def new_packet_def)
  have srv: "wp (guarded_turn c loc (WsFrame OP_DATA (serialize ?p)))
     (\<lambda>r t. snd r \<and> outbox t = outbox w @ frames c ?ps) (\<lambda>_ _. False) w"
    using sync_frame_wp [OF wf p(1) _ assms(10-12), of loc] assms(7) by (simp add: p assms(13,14,19) history_packets_def)
  have lib: "lib s = l" "currentUsername (nm s) = me" using assms(4) by (simp_all add: device_def)
  have all: "has_message b (if ms_sender m = me then ms_recipient m else ms_sender m) (ms_sender m)
      (canonical l (ms_createdAt m))" if "m \<in> set ms" "ms_sender m \<noteq> ms_recipient m" for m
  proof -
    have r: "pto (replay_packet me m) = ms_recipient m" "pfrom (replay_packet me m) = ms_sender m"
      "ptimestamp (replay_packet me m) = ms_createdAt m" "perrorMsg (replay_packet me m) = ''1'' \<longleftrightarrow> ms_sender m = me"
      by (simp_all add: replay_packet_def Let_def new_packet_def)
    show ?thesis
      using recorded_all [of "replay_packet me m" "txt m" ?xs me l a] that r
      by (auto simp: recorded_def assms(18) caught_up_def absorb_keeps)
  qed
  have frs: "map serialize ?ps = map (\<lambda>px. serialize (fst px)) ?xs @ map (\<lambda>px. serialize (fst px)) ?ys @ [serialize ack]"
    by simp
  show ?thesis
  proof (rule wp_mono [OF sendSyncHistory_wp [OF assms(5,6) lib(2)]], unfold lib(1))
    fix x and u :: client
    assume u: "so_sent (sock u) = so_sent (sock s) @ [serialize ?p] \<and> so_connected (sock u) \<and> ls_up u f a \<and> lib u = l \<and> nm u = nm s"
    then have dev: "device l me q u" "ls_up u f a" "so_connected (sock u)" "K = held_key l a (nm u)"
      using assms(4,15) by (simp_all add: device_def)
    have rcv: "wp (for_each (onTextMessageReceived t0) (map serialize ?ps))
       (\<lambda>_ t. ls_up t f b \<and> (\<forall>p \<in> fst ` set ?ys. group_recorded l K b (pendingGroupPackets (nm t)) p)
          \<and> (\<exists>sg. signals t = signals u @ sg @ [syncComplete, lastMessageChanged, messageReceived (serialize ack)])) (\<lambda>_ _. False) u"
      unfolding frs assms(18)
      by (rule history_absorbed_wp [OF assms(1-3) dev(1-3) assms(8) dev(4)]) (use assms(16,17,19) in auto)
    show "\<exists>fr. so_sent (sock u) = so_sent (sock s) @ [fr] \<and>
        wp (guarded_turn c loc (WsFrame OP_DATA fr))
          (\<lambda>g w'. snd g \<and> outbox w' = outbox w @ frames c ?ps \<and>
             wp (for_each (onTextMessageReceived t0) (map serialize ?ps))
               (\<lambda>_ t. ls_up t f b
                  \<and> (\<forall>m \<in> set ms. ms_sender m \<noteq> ms_recipient m \<longrightarrow>
                       has_message b (if ms_sender m = me then ms_recipient m else ms_sender m) (ms_sender m) (canonical l (ms_createdAt m)))
                  \<and> (\<forall>g \<in> set gs. group_recorded l K b (pendingGroupPackets (nm t)) (replay_group_packet g))
                  \<and> (\<exists>sg. signals t = signals u @ sg @ [syncComplete, lastMessageChanged, messageReceived (serialize ack)]))
               (\<lambda>_ _. False) u)
          (\<lambda>_ _. False) w"
      by (intro exI [of _ "serialize ?p"] conjI, use u in simp, rule wp_mono [OF srv], elim conjE, intro conjI, assumption,
          assumption, rule wp_mono [OF rcv]) (use all in auto)
  qed simp
qed

text \<open>An example: bob's new device has the key of group 1; the server keeps a message to him and one of the group.\<close>

definition example_mail :: messages_row where
  "example_mail = \<lparr>m_id = 1, m_sender = ''alice'', m_recipient = ''bob'', m_body = example_group_body,
     m_encrypted_key = toBase64 example_library example_group_key, m_sender_encrypted_key = [], m_status = ''sent'', m_created_at = 5\<rparr>"

definition example_posting :: gmessages_row where
  "example_posting = \<lparr>x_id = 1, x_group_id = 1, x_sender = ''alice'', x_encrypted_body = example_group_body, x_timestamp = 6\<rparr>"

definition example_archive :: world where
  "example_archive = example_relay
     \<lparr>db := example_db\<lparr>messages := [example_mail], group_messages := [example_posting]\<rparr>,
      conns := (\<lambda>_. fresh_session\<lparr>cs_state := Authenticated, cs_username := ''bob'', cs_sessionToken := ''ta''\<rparr>)\<rparr>"

definition example_reader :: client where
  "example_reader = example_bob\<lparr>nm := (nm example_bob)\<lparr>groupKeys := [int_str 1 \<mapsto> example_group_key]\<rparr>\<rparr>"

lemma example_archive_facts:
  "quiet example_archive" "authorised example_archive c" "cs_username (conns example_archive c) = ''bob''"
  "outbox example_archive = []"
  "sort_messages (owed_messages ''bob'' [] (ext example_archive) (db example_archive)) = [rowToMessage example_ext example_mail]"
  "owed_group_messages ''bob'' [] (ext example_archive) (db example_archive) = [rowToGroupMessage example_ext example_posting]"
proof -
  have "ext example_archive = example_ext" "ext example_relay = example_ext" "sessions (db example_relay) = sessions example_db"
    "db example_archive = example_db\<lparr>messages := [example_mail], group_messages := [example_posting]\<rparr>"
    "clock example_archive = clock example_relay"
    by (simp_all add: example_archive_def example_relay_def example_state_def example_world_def)
  note e = this
  show "quiet example_archive" "cs_username (conns example_archive c) = ''bob''" "outbox example_archive = []"
    using example_relay_facts(1) by (simp_all add: example_archive_def quiet_def)
      (simp_all add: example_relay_def example_state_def example_world_def)
  show "authorised example_archive c"
    using example_relay_facts(2) [of c] by (simp add: authorised_def e) (simp add: example_archive_def example_relay_def)
  show "sort_messages (owed_messages ''bob'' [] (ext example_archive) (db example_archive)) = [rowToMessage example_ext example_mail]"
    by (simp add: e owed_messages_def message_select_def after_cursor_def sort_messages_def fetch_all_def) (simp add: example_mail_def)
  show "owed_group_messages ''bob'' [] (ext example_archive) (db example_archive) = [rowToGroupMessage example_ext example_posting]"
    by (simp add: e owed_group_messages_def after_cursor_def fetch_all_def gmessages_joined_def)
      (simp add: example_posting_def example_db_def)
qed

lemma example_reader_facts:
  "ls_up example_reader ''f'' (empty_account\<lparr>ac_schema := full_schema\<rparr>)" "device example_library ''bob'' 2 example_reader"
  "so_connected (sock example_reader)" "so_sent (sock example_reader) = []"
  "held_key example_library (empty_account\<lparr>ac_schema := full_schema\<rparr>) (nm example_reader) = [int_str 1 \<mapsto> example_group_key]"
proof -
  show "ls_up example_reader ''f'' (empty_account\<lparr>ac_schema := full_schema\<rparr>)"
    using example_bob_up by (simp add: example_reader_def)
  show "device example_library ''bob'' 2 example_reader"
    by (simp add: device_def example_reader_def example_client_facts example_pem)
  show "so_connected (sock example_reader)" "so_sent (sock example_reader) = []"
    by (simp_all add: example_reader_def example_bob_def example_client_def)
  show "held_key example_library (empty_account\<lparr>ac_schema := full_schema\<rparr>) (nm example_reader) = [int_str 1 \<mapsto> example_group_key]"
    by (rule ext) (simp add: held_key_def example_reader_def empty_account_def)
qed

text \<open>The two packets can be read.\<close>

lemma example_replays:
  assumes "m = rowToMessage example_ext example_mail" "g = rowToGroupMessage example_ext example_posting"
  shows "replayed (replay_packet ''bob'' m)" "readable example_library 2 (replay_packet ''bob'' m) ''hi''"
    "group_readable example_library [int_str 1 \<mapsto> example_group_key] (replay_group_packet g) ''hi''"
proof -
  have m: "ms_sender m = ''alice''" "ms_recipient m = ''bob''" "ms_createdAt m = int_str 5" "ms_encryptedBody m = example_group_body"
    "ms_encryptedKey m = toBase64 example_library example_group_key"
    by (simp_all add: assms rowToMessage_def example_mail_def example_ext_def)
  have g: "gr_sender g = ''alice''" "gr_groupId g = 1" "gr_encryptedBody g = example_group_body" "gr_timestamp g = int_str 6"
    by (simp_all add: assms rowToGroupMessage_def example_posting_def example_ext_def)
  have clean: "CHR ''|'' \<notin> set (toBase64 example_library x)" for x
    using base64_no_sep(1) library_lawsD(9) [OF example_library_laws] by blast
  have body: "CHR ''|'' \<notin> set example_group_body" unfolding example_group_body_def by (rule clean)
  note v = new_packet_def wf_packet_def bar_free_def int_str_no_bar PROTOCOL_VERSION_def in_int_def INT_MAX_def INT_MIN_def
  show "replayed (replay_packet ''bob'' m)" "readable example_library 2 (replay_packet ''bob'' m) ''hi''"
    using example_group_facts clean body
    by (auto simp: replayed_def readable_def replay_packet_def m Let_def v example_client_facts(9))
  show "group_readable example_library [int_str 1 \<mapsto> example_group_key] (replay_group_packet g) ''hi''"
    using example_group_facts body by (simp add: group_readable_def replay_group_packet_def g v example_client_facts(9))
qed

text \<open>Witness of C11: bob's new device catches up on both messages.\<close>

lemma sync_catches_up_witness:
  "wp sendSyncHistory
     (\<lambda>_ s'. \<exists>fr. so_sent (sock s') = [fr] \<and>
        wp (guarded_turn 1 (''bob'', ''ta'') (WsFrame OP_DATA fr))
          (\<lambda>g w'. \<exists>ps. outbox w' = frames 1 ps \<and> length ps = 3 \<and>
             wp (for_each (onTextMessageReceived 0) (map serialize ps))
               (\<lambda>_ t. \<exists>b. ls_up t ''f'' b \<and> has_message b ''alice'' ''alice'' (int_str 5)
                  \<and> has_group_message b (int_str 1) ''alice'' (int_str 6)) (\<lambda>_ _. False) s')
          (\<lambda>_ _. False) example_archive)
     (\<lambda>_ _. False) example_reader"
proof -
  let ?a = "empty_account\<lparr>ac_schema := full_schema\<rparr>" and ?m = "rowToMessage example_ext example_mail"
  let ?g = "rowToGroupMessage example_ext example_posting" and ?K = "[int_str 1 \<mapsto> example_group_key]"
  let ?ack = "(new_packet ACK)\<lparr>pto := ''bob''\<rparr>"
  let ?b = "caught_up example_library ''bob'' ?K (map (\<lambda>m. (replay_packet ''bob'' m, ''hi'')) [?m])
     (map (\<lambda>g. (replay_group_packet g, ''hi'')) [?g]) ?a"
  have can: "canonical example_library ts = ts" for ts by (simp add: canonical_def example_library_def Let_def)
  have cur: "cursor_of example_library ?a = []"
    by (simp add: cursor_of_def empty_account_def sql_max_def Let_def)
  have no_key: "oaep_decrypt example_library 2 [] = Some x \<Longrightarrow> length x \<noteq> KEY_SIZE" for x
    by (simp add: example_group_facts(3) KEY_SIZE_def)
  have m: "ms_sender ?m = ''alice''" "ms_recipient ?m = ''bob''" "ms_createdAt ?m = int_str 5"
    by (simp_all add: rowToMessage_def example_mail_def example_ext_def)
  have g: "replay_group_packet ?g = (new_packet GROUP_MESSAGE)\<lparr>pfrom := ''alice'', pto := int_str 1, pbody := example_group_body,
      ptimestamp := int_str 6\<rparr>"
    by (simp add: replay_group_packet_def rowToGroupMessage_def example_posting_def example_ext_def new_packet_def)
  have "wp sendSyncHistory
     (\<lambda>_ s'. \<exists>fr. so_sent (sock s') = so_sent (sock example_reader) @ [fr] \<and>
        wp (guarded_turn 1 (''bob'', ''ta'') (WsFrame OP_DATA fr))
          (\<lambda>g w'. snd g
             \<and> outbox w' = outbox example_archive @ frames 1 (map (replay_packet ''bob'') [?m] @ map replay_group_packet [?g] @ [?ack]) \<and>
             wp (for_each (onTextMessageReceived 0) (map serialize (map (replay_packet ''bob'') [?m] @ map replay_group_packet [?g] @ [?ack])))
               (\<lambda>_ t. ls_up t ''f'' ?b
                  \<and> (\<forall>m \<in> set [?m]. ms_sender m \<noteq> ms_recipient m \<longrightarrow>
                       has_message ?b (if ms_sender m = ''bob'' then ms_recipient m else ms_sender m) (ms_sender m)
                         (canonical example_library (ms_createdAt m)))
                  \<and> (\<forall>g \<in> set [?g]. group_recorded example_library ?K ?b (pendingGroupPackets (nm t)) (replay_group_packet g))
                  \<and> (\<exists>sg. signals t = signals s' @ sg @ [syncComplete, lastMessageChanged, messageReceived (serialize ?ack)]))
               (\<lambda>_ _. False) s')
          (\<lambda>_ _. False) example_archive)
     (\<lambda>_ _. False) example_reader"
    by (rule sync_catches_up [OF example_library_laws example_library_up no_key example_reader_facts(2,1,3)])
      (simp_all add: cur example_archive_facts example_reader_facts example_replays)
  then show ?thesis unfolding example_reader_facts(4) example_archive_facts(4) append_Nil
  proof (rule wp_mono, goal_cases)
    case (1 x s')
    then obtain fr where fr: "so_sent (sock s') = [fr]" and
      w: "wp (guarded_turn 1 (''bob'', ''ta'') (WsFrame OP_DATA fr))
          (\<lambda>g w'. snd g \<and> outbox w' = frames 1 (map (replay_packet ''bob'') [?m] @ map replay_group_packet [?g] @ [?ack]) \<and>
             wp (for_each (onTextMessageReceived 0) (map serialize (map (replay_packet ''bob'') [?m] @ map replay_group_packet [?g] @ [?ack])))
               (\<lambda>_ t. ls_up t ''f'' ?b
                  \<and> (\<forall>m \<in> set [?m]. ms_sender m \<noteq> ms_recipient m \<longrightarrow>
                       has_message ?b (if ms_sender m = ''bob'' then ms_recipient m else ms_sender m) (ms_sender m)
                         (canonical example_library (ms_createdAt m)))
                  \<and> (\<forall>g \<in> set [?g]. group_recorded example_library ?K ?b (pendingGroupPackets (nm t)) (replay_group_packet g))
                  \<and> (\<exists>sg. signals t = signals s' @ sg @ [syncComplete, lastMessageChanged, messageReceived (serialize ?ack)]))
               (\<lambda>_ _. False) s') (\<lambda>_ _. False) example_archive" by blast
    have rec: "group_recorded example_library ?K b' p' (replay_group_packet ?g) \<longleftrightarrow> has_group_message b' (int_str 1) ''alice'' (int_str 6)" for b' p'
      by (simp add: group_recorded_def g can new_packet_def)
    show ?case
      by (intro exI conjI, rule fr, rule wp_mono [OF w], elim conjE,
          intro exI [of _ "map (replay_packet ''bob'') [?m] @ map replay_group_packet [?g] @ [?ack]"] conjI, assumption, simp,
          erule wp_mono) (auto simp: m rec can)
  qed simp
qed

end
